(* ===== verification/LlPrelude.thy ===== *)
theory LlPrelude
  imports Main "HOL-Library.Word" "HOL-Library.Char_ord" "HOL-Library.List_Lexorder"
begin

text \<open>
  The prelude of the Llamaste development: the collections of simplification rules, the
  exception values, the machine integers and the string and list operations of C++ and its
  standard library that several components use. Strings are lists of characters, one
  character per byte, as \<^verbatim>\<open>std::string\<close> holds them.
\<close>

named_theorems cpp_simps \<open>rewrite rules for the standard library operations\<close>
named_theorems inv_intros \<open>introduction rules that rebuild a component's invariant\<close>

section \<open>Exceptions\<close>

text \<open>
  An operation that may throw returns \<open>Inl e\<close> for the exception and \<open>Inr x\<close> for its value.
  \<open>TypeError n\<close> and \<open>InvalidIterator n\<close> carry the identifier of the exceptions of
  \<^verbatim>\<open>nlohmann::json\<close>; the other constructors with a string carry the message.
\<close>

datatype exn =
    TypeError nat
  | InvalidIterator nat
  | ParseError
  | OutOfRange
  | LengthError
  | InvalidArgument string
  | RuntimeError string

type_synonym 'a result = "exn + 'a"

definition bindE :: "'a result \<Rightarrow> ('a \<Rightarrow> 'b result) \<Rightarrow> 'b result" where
  "bindE m f = (case m of Inl e \<Rightarrow> Inl e | Inr x \<Rightarrow> f x)"

lemma bindE_simps [simp]:
  "bindE (Inl e) f = Inl e"
  "bindE (Inr x) f = f x"
  by (simp_all add: bindE_def)

lemma bindE_Inr_iff: "bindE m f = Inr y \<longleftrightarrow> (\<exists>x. m = Inr x \<and> f x = Inr y)"
  by (cases m) auto

lemma bindE_split:
  "P (bindE m f) \<longleftrightarrow> (\<forall>e. m = Inl e \<longrightarrow> P (Inl e)) \<and> (\<forall>x. m = Inr x \<longrightarrow> P (f x))"
  by (cases m) auto

fun mapE :: "('a \<Rightarrow> 'b result) \<Rightarrow> 'a list \<Rightarrow> 'b list result" where
  "mapE f [] = Inr []"
| "mapE f (x # xs) = bindE (f x) (\<lambda>y. bindE (mapE f xs) (\<lambda>ys. Inr (y # ys)))"

lemma mapE_Inr: "(\<And>x. x \<in> set xs \<Longrightarrow> f x = Inr (g x)) \<Longrightarrow> mapE f xs = Inr (map g xs)"
  by (induction xs) auto

section \<open>Machine integers\<close>

type_synonym byte = "8 word"
type_synonym u16 = "16 word"
type_synonym u32 = "32 word"
type_synonym u64 = "64 word"

text \<open>Conversions to a signed type of 32 or 64 bits, which keep the low bits of the value.\<close>

definition to_i32 :: "int \<Rightarrow> int" where
  "to_i32 x = sint (word_of_int x :: 32 word)"

definition to_i64 :: "int \<Rightarrow> int" where
  "to_i64 x = sint (word_of_int x :: 64 word)"

definition to_u64 :: "int \<Rightarrow> int" where
  "to_u64 x = uint (word_of_int x :: 64 word)"

definition to_u32 :: "int \<Rightarrow> int" where
  "to_u32 x = uint (word_of_int x :: 32 word)"

lemma unat_byte: "unat (b :: byte) < 256"
proof -
  have "unat b < 2 ^ LENGTH(8)" by (rule unsigned_less)
  then show ?thesis by simp
qed

lemma to_i32_range: "- (2 ^ 31) \<le> to_i32 x" "to_i32 x < 2 ^ 31"
  using sint_range_size [of "word_of_int x :: 32 word"] by (auto simp: to_i32_def word_size)

lemma to_i32_id [cpp_simps]: "- (2 ^ 31) \<le> x \<Longrightarrow> x < 2 ^ 31 \<Longrightarrow> to_i32 x = x"
  by (simp add: to_i32_def signed_of_int signed_take_bit_int_eq_self)

lemma to_i64_id [cpp_simps]: "- (2 ^ 63) \<le> x \<Longrightarrow> x < 2 ^ 63 \<Longrightarrow> to_i64 x = x"
  by (simp add: to_i64_def signed_of_int signed_take_bit_int_eq_self)

lemma to_u64_id [cpp_simps]: "0 \<le> x \<Longrightarrow> x < 2 ^ 64 \<Longrightarrow> to_u64 x = x"
  by (simp add: to_u64_def unsigned_of_int take_bit_int_eq_self)

lemma to_u32_id [cpp_simps]: "0 \<le> x \<Longrightarrow> x < 2 ^ 32 \<Longrightarrow> to_u32 x = x"
  by (simp add: to_u32_def unsigned_of_int take_bit_int_eq_self)

lemma to_u32_byte [simp]: "to_u32 (int (unat (b :: byte))) = int (unat b)"
proof (rule to_u32_id)
  have "int (unat b) < 256" using unat_byte [of b] by linarith
  also have "(256 :: int) < 2 ^ 32" by simp
  finally show "int (unat b) < 2 ^ 32" .
qed simp

text \<open>Integer division and remainder of C++ round towards zero.\<close>

definition tdiv :: "int \<Rightarrow> int \<Rightarrow> int" where
  "tdiv a b = sgn a * sgn b * (\<bar>a\<bar> div \<bar>b\<bar>)"

lemma tdiv_nonneg [cpp_simps]: "0 \<le> a \<Longrightarrow> 0 < b \<Longrightarrow> tdiv a b = a div b"
  by (cases "a = 0") (simp_all add: tdiv_def)

lemma tdiv_neg_le: "a \<le> 0 \<Longrightarrow> 0 < b \<Longrightarrow> tdiv a b \<le> 0"
  by (simp add: tdiv_def sgn_if pos_imp_zdiv_nonneg_iff)

lemma le_div_iff: "0 < b \<Longrightarrow> (k::int) \<le> a div b \<longleftrightarrow> k * b \<le> a"
proof
  assume b: "0 < b" and "k \<le> a div b"
  then have "k * b \<le> a div b * b" by (intro mult_right_mono) simp_all
  also have "\<dots> \<le> a" using b pos_mod_sign [of b a] div_mult_mod_eq [of a b] by linarith
  finally show "k * b \<le> a" .
next
  assume b: "0 < b" and le: "k * b \<le> a"
  have "k * b div b \<le> a div b" using b le by (intro zdiv_mono1) simp_all
  with b show "k \<le> a div b" by simp
qed

section \<open>Operations that change a state and may throw\<close>

type_synonym ('s, 'a) op = "'s \<Rightarrow> 'a result \<times> 's"

definition bindS :: "('s, 'a) op \<Rightarrow> ('a \<Rightarrow> ('s, 'b) op) \<Rightarrow> ('s, 'b) op" where
  "bindS m f s = (case m s of (Inl e, s') \<Rightarrow> (Inl e, s') | (Inr x, s') \<Rightarrow> f x s')"

definition returnS :: "'a \<Rightarrow> ('s, 'a) op" where
  "returnS x s = (Inr x, s)"

definition liftS :: "'a result \<Rightarrow> ('s, 'a) op" where
  "liftS r s = (r, s)"

definition modifyS :: "('s \<Rightarrow> 's) \<Rightarrow> ('s, unit) op" where
  "modifyS f s = (Inr (), f s)"

lemma bindS_simps [simp]:
  "bindS (returnS x) f s = f x s"
  "bindS (liftS (Inr x)) f s = f x s"
  "bindS (liftS (Inl e)) f s = (Inl e, s)"
  "bindS (modifyS g) h s = h () (g s)"
  "returnS x s = (Inr x, s)" "liftS r s = (r, s)" "modifyS g s = (Inr (), g s)"
  by (simp_all add: bindS_def returnS_def liftS_def modifyS_def)

lemma bindS_Inr: "m s = (Inr x, s') \<Longrightarrow> bindS m f s = f x s'"
  by (simp add: bindS_def)

section \<open>Sequences: find, update and erase the first match\<close>

text \<open>\<open>upd_first p f xs\<close> is \<^verbatim>\<open>std::find_if\<close> followed by a change of the element found.\<close>

fun upd_first :: "('a \<Rightarrow> bool) \<Rightarrow> ('a \<Rightarrow> 'a) \<Rightarrow> 'a list \<Rightarrow> 'a list" where
  "upd_first p f [] = []"
| "upd_first p f (x # xs) = (if p x then f x # xs else x # upd_first p f xs)"

fun erase_first :: "('a \<Rightarrow> bool) \<Rightarrow> 'a list \<Rightarrow> 'a list" where
  "erase_first p [] = []"
| "erase_first p (x # xs) = (if p x then xs else x # erase_first p xs)"

lemma upd_first_id: "(\<And>x. x \<in> set xs \<Longrightarrow> \<not> p x) \<Longrightarrow> upd_first p f xs = xs"
  by (induction xs) auto

lemma map_upd_first: "(\<And>x. g (f x) = g x) \<Longrightarrow> map g (upd_first p f xs) = map g xs"
  by (induction xs) auto

lemma length_upd_first [simp]: "length (upd_first p f xs) = length xs"
  by (induction xs) auto

lemma set_erase_first: "set (erase_first p xs) \<subseteq> set xs"
  by (induction xs) auto

lemma in_erase_first: "x \<in> set (erase_first p xs) \<Longrightarrow> x \<in> set xs"
  using set_erase_first [of p xs] by auto

lemma erase_first_id: "(\<And>x. x \<in> set xs \<Longrightarrow> \<not> p x) \<Longrightarrow> erase_first p xs = xs"
  by (induction xs) auto

lemma distinct_map_erase_first: "distinct (map g xs) \<Longrightarrow> distinct (map g (erase_first p xs))"
  by (induction xs) (auto dest: in_erase_first)

lemma erase_first_key:
  "distinct (map g xs) \<Longrightarrow> erase_first (\<lambda>x. g x = k) xs = filter (\<lambda>x. g x \<noteq> k) xs"
proof (induction xs)
  case (Cons x xs)
  show ?case
  proof (cases "g x = k")
    case True
    with Cons.prems have "filter (\<lambda>x. g x \<noteq> k) xs = xs"
      by (intro filter_True) (auto simp: image_iff)
    with True show ?thesis by simp
  next
    case False
    with Cons show ?thesis by simp
  qed
qed simp

lemma upd_first_key:
  "distinct (map g xs) \<Longrightarrow>
     upd_first (\<lambda>x. g x = k) f xs = map (\<lambda>x. if g x = k then f x else x) xs"
proof (induction xs)
  case (Cons x xs)
  show ?case
  proof (cases "g x = k")
    case True
    with Cons.prems have "map (\<lambda>x. if g x = k then f x else x) xs = xs"
      by (intro map_idI) (auto simp: image_iff)
    with True show ?thesis by simp
  next
    case False
    with Cons show ?thesis by simp
  qed
qed simp

lemma find_Some_mem: "find p xs = Some x \<Longrightarrow> x \<in> set xs \<and> p x"
  by (auto simp: find_Some_iff in_set_conv_nth)

lemma collect_map: "{f t |t. t \<in> set (map h ts) \<and> P t} = {f (h t) |t. t \<in> set ts \<and> P (h t)}"
  by auto

section \<open>Characters and strings\<close>

definition is_digit :: "char \<Rightarrow> bool" where
  "is_digit c \<longleftrightarrow> 48 \<le> (of_char c :: nat) \<and> (of_char c :: nat) \<le> 57"

definition digit_val :: "char \<Rightarrow> nat" where
  "digit_val c = of_char c - 48"

definition digit_char :: "nat \<Rightarrow> char" where
  "digit_char d = char_of (48 + d)"

text \<open>\<^verbatim>\<open>isspace\<close> in the C locale: blank, and tab to carriage return.\<close>

definition is_space :: "char \<Rightarrow> bool" where
  "is_space c \<longleftrightarrow> (of_char c :: nat) = 32 \<or> (9 \<le> (of_char c :: nat) \<and> (of_char c :: nat) \<le> 13)"

lemma digit_char_inverse [simp]: "d < 10 \<Longrightarrow> is_digit (digit_char d)"
  "d < 10 \<Longrightarrow> digit_val (digit_char d) = d"
  by (simp_all add: is_digit_def digit_val_def digit_char_def)

lemma digit_not_space: "is_digit c \<Longrightarrow> \<not> is_space c"
  by (auto simp: is_digit_def is_space_def)

text \<open>\<open>std::to_string\<close> of an integer.\<close>

fun show_nat :: "nat \<Rightarrow> string" where
  "show_nat n = (if n < 10 then [digit_char n] else show_nat (n div 10) @ [digit_char (n mod 10)])"

declare show_nat.simps [simp del]

definition show_int :: "int \<Rightarrow> string" where
  "show_int i = (if i < 0 then CHR ''-'' # show_nat (nat (- i)) else show_nat (nat i))"

fun digits_val :: "nat \<Rightarrow> string \<Rightarrow> nat" where
  "digits_val acc [] = acc"
| "digits_val acc (c # cs) = digits_val (10 * acc + digit_val c) cs"

lemma digits_val_append: "digits_val acc (xs @ ys) = digits_val (digits_val acc xs) ys"
  by (induction xs arbitrary: acc) auto

lemma show_nat_digits: "list_all is_digit (show_nat n)"
proof (induction n rule: show_nat.induct)
  case (1 n)
  then show ?case by (subst show_nat.simps) auto
qed

lemma show_nat_nonempty [simp]: "show_nat n \<noteq> []"
  by (subst show_nat.simps) auto

lemma digits_val_show_nat [simp]: "digits_val 0 (show_nat n) = n"
proof (induction n rule: show_nat.induct)
  case (1 n)
  then show ?case by (subst show_nat.simps) (auto simp: digits_val_append)
qed

text \<open>
  \<open>strtol (s, 10)\<close>: leading white space, a sign and the longest run of digits. The result
  holds the value, the rest of the string and whether the value was out of the range of
  \<open>long\<close> (then it is clamped and \<open>errno\<close> is ERANGE); \<open>None\<close> is no conversion
  (\<open>end == s\<close>).
\<close>

definition long_max :: int where "long_max = 2 ^ 63 - 1"
definition long_min :: int where "long_min = - (2 ^ 63)"

definition strtol :: "string \<Rightarrow> (int \<times> string \<times> bool) option" where
  "strtol s =
     (let s1 = dropWhile is_space s;
          neg = (case s1 of c # _ \<Rightarrow> c = CHR ''-'' | [] \<Rightarrow> False);
          s2 = (case s1 of c # r \<Rightarrow> if c = CHR ''-'' \<or> c = CHR ''+'' then r else s1 | [] \<Rightarrow> s1);
          ds = takeWhile is_digit s2;
          v = (if neg then - int (digits_val 0 ds) else int (digits_val 0 ds))
      in if ds = [] then None
         else if v > long_max then Some (long_max, dropWhile is_digit s2, True)
         else if v < long_min then Some (long_min, dropWhile is_digit s2, True)
         else Some (v, dropWhile is_digit s2, False))"

text \<open>\<open>strtoul (s, 10)\<close>, in the same way: a minus sign negates the number modulo 2\<open>\<^sup>64\<close>. And
  \<open>std::stoul\<close>, which throws where nothing is converted or the number is too large.\<close>

definition strtoul :: "string \<Rightarrow> (int \<times> string \<times> bool) option" where
  "strtoul s =
     (let s1 = dropWhile is_space s;
          neg = (case s1 of c # _ \<Rightarrow> c = CHR ''-'' | [] \<Rightarrow> False);
          s2 = (case s1 of c # r \<Rightarrow> if c = CHR ''-'' \<or> c = CHR ''+'' then r else s1 | [] \<Rightarrow> s1);
          ds = takeWhile is_digit s2;
          v = int (digits_val 0 ds)
      in if ds = [] then None
         else if v \<ge> 2 ^ 64 then Some (2 ^ 64 - 1, dropWhile is_digit s2, True)
         else Some (if neg then to_u64 (- v) else v, dropWhile is_digit s2, False))"

definition stoul :: "string \<Rightarrow> int result" where
  "stoul s =
     (case strtoul s of
        None \<Rightarrow> Inl (InvalidArgument ''stoul'')
      | Some (v, _, big) \<Rightarrow> if big then Inl OutOfRange else Inr v)"

lemma strtoul_show_nat:
  assumes "n < 2 ^ 64" "r = [] \<or> \<not> is_digit (hd r)"
  shows "strtoul (show_nat n @ r) = Some (int n, r, False)"
proof -
  obtain d ds where s: "show_nat n = d # ds" using show_nat_nonempty by (metis list.exhaust)
  have d: "list_all is_digit (show_nat n)" by (rule show_nat_digits)
  with s have h: "is_digit d" by simp
  have w: "takeWhile is_digit (show_nat n @ r) = show_nat n" "dropWhile is_digit (show_nat n @ r) = r"
    using d assms(2) by (cases r; simp add: takeWhile_append dropWhile_append list_all_iff)+
  have sg: "d \<noteq> CHR ''-''" "d \<noteq> CHR ''+''" using h by (auto simp: is_digit_def)
  have "dropWhile is_space (show_nat n @ r) = show_nat n @ r"
    using s digit_not_space [OF h] by simp
  moreover have "int n < 2 ^ 64" using assms(1) by simp
  moreover have "digits_val (digit_val d) ds = n" using digits_val_show_nat [of n] s by simp
  ultimately show ?thesis using w sg s by (simp add: strtoul_def Let_def)
qed

lemma stoul_show_nat: "n < 2 ^ 64 \<Longrightarrow> stoul (show_nat n) = Inr (int n)"
  using strtoul_show_nat [of n "[]"] by (simp add: stoul_def)

lemma strtol_digits:
  assumes "ds \<noteq> []" "list_all is_digit ds" "int (digits_val 0 ds) \<le> long_max"
  shows "strtol ds = Some (int (digits_val 0 ds), [], False)"
proof -
  obtain c cs where c: "ds = c # cs" "is_digit c" using assms(1, 2) by (cases ds) auto
  then have s: "dropWhile is_space ds = ds" by (simp add: digit_not_space)
  have m: "(case ds of c # _ \<Rightarrow> c = CHR ''-'' | [] \<Rightarrow> False) = False" using c by (auto simp: is_digit_def)
  have k: "(case ds of c # r \<Rightarrow> if c = CHR ''-'' \<or> c = CHR ''+'' then r else ds | [] \<Rightarrow> ds) = ds"
    using c by (auto simp: is_digit_def)
  have d: "takeWhile is_digit ds = ds" "dropWhile is_digit ds = []" using assms(2) by (simp_all add: list_all_iff)
  from assms(1, 3) show ?thesis unfolding strtol_def s Let_def m k d by (simp add: long_min_def)
qed

text \<open>\<open>ss >> word\<close> on an \<open>istringstream\<close>: the words of a string.\<close>

function cpp_words :: "string \<Rightarrow> string list" where
  "cpp_words s =
     (let s1 = dropWhile is_space s
      in if s1 = [] then []
         else takeWhile (Not \<circ> is_space) s1 # cpp_words (dropWhile (Not \<circ> is_space) s1))"
  by pat_completeness auto
termination
proof (relation "measure length")
  fix s :: string and x
  assume x: "x = dropWhile is_space s" and ne: "x \<noteq> []"
  then obtain c cs where c: "x = c # cs" "\<not> is_space c"
    by (metis hd_dropWhile list.collapse)
  have "length (dropWhile (Not \<circ> is_space) x) \<le> length cs"
    using c by (simp add: length_dropWhile_le)
  also have "\<dots> < length s"
    using c x by (metis length_Cons length_dropWhile_le less_eq_Suc_le)
  finally show "(dropWhile (Not \<circ> is_space) x, s) \<in> measure length" by simp
qed simp

declare cpp_words.simps [simp del]

lemma cpp_words_word:
  assumes "w \<noteq> []" "list_all (Not \<circ> is_space) w" "is_space c"
  shows "cpp_words (w @ c # s) = w # cpp_words (c # s)"
proof -
  from assms(1,2) have d: "dropWhile is_space (w @ c # s) = w @ c # s"
    by (cases w) auto
  have t: "takeWhile (Not \<circ> is_space) (w @ c # s) = w"
    "dropWhile (Not \<circ> is_space) (w @ c # s) = c # s"
    using assms(2,3) by (simp_all add: takeWhile_append dropWhile_append list_all_iff)
  show ?thesis
    by (subst cpp_words.simps) (simp add: d t assms(1))
qed

lemma cpp_words_space: "is_space c \<Longrightarrow> cpp_words (c # s) = cpp_words s"
  by (subst (1 2) cpp_words.simps) simp

text \<open>
  Substring search (\<open>std::string::find\<close>), prefixes and the split of a string at a
  separator character (\<open>std::getline\<close> with a delimiter).
\<close>

definition starts_with :: "string \<Rightarrow> string \<Rightarrow> bool" where
  "starts_with p s \<longleftrightarrow> take (length p) s = p"

lemma starts_with_append [simp]: "starts_with p (p @ s)"
  by (simp add: starts_with_def)

lemma starts_with_iff: "starts_with p s \<longleftrightarrow> (\<exists>r. s = p @ r)"
  by (metis append_eq_conv_conj append_take_drop_id starts_with_def)

fun find_sub :: "string \<Rightarrow> string \<Rightarrow> nat option" where
  "find_sub p [] = (if p = [] then Some 0 else None)"
| "find_sub p (c # cs) =
     (if starts_with p (c # cs) then Some 0 else map_option Suc (find_sub p cs))"

lemma find_sub_Some:
  "find_sub p s = Some i \<Longrightarrow> i + length p \<le> length s \<and> take (length p) (drop i s) = p"
proof (induction p s arbitrary: i rule: find_sub.induct)
  case (2 p c cs)
  then show ?case
  proof (cases "starts_with p (c # cs)")
    case True
    with 2 have "i = 0" by simp
    from True obtain r where "c # cs = p @ r" by (auto simp: starts_with_iff)
    then have "length p \<le> length (c # cs)" by (metis le_add1 length_append)
    with \<open>i = 0\<close> True show ?thesis by (simp add: starts_with_def)
  qed (auto simp: starts_with_def)
qed (auto split: if_splits)

lemma starts_with_hd: "p \<noteq> [] \<Longrightarrow> starts_with p (c # s) \<Longrightarrow> hd p = c"
  by (cases p) (auto simp: starts_with_def)

lemma find_sub_absent: "p \<noteq> [] \<Longrightarrow> hd p \<notin> set s \<Longrightarrow> find_sub p s = None"
  by (induction p s rule: find_sub.induct) (auto dest: starts_with_hd)

lemma find_sub_first:
  assumes "p \<noteq> []" "hd p \<notin> set a"
  shows "find_sub p (a @ p @ s) = Some (length a)"
  using assms(2)
proof (induction a)
  case Nil
  with assms(1) starts_with_append [of p s] show ?case
    by (cases p) (simp_all del: starts_with_append)
next
  case (Cons c a)
  then have "\<not> starts_with p (c # a @ p @ s)"
    using assms(1) by (auto dest: starts_with_hd)
  with Cons show ?case by simp
qed

lemma find_sub_None_iff: "find_sub p s = None \<longleftrightarrow> \<not> (\<exists>a b. s = a @ p @ b)"
proof (induction p s rule: find_sub.induct)
  case (2 p c cs)
  show ?case
  proof
    assume none: "find_sub p (c # cs) = None"
    then have n: "\<not> starts_with p (c # cs)" "find_sub p cs = None" by (auto split: if_splits)
    show "\<not> (\<exists>a b. c # cs = a @ p @ b)"
    proof
      assume "\<exists>a b. c # cs = a @ p @ b"
      then obtain a b where ab: "c # cs = a @ p @ b" by blast
      with n 2 show False by (cases a) auto
    qed
  next
    assume none: "\<not> (\<exists>a b. c # cs = a @ p @ b)"
    then have "\<not> starts_with p (c # cs)" by (metis append_Nil starts_with_iff)
    moreover have "\<not> (\<exists>a b. cs = a @ p @ b)" using none by (metis append_Cons)
    ultimately show "find_sub p (c # cs) = None" using 2 by simp
  qed
qed auto

lemma find_sub_part: "find_sub p (a @ s @ b) = None \<Longrightarrow> find_sub p s = None"
  by (metis append.assoc find_sub_None_iff)

lemma find_sub_inside: "find_sub p (a @ p @ b) \<noteq> None"
  by (auto simp: find_sub_None_iff)

text \<open>The part from \<open>find_first_not_of\<close> to \<open>find_last_not_of\<close> of blank, tab, newline and return;
  the empty string when there is no other character.\<close>

definition is_trimmed :: "char \<Rightarrow> bool" where
  "is_trimmed c \<longleftrightarrow> c \<in> {CHR '' '', CHR 0x09, CHR 0x0A, CHR 0x0D}"

definition trim_ws :: "string \<Rightarrow> string" where
  "trim_ws s = rev (dropWhile is_trimmed (rev (dropWhile is_trimmed s)))"

lemma trim_ws_part: "\<exists>a b. s = a @ trim_ws s @ b"
proof -
  let ?t = "dropWhile is_trimmed s"
  have "?t = trim_ws s @ rev (takeWhile is_trimmed (rev ?t))"
    unfolding trim_ws_def by (metis rev_append rev_rev_ident takeWhile_dropWhile_id)
  then show ?thesis by (metis takeWhile_dropWhile_id)
qed

lemma trim_ws_id: "s = [] \<or> \<not> is_trimmed (hd s) \<and> \<not> is_trimmed (last s) \<Longrightarrow> trim_ws s = s"
proof (cases "s = []")
  case False
  assume "s = [] \<or> \<not> is_trimmed (hd s) \<and> \<not> is_trimmed (last s)"
  with False have "dropWhile is_trimmed s = s" "dropWhile is_trimmed (rev s) = rev s"
    by (simp_all add: dropWhile_eq_self_iff hd_rev)
  then show ?thesis by (simp add: trim_ws_def)
qed (simp add: trim_ws_def)

text \<open>\<open>%02x\<close> of a byte, and its inverse on the digits it writes.\<close>

definition hex_digit :: "nat \<Rightarrow> char" where
  "hex_digit d = char_of (if d < 10 then 48 + d else 87 + d)"

definition hex_byte :: "byte \<Rightarrow> string" where
  "hex_byte b = [hex_digit (unat b div 16), hex_digit (unat b mod 16)]"

definition hex_string :: "byte list \<Rightarrow> string" where
  "hex_string bs = concat (map hex_byte bs)"

definition hex_value :: "char \<Rightarrow> nat" where
  "hex_value c = (if is_digit c then of_char c - 48 else of_char c - 87)"

definition is_hex_lower :: "char \<Rightarrow> bool" where
  "is_hex_lower c \<longleftrightarrow> is_digit c \<or> (97 \<le> (of_char c :: nat) \<and> (of_char c :: nat) \<le> 102)"

lemma hex_digit_ok: "d < 16 \<Longrightarrow> is_hex_lower (hex_digit d) \<and> hex_value (hex_digit d) = d"
  by (auto simp: hex_digit_def is_hex_lower_def hex_value_def is_digit_def)

lemma length_hex_string [simp]: "length (hex_string bs) = 2 * length bs"
  by (induction bs) (simp_all add: hex_string_def hex_byte_def)

lemma hex_string_chars: "list_all is_hex_lower (hex_string bs)"
proof (induction bs)
  case (Cons b bs)
  have "unat b < 2 ^ LENGTH(8)" by (rule unsigned_less)
  then have "unat b div 16 < 16" "unat b mod 16 < 16" by simp_all
  with Cons hex_digit_ok show ?case by (simp add: hex_string_def hex_byte_def)
qed (simp add: hex_string_def)

section \<open>Systems with an invariant\<close>

text \<open>
  The interface by which a component's operations promise to keep its invariant: an operation
  applied to a state that satisfies the invariant leaves one that does, when its inputs are
  legal. Every run of legal operations then keeps it.
\<close>

locale invariant_system =
  fixes apply_op :: "'o \<Rightarrow> 's \<Rightarrow> 's" and inv :: "'s \<Rightarrow> bool" and legal :: "'o \<Rightarrow> bool"
  assumes keeps: "inv s \<Longrightarrow> legal x \<Longrightarrow> inv (apply_op x s)"
begin

lemma run_keeps: "inv s \<Longrightarrow> list_all legal xs \<Longrightarrow> inv (fold apply_op xs s)"
  by (induction xs arbitrary: s) (auto intro: keeps)

end

text \<open>With a start state: what holds under the invariant holds after every legal run.\<close>

locale reachable_system = invariant_system +
  fixes start :: "'b"
  assumes start_inv: "inv start"
begin

lemma reachable_inv: "list_all legal xs \<Longrightarrow> inv (fold apply_op xs start)"
  by (rule run_keeps [OF start_inv])

end

section \<open>Sorted maps\<close>

text \<open>A \<open>std::map\<close> as the list of its entries in the order of iteration.\<close>

fun smap_insert :: "'k::linorder \<Rightarrow> 'v \<Rightarrow> ('k \<times> 'v) list \<Rightarrow> ('k \<times> 'v) list" where
  "smap_insert k v [] = [(k, v)]"
| "smap_insert k v ((k', v') # m) =
     (if k = k' then (k, v) # m
      else if k < k' then (k, v) # (k', v') # m
      else (k', v') # smap_insert k v m)"

definition smap_erase :: "'k \<Rightarrow> ('k \<times> 'v) list \<Rightarrow> ('k \<times> 'v) list" where
  "smap_erase k m = filter (\<lambda>(k', v). k' \<noteq> k) m"

lemma map_of_smap_insert [simp]: "map_of (smap_insert k v m) = (map_of m)(k \<mapsto> v)"
  by (induction k v m rule: smap_insert.induct) (auto simp: fun_eq_iff)

lemma map_of_smap_erase [simp]: "map_of (smap_erase k m) = (map_of m)(k := None)"
  by (induction m) (auto simp: smap_erase_def fun_eq_iff)

lemma keys_smap_insert: "fst ` set (smap_insert k v m) = insert k (fst ` set m)"
  by (induction k v m rule: smap_insert.induct) auto

lemma set_smap_insert: "set (smap_insert k v m) \<subseteq> insert (k, v) (set m)"
  by (induction k v m rule: smap_insert.induct) auto

definition smap_sorted :: "('k::linorder \<times> 'v) list \<Rightarrow> bool" where
  "smap_sorted m \<longleftrightarrow> sorted_wrt (<) (map fst m)"

lemma smap_sorted_insert [intro]: "smap_sorted m \<Longrightarrow> smap_sorted (smap_insert k v m)"
proof (induction k v m rule: smap_insert.induct)
  case (2 k v k' v' m)
  show ?case
  proof (cases "k \<le> k'")
    case True
    with 2(2) show ?thesis by (auto simp: smap_sorted_def intro: less_trans)
  next
    case False
    with 2 have "smap_sorted (smap_insert k v m)" by (auto simp: smap_sorted_def)
    moreover have "\<forall>x \<in> fst ` set (smap_insert k v m). k' < x"
      using 2(2) False by (simp only: keys_smap_insert) (auto simp: smap_sorted_def)
    ultimately show ?thesis using False by (auto simp: smap_sorted_def)
  qed
qed (simp add: smap_sorted_def)

lemma smap_sorted_erase [intro]: "smap_sorted m \<Longrightarrow> smap_sorted (smap_erase k m)"
  by (induction m) (auto simp: smap_erase_def smap_sorted_def)

lemma smap_ext: "smap_sorted m \<Longrightarrow> smap_sorted n \<Longrightarrow> map_of m = map_of n \<Longrightarrow> m = n"
proof (induction m n rule: list_induct2')
  case (2 x xs)
  then show ?case by (cases x) (auto simp: fun_eq_iff split: if_splits)
next
  case (3 y ys)
  then show ?case by (cases y) (auto simp: fun_eq_iff split: if_splits)
next
  case (4 x xs y ys)
  obtain k v k' v' where xy: "x = (k, v)" "y = (k', v')" by fastforce
  have lt: "map_of xs j = None" if "j \<le> k" for j
    using 4(2) xy that by (fastforce simp: smap_sorted_def map_of_eq_None_iff)
  have lt': "map_of ys j = None" if "j \<le> k'" for j
    using 4(3) xy that by (fastforce simp: smap_sorted_def map_of_eq_None_iff)
  have e: "map_of (x # xs) j = map_of (y # ys) j" for j by (rule fun_cong [OF 4(4)])
  have "k = k'"
  proof (rule antisym)
    show "k \<le> k'"
    proof (rule ccontr)
      assume n: "\<not> k \<le> k'"
      then have "k' \<le> k" by simp
      with n e [of k'] lt [of k'] xy show False by (simp split: if_splits)
    qed
    show "k' \<le> k"
    proof (rule ccontr)
      assume n: "\<not> k' \<le> k"
      then have "k \<le> k'" by simp
      with n e [of k] lt' [of k] xy show False by (simp split: if_splits)
    qed
  qed
  with e [of k] xy have "x = y" by simp
  moreover have "map_of xs = map_of ys"
  proof
    fix j
    show "map_of xs j = map_of ys j"
      using e [of j] lt [of k] lt' [of k] xy \<open>k = k'\<close> by (cases "j = k") auto
  qed
  moreover have "smap_sorted xs" "smap_sorted ys" using 4(2,3) by (auto simp: smap_sorted_def)
  ultimately show ?case using 4(1) by blast
qed simp

section \<open>Lines\<close>

text \<open>The strings that \<open>std::getline\<close> with a delimiter reads, until it fails at the end.\<close>

fun getlines :: "char \<Rightarrow> string \<Rightarrow> string \<Rightarrow> string list" where
  "getlines d acc [] = (if acc = [] then [] else [rev acc])"
| "getlines d acc (c # cs) =
     (if c = d then rev acc # getlines d [] cs else getlines d (c # acc) cs)"

lemma getlines_line: "d \<notin> set l \<Longrightarrow> getlines d acc (l @ d # s) = (rev acc @ l) # getlines d [] s"
  by (induction l arbitrary: acc) auto

lemma getlines_rest:
  "d \<notin> set l \<Longrightarrow> getlines d acc l = (if acc = [] \<and> l = [] then [] else [rev acc @ l])"
  by (induction l arbitrary: acc) auto

lemma getlines_last: "d \<notin> set l \<Longrightarrow> getlines d [] l = (if l = [] then [] else [l])"
  using getlines_rest [of d l "[]"] by simp

section \<open>Codecs\<close>

text \<open>The interface of a format: what is written for a legal value is read back as that value.
  Writing is then injective, and reading is onto the legal values.\<close>

locale codec =
  fixes enc :: "'a \<Rightarrow> 'b" and dec :: "'b \<Rightarrow> 'a option" and legal :: "'a \<Rightarrow> bool"
  assumes dec_enc: "legal x \<Longrightarrow> dec (enc x) = Some x"
begin

lemma enc_inj: "legal x \<Longrightarrow> legal y \<Longrightarrow> enc x = enc y \<Longrightarrow> x = y"
  by (metis dec_enc option.inject)

lemma dec_unique: "legal x \<Longrightarrow> legal y \<Longrightarrow> dec (enc x) = Some y \<Longrightarrow> y = x"
  by (simp add: dec_enc)

end

section \<open>Stores of sessions that time out\<close>

text \<open>
  What happens to the sessions of a store: the session \<open>k\<close> is used at a time, or a pass removes
  the sessions that have been idle. A session is busy in a sequence of events when none comes
  after a gap that reaches the limit since its last use.
\<close>

datatype session_event = SUse int string | SExpire int

fun session_step :: "(int \<Rightarrow> string \<Rightarrow> 's \<Rightarrow> 's) \<Rightarrow> (int \<Rightarrow> 's \<Rightarrow> 's) \<Rightarrow> session_event \<Rightarrow> 's \<Rightarrow> 's" where
  "session_step use expire (SUse t k) s = use t k s"
| "session_step use expire (SExpire t) s = expire t s"

definition run_sessions ::
  "(int \<Rightarrow> string \<Rightarrow> 's \<Rightarrow> 's) \<Rightarrow> (int \<Rightarrow> 's \<Rightarrow> 's) \<Rightarrow> session_event list \<Rightarrow> 's \<Rightarrow> 's" where
  "run_sessions use expire es s = fold (session_step use expire) es s"

lemma run_sessions_simps [simp]:
  "run_sessions use expire [] s = s"
  "run_sessions use expire (e # es) s = run_sessions use expire es (session_step use expire e s)"
  by (simp_all add: run_sessions_def)

fun busy :: "int \<Rightarrow> string \<Rightarrow> int \<Rightarrow> session_event list \<Rightarrow> bool" where
  "busy g k l [] = True"
| "busy g k l (SUse t k' # es) =
     (if k' = k then t - l < g \<and> busy g k t es else busy g k l es)"
| "busy g k l (SExpire t # es) = (t - l < g \<and> busy g k l es)"

fun last_use :: "string \<Rightarrow> int \<Rightarrow> session_event list \<Rightarrow> int" where
  "last_use k l [] = l"
| "last_use k l (SUse t k' # es) = last_use k (if k' = k then t else l) es"
| "last_use k l (SExpire t # es) = last_use k l es"

locale session_store =
  fixes seen :: "'s \<Rightarrow> string \<Rightarrow> int option"
    and use :: "int \<Rightarrow> string \<Rightarrow> 's \<Rightarrow> 's"
    and expire :: "int \<Rightarrow> 's \<Rightarrow> 's"
    and gap :: "'s \<Rightarrow> int"
    and valid :: "int \<Rightarrow> string \<Rightarrow> 's \<Rightarrow> bool"
  assumes seen_use: "seen (use t k s) k' = (if k' = k \<and> valid t k s then Some t else seen s k')"
    and gap_use: "gap (use t k s) = gap s"
    and seen_expire: "seen (expire t s) k =
      (case seen s k of None \<Rightarrow> None | Some l \<Rightarrow> if t - l \<ge> gap s then None else Some l)"
    and gap_expire: "gap (expire t s) = gap s"
    and valid_fresh: "k \<noteq> [] \<Longrightarrow> seen s k = Some l \<Longrightarrow> t - l < gap s \<Longrightarrow> valid t k s"
begin

lemma run_gap: "gap (run_sessions use expire es s) = gap s"
proof (induction es arbitrary: s)
  case (Cons e es)
  then show ?case by (cases e) (simp_all add: gap_use gap_expire)
qed simp

lemma kept_alive:
  "k \<noteq> [] \<Longrightarrow> seen s k = Some l \<Longrightarrow> busy (gap s) k l es \<Longrightarrow>
     seen (run_sessions use expire es s) k = Some (last_use k l es)"
proof (induction "gap s" k l es arbitrary: s rule: busy.induct)
  case (2 k l t k' es)
  then show ?case by (auto simp: seen_use gap_use valid_fresh)
next
  case (3 k l t es)
  then show ?case by (auto simp: seen_expire gap_expire)
qed simp

lemma expired_session: "seen s k = Some l \<Longrightarrow> gap s \<le> t - l \<Longrightarrow> seen (expire t s) k = None"
  by (simp add: seen_expire)

end

end
