(* ===== verification/JsonValue.thy ===== *)
theory JsonValue
  imports LlPrelude Complex_Main
begin

text \<open>
  The values of the vendored JSON library (\<^verbatim>\<open>json.hpp\<close>) and the accessors the program
  uses: \<open>value()\<close>, \<open>contains()\<close>, the conversions \<open>get<T>()\<close> with the type errors they throw,
  assignment through \<open>operator[]\<close> (objects are \<^verbatim>\<open>std::map\<close>s, so their keys are sorted),
  and the UTF-8 automaton on which \<open>dump()\<close> decides whether a string can be written. The text
  a value is parsed from or dumped to is not modelled: components that parse take the parser as
  a parameter.
\<close>

section \<open>Values and accessors\<close>

text \<open>
  A float is the rational number the double stands for. A non-negative integer literal is
  parsed as \<open>JUInt\<close>, a negative one as \<open>JInt\<close>; an assignment from a signed C++ integer makes
  a \<open>JInt\<close>.
\<close>

datatype json =
    JNull
  | JBool bool
  | JInt int
  | JUInt int
  | JFloat rat
  | JString string
  | JArray "json list"
  | JObject "(string \<times> json) list"

fun is_object :: "json \<Rightarrow> bool" where
  "is_object (JObject _) = True"
| "is_object _ = False"

fun is_array :: "json \<Rightarrow> bool" where
  "is_array (JArray _) = True"
| "is_array _ = False"

fun is_string :: "json \<Rightarrow> bool" where
  "is_string (JString _) = True"
| "is_string _ = False"

definition rat_trunc :: "rat \<Rightarrow> int" where
  "rat_trunc r = (if r < 0 then - \<lfloor>- r\<rfloor> else \<lfloor>r\<rfloor>)"

text \<open>\<open>get<std::string>()\<close>, \<open>get<bool>()\<close>, \<open>get<int>()\<close> and \<open>get<int64_t>()\<close>; \<open>get<int>()\<close>
  takes the generic arithmetic overload, which also accepts a boolean.\<close>

fun get_string :: "json \<Rightarrow> string result" where
  "get_string (JString s) = Inr s"
| "get_string _ = Inl (TypeError 302)"

fun get_bool :: "json \<Rightarrow> bool result" where
  "get_bool (JBool b) = Inr b"
| "get_bool _ = Inl (TypeError 302)"

fun get_int :: "json \<Rightarrow> int result" where
  "get_int (JUInt u) = Inr (to_i32 u)"
| "get_int (JInt i) = Inr (to_i32 i)"
| "get_int (JFloat r) = Inr (to_i32 (rat_trunc r))"
| "get_int (JBool b) = Inr (if b then 1 else 0)"
| "get_int _ = Inl (TypeError 302)"

fun get_i64 :: "json \<Rightarrow> int result" where
  "get_i64 (JUInt u) = Inr (to_i64 u)"
| "get_i64 (JInt i) = Inr (to_i64 i)"
| "get_i64 (JFloat r) = Inr (to_i64 (rat_trunc r))"
| "get_i64 _ = Inl (TypeError 302)"

fun get_u64 :: "json \<Rightarrow> int result" where
  "get_u64 (JUInt u) = Inr (to_u64 u)"
| "get_u64 (JInt i) = Inr (to_u64 i)"
| "get_u64 (JFloat r) = Inr (to_u64 (rat_trunc r))"
| "get_u64 _ = Inl (TypeError 302)"

text \<open>\<open>get<double>()\<close>; the conversion of an integer of more than 53 bits is not rounded here.\<close>

fun get_double :: "json \<Rightarrow> rat result" where
  "get_double (JUInt u) = Inr (of_int u)"
| "get_double (JInt i) = Inr (of_int i)"
| "get_double (JFloat r) = Inr r"
| "get_double _ = Inl (TypeError 302)"

definition get_json :: "json \<Rightarrow> json result" where
  "get_json j = Inr j"

fun contains :: "json \<Rightarrow> string \<Rightarrow> bool" where
  "contains (JObject ms) k = (map_of ms k \<noteq> None)"
| "contains _ k = False"

text \<open>\<open>j.value(key, default)\<close>: a type error for a value that is not an object and for a
  member of the wrong type; the default for a missing member.\<close>

fun jvalue :: "(json \<Rightarrow> 'a result) \<Rightarrow> json \<Rightarrow> string \<Rightarrow> 'a \<Rightarrow> 'a result" where
  "jvalue get (JObject ms) k d = (case map_of ms k of None \<Rightarrow> Inr d | Some v \<Rightarrow> get v)"
| "jvalue get _ k d = Inl (TypeError 306)"

text \<open>\<open>j[key]\<close> on an object that contains the key; a null for a missing one, as the
  non-constant \<open>operator[]\<close> inserts it.\<close>

fun jmember :: "json \<Rightarrow> string \<Rightarrow> json" where
  "jmember (JObject ms) k = (case map_of ms k of None \<Rightarrow> JNull | Some v \<Rightarrow> v)"
| "jmember _ k = JNull"

lemma contains_object: "contains j k \<Longrightarrow> \<exists>ms v. j = JObject ms \<and> map_of ms k = Some v"
  by (cases j) auto

section \<open>Building objects\<close>

fun obj_insert :: "string \<Rightarrow> json \<Rightarrow> (string \<times> json) list \<Rightarrow> (string \<times> json) list" where
  "obj_insert k v [] = [(k, v)]"
| "obj_insert k v ((k', v') # ms) =
     (if k = k' then (k, v) # ms
      else if k < k' then (k, v) # (k', v') # ms
      else (k', v') # obj_insert k v ms)"

definition jobj :: "(string \<times> json) list \<Rightarrow> json" where
  "jobj fs = JObject (fold (\<lambda>(k, v) ms. obj_insert k v ms) fs [])"

lemma map_of_obj_insert [simp]: "map_of (obj_insert k v ms) = (map_of ms)(k \<mapsto> v)"
  by (induction k v ms rule: obj_insert.induct) (auto simp: fun_eq_iff)

lemma map_of_fold_obj_insert:
  "map_of (fold (\<lambda>(k, v) ms. obj_insert k v ms) fs ms) = map_of ms ++ map_of (rev fs)"
proof (induction fs arbitrary: ms)
  case (Cons f fs)
  then show ?case by (cases f) (simp add: map_add_def fun_eq_iff split: option.splits)
qed simp

lemma obj_insert_keys: "set (map fst (obj_insert k v ms)) = insert k (set (map fst ms))"
  by (induction k v ms rule: obj_insert.induct) auto

lemma sorted_obj_insert:
  "sorted_wrt (<) (map fst ms) \<Longrightarrow> sorted_wrt (<) (map fst (obj_insert k v ms))"
proof (induction k v ms rule: obj_insert.induct)
  case (2 k v k' v' ms)
  show ?case
  proof (cases "k < k' \<or> k = k'")
    case True
    with 2(2) show ?thesis by (auto intro: less_trans)
  next
    case False
    then have "k' < k" by auto
    with False 2 have "sorted_wrt (<) (map fst (obj_insert k v ms))" by auto
    moreover have "\<forall>x \<in> set (map fst (obj_insert k v ms)). k' < x"
      using 2(2) \<open>k' < k\<close> by (simp only: obj_insert_keys) auto
    ultimately show ?thesis using False by auto
  qed
qed simp

lemma sorted_fold_obj_insert:
  "sorted_wrt (<) (map fst ms) \<Longrightarrow>
     sorted_wrt (<) (map fst (fold (\<lambda>(k, v) ms. obj_insert k v ms) fs ms))"
proof (induction fs arbitrary: ms)
  case (Cons f fs)
  then show ?case by (cases f) (simp add: sorted_obj_insert)
qed simp

lemma jvalue_jobj [cpp_simps]:
  "jvalue get (jobj fs) k d = (case map_of (rev fs) k of None \<Rightarrow> Inr d | Some v \<Rightarrow> get v)"
  by (simp add: jobj_def map_of_fold_obj_insert)

lemma is_object_jobj [simp]: "is_object (jobj fs)"
  by (simp add: jobj_def)

lemma contains_jobj [cpp_simps]: "contains (jobj fs) k \<longleftrightarrow> map_of (rev fs) k \<noteq> None"
  by (simp add: jobj_def map_of_fold_obj_insert)

lemma jmember_jobj [cpp_simps]:
  "jmember (jobj fs) k = (case map_of (rev fs) k of None \<Rightarrow> JNull | Some v \<Rightarrow> v)"
  by (simp add: jobj_def map_of_fold_obj_insert)

definition json_error :: "string \<Rightarrow> json" where
  "json_error msg = jobj [(''error'', JString msg)]"

lemma json_error_has_error [simp]: "contains (json_error msg) ''error''"
  by (simp add: json_error_def cpp_simps)

section \<open>UTF-8: the automaton of the serializer\<close>

text \<open>The table has the class of each byte, then a row of 16 transitions for each state.\<close>

definition utf8d :: "nat list" where
  "utf8d =
     replicate 128 0 @ replicate 16 1 @ replicate 16 9 @ replicate 32 7 @
     [8, 8] @ replicate 30 2 @
     [10, 3, 3, 3, 3, 3, 3, 3, 3, 3, 3, 3, 3, 4, 3, 3] @
     [11, 6, 6, 6, 5, 8, 8, 8, 8, 8, 8, 8, 8, 8, 8, 8] @
     [0, 1, 2, 3, 5, 8, 7, 1, 1, 1, 4, 6, 1, 1, 1, 1] @
     [1, 1, 1, 1, 1, 1, 1, 1, 1, 1, 1, 1, 1, 1, 1, 1, 1, 0, 1, 1, 1, 1, 1, 0, 1, 0, 1, 1, 1, 1, 1, 1] @
     [1, 2, 1, 1, 1, 1, 1, 2, 1, 2, 1, 1, 1, 1, 1, 1, 1, 1, 1, 1, 1, 1, 1, 2, 1, 1, 1, 1, 1, 1, 1, 1] @
     [1, 2, 1, 1, 1, 1, 1, 1, 1, 2, 1, 1, 1, 1, 1, 1, 1, 1, 1, 1, 1, 1, 1, 3, 1, 3, 1, 1, 1, 1, 1, 1] @
     [1, 3, 1, 1, 1, 1, 1, 3, 1, 3, 1, 1, 1, 1, 1, 1, 1, 3, 1, 1, 1, 1, 1, 1, 1, 1, 1, 1, 1, 1, 1, 1]"

definition utf8_decode :: "nat \<Rightarrow> nat \<Rightarrow> nat" where
  "utf8_decode state b = utf8d ! (256 + state * 16 + utf8d ! b)"

text \<open>The loop of \<open>dump_escaped\<close> in strict mode: the state starts at accept (0), a reject (1)
  throws at once, and a state other than accept at the end throws too.\<close>

fun utf8_run :: "nat \<Rightarrow> string \<Rightarrow> bool" where
  "utf8_run st [] = (st = 0)"
| "utf8_run st (c # cs) =
     (let st' = utf8_decode st (of_char c) in st' \<noteq> 1 \<and> utf8_run st' cs)"

definition utf8_ok :: "string \<Rightarrow> bool" where
  "utf8_ok s = utf8_run 0 s"

lemma utf8d_ascii: "b < 128 \<Longrightarrow> utf8d ! b = 0"
  by (simp add: utf8d_def nth_append)

lemma utf8_decode_ascii: "b < 128 \<Longrightarrow> utf8_decode 0 b = 0"
  by (simp add: utf8_decode_def utf8d_ascii) (simp add: utf8d_def nth_append)

lemma utf8_run_ascii:
  "list_all (\<lambda>c. (of_char c :: nat) < 128) s \<Longrightarrow> utf8_run 0 (s @ t) = utf8_run 0 t"
  by (induction s) (auto simp: utf8_decode_ascii)

lemma utf8_ok_ascii: "list_all (\<lambda>c. (of_char c :: nat) < 128) s \<Longrightarrow> utf8_ok s"
  using utf8_run_ascii [of s "[]"] by (simp add: utf8_ok_def)

lemma utf8_run_append: "utf8_run st s \<Longrightarrow> utf8_run 0 t \<Longrightarrow> utf8_run st (s @ t)"
  by (induction s arbitrary: st) (auto simp: Let_def)

lemma utf8_ok_append: "utf8_ok s \<Longrightarrow> utf8_ok t \<Longrightarrow> utf8_ok (s @ t)"
  by (simp add: utf8_ok_def utf8_run_append)

text \<open>A character of two bytes.\<close>

definition e_acute :: string where
  "e_acute = [CHR 0xC3, CHR 0xA9]"

lemma e_acute_decode: "utf8_decode 0 195 = 2" "utf8_decode 2 169 = 0" "utf8_decode 2 46 = 1"
  by (simp_all add: utf8_decode_def utf8d_def nth_append)

lemma utf8_run_e_acutes: "utf8_run 0 (concat (replicate n e_acute) @ s) = utf8_run 0 s"
  by (induction n) (simp_all add: e_acute_def e_acute_decode)

text \<open>\<open>dump()\<close> in its default, strict mode writes a value when every string and key in it is
  UTF-8 and throws \<open>type_error\<close> 316 otherwise. The model keeps the value, not its text.\<close>

fun dump_ok :: "json \<Rightarrow> bool" where
  "dump_ok (JString s) = utf8_ok s"
| "dump_ok (JArray js) = list_all dump_ok js"
| "dump_ok (JObject ms) = list_all (\<lambda>(k, v). utf8_ok k \<and> dump_ok v) ms"
| "dump_ok _ = True"

definition dump :: "json \<Rightarrow> json result" where
  "dump j = (if dump_ok j then Inr j else Inl (TypeError 316))"

text \<open>The value that parsing the text of \<open>dump()\<close> gives back: a non-negative integer is read as
  an unsigned one.\<close>

fun reparse :: "json \<Rightarrow> json" where
  "reparse (JInt i) = (if 0 \<le> i then JUInt i else JInt i)"
| "reparse (JArray js) = JArray (map reparse js)"
| "reparse (JObject ms) = JObject (map (\<lambda>(k, v). (k, reparse v)) ms)"
| "reparse j = j"

lemma map_of_map_snd: "map_of (map (\<lambda>(k, v). (k, f v)) ms) k = map_option f (map_of ms k)"
  by (induction ms) auto

lemma is_object_reparse [simp]: "is_object (reparse j) = is_object j"
  by (cases j) auto

lemma jvalue_reparse [cpp_simps]:
  "jvalue get (reparse (jobj fs)) k d =
     (case map_of (rev fs) k of None \<Rightarrow> Inr d | Some v \<Rightarrow> get (reparse v))"
  by (simp add: jobj_def map_of_map_snd map_of_fold_obj_insert split: option.splits)

lemma jmember_reparse [cpp_simps]:
  "jmember (reparse (jobj fs)) k = (case map_of (rev fs) k of None \<Rightarrow> JNull | Some v \<Rightarrow> reparse v)"
  by (simp add: jobj_def map_of_map_snd map_of_fold_obj_insert split: option.splits)

lemma contains_reparse [simp]: "contains (reparse j) k = contains j k"
  by (cases j) (simp_all add: map_of_map_snd)

lemma dump_ok_obj_insert:
  "list_all (\<lambda>(k, v). utf8_ok k \<and> dump_ok v) ms \<Longrightarrow> utf8_ok k \<Longrightarrow> dump_ok v \<Longrightarrow>
     list_all (\<lambda>(k, v). utf8_ok k \<and> dump_ok v) (obj_insert k v ms)"
  by (induction k v ms rule: obj_insert.induct) auto

lemma dump_ok_jobj [cpp_simps]: "list_all (\<lambda>(k, v). utf8_ok k \<and> dump_ok v) fs \<Longrightarrow> dump_ok (jobj fs)"
proof -
  have "list_all (\<lambda>(k, v). utf8_ok k \<and> dump_ok v) fs \<Longrightarrow> list_all (\<lambda>(k, v). utf8_ok k \<and> dump_ok v) ms \<Longrightarrow>
      list_all (\<lambda>(k, v). utf8_ok k \<and> dump_ok v) (fold (\<lambda>(k, v) ms. obj_insert k v ms) fs ms)" for ms
    by (induction fs arbitrary: ms) (auto intro!: dump_ok_obj_insert)
  from this [of "[]"] show "list_all (\<lambda>(k, v). utf8_ok k \<and> dump_ok v) fs \<Longrightarrow> dump_ok (jobj fs)"
    by (simp add: jobj_def)
qed

lemma dump_ok_member: "dump_ok j \<Longrightarrow> dump_ok (jmember j k)"
  by (cases j) (auto simp: list_all_iff split: option.split dest!: map_of_SomeD)

lemma dump_ok_string: "dump_ok j \<Longrightarrow> utf8_ok d \<Longrightarrow> jvalue get_string j k d = Inr s \<Longrightarrow> utf8_ok s"
proof (cases j)
  case (JObject ms)
  assume "dump_ok j" "utf8_ok d" "jvalue get_string j k d = Inr s"
  moreover have "utf8_ok s" if "get_string v = Inr s" "dump_ok v" for v
    using that by (cases v) auto
  ultimately show ?thesis
    using JObject by (auto simp: list_all_iff split: option.splits dest!: map_of_SomeD)
qed auto

end
