(* ===== verification/Http.thy ===== *)
theory Http
  imports LlPrelude JsonValue
begin

text \<open>
  Requests and responses of the HTTP library (\<^verbatim>\<open>httplib.h\<close>) as far as the handlers use them:
  header fields with case-insensitive names, of which the first match is read, the address of
  the client and the body. The body of a request is kept as what \<open>json::parse\<close> makes of it,
  \<open>None\<close> for discarded; the content of a response is kept as the value that is dumped.
\<close>

record http_req =
  req_headers :: "(string \<times> string) list"
  remote_addr :: string
  req_empty :: bool
  req_json :: "json option"

record http_resp =
  status :: int
  resp_headers :: "(string \<times> string) list"
  content :: "json option"

text \<open>A handler that sets no status sends 200.\<close>

definition new_resp :: http_resp where
  "new_resp = \<lparr>status = 200, resp_headers = [], content = None\<rparr>"

definition to_lower :: "char \<Rightarrow> char" where
  "to_lower c = (if 65 \<le> (of_char c :: nat) \<and> (of_char c :: nat) \<le> 90 then char_of (of_char c + 32 :: nat) else c)"

definition find_header :: "http_req \<Rightarrow> string \<Rightarrow> string option" where
  "find_header req name =
     map_option snd (find (\<lambda>(k, v). map to_lower k = map to_lower name) (req_headers req))"

definition set_header :: "string \<Rightarrow> string \<Rightarrow> http_resp \<Rightarrow> http_resp" where
  "set_header k v res = res\<lparr>resp_headers := resp_headers res @ [(k, v)]\<rparr>"

definition set_content :: "json \<Rightarrow> http_resp \<Rightarrow> http_resp" where
  "set_content j res = res\<lparr>content := Some j\<rparr>"

text \<open>\<open>res.status = n; res.set_content (err.dump ())\<close>; the messages are ASCII.\<close>

definition fail_with :: "int \<Rightarrow> string \<Rightarrow> http_resp \<Rightarrow> http_resp" where
  "fail_with n msg res = set_content (json_error msg) (res\<lparr>status := n\<rparr>)"

lemma http_resp_simps [simp]:
  "status (set_header k v res) = status res" "status (set_content j res) = status res"
  "status (fail_with n msg res) = n" "status new_resp = 200"
  by (simp_all add: set_header_def set_content_def fail_with_def new_resp_def)

end
