(* ===== verification/Calendar.thy ===== *)
theory Calendar
  imports LlPrelude
begin

text \<open>
  Broken-down time: \<^verbatim>\<open>struct tm\<close>, and \<open>localtime_r\<close> and \<open>mktime\<close> of the C library in the
  zone the image is built with (UTC), for times from the epoch on. The locale \<open>calendar\<close> is
  what the cron search relies on; the UTC functions are its interpretation.
\<close>

section \<open>The fields and the four advances the cron search makes\<close>

text \<open>Months count from 0, days of the month from 1, weekdays from 0 (Sunday); the year is the
  full year. The fields are never negative in the program.\<close>

record tm =
  tm_year :: nat
  tm_mon :: nat
  tm_mday :: nat
  tm_hour :: nat
  tm_min :: nat
  tm_sec :: nat
  tm_wday :: nat

definition next_month :: "tm \<Rightarrow> tm" where
  "next_month c = c\<lparr>tm_mon := tm_mon c + 1, tm_mday := 1, tm_hour := 0, tm_min := 0, tm_sec := 0\<rparr>"

definition next_day :: "tm \<Rightarrow> tm" where
  "next_day c = c\<lparr>tm_mday := tm_mday c + 1, tm_hour := 0, tm_min := 0, tm_sec := 0\<rparr>"

definition next_hour :: "tm \<Rightarrow> tm" where
  "next_hour c = c\<lparr>tm_hour := tm_hour c + 1, tm_min := 0, tm_sec := 0\<rparr>"

definition next_minute :: "tm \<Rightarrow> tm" where
  "next_minute c = c\<lparr>tm_min := tm_min c + 1, tm_sec := 0\<rparr>"

text \<open>The laws: cutting off the seconds, and for each advance that it moves forward to a full
  minute and that the field it skips over is the same until there.\<close>

locale calendar =
  fixes lt :: "int \<Rightarrow> tm" and mk :: "tm \<Rightarrow> int"
  assumes floor_minute: "0 \<le> t \<Longrightarrow> mk ((lt t)\<lparr>tm_sec := 0\<rparr>) = t - t mod 60"
    and month_gt: "0 \<le> t \<Longrightarrow> t < mk (next_month (lt t))"
    and month_aligned: "0 \<le> t \<Longrightarrow> mk (next_month (lt t)) mod 60 = 0"
    and month_same: "0 \<le> t \<Longrightarrow> t \<le> u \<Longrightarrow> u < mk (next_month (lt t)) \<Longrightarrow> tm_mon (lt u) = tm_mon (lt t)"
    and day_gt: "0 \<le> t \<Longrightarrow> t < mk (next_day (lt t))"
    and day_aligned: "0 \<le> t \<Longrightarrow> mk (next_day (lt t)) mod 60 = 0"
    and mday_same: "0 \<le> t \<Longrightarrow> t \<le> u \<Longrightarrow> u < mk (next_day (lt t)) \<Longrightarrow> tm_mday (lt u) = tm_mday (lt t)"
    and wday_same: "0 \<le> t \<Longrightarrow> t \<le> u \<Longrightarrow> u < mk (next_day (lt t)) \<Longrightarrow> tm_wday (lt u) = tm_wday (lt t)"
    and hour_gt: "0 \<le> t \<Longrightarrow> t < mk (next_hour (lt t))"
    and hour_aligned: "0 \<le> t \<Longrightarrow> mk (next_hour (lt t)) mod 60 = 0"
    and hour_same: "0 \<le> t \<Longrightarrow> t \<le> u \<Longrightarrow> u < mk (next_hour (lt t)) \<Longrightarrow> tm_hour (lt u) = tm_hour (lt t)"
    and minute_next: "0 \<le> t \<Longrightarrow> t mod 60 = 0 \<Longrightarrow> mk (next_minute (lt t)) = t + 60"

text \<open>Two different full minutes are at least 60 seconds apart.\<close>

lemma minute_gap:
  assumes "t mod 60 = 0" "u mod 60 = 0" "t < (u::int)"
  shows "t + 60 \<le> u"
proof -
  obtain a b where "t = 60 * a" "u = 60 * b"
    using assms(1,2) by (auto simp: mod_eq_0_iff_dvd elim!: dvdE)
  with assms(3) show ?thesis by simp
qed

section \<open>The Gregorian calendar in UTC\<close>

definition leap :: "nat \<Rightarrow> bool" where
  "leap y \<longleftrightarrow> y mod 4 = 0 \<and> (y mod 100 \<noteq> 0 \<or> y mod 400 = 0)"

definition ylen :: "nat \<Rightarrow> nat" where
  "ylen y = (if leap y then 366 else 365)"

definition mlen :: "nat \<Rightarrow> nat \<Rightarrow> nat" where
  "mlen y m = (if m = 1 then if leap y then 29 else 28
               else if m = 3 \<or> m = 5 \<or> m = 8 \<or> m = 10 then 30 else 31)"

text \<open>Days before a year (from 1970 on) and before a month of a year.\<close>

definition days_before_year :: "nat \<Rightarrow> nat" where
  "days_before_year y = sum_list (map ylen [1970..<y])"

definition days_before_month :: "nat \<Rightarrow> nat \<Rightarrow> nat" where
  "days_before_month y m = sum_list (map (mlen y) [0..<m])"

function year_split :: "nat \<Rightarrow> nat \<Rightarrow> nat \<times> nat" where
  "year_split y d = (if d < ylen y then (y, d) else year_split (Suc y) (d - ylen y))"
  by pat_completeness auto
termination
  by (relation "measure snd") (auto simp: ylen_def)

function month_split :: "nat \<Rightarrow> nat \<Rightarrow> nat \<Rightarrow> nat \<times> nat" where
  "month_split y m d = (if d < mlen y m then (m, d) else month_split y (Suc m) (d - mlen y m))"
  by pat_completeness auto
termination
  by (relation "measure (\<lambda>(y, m, d). d)") (auto simp: mlen_def split: if_splits)

declare year_split.simps [simp del] month_split.simps [simp del]

definition utc_localtime :: "int \<Rightarrow> tm" where
  "utc_localtime t =
     (let n = nat t; dn = n div 86400; yd = year_split 1970 dn;
          md = month_split (fst yd) 0 (snd yd)
      in \<lparr>tm_year = fst yd, tm_mon = fst md, tm_mday = snd md + 1,
          tm_hour = n div 3600 mod 24, tm_min = n div 60 mod 60, tm_sec = n mod 60,
          tm_wday = (dn + 4) mod 7\<rparr>)"

text \<open>\<open>mktime\<close> ignores the weekday and normalises fields that are out of range.\<close>

definition utc_mktime :: "tm \<Rightarrow> int" where
  "utc_mktime c =
     (let y = tm_year c + tm_mon c div 12; m = tm_mon c mod 12;
          dn = int (days_before_year y + days_before_month y m) + int (tm_mday c) - 1
      in ((dn * 24 + int (tm_hour c)) * 60 + int (tm_min c)) * 60 + int (tm_sec c))"

lemmas utc_eval = utc_localtime_def utc_mktime_def Let_def year_split.simps month_split.simps
  ylen_def mlen_def leap_def days_before_year_def days_before_month_def upt_rec
  next_month_def next_day_def next_hour_def next_minute_def

section \<open>Splitting a day number\<close>

lemma days_before_year_Suc: "1970 \<le> y \<Longrightarrow> days_before_year (Suc y) = days_before_year y + ylen y"
  by (simp add: days_before_year_def)

lemma days_before_month_Suc: "days_before_month y (Suc m) = days_before_month y m + mlen y m"
  by (simp add: days_before_month_def)

lemma days_before_month_12: "days_before_month y 12 = ylen y"
  by (simp add: days_before_month_def mlen_def ylen_def eval_nat_numeral upt_conv_Cons)

lemma days_before_month_mono: "m \<le> k \<Longrightarrow> days_before_month y m \<le> days_before_month y k"
  by (induction k rule: nat_induct_at_least) (auto simp: days_before_month_Suc)

lemma year_split_spec:
  "year_split y d = (y', r) \<Longrightarrow> 1970 \<le> y \<Longrightarrow>
     y \<le> y' \<and> r < ylen y' \<and> days_before_year y' + r = days_before_year y + d"
proof (induction y d rule: year_split.induct)
  case (1 y d)
  show ?case
  proof (cases "d < ylen y")
    case True
    with 1 show ?thesis by (auto simp: year_split.simps [of y d])
  next
    case False
    with 1 show ?thesis by (auto simp: year_split.simps [of y d] days_before_year_Suc)
  qed
qed

lemma month_split_spec:
  "month_split y m d = (m', r) \<Longrightarrow>
     m \<le> m' \<and> r < mlen y m' \<and> days_before_month y m' + r = days_before_month y m + d"
proof (induction y m d rule: month_split.induct)
  case (1 y m d)
  show ?case
  proof (cases "d < mlen y m")
    case True
    with 1 show ?thesis by (auto simp: month_split.simps [of y m d])
  next
    case False
    with 1 show ?thesis by (auto simp: month_split.simps [of y m d] days_before_month_Suc)
  qed
qed

text \<open>The converse: a day inside a month splits into that month.\<close>

lemma month_split_eq:
  "m \<le> k \<Longrightarrow> r < mlen y k \<Longrightarrow>
     month_split y m (days_before_month y k - days_before_month y m + r) = (k, r)"
proof (induction "k - m" arbitrary: m)
  case 0
  then show ?case by (simp add: month_split.simps)
next
  case (Suc n)
  then have mk: "Suc m \<le> k" "n = k - Suc m" by auto
  then have le: "days_before_month y m + mlen y m \<le> days_before_month y k"
    using days_before_month_mono [of "Suc m" k y] by (simp add: days_before_month_Suc)
  have "month_split y (Suc m) (days_before_month y k - days_before_month y (Suc m) + r) = (k, r)"
    using Suc mk by blast
  with le show ?case
    by (subst month_split.simps) (auto simp: days_before_month_Suc)
qed

lemma month_split_in_month:
  "r < mlen y k \<Longrightarrow> month_split y 0 (days_before_month y k + r) = (k, r)"
  using month_split_eq [of 0 k r y] by (simp add: days_before_month_def)

lemma year_split_eq:
  "1970 \<le> y \<Longrightarrow> y \<le> k \<Longrightarrow> r < ylen k \<Longrightarrow>
     year_split y (days_before_year k - days_before_year y + r) = (k, r)"
proof (induction "k - y" arbitrary: y)
  case 0
  then show ?case by (simp add: year_split.simps)
next
  case (Suc n)
  then have yk: "Suc y \<le> k" "n = k - Suc y" by auto
  have mono: "a \<le> b \<Longrightarrow> 1970 \<le> a \<Longrightarrow> days_before_year a \<le> days_before_year b" for a b
    by (induction b rule: nat_induct_at_least) (auto simp: days_before_year_Suc)
  then have le: "days_before_year y + ylen y \<le> days_before_year k"
    using mono [of "Suc y" k] yk Suc.prems by (simp add: days_before_year_Suc)
  have "year_split (Suc y) (days_before_year k - days_before_year (Suc y) + r) = (k, r)"
    using Suc yk by simp
  with le Suc.prems show ?case
    by (subst year_split.simps) (auto simp: days_before_year_Suc)
qed

lemma year_split_in_year:
  "1970 \<le> k \<Longrightarrow> r < ylen k \<Longrightarrow> year_split 1970 (days_before_year k + r) = (k, r)"
  using year_split_eq [of 1970 k r] by (simp add: days_before_year_def)

section \<open>The UTC functions are a calendar\<close>

text \<open>What \<open>utc_localtime\<close> computes: the day number and the time of day.\<close>

lemma utc_localtime_fields:
  assumes "0 \<le> t"
  obtains y m d where "1970 \<le> y" "m < 12" "d < mlen y m"
    "nat t div 86400 = days_before_year y + days_before_month y m + d"
    "utc_localtime t = \<lparr>tm_year = y, tm_mon = m, tm_mday = d + 1,
       tm_hour = nat t div 3600 mod 24, tm_min = nat t div 60 mod 60, tm_sec = nat t mod 60,
       tm_wday = (nat t div 86400 + 4) mod 7\<rparr>"
proof -
  let ?dn = "nat t div 86400"
  obtain y r where y: "year_split 1970 ?dn = (y, r)" by fastforce
  obtain m d where m: "month_split y 0 r = (m, d)" by fastforce
  from year_split_spec [OF y] have ys: "1970 \<le> y" "r < ylen y" "days_before_year y + r = ?dn"
    by (auto simp: days_before_year_def)
  from month_split_spec [OF m] have ms: "d < mlen y m" "days_before_month y m + d = r"
    by (auto simp: days_before_month_def)
  have "m < 12"
  proof (rule ccontr)
    assume "\<not> m < 12"
    then have "ylen y \<le> days_before_month y m"
      using days_before_month_mono [of 12 m y] by (simp add: days_before_month_12)
    with ys ms show False by simp
  qed
  with y m ys ms show ?thesis
    by (intro that [of y m d]) (simp_all add: utc_localtime_def Let_def)
qed

lemma utc_localtime_in_month:
  assumes "0 \<le> t" "1970 \<le> y" "m < 12" "d < mlen y m"
    and "nat t div 86400 = days_before_year y + days_before_month y m + d"
  shows "tm_year (utc_localtime t) = y" "tm_mon (utc_localtime t) = m"
    "tm_mday (utc_localtime t) = d + 1"
proof -
  have "days_before_month y m + d < ylen y"
    using assms(3,4) days_before_month_mono [of "Suc m" 12 y]
    by (simp add: days_before_month_12 days_before_month_Suc)
  then have "year_split 1970 (nat t div 86400) = (y, days_before_month y m + d)"
    using assms(2,5) year_split_in_year by (simp add: add.assoc)
  then show "tm_year (utc_localtime t) = y" "tm_mon (utc_localtime t) = m"
    "tm_mday (utc_localtime t) = d + 1"
    using assms(4) by (simp_all add: utc_localtime_def Let_def month_split_in_month)
qed

text \<open>The first day of the next month, with the year carried over from December.\<close>

lemma next_month_day_number:
  assumes "1970 \<le> y" "m < 12"
  shows "days_before_year (y + Suc m div 12) + days_before_month (y + Suc m div 12) (Suc m mod 12)
    = days_before_year y + days_before_month y (Suc m)"
proof (cases "m = 11")
  case True
  then show ?thesis
    using assms days_before_month_12 [of y] by (simp add: days_before_year_Suc days_before_month_def)
next
  case False
  with assms have "Suc m < 12" by simp
  then show ?thesis by simp
qed

lemma hour_of_day: "n div 86400 * 24 + n div 3600 mod 24 = n div (3600::nat)"
proof -
  have "n div 86400 = n div 3600 div 24"
    using div_mult2_eq [of n 3600 24] by simp
  then show ?thesis by simp
qed

lemma minute_of_hour: "n div 3600 * 60 + n div 60 mod 60 = n div (60::nat)"
proof -
  have "n div 3600 = n div 60 div 60"
    using div_mult2_eq [of n 60 60] by simp
  then show ?thesis by simp
qed

lemma div_same: "0 < k \<Longrightarrow> n \<le> u \<Longrightarrow> u < (n div k + 1) * k \<Longrightarrow> u div k = n div (k::nat)"
  using div_le_mono [of n u k] less_mult_imp_div_less [of u "n div k + 1" k] by simp

text \<open>\<open>utc_mktime\<close> on a broken-down time with the time of day or the day replaced.\<close>

lemma utc_mktime_time:
  "utc_mktime ((utc_localtime (int n))\<lparr>tm_hour := h, tm_min := mi, tm_sec := s\<rparr>)
    = int (((n div 86400 * 24 + h) * 60 + mi) * 60 + s)"
  by (rule utc_localtime_fields [of "int n"])
    (auto simp add: utc_mktime_def Let_def)

lemma utc_mktime_day:
  "utc_mktime (next_day (utc_localtime (int n))) = int ((n div 86400 + 1) * 86400)"
  by (rule utc_localtime_fields [of "int n"])
    (auto simp add: utc_mktime_def Let_def next_day_def)

lemma utc_mktime_floor:
  "utc_mktime ((utc_localtime (int n))\<lparr>tm_sec := 0\<rparr>) = int (n div 60 * 60)"
proof -
  have "(utc_localtime (int n))\<lparr>tm_sec := 0\<rparr>
    = (utc_localtime (int n))\<lparr>tm_hour := n div 3600 mod 24, tm_min := n div 60 mod 60, tm_sec := 0\<rparr>"
    by (simp add: utc_localtime_def Let_def)
  then show ?thesis
    by (simp only: utc_mktime_time hour_of_day minute_of_hour)
qed

lemma utc_mktime_hour:
  "utc_mktime (next_hour (utc_localtime (int n))) = int ((n div 3600 + 1) * 3600)"
proof -
  have "next_hour (utc_localtime (int n))
    = (utc_localtime (int n))\<lparr>tm_hour := n div 3600 mod 24 + 1, tm_min := 0, tm_sec := 0\<rparr>"
    by (simp add: utc_localtime_def Let_def next_hour_def)
  moreover have "n div 86400 * 24 + (n div 3600 mod 24 + 1) = n div 3600 + 1"
    using hour_of_day [of n] by simp
  ultimately show ?thesis by (simp only: utc_mktime_time) simp
qed

lemma utc_mktime_minute:
  "utc_mktime (next_minute (utc_localtime (int n))) = int ((n div 60 + 1) * 60)"
proof -
  have "next_minute (utc_localtime (int n))
    = (utc_localtime (int n))\<lparr>tm_hour := n div 3600 mod 24, tm_min := n div 60 mod 60 + 1, tm_sec := 0\<rparr>"
    by (simp add: utc_localtime_def Let_def next_minute_def)
  moreover have "n div 3600 * 60 + (n div 60 mod 60 + 1) = n div 60 + 1"
    using minute_of_hour [of n] by simp
  ultimately show ?thesis by (simp only: utc_mktime_time hour_of_day)
qed

text \<open>\<open>utc_mktime\<close> on the first of the next month, and the month of every day before it.\<close>

lemma utc_mktime_month:
  assumes "n div 86400 = days_before_year y + days_before_month y m + d"
    and "1970 \<le> y" "m < 12" "d < mlen y m"
  shows "utc_mktime (next_month (utc_localtime (int n)))
    = int ((days_before_year y + days_before_month y m + mlen y m) * 86400)"
  using next_month_day_number [OF assms(2,3)] utc_localtime_in_month [of "int n", OF _ assms(2-4)]
    assms(1)
  by (simp add: utc_mktime_def Let_def next_month_def days_before_month_Suc flip: of_nat_add)
    (simp add: algebra_simps)

lemma utc_month_gt: "int n < utc_mktime (next_month (utc_localtime (int n)))"
proof (rule utc_localtime_fields [of "int n"])
  fix y m d
  assume *: "1970 \<le> y" "m < 12" "d < mlen y m"
    "nat (int n) div 86400 = days_before_year y + days_before_month y m + d"
  have "n div 86400 < days_before_year y + days_before_month y m + mlen y m"
    using * by simp
  then have "n < (days_before_year y + days_before_month y m + mlen y m) * 86400"
    by (simp add: div_less_iff_less_mult)
  with * utc_mktime_month [of n y m d] show ?thesis by (simp only: nat_int)
qed simp

lemma utc_month_same:
  assumes "n \<le> u" "int u < utc_mktime (next_month (utc_localtime (int n)))"
  shows "tm_mon (utc_localtime (int u)) = tm_mon (utc_localtime (int n))"
proof (rule utc_localtime_fields [of "int n"])
  fix y m d
  assume *: "1970 \<le> y" "m < 12" "d < mlen y m"
    "nat (int n) div 86400 = days_before_year y + days_before_month y m + d"
  let ?b = "days_before_year y + days_before_month y m"
  have "u < (?b + mlen y m) * 86400"
    using assms(2) utc_mktime_month [of n y m d] * by (simp only: nat_int of_nat_less_iff)
  then have "u div 86400 < ?b + mlen y m" by (simp add: less_mult_imp_div_less)
  moreover have "?b \<le> u div 86400" using * div_le_mono [OF assms(1), of 86400] by simp
  ultimately obtain d' where d': "u div 86400 = ?b + d'" "d' < mlen y m"
    by (metis add_less_cancel_left le_iff_add)
  then have "tm_mon (utc_localtime (int u)) = m"
    using * by (intro utc_localtime_in_month [of _ y m d']) auto
  moreover have "tm_mon (utc_localtime (int n)) = m"
    using * by (intro utc_localtime_in_month [of _ y m d]) auto
  ultimately show ?thesis by simp
qed simp

lemma utc_day_same:
  assumes "u div 86400 = n div 86400"
  shows "tm_mday (utc_localtime (int u)) = tm_mday (utc_localtime (int n))"
    and "tm_wday (utc_localtime (int u)) = tm_wday (utc_localtime (int n))"
  using assms by (simp_all add: utc_localtime_def Let_def)

lemma nonneg_pair:
  assumes "0 \<le> t" "t \<le> u"
  obtains n k where "t = int n" "u = int k" "n \<le> k"
  using assms by (intro that [of "nat t" "nat u"]) auto

lemma mult_minute_mod: "int (k * 86400) mod 60 = 0" "int (k * 3600) mod 60 = 0"
proof -
  have "int (k * 86400) = int (k * 1440) * 60" "int (k * 3600) = int (k * 60) * 60" by simp_all
  then show "int (k * 86400) mod 60 = 0" "int (k * 3600) mod 60 = 0"
    by (simp_all only: mod_mult_self2_is_0)
qed

interpretation utc: calendar utc_localtime utc_mktime
proof (unfold_locales, goal_cases)
  case (1 t)
  then obtain n where "t = int n" by (rule nonneg_int_cases)
  then show ?case by (simp add: utc_mktime_floor zdiv_int minus_mod_eq_div_mult)
next
  case (2 t)
  then obtain n where "t = int n" by (rule nonneg_int_cases)
  then show ?case by (simp add: utc_month_gt)
next
  case (3 t)
  then obtain n where n: "t = int n" by (rule nonneg_int_cases)
  obtain y m d where "1970 \<le> y" "m < 12" "d < mlen y m"
    "nat (int n) div 86400 = days_before_year y + days_before_month y m + d"
    by (rule utc_localtime_fields [of "int n"]) auto
  then show ?case using n utc_mktime_month [of n y m d] by simp
next
  case (4 t u)
  from 4(1,2) obtain n k where tu: "t = int n" "u = int k" "n \<le> k" by (rule nonneg_pair)
  with 4 show ?case by (simp add: utc_month_same)
next
  case (5 t)
  then obtain n where "t = int n" by (rule nonneg_int_cases)
  then show ?case using dividend_less_div_times [of 86400 n] by (simp only: utc_mktime_day) simp
next
  case (6 t)
  then obtain n where "t = int n" by (rule nonneg_int_cases)
  then show ?case by (simp only: utc_mktime_day mult_minute_mod)
next
  case (7 t u)
  from 7(1,2) obtain n k where tu: "t = int n" "u = int k" "n \<le> k" by (rule nonneg_pair)
  from 7(3) have "k < (n div 86400 + 1) * 86400"
    unfolding tu utc_mktime_day of_nat_less_iff .
  with tu(3) have "k div 86400 = n div 86400" by (intro div_same) simp_all
  then show ?case unfolding tu by (rule utc_day_same)
next
  case (8 t u)
  from 8(1,2) obtain n k where tu: "t = int n" "u = int k" "n \<le> k" by (rule nonneg_pair)
  from 8(3) have "k < (n div 86400 + 1) * 86400"
    unfolding tu utc_mktime_day of_nat_less_iff .
  with tu(3) have "k div 86400 = n div 86400" by (intro div_same) simp_all
  then show ?case unfolding tu by (rule utc_day_same)
next
  case (9 t)
  then obtain n where "t = int n" by (rule nonneg_int_cases)
  then show ?case using dividend_less_div_times [of 3600 n] by (simp only: utc_mktime_hour) simp
next
  case (10 t)
  then obtain n where "t = int n" by (rule nonneg_int_cases)
  then show ?case by (simp only: utc_mktime_hour mult_minute_mod)
next
  case (11 t u)
  from 11(1,2) obtain n k where tu: "t = int n" "u = int k" "n \<le> k" by (rule nonneg_pair)
  from 11(3) have "k < (n div 3600 + 1) * 3600"
    unfolding tu utc_mktime_hour of_nat_less_iff .
  with tu(3) have "k div 3600 = n div 3600" by (intro div_same) simp_all
  then show ?case unfolding tu by (simp add: utc_localtime_def Let_def)
next
  case (12 t)
  then obtain n where "t = int n" by (meson nonneg_int_cases)
  from 12(2) \<open>t = int n\<close> have "n mod 60 = 0" by (metis of_nat_0_eq_iff of_nat_mod of_nat_numeral)
  then have "n div 60 * 60 = n" by (metis add.right_neutral div_mult_mod_eq)
  then have "(n div 60 + 1) * 60 = n + 60" by (simp add: distrib_right)
  with \<open>t = int n\<close> show ?case by (simp only: utc_mktime_minute of_nat_add of_nat_numeral)
qed

end
