(* ===== verification/Cron.thy ===== *)
theory Cron
  imports Calendar
begin

text \<open>
  The cron expressions of the scheduler: \<open>Scheduler::compute_next_cron\<close> of
  \<^verbatim>\<open>scheduler.cpp\<close>. Five fields, each a star or one integer; the search advances a
  candidate minute by the largest step that cannot skip a match and gives up after a fixed
  number of steps.
\<close>

section \<open>The expression\<close>

text \<open>A field is \<open>None\<close> for \<open>any\<close> and \<open>Some v\<close> for the wanted value.\<close>

record cron_spec =
  want_min :: "int option"
  want_hour :: "int option"
  want_day :: "int option"
  want_month :: "int option"
  want_wday :: "int option"

definition parse_field :: "string \<Rightarrow> int option" where
  "parse_field field =
     (if field = ''*'' then None
      else case strtol field of
          None \<Rightarrow> None
        | Some (v, rest, erange) \<Rightarrow>
            if erange \<or> v = long_max \<or> v = long_min then None else Some (to_i32 v))"

definition in_range :: "int \<Rightarrow> int \<Rightarrow> int option \<Rightarrow> bool" where
  "in_range lo hi w = (case w of None \<Rightarrow> True | Some v \<Rightarrow> \<not> (v < lo \<or> v > hi))"

text \<open>\<open>None\<close> is the early return of 0: fewer than five fields, or a value out of range.\<close>

definition cron_parse :: "string \<Rightarrow> cron_spec option" where
  "cron_parse expr =
     (case cpp_words expr of
        fmin # fhour # fday # fmonth # fwday # _ \<Rightarrow>
          let sp = \<lparr>want_min = parse_field fmin, want_hour = parse_field fhour,
                    want_day = parse_field fday, want_month = parse_field fmonth,
                    want_wday = parse_field fwday\<rparr>
          in if \<not> in_range 0 59 (want_min sp) then None
             else if \<not> in_range 0 23 (want_hour sp) then None
             else if \<not> in_range 1 31 (want_day sp) then None
             else if \<not> in_range 1 12 (want_month sp) then None
             else if \<not> in_range 0 6 (want_wday sp) then None
             else Some sp
      | _ \<Rightarrow> None)"

section \<open>The search\<close>

definition wants :: "int option \<Rightarrow> int \<Rightarrow> bool" where
  "wants w v = (case w of None \<Rightarrow> True | Some x \<Rightarrow> v = x)"

text \<open>One iteration: the broken-down time to continue from, or \<open>None\<close> when all fields match.\<close>

definition cron_advance :: "cron_spec \<Rightarrow> tm \<Rightarrow> tm option" where
  "cron_advance sp c =
     (if \<not> wants (want_month sp) (int (tm_mon c) + 1) then Some (next_month c)
      else if \<not> wants (want_day sp) (int (tm_mday c)) then Some (next_day c)
      else if \<not> wants (want_wday sp) (int (tm_wday c)) then Some (next_day c)
      else if \<not> wants (want_hour sp) (int (tm_hour c)) then Some (next_hour c)
      else if \<not> wants (want_min sp) (int (tm_min c)) then Some (next_minute c)
      else None)"

definition max_iterations :: int where
  "max_iterations = 366 * 24 * 60"

function cron_search ::
  "(int \<Rightarrow> tm) \<Rightarrow> (tm \<Rightarrow> int) \<Rightarrow> cron_spec \<Rightarrow> int \<Rightarrow> int \<Rightarrow> int" where
  "cron_search lt mk sp i candidate =
     (if i < max_iterations then
        case cron_advance sp (lt candidate) of
          None \<Rightarrow> candidate
        | Some c \<Rightarrow> cron_search lt mk sp (i + 1) (mk c)
      else 0)"
  by pat_completeness auto
termination
  by (relation "measure (\<lambda>(lt, mk, sp, i, c). nat (max_iterations - i))") auto

declare cron_search.simps [simp del]

definition cron_start :: "(int \<Rightarrow> tm) \<Rightarrow> (tm \<Rightarrow> int) \<Rightarrow> int \<Rightarrow> int" where
  "cron_start lt mk after = mk ((lt (after + 60))\<lparr>tm_sec := 0\<rparr>)"

definition compute_next_cron :: "string \<Rightarrow> int \<Rightarrow> int" where
  "compute_next_cron expr after =
     (case cron_parse expr of
        None \<Rightarrow> 0
      | Some sp \<Rightarrow> cron_search utc_localtime utc_mktime sp 0
                    (cron_start utc_localtime utc_mktime after))"

section \<open>What a cron expression means\<close>

definition cron_matches :: "cron_spec \<Rightarrow> tm \<Rightarrow> bool" where
  "cron_matches sp c \<longleftrightarrow>
     wants (want_min sp) (int (tm_min c)) \<and> wants (want_hour sp) (int (tm_hour c)) \<and>
     wants (want_day sp) (int (tm_mday c)) \<and> wants (want_month sp) (int (tm_mon c) + 1) \<and>
     wants (want_wday sp) (int (tm_wday c))"

lemma cron_advance_None: "cron_advance sp c = None \<longleftrightarrow> cron_matches sp c"
  by (auto simp: cron_advance_def cron_matches_def)

text \<open>The search is correct over every calendar that satisfies the laws.\<close>

context calendar
begin

text \<open>An advance goes forward, to a full minute, and over no minute that matches.\<close>

lemma advance_step:
  assumes "0 \<le> t" "t mod 60 = 0" "cron_advance sp (lt t) = Some c"
  shows "t < mk c" "mk c mod 60 = 0"
    and "t \<le> u \<Longrightarrow> u < mk c \<Longrightarrow> u mod 60 = 0 \<Longrightarrow> \<not> cron_matches sp (lt u)"
proof -
  consider
      (month) "\<not> wants (want_month sp) (int (tm_mon (lt t)) + 1)" "c = next_month (lt t)"
    | (day) "\<not> wants (want_day sp) (int (tm_mday (lt t)))" "c = next_day (lt t)"
    | (wday) "\<not> wants (want_wday sp) (int (tm_wday (lt t)))" "c = next_day (lt t)"
    | (hour) "\<not> wants (want_hour sp) (int (tm_hour (lt t)))" "c = next_hour (lt t)"
    | (minute) "\<not> wants (want_min sp) (int (tm_min (lt t)))" "c = next_minute (lt t)"
    using assms(3) by (auto simp: cron_advance_def split: if_splits)
  note cases = this
  show "t < mk c"
    using cases assms month_gt day_gt hour_gt minute_next by cases auto
  show "mk c mod 60 = 0"
    using cases assms month_aligned day_aligned hour_aligned minute_next by cases auto
  assume u: "t \<le> u" "u < mk c" "u mod 60 = 0"
  show "\<not> cron_matches sp (lt u)"
    using cases
  proof cases
    case month
    with u assms show ?thesis using month_same [of t u] by (simp add: cron_matches_def)
  next
    case day
    with u assms show ?thesis using mday_same [of t u] by (simp add: cron_matches_def)
  next
    case wday
    with u assms show ?thesis using wday_same [of t u] by (simp add: cron_matches_def)
  next
    case hour
    with u assms show ?thesis using hour_same [of t u] by (simp add: cron_matches_def)
  next
    case minute
    with u assms have "u < t + 60" using minute_next [of t] by simp
    with u(1,3) assms(2) have "u = t" using minute_gap [of t u] by linarith
    with minute show ?thesis by (simp add: cron_matches_def)
  qed
qed

text \<open>A result of the search is the first match at or after the candidate.\<close>

lemma search_first:
  assumes "0 < t" "t mod 60 = 0" "cron_search lt mk sp i t = r" "r \<noteq> 0"
  shows "t \<le> r \<and> r mod 60 = 0 \<and> cron_matches sp (lt r) \<and>
    (\<forall>u. t \<le> u \<and> u < r \<and> u mod 60 = 0 \<longrightarrow> \<not> cron_matches sp (lt u))"
  using assms
proof (induction "nat (max_iterations - i)" arbitrary: i t rule: less_induct)
  case less
  from less.prems have i: "i < max_iterations"
    by (auto simp: cron_search.simps [of lt mk sp i t] split: if_splits)
  show ?case
  proof (cases "cron_advance sp (lt t)")
    case None
    with less.prems i show ?thesis
      by (auto simp: cron_search.simps [of lt mk sp i t] cron_advance_None)
  next
    case (Some c)
    note step = advance_step [OF _ less.prems(2) Some]
    from i Some less.prems(3) have r: "cron_search lt mk sp (i + 1) (mk c) = r"
      by (simp add: cron_search.simps [of lt mk sp i t])
    from less.hyps [OF _ _ _ r less.prems(4)] i less.prems(1) step(1,2)
    have IH: "mk c \<le> r \<and> r mod 60 = 0 \<and> cron_matches sp (lt r) \<and>
      (\<forall>u. mk c \<le> u \<and> u < r \<and> u mod 60 = 0 \<longrightarrow> \<not> cron_matches sp (lt u))"
      by simp
    with step(1) step(3) less.prems(1) show ?thesis
      by (metis less_imp_le not_le order_trans)
  qed
qed

text \<open>When the search gives up, no minute matches for as many minutes as it had steps left.\<close>

lemma search_none:
  assumes "0 < t" "t mod 60 = 0" "cron_search lt mk sp i t = 0"
    and "t \<le> u" "u < t + 60 * (max_iterations - i)" "u mod 60 = 0"
  shows "\<not> cron_matches sp (lt u)"
  using assms
proof (induction "nat (max_iterations - i)" arbitrary: i t rule: less_induct)
  case less
  from less.prems have i: "i < max_iterations" by simp
  with less.prems(1,3) obtain c where c: "cron_advance sp (lt t) = Some c"
    by (auto simp: cron_search.simps [of lt mk sp i t] split: option.splits)
  note step = advance_step [OF _ less.prems(2) c]
  show ?case
  proof (cases "u < mk c")
    case True
    with step(3) less.prems show ?thesis by simp
  next
    case False
    have "t + 60 \<le> mk c" using step(1,2) less.prems(1,2) minute_gap by simp
    moreover have "cron_search lt mk sp (i + 1) (mk c) = 0"
      using i c less.prems(3) by (simp add: cron_search.simps [of lt mk sp i t])
    ultimately show ?thesis
      using less.hyps [of "i + 1" "mk c"] False i step(1,2) less.prems by simp
  qed
qed

text \<open>The search starts at the first full minute after the given time.\<close>

lemma start_minute:
  assumes "0 \<le> after"
  shows "cron_start lt mk after mod 60 = 0" "after < cron_start lt mk after"
    and "after < u \<Longrightarrow> u mod 60 = 0 \<Longrightarrow> cron_start lt mk after \<le> u"
    and "cron_start lt mk after \<le> after + 60"
proof -
  have s: "cron_start lt mk after = (after + 60) - (after + 60) mod 60"
    using assms by (simp add: cron_start_def floor_minute)
  show a: "cron_start lt mk after mod 60 = 0"
    unfolding s minus_mod_eq_mult_div by simp
  show "after < cron_start lt mk after" and b: "cron_start lt mk after \<le> after + 60"
    unfolding s using pos_mod_bound [of 60 "after + 60"] pos_mod_sign [of 60 "after + 60"] by linarith+
  show "after < u \<Longrightarrow> u mod 60 = 0 \<Longrightarrow> cron_start lt mk after \<le> u"
    using minute_gap [OF _ a, of u] b by linarith
qed

end

section \<open>Properties\<close>

text \<open>
  C1: a non-zero result of \<open>compute_next_cron\<close> is the first full minute after the given time
  whose broken-down time matches every field of the expression.
\<close>

theorem compute_next_cron_first:
  assumes "0 \<le> after" "cron_parse expr = Some sp" "compute_next_cron expr after \<noteq> 0"
  shows "after < compute_next_cron expr after
    \<and> compute_next_cron expr after mod 60 = 0
    \<and> cron_matches sp (utc_localtime (compute_next_cron expr after))
    \<and> (\<forall>u. after < u \<and> u < compute_next_cron expr after \<and> u mod 60 = 0
           \<longrightarrow> \<not> cron_matches sp (utc_localtime u))"
proof -
  let ?t = "cron_start utc_localtime utc_mktime after"
  let ?r = "compute_next_cron expr after"
  have "cron_search utc_localtime utc_mktime sp 0 ?t = ?r"
    using assms(2) by (simp add: compute_next_cron_def)
  with utc.search_first [of ?t sp 0 ?r] utc.start_minute [OF assms(1)] assms(1,3)
  have "?t \<le> ?r" "?r mod 60 = 0" "cron_matches sp (utc_localtime ?r)"
    "\<forall>u. ?t \<le> u \<and> u < ?r \<and> u mod 60 = 0 \<longrightarrow> \<not> cron_matches sp (utc_localtime u)"
    by auto
  with utc.start_minute [OF assms(1)] show ?thesis by (meson less_le_trans)
qed

lemmas cron_eval = compute_next_cron_def cron_search.simps cron_start_def cron_advance_def
  max_iterations_def wants_def

theorem compute_next_cron_first_witness:
  "compute_next_cron ''0 2 1 3 *'' 100 = 5104800
   \<and> cron_matches \<lparr>want_min = Some 0, want_hour = Some 2, want_day = Some 1,
        want_month = Some 3, want_wday = None\<rparr> (utc_localtime 5104800)"
proof -
  have p: "cron_parse ''0 2 1 3 *'' = Some \<lparr>want_min = Some 0, want_hour = Some 2,
      want_day = Some 1, want_month = Some 3, want_wday = None\<rparr>"
    by code_simp
  have r: "compute_next_cron ''0 2 1 3 *'' 100 = 5104800"
    by (simp add: cron_eval p utc_eval)
  from compute_next_cron_first [OF _ p, of 100] r show ?thesis by simp
qed

text \<open>
  when a valid expression has no next run (the result is 0), no full minute of the 366
  days after the given time matches it: the search gives up too early for no expression that
  matches within a year.
\<close>

theorem compute_next_cron_none:
  assumes "0 \<le> after" "cron_parse expr = Some sp" "compute_next_cron expr after = 0"
    and "after < u" "u \<le> after + 366 * 24 * 60 * 60" "u mod 60 = 0"
  shows "\<not> cron_matches sp (utc_localtime u)"
proof -
  let ?t = "cron_start utc_localtime utc_mktime after"
  have "cron_search utc_localtime utc_mktime sp 0 ?t = 0"
    using assms(2,3) by (simp add: compute_next_cron_def)
  moreover have "?t \<le> u" "after < ?t" "?t mod 60 = 0"
    using utc.start_minute [OF assms(1)] assms(4,6) by simp_all
  moreover have "u < ?t + 60 * (max_iterations - 0)"
    using assms(5) \<open>after < ?t\<close> by (simp add: max_iterations_def)
  ultimately show ?thesis
    using utc.search_none [of ?t sp 0 u] assms(1,6) by simp
qed

text \<open>An expression for the 31st of February has no next run, from any time on: its result is 0
  because a non-zero one would be a match.\<close>

lemma cron_feb31_parse:
  "cron_parse ''0 0 31 2 *'' = Some \<lparr>want_min = Some 0, want_hour = Some 0,
     want_day = Some 31, want_month = Some 2, want_wday = None\<rparr>"
  by code_simp

lemma cron_feb31_never:
  assumes "0 \<le> t"
  shows "\<not> cron_matches \<lparr>want_min = Some 0, want_hour = Some 0, want_day = Some 31,
    want_month = Some 2, want_wday = None\<rparr> (utc_localtime t)"
  by (rule utc_localtime_fields [OF assms])
    (auto simp: cron_matches_def wants_def mlen_def split: if_splits)

lemma cron_feb31_zero:
  assumes "0 \<le> after"
  shows "compute_next_cron ''0 0 31 2 *'' after = 0"
proof (rule ccontr)
  let ?t = "cron_start utc_localtime utc_mktime after"
  assume "compute_next_cron ''0 0 31 2 *'' after \<noteq> 0"
  with utc.search_first [of ?t _ 0] utc.start_minute [OF assms] assms cron_feb31_never
  show False by (auto simp: compute_next_cron_def cron_feb31_parse) (metis less_imp_le order_trans)
qed

theorem compute_next_cron_none_witness:
  "\<not> cron_matches \<lparr>want_min = Some 0, want_hour = Some 0, want_day = Some 31,
     want_month = Some 2, want_wday = None\<rparr> (utc_localtime 86400)"
  using compute_next_cron_none [OF _ cron_feb31_parse, of 100 86400] cron_feb31_zero [of 100]
  by simp

lemma parse_field_no_digit:
  "\<not> is_space c \<Longrightarrow> c \<noteq> CHR ''-'' \<Longrightarrow> c \<noteq> CHR ''+'' \<Longrightarrow> \<not> is_digit c \<Longrightarrow>
     parse_field (c # cs) = None"
  by (simp add: parse_field_def strtol_def Let_def)

text \<open>
  a field that is neither a star nor starts with an integer is read as a star, so a step
  expression asks for every minute, not every fifteenth.
\<close>

theorem cron_step_expression_is_any:
  assumes "list_all (Not \<circ> is_space) n"
  shows "cron_parse (''*/'' @ n @ '' '' @ rest) = cron_parse (''* '' @ rest)"
proof -
  have "cpp_words ((''*/'' @ n) @ CHR '' '' # rest) = (''*/'' @ n) # cpp_words rest"
    using assms by (subst cpp_words_word) (auto simp: cpp_words_space is_space_def)
  moreover have "cpp_words (''*'' @ CHR '' '' # rest) = ''*'' # cpp_words rest"
    by (subst cpp_words_word) (auto simp: cpp_words_space is_space_def)
  moreover have "parse_field (''*/'' @ n) = parse_field ''*''"
    using parse_field_no_digit [of "CHR ''*''" "CHR ''/'' # n"]
    by (simp add: is_space_def is_digit_def) (simp add: parse_field_def)
  ultimately show ?thesis
    by (simp add: cron_parse_def)
qed

theorem cron_step_expression_is_any_witness:
  "cron_parse ''*/15 * * * *'' = cron_parse ''* * * * *''"
proof -
  have "list_all (Not \<circ> is_space) ''15''" by (simp add: is_space_def)
  from cron_step_expression_is_any [OF this, of "''* * * *''"] show ?thesis by simp
qed

end
