(* ===== verification/Scheduler.thy ===== *)
theory Scheduler
  imports JsonValue Cron
begin

text \<open>
  The scheduler of \<^verbatim>\<open>scheduler.cpp\<close> and \<^verbatim>\<open>scheduler.h\<close>: its tasks, their persistence in
  \<^verbatim>\<open>schedules.json\<close>, the create, list, delete and update operations, the queue of
  notifications and the three phases of \<open>check_tasks\<close>. What the code reads from its
  surroundings (the clock, the random digits of an identifier, the outcome of file
  operations) is an argument of the operation that reads it. An operation that may throw
  returns the state it leaves behind beside its result.
\<close>

section \<open>State\<close>

record ScheduledTask =
  task_id :: string
  enabled :: bool
  prompt :: string
  cron :: string
  at_time :: int
  every_seconds :: int
  once :: bool
  created :: int
  last_run :: int
  next_run :: int

record AlertConfig =
  ram_threshold_percent :: int
  disk_threshold_percent :: int
  temp_threshold_c :: int
  cooldown_seconds :: int

definition default_alerts :: AlertConfig where
  "default_alerts = \<lparr>ram_threshold_percent = 85, disk_threshold_percent = 90,
     temp_threshold_c = 80, cooldown_seconds = 300\<rparr>"

record Notification =
  notif_id :: string
  notif_type :: string
  notif_title :: string
  notif_body :: string
  notif_time :: int

text \<open>The file \<^verbatim>\<open>schedules.json\<close>: missing, not JSON, or a JSON document.\<close>

datatype schedules_file = NoFile | Corrupt | Doc json

text \<open>
  \<open>inference\<close> is the callback that runs the model (\<open>Inl\<close>: it throws, with the message);
  \<open>notify_set\<close> says whether a notification callback is installed and \<open>notified\<close> what it was
  called with.
\<close>

record Scheduler =
  data_dir :: string
  sched_file :: schedules_file
  tasks :: "ScheduledTask list"
  alerts :: AlertConfig
  pending :: "Notification list"
  notified :: "Notification list"
  notify_set :: bool
  inference :: "(string \<Rightarrow> string + string) option"
  model_check_set :: bool
  start_time :: int
  last_model_alert :: int
  model_unloaded_since :: int
  last_ram_alert :: int
  last_disk_alert :: int
  last_temp_alert :: int

definition init_scheduler :: Scheduler where
  "init_scheduler = \<lparr>data_dir = [], sched_file = NoFile, tasks = [], alerts = default_alerts,
     pending = [], notified = [], notify_set = False, inference = None,
     model_check_set = False, start_time = 0, last_model_alert = 0, model_unloaded_since = 0,
     last_ram_alert = 0, last_disk_alert = 0, last_temp_alert = 0\<rparr>"

text \<open>\<open>generate_id\<close> over the eight draws from 0 to 15 the generator makes.\<close>

definition generate_id :: "nat list \<Rightarrow> string" where
  "generate_id draws = map (\<lambda>d. ''0123456789abcdef'' ! d) (take 8 draws)"

section \<open>Notifications and firing\<close>

definition push_notification :: "Notification \<Rightarrow> Scheduler \<Rightarrow> Scheduler" where
  "push_notification n s =
     (let s1 = s\<lparr>pending := pending s @ [n]\<rparr>
      in if notify_set s1 then s1\<lparr>notified := notified s1 @ [n]\<rparr> else s1)"

definition drain_notifications :: "Scheduler \<Rightarrow> Scheduler \<times> Notification list" where
  "drain_notifications s = (s\<lparr>pending := []\<rparr>, pending s)"

definition truncate_body :: "string \<Rightarrow> string" where
  "truncate_body r = (if length r > 200 then take 197 r @ ''...'' else r)"

definition run_inference :: "Scheduler \<Rightarrow> string \<Rightarrow> string" where
  "run_inference s p =
     (case inference s of
        None \<Rightarrow> ''(no inference function configured)''
      | Some f \<Rightarrow> (case f p of Inl what \<Rightarrow> ''Error: '' @ what | Inr r \<Rightarrow> r))"

definition fire_task :: "nat list \<Rightarrow> int \<Rightarrow> ScheduledTask \<Rightarrow> Scheduler \<Rightarrow> Scheduler" where
  "fire_task draws now t s =
     push_notification
       \<lparr>notif_id = generate_id draws, notif_type = ''scheduled'',
        notif_title = ''Scheduled: '' @ task_id t,
        notif_body = truncate_body (run_inference s (prompt t)), notif_time = now\<rparr> s"

text \<open>The object the notification endpoint writes to a client.\<close>

definition notification_json :: "Notification \<Rightarrow> json" where
  "notification_json n =
     jobj [(''type'', JString (notif_type n)), (''title'', JString (notif_title n)),
           (''body'', JString (notif_body n)), (''time'', JInt (notif_time n)),
           (''id'', JString (notif_id n))]"

section \<open>Persistence\<close>

text \<open>One element of the array: \<open>None\<close> for an element that is skipped.\<close>

definition loaded_next_run :: "int \<Rightarrow> ScheduledTask \<Rightarrow> int" where
  "loaded_next_run now t =
     (if cron t \<noteq> [] then compute_next_cron (cron t) now
      else if at_time t > 0 then at_time t
      else if every_seconds t > 0 then
        (if last_run t > 0 then
           (let n = last_run t + every_seconds t in if n \<le> now then now + 1 else n)
         else now + every_seconds t)
      else 0)"

definition load_task :: "int \<Rightarrow> json \<Rightarrow> ScheduledTask option result" where
  "load_task now j =
     bindE (jvalue get_string j ''id'' []) (\<lambda>i.
     bindE (jvalue get_bool j ''enabled'' True) (\<lambda>en.
     bindE (jvalue get_string j ''prompt'' []) (\<lambda>p.
     bindE (jvalue get_string j ''cron'' []) (\<lambda>c.
     bindE (jvalue get_int j ''at'' 0) (\<lambda>a.
     bindE (jvalue get_int j ''every_seconds'' 0) (\<lambda>ev.
     bindE (jvalue get_bool j ''once'' False) (\<lambda>o1.
     bindE (jvalue get_int j ''created'' 0) (\<lambda>cr.
     bindE (jvalue get_int j ''last_run'' 0) (\<lambda>lr.
       if i = [] \<or> p = [] then Inr None
       else let t = \<lparr>task_id = i, enabled = en, prompt = p, cron = c, at_time = a,
                     every_seconds = ev, once = o1, created = cr, last_run = lr, next_run = 0\<rparr>
            in Inr (Some (t\<lparr>next_run := loaded_next_run now t\<rparr>)))))))))))"

text \<open>The loop over the array: an exception leaves the tasks loaded so far.\<close>

fun load_loop :: "int \<Rightarrow> json list \<Rightarrow> ScheduledTask list \<Rightarrow> ScheduledTask list \<times> unit result" where
  "load_loop now [] acc = (acc, Inr ())"
| "load_loop now (j # js) acc =
     (case load_task now j of
        Inl e \<Rightarrow> (acc, Inl e)
      | Inr None \<Rightarrow> load_loop now js acc
      | Inr (Some t) \<Rightarrow> load_loop now js (acc @ [t]))"

definition load_tasks :: "int \<Rightarrow> Scheduler \<Rightarrow> Scheduler \<times> unit result" where
  "load_tasks now s =
     (if data_dir s = [] then (s\<lparr>tasks := []\<rparr>, Inr ())
      else case sched_file s of
          Doc (JArray js) \<Rightarrow>
            (let r = load_loop now js [] in (s\<lparr>tasks := fst r\<rparr>, snd r))
        | _ \<Rightarrow> (s\<lparr>tasks := []\<rparr>, Inr ()))"

definition set_data_dir :: "int \<Rightarrow> string \<Rightarrow> Scheduler \<Rightarrow> Scheduler \<times> unit result" where
  "set_data_dir now dir s = load_tasks now (s\<lparr>data_dir := dir\<rparr>)"

definition task_json :: "ScheduledTask \<Rightarrow> json" where
  "task_json t =
     jobj [(''id'', JString (task_id t)), (''enabled'', JBool (enabled t)),
           (''prompt'', JString (prompt t)), (''cron'', JString (cron t)),
           (''at'', JInt (at_time t)), (''every_seconds'', JInt (every_seconds t)),
           (''once'', JBool (once t)), (''created'', JInt (created t)),
           (''last_run'', JInt (last_run t))]"

text \<open>What happens to the write: the temporary file cannot be opened, the write or the rename
  fails, or the file is replaced. The text is produced after the file is open.\<close>

datatype save_io = OpenFails | WriteFails | RenameFails | Replaced

definition save_tasks :: "save_io \<Rightarrow> Scheduler \<Rightarrow> Scheduler \<times> unit result" where
  "save_tasks io s =
     (if data_dir s = [] then (s, Inr ())
      else if io = OpenFails then (s, Inr ())
      else case dump (JArray (map task_json (tasks s))) of
          Inl e \<Rightarrow> (s, Inl e)
        | Inr doc \<Rightarrow>
            (if io = Replaced then s\<lparr>sched_file := Doc (reparse doc)\<rparr> else s, Inr ()))"

section \<open>Create, list, delete, update\<close>

text \<open>What \<open>create_task\<close> reads from outside: the draws of the identifier, the clock for
  \<open>created\<close> and for the schedule, and the outcome of the save.\<close>

record sched_env =
  draws :: "nat list"
  created_now :: int
  now :: int
  save_io :: save_io

text \<open>The first run of a new or rescheduled task, 0 when it has no schedule.\<close>

definition first_run :: "int \<Rightarrow> ScheduledTask \<Rightarrow> int" where
  "first_run n t =
     (if cron t \<noteq> [] then compute_next_cron (cron t) n
      else if at_time t > 0 then at_time t
      else if every_seconds t > 0 then n + every_seconds t
      else 0)"

definition created_json :: "ScheduledTask \<Rightarrow> json" where
  "created_json t =
     jobj [(''id'', JString (task_id t)), (''enabled'', JBool (enabled t)),
           (''prompt'', JString (prompt t)), (''cron'', JString (cron t)),
           (''at'', JInt (at_time t)), (''every_seconds'', JInt (every_seconds t)),
           (''once'', JBool (once t)), (''created'', JInt (created t)),
           (''next_run'', JInt (next_run t))]"

definition full_json :: "ScheduledTask \<Rightarrow> json" where
  "full_json t =
     jobj [(''id'', JString (task_id t)), (''enabled'', JBool (enabled t)),
           (''prompt'', JString (prompt t)), (''cron'', JString (cron t)),
           (''at'', JInt (at_time t)), (''every_seconds'', JInt (every_seconds t)),
           (''once'', JBool (once t)), (''created'', JInt (created t)),
           (''last_run'', JInt (last_run t)), (''next_run'', JInt (next_run t))]"

definition create_task :: "sched_env \<Rightarrow> json \<Rightarrow> Scheduler \<Rightarrow> Scheduler \<times> json result" where
  "create_task env params s =
     (case bindE (jvalue get_string params ''prompt'' []) (\<lambda>p.
           if p = [] then Inr (Inl (json_error ''prompt is required''))
           else bindE (jvalue get_string params ''cron'' []) (\<lambda>c.
                bindE (jvalue get_i64 params ''at'' 0) (\<lambda>a.
                bindE (jvalue get_int params ''every_seconds'' 0) (\<lambda>ev.
                bindE (jvalue get_bool params ''once'' False) (\<lambda>o1.
                if c = [] \<and> a = 0 \<and> ev = 0
                then Inr (Inl (json_error ''one of cron, at, or every_seconds is required''))
                else bindE (jvalue get_bool params ''enabled'' True) (\<lambda>en.
                  Inr (Inr \<lparr>task_id = generate_id (draws env), enabled = en, prompt = p,
                            cron = c, at_time = a, every_seconds = ev, once = o1,
                            created = created_now env, last_run = 0, next_run = 0\<rparr>))))))) of
        Inl e \<Rightarrow> (s, Inl e)
      | Inr (Inl err) \<Rightarrow> (s, dump err)
      | Inr (Inr t) \<Rightarrow>
          (let t1 = t\<lparr>next_run := first_run (now env) t\<rparr>;
               s1 = s\<lparr>tasks := tasks s @ [t1]\<rparr>
           in case save_tasks (save_io env) s1 of
                (s2, Inl e) \<Rightarrow> (s2, Inl e)
              | (s2, Inr _) \<Rightarrow> (s2, dump (created_json t1))))"

definition list_tasks :: "Scheduler \<Rightarrow> json result" where
  "list_tasks s =
     dump (jobj [(''tasks'', JArray (map full_json (tasks s))),
                 (''count'', JUInt (int (length (tasks s))))])"

definition delete_task :: "sched_env \<Rightarrow> string \<Rightarrow> Scheduler \<Rightarrow> Scheduler \<times> json result" where
  "delete_task env i s =
     (case find (\<lambda>t. task_id t = i) (tasks s) of
        None \<Rightarrow> (s, dump (json_error (''task not found: '' @ i)))
      | Some _ \<Rightarrow>
          (case save_tasks (save_io env)
                  (s\<lparr>tasks := erase_first (\<lambda>t. task_id t = i) (tasks s)\<rparr>) of
             (s2, Inl e) \<Rightarrow> (s2, Inl e)
           | (s2, Inr _) \<Rightarrow> (s2, dump (jobj [(''deleted'', JBool True), (''id'', JString i)]))))"

text \<open>The assignments of \<open>update_task\<close>, one after the other: an exception leaves the fields
  assigned before it. The flag says whether the schedule changed.\<close>

definition set_field ::
  "json \<Rightarrow> string \<Rightarrow> (json \<Rightarrow> 'a result) \<Rightarrow> ('a \<Rightarrow> ScheduledTask \<Rightarrow> ScheduledTask) \<Rightarrow> bool \<Rightarrow>
   ScheduledTask \<times> bool result \<Rightarrow> ScheduledTask \<times> bool result" where
  "set_field params k get put resched r =
     (case r of
        (t, Inl e) \<Rightarrow> (t, Inl e)
      | (t, Inr changed) \<Rightarrow>
          (if contains params k then
             (case get (jmember params k) of
                Inl e \<Rightarrow> (t, Inl e)
              | Inr v \<Rightarrow> (put v t, Inr (changed \<or> resched)))
           else (t, Inr changed)))"

definition assign_fields :: "json \<Rightarrow> ScheduledTask \<Rightarrow> ScheduledTask \<times> bool result" where
  "assign_fields params t =
     set_field params ''every_seconds'' get_int (\<lambda>v t. t\<lparr>every_seconds := v\<rparr>) True
    (set_field params ''at'' get_i64 (\<lambda>v t. t\<lparr>at_time := v\<rparr>) True
    (set_field params ''cron'' get_string (\<lambda>v t. t\<lparr>cron := v\<rparr>) True
    (set_field params ''once'' get_bool (\<lambda>v t. t\<lparr>once := v\<rparr>) False
    (set_field params ''enabled'' get_bool (\<lambda>v t. t\<lparr>enabled := v\<rparr>) False
    (set_field params ''prompt'' get_string (\<lambda>v t. t\<lparr>prompt := v\<rparr>) False
      (t, Inr False))))))"

definition update_fields :: "int \<Rightarrow> json \<Rightarrow> ScheduledTask \<Rightarrow> ScheduledTask \<times> unit result" where
  "update_fields n params t =
     (case assign_fields params t of
        (t1, Inl e) \<Rightarrow> (t1, Inl e)
      | (t1, Inr changed) \<Rightarrow>
          (if changed then t1\<lparr>next_run := first_run n t1\<rparr> else t1, Inr ()))"

definition update_task ::
  "sched_env \<Rightarrow> string \<Rightarrow> json \<Rightarrow> Scheduler \<Rightarrow> Scheduler \<times> json result" where
  "update_task env i params s =
     (case find (\<lambda>t. task_id t = i) (tasks s) of
        None \<Rightarrow> (s, dump (json_error (''task not found: '' @ i)))
      | Some t \<Rightarrow>
          (let r = update_fields (now env) params t;
               s1 = s\<lparr>tasks := upd_first (\<lambda>t. task_id t = i) (\<lambda>_. fst r) (tasks s)\<rparr>
           in case snd r of
                Inl e \<Rightarrow> (s1, Inl e)
              | Inr _ \<Rightarrow>
                  (case save_tasks (save_io env) s1 of
                     (s2, Inl e) \<Rightarrow> (s2, Inl e)
                   | (s2, Inr _) \<Rightarrow> (s2, dump (full_json (fst r))))))"

definition active_task_count :: "Scheduler \<Rightarrow> nat" where
  "active_task_count s = length (filter enabled (tasks s))"

fun earliest_run :: "int \<Rightarrow> ScheduledTask list \<Rightarrow> int" where
  "earliest_run e [] = e"
| "earliest_run e (t # ts) =
     (if \<not> enabled t then earliest_run e ts
      else if next_run t \<le> 0 then earliest_run e ts
      else if e = 0 \<or> next_run t < e then earliest_run (next_run t) ts
      else earliest_run e ts)"

definition next_scheduled_time :: "Scheduler \<Rightarrow> int" where
  "next_scheduled_time s = earliest_run 0 (tasks s)"

section \<open>The three phases of check_tasks\<close>

definition due_tasks :: "int \<Rightarrow> Scheduler \<Rightarrow> ScheduledTask list" where
  "due_tasks n s = filter (\<lambda>t. enabled t \<and> \<not> next_run t \<le> 0 \<and> \<not> next_run t > n) (tasks s)"

text \<open>The update of one task that was fired; a once-task is marked for removal only.\<close>

definition after_fire :: "int \<Rightarrow> ScheduledTask \<Rightarrow> ScheduledTask" where
  "after_fire n t =
     (let t1 = t\<lparr>last_run := n\<rparr>
      in if once t1 then t1
         else if cron t1 \<noteq> [] then t1\<lparr>next_run := compute_next_cron (cron t1) n\<rparr>
         else if every_seconds t1 > 0 then t1\<lparr>next_run := n + every_seconds t1\<rparr>
         else t1\<lparr>next_run := 0, enabled := False\<rparr>)"

text \<open>The loop over the due tasks: the tasks, whether one changed, and the ids to remove.\<close>

fun finish_loop ::
  "int \<Rightarrow> ScheduledTask list \<Rightarrow> ScheduledTask list \<times> bool \<times> string list \<Rightarrow>
   ScheduledTask list \<times> bool \<times> string list" where
  "finish_loop n [] acc = acc"
| "finish_loop n (d # ds) (ts, changed, rm) =
     (case find (\<lambda>t. task_id t = task_id d) ts of
        None \<Rightarrow> finish_loop n ds (ts, changed, rm)
      | Some t \<Rightarrow>
          finish_loop n ds (upd_first (\<lambda>t. task_id t = task_id d) (after_fire n) ts, True,
            if once t then rm @ [task_id t] else rm))"

definition finish_due ::
  "int \<Rightarrow> save_io \<Rightarrow> ScheduledTask list \<Rightarrow> Scheduler \<Rightarrow> Scheduler \<times> unit result" where
  "finish_due n io due s =
     (let r = finish_loop n due (tasks s, False, []);
          ts = fold (\<lambda>i ts. erase_first (\<lambda>t. task_id t = i) ts) (snd (snd r)) (fst r);
          s1 = s\<lparr>tasks := ts\<rparr>
      in if fst (snd r) then save_tasks io s1 else (s1, Inr ()))"

text \<open>A whole check without interference: the clocks of the collection, of each notification
  and of the update.\<close>

definition fire_all :: "(nat list \<times> int) list \<Rightarrow> ScheduledTask list \<Rightarrow> Scheduler \<Rightarrow> Scheduler" where
  "fire_all envs due s = fold (\<lambda>((dr, n), t). fire_task dr n t) (zip envs due) s"

definition check_tasks ::
  "int \<Rightarrow> (nat list \<times> int) list \<Rightarrow> int \<Rightarrow> save_io \<Rightarrow> Scheduler \<Rightarrow> Scheduler \<times> unit result" where
  "check_tasks n1 envs n2 io s =
     (let due = due_tasks n1 s
      in if due = [] then (s, Inr ())
         else finish_due n2 io due (fire_all envs due s))"

end
