(* ===== verification/SchedulerFacts.thy ===== *)
theory SchedulerFacts
  imports Scheduler
begin

text \<open>
  The correctness of the scheduler: the well-formedness of the next-run times and that every
  operation keeps it, what the three phases of a check do to the task list, the round trip of
  the tasks through their file and where it loses information, and the bounds on notifications.
\<close>

section \<open>Well-formed tasks\<close>

definition task_wf :: "ScheduledTask \<Rightarrow> bool" where
  "task_wf t \<longleftrightarrow> 0 \<le> next_run t \<and>
     (next_run t > 0 \<longrightarrow> cron t \<noteq> [] \<or> at_time t > 0 \<or> every_seconds t > 0)"

definition sched_wf :: "Scheduler \<Rightarrow> bool" where
  "sched_wf s \<longleftrightarrow> list_all task_wf (tasks s)"

lemma compute_next_cron_nonneg: "0 \<le> n \<Longrightarrow> 0 \<le> compute_next_cron e n"
proof (cases "compute_next_cron e n = 0")
  case False
  assume n: "0 \<le> n"
  obtain sp where sp: "cron_parse e = Some sp"
    using False by (cases "cron_parse e") (auto simp: compute_next_cron_def)
  let ?t = "cron_start utc_localtime utc_mktime n"
  have "?t \<le> compute_next_cron e n"
    using utc.search_first [of ?t sp 0] utc.start_minute [OF n] n False
    by (simp add: compute_next_cron_def sp)
  then show ?thesis using utc.start_minute(2) [OF n] n by simp
qed simp

lemma task_wf_first_run [inv_intros]: "0 \<le> n \<Longrightarrow> task_wf (t\<lparr>next_run := first_run n t\<rparr>)"
  by (auto simp: task_wf_def first_run_def compute_next_cron_nonneg)

lemma task_wf_loaded [inv_intros]: "0 \<le> n \<Longrightarrow> task_wf (t\<lparr>next_run := loaded_next_run n t\<rparr>)"
  by (auto simp: task_wf_def loaded_next_run_def compute_next_cron_nonneg Let_def)

lemma task_wf_after_fire [inv_intros]: "0 \<le> n \<Longrightarrow> task_wf t \<Longrightarrow> task_wf (after_fire n t)"
  by (auto simp: task_wf_def after_fire_def compute_next_cron_nonneg Let_def)

text \<open>
  The assignments of an update: the next run stays, and when the schedule is reported unchanged
  its three fields are. A task keeps its well-formedness when no assignment throws.
\<close>

definition sched_fields :: "ScheduledTask \<Rightarrow> string \<times> int \<times> int \<times> int" where
  "sched_fields t = (cron t, at_time t, every_seconds t, next_run t)"

lemma set_field_keeps:
  assumes "snd (set_field ps k g put rs r) = Inr False"
    and "\<not> rs \<Longrightarrow> (\<And>v t. f (put v t) = f t)"
  shows "snd r = Inr False \<and> f (fst (set_field ps k g put rs r)) = f (fst r)"
  using assms by (cases r) (auto simp: set_field_def split: sum.splits if_splits)

lemma sched_fields_other [simp]:
  "sched_fields (t\<lparr>once := b\<rparr>) = sched_fields t"
  "sched_fields (t\<lparr>enabled := b\<rparr>) = sched_fields t"
  "sched_fields (t\<lparr>prompt := p\<rparr>) = sched_fields t"
  by (simp_all add: sched_fields_def)

lemma set_field_keepsD:
  assumes "snd (set_field ps k g put rs r) = Inr False"
    and "rs \<or> (\<forall>v t. sched_fields (put v t) = sched_fields t)"
  shows "snd r = Inr False" "sched_fields (fst (set_field ps k g put rs r)) = sched_fields (fst r)"
  using set_field_keeps [OF assms(1), of sched_fields] assms(2) by auto

lemma assign_fields_unchanged:
  assumes "snd (assign_fields ps t) = Inr False"
  shows "sched_fields (fst (assign_fields ps t)) = sched_fields t"
proof -
  note kt = set_field_keepsD [OF _ disjI1 [OF TrueI]]
  note kf = set_field_keepsD [OF _ disjI2]
  note e = kt [OF assms [unfolded assign_fields_def]]
  note a = kt [OF e(1)]
  note c = kt [OF a(1)]
  note o1 = kf [OF c(1)]
  note en = kf [OF o1(1)]
  note p = kf [OF en(1)]
  show ?thesis
    unfolding assign_fields_def
    by (simp add: e(2) a(2) c(2) o1(2) en(2) p(2))
qed

definition update_typed :: "json \<Rightarrow> bool" where
  "update_typed ps \<longleftrightarrow>
     (\<forall>t. \<not> isl (snd (assign_fields ps t)))"

lemma task_wf_update [inv_intros]:
  assumes "0 \<le> n" "task_wf t" "\<not> isl (snd (assign_fields ps t))"
  shows "task_wf (fst (update_fields n ps t))"
proof -
  obtain t1 ch where a: "assign_fields ps t = (t1, Inr ch)"
    using assms(3) by (cases "assign_fields ps t"; cases "snd (assign_fields ps t)") auto
  show ?thesis
  proof (cases ch)
    case True
    with a assms(1) show ?thesis by (simp add: update_fields_def task_wf_first_run)
  next
    case False
    with a assign_fields_unchanged [of ps t] have "sched_fields t1 = sched_fields t" by simp
    with a False assms(2) show ?thesis
      by (simp add: update_fields_def task_wf_def sched_fields_def)
  qed
qed

section \<open>The update phase of a check\<close>

lemma after_fire_same [simp]:
  "task_id (after_fire n t) = task_id t" "once (after_fire n t) = once t"
  "prompt (after_fire n t) = prompt t" "at_time (after_fire n t) = at_time t"
  by (simp_all add: after_fire_def Let_def)

text \<open>What the phase is meant to do: update the fired tasks that still exist, and drop those
  among them that run once.\<close>

definition fired :: "ScheduledTask list \<Rightarrow> ScheduledTask \<Rightarrow> bool" where
  "fired due t \<longleftrightarrow> task_id t \<in> task_id ` set due"

definition finish_spec :: "int \<Rightarrow> ScheduledTask list \<Rightarrow> ScheduledTask list \<Rightarrow> ScheduledTask list" where
  "finish_spec n due ts =
     map (\<lambda>t. if fired due t then after_fire n t else t)
       (filter (\<lambda>t. \<not> (fired due t \<and> once t)) ts)"

abbreviation upd_fired :: "int \<Rightarrow> string set \<Rightarrow> ScheduledTask list \<Rightarrow> ScheduledTask list" where
  "upd_fired n ids ts \<equiv> map (\<lambda>t. if task_id t \<in> ids then after_fire n t else t) ts"

lemma find_key:
  "distinct (map g xs) \<Longrightarrow> x \<in> set xs \<Longrightarrow> find (\<lambda>y. g y = g x) xs = Some x"
  by (induction xs) (auto simp: image_iff)

lemma finish_loop_tasks:
  assumes "distinct (map task_id ts)" "distinct (map task_id due)"
  shows "fst (finish_loop n due (ts, ch, rm)) = upd_fired n (task_id ` set due) ts"
  using assms
proof (induction due arbitrary: ts ch rm)
  case (Cons d ds)
  show ?case
  proof (cases "find (\<lambda>t. task_id t = task_id d) ts")
    case None
    then have "\<forall>t \<in> set ts. task_id t \<noteq> task_id d" by (simp add: find_None_iff)
    then have "upd_fired n (task_id ` set (d # ds)) ts = upd_fired n (task_id ` set ds) ts"
      by auto
    with Cons None show ?thesis by simp
  next
    case (Some t)
    let ?ts = "upd_first (\<lambda>t. task_id t = task_id d) (after_fire n) ts"
    have eq: "?ts = map (\<lambda>t. if task_id t = task_id d then after_fire n t else t) ts"
      using Cons.prems(1) by (rule upd_first_key)
    have "distinct (map task_id ?ts)"
      using Cons.prems(1) by (simp add: map_upd_first)
    then have "fst (finish_loop n ds (?ts, True, if once t then rm @ [task_id t] else rm))
      = upd_fired n (task_id ` set ds) ?ts"
      using Cons by simp
    also have "\<dots> = upd_fired n (task_id ` set (d # ds)) ts"
      using Cons.prems(2) unfolding eq by (auto simp: image_iff)
    finally show ?thesis using Some by simp
  qed
qed (simp add: map_idI)

lemma fired_Cons: "fired (d # ds) t \<longleftrightarrow> task_id t = task_id d \<or> fired ds t"
  by (auto simp: fired_def)

definition removed_ids :: "ScheduledTask list \<Rightarrow> ScheduledTask list \<Rightarrow> string set" where
  "removed_ids due ts = set (map task_id (filter (\<lambda>t. fired due t \<and> once t) ts))"

lemma removed_ids_upd:
  "removed_ids ds (upd_first (\<lambda>t. task_id t = i) (after_fire n) ts) = removed_ids ds ts"
proof -
  have "map task_id (filter (\<lambda>t. fired ds t \<and> once t) (upd_first (\<lambda>t. task_id t = i) (after_fire n) ts))
    = map task_id (filter (\<lambda>t. fired ds t \<and> once t) ts)"
    by (induction ts) (auto simp: fired_def)
  then show ?thesis unfolding removed_ids_def by (rule arg_cong)
qed

lemma removed_ids_Cons:
  assumes "distinct (map task_id ts)" "t \<in> set ts" "task_id t = task_id d"
  shows "removed_ids (d # ds) ts = (if once t then {task_id t} else {}) \<union> removed_ids ds ts"
proof -
  have "u = t" if "u \<in> set ts" "task_id u = task_id d" for u
    using assms that by (auto simp: distinct_map inj_on_def)
  with assms(2,3) have "{u \<in> set ts. fired (d # ds) u \<and> once u}
      = {u. u = t \<and> once t} \<union> {u \<in> set ts. fired ds u \<and> once u}"
    unfolding fired_Cons by blast
  then show ?thesis by (auto simp: removed_ids_def)
qed

lemma finish_loop_ids:
  assumes "distinct (map task_id ts)" "distinct (map task_id due)"
  shows "set (snd (snd (finish_loop n due (ts, ch, rm)))) = set rm \<union> removed_ids due ts"
  using assms
proof (induction due arbitrary: ts ch rm)
  case (Cons d ds)
  show ?case
  proof (cases "find (\<lambda>t. task_id t = task_id d) ts")
    case None
    then have "removed_ids (d # ds) ts = removed_ids ds ts"
      by (auto simp: removed_ids_def find_None_iff fired_Cons)
    with Cons None show ?thesis by simp
  next
    case (Some t)
    let ?ts = "upd_first (\<lambda>t. task_id t = task_id d) (after_fire n) ts"
    have "distinct (map task_id ?ts)"
      using Cons.prems(1) by (simp add: map_upd_first)
    with Cons have "set (snd (snd (finish_loop n ds (?ts, True, if once t then rm @ [task_id t] else rm))))
      = set (if once t then rm @ [task_id t] else rm) \<union> removed_ids ds ts"
      by (simp add: removed_ids_upd)
    with Some find_Some_mem [OF Some] removed_ids_Cons [OF Cons.prems(1), of t d ds]
    show ?thesis by simp
  qed
qed (simp add: fired_def removed_ids_def)

lemma erase_ids:
  "distinct (map task_id ts) \<Longrightarrow>
     fold (\<lambda>i ts. erase_first (\<lambda>t. task_id t = i) ts) is ts = filter (\<lambda>t. task_id t \<notin> set is) ts"
proof (induction "is" arbitrary: ts)
  case (Cons i "is")
  then have "erase_first (\<lambda>t. task_id t = i) ts = filter (\<lambda>t. task_id t \<noteq> i) ts"
    by (intro erase_first_key)
  with Cons show ?case
    by (simp add: distinct_map_filter conj_commute)
qed simp

lemma finish_due_tasks:
  assumes "distinct (map task_id (tasks s))" "distinct (map task_id due)"
  shows "tasks (fst (finish_due n io due s)) = finish_spec n due (tasks s)"
proof -
  let ?r = "finish_loop n due (tasks s, False, [])"
  let ?ids = "snd (snd ?r)"
  have map_id: "map task_id (fst ?r) = map task_id (tasks s)"
    using finish_loop_tasks [OF assms] by (simp add: o_def if_distrib cong: if_cong)
  have "fold (\<lambda>i ts. erase_first (\<lambda>t. task_id t = i) ts) ?ids (fst ?r)
      = filter (\<lambda>t. task_id t \<notin> set ?ids) (fst ?r)"
    using assms(1) map_id by (intro erase_ids) simp
  also have "\<dots> = filter (\<lambda>t. task_id t \<notin> set ?ids) (upd_fired n (task_id ` set due) (tasks s))"
    by (simp only: finish_loop_tasks [OF assms])
  also have "\<dots> = finish_spec n due (tasks s)"
  proof -
    have mem: "task_id t \<in> set ?ids \<longleftrightarrow> fired due t \<and> once t" if "t \<in> set (tasks s)" for t
      using assms(1) that finish_loop_ids [OF assms, of n False "[]"]
      by (auto simp: removed_ids_def distinct_map inj_on_def)
    have "filter (\<lambda>t. task_id t \<notin> set ?ids) (upd_fired n (task_id ` set due) (tasks s))
      = upd_fired n (task_id ` set due) (filter (\<lambda>t. task_id t \<notin> set ?ids) (tasks s))"
      by (simp add: filter_map o_def if_distrib cong: if_cong)
    also have "filter (\<lambda>t. task_id t \<notin> set ?ids) (tasks s)
      = filter (\<lambda>t. \<not> (fired due t \<and> once t)) (tasks s)"
      using mem by (intro filter_cong) auto
    finally show ?thesis by (simp add: finish_spec_def fired_def)
  qed
  finally show ?thesis
    by (auto simp: finish_due_def Let_def save_tasks_def split: sum.splits)
qed

section \<open>Every operation keeps the tasks well formed\<close>

text \<open>The operations of the class; a check is its firings and its update phase, so that other
  operations may come between them.\<close>

datatype sched_op =
    OpSetDir int string
  | OpCreate sched_env json
  | OpDelete sched_env string
  | OpUpdate sched_env string json
  | OpPush Notification
  | OpDrain
  | OpFire "nat list" int ScheduledTask
  | OpFinish int save_io "ScheduledTask list"

fun sched_apply :: "sched_op \<Rightarrow> Scheduler \<Rightarrow> Scheduler" where
  "sched_apply (OpSetDir n dir) s = fst (set_data_dir n dir s)"
| "sched_apply (OpCreate env ps) s = fst (create_task env ps s)"
| "sched_apply (OpDelete env i) s = fst (delete_task env i s)"
| "sched_apply (OpUpdate env i ps) s = fst (update_task env i ps s)"
| "sched_apply (OpPush n) s = push_notification n s"
| "sched_apply OpDrain s = fst (drain_notifications s)"
| "sched_apply (OpFire dr n t) s = fire_task dr n t s"
| "sched_apply (OpFinish n io due) s = fst (finish_due n io due s)"

fun sched_legal :: "sched_op \<Rightarrow> bool" where
  "sched_legal (OpSetDir n dir) = (0 \<le> n)"
| "sched_legal (OpCreate env ps) = (0 \<le> now env)"
| "sched_legal (OpUpdate env i ps) = (0 \<le> now env \<and> update_typed ps)"
| "sched_legal (OpFinish n io due) = (0 \<le> n)"
| "sched_legal _ = True"

lemma save_tasks_tasks [simp]: "tasks (fst (save_tasks io s)) = tasks s"
  by (auto simp: save_tasks_def split: sum.splits)

lemma save_tasks_tasksD: "save_tasks io s = (s', r) \<Longrightarrow> tasks s' = tasks s"
  using save_tasks_tasks [of io s] by simp

lemma push_notification_tasks [simp]: "tasks (push_notification n s) = tasks s"
  by (simp add: push_notification_def Let_def)

lemma fire_task_tasks [simp]: "tasks (fire_task dr n t s) = tasks s"
  by (simp add: fire_task_def)

lemma drain_tasks [simp]: "tasks (fst (drain_notifications s)) = tasks s"
  by (simp add: drain_notifications_def)

lemma fire_all_tasks [simp]: "tasks (fire_all envs due s) = tasks s"
proof -
  have "tasks (fold (\<lambda>((dr, n), t). fire_task dr n t) xs s) = tasks s" for xs
    by (induction xs arbitrary: s) (auto split: prod.splits)
  then show ?thesis by (simp add: fire_all_def)
qed

lemma task_wfI:
  "0 \<le> n \<Longrightarrow> next_run t = loaded_next_run n u \<or> next_run t = first_run n u \<Longrightarrow>
     cron t = cron u \<Longrightarrow> at_time t = at_time u \<Longrightarrow> every_seconds t = every_seconds u \<Longrightarrow> task_wf t"
  by (auto simp: task_wf_def loaded_next_run_def first_run_def compute_next_cron_nonneg Let_def
      split: if_splits)

lemma load_task_wf: "0 \<le> n \<Longrightarrow> load_task n j = Inr (Some t) \<Longrightarrow> task_wf t"
  by (auto simp: load_task_def bindE_Inr_iff Let_def split: if_splits intro!: task_wfI)

lemma load_loop_wf:
  "0 \<le> n \<Longrightarrow> list_all task_wf acc \<Longrightarrow> list_all task_wf (fst (load_loop n js acc))"
proof (induction n js acc rule: load_loop.induct)
  case (2 n j js acc)
  then show ?case by (auto split: sum.splits option.splits dest: load_task_wf)
qed simp

lemma wf_set_data_dir: "0 \<le> n \<Longrightarrow> sched_wf (fst (set_data_dir n dir s))"
  by (auto simp: sched_wf_def set_data_dir_def load_tasks_def Let_def load_loop_wf
      split: schedules_file.splits json.splits)

lemma wf_create_task: "0 \<le> now env \<Longrightarrow> sched_wf s \<Longrightarrow> sched_wf (fst (create_task env ps s))"
  by (auto simp: create_task_def sched_wf_def Let_def task_wf_first_run
      split: sum.splits prod.splits dest!: save_tasks_tasksD)

lemma list_all_erase_first: "list_all P xs \<Longrightarrow> list_all P (erase_first q xs)"
  by (auto simp: list_all_iff dest: in_erase_first)

lemma wf_delete_task: "sched_wf s \<Longrightarrow> sched_wf (fst (delete_task env i s))"
  by (auto simp: delete_task_def sched_wf_def list_all_erase_first
      split: sum.splits prod.splits option.splits dest!: save_tasks_tasksD)

lemma list_all_upd_first: "list_all P xs \<Longrightarrow> (\<And>x. P x \<Longrightarrow> P (f x)) \<Longrightarrow> list_all P (upd_first q f xs)"
  by (induction xs) auto

lemma wf_update_task:
  assumes "0 \<le> now env" "update_typed ps" "sched_wf s"
  shows "sched_wf (fst (update_task env i ps s))"
proof (cases "find (\<lambda>t. task_id t = i) (tasks s)")
  case None
  with assms show ?thesis by (simp add: update_task_def)
next
  case (Some t)
  then have "task_wf t" using assms(3) by (auto simp: sched_wf_def list_all_iff dest: find_Some_mem)
  then have "task_wf (fst (update_fields (now env) ps t))"
    using assms by (intro task_wf_update) (auto simp: update_typed_def)
  then have "list_all task_wf (upd_first (\<lambda>t. task_id t = i) (\<lambda>_. fst (update_fields (now env) ps t)) (tasks s))"
    using assms(3) by (intro list_all_upd_first) (auto simp: sched_wf_def)
  with Some show ?thesis
    by (auto simp: update_task_def sched_wf_def Let_def split: sum.splits prod.splits
        dest!: save_tasks_tasksD)
qed

lemma finish_loop_wf:
  "0 \<le> n \<Longrightarrow> list_all task_wf ts \<Longrightarrow> list_all task_wf (fst (finish_loop n due (ts, ch, rm)))"
proof (induction due arbitrary: ts ch rm)
  case (Cons d ds)
  have "list_all task_wf (upd_first (\<lambda>t. task_id t = task_id d) (after_fire n) ts)"
    using Cons.prems by (intro list_all_upd_first task_wf_after_fire)
  with Cons show ?case by (simp split: option.splits)
qed simp

lemma wf_finish_due: "0 \<le> n \<Longrightarrow> sched_wf s \<Longrightarrow> sched_wf (fst (finish_due n io due s))"
proof -
  assume n: "0 \<le> n" "sched_wf s"
  have "list_all task_wf ts \<Longrightarrow>
      list_all task_wf (fold (\<lambda>i ts. erase_first (\<lambda>t. task_id t = i) ts) is ts)" for "is" ts
    by (induction "is" arbitrary: ts) (auto intro: list_all_erase_first)
  with n finish_loop_wf [of n "tasks s" due False "[]"] show ?thesis
    by (auto simp: finish_due_def sched_wf_def Let_def)
qed

interpretation sched: reachable_system sched_apply sched_wf sched_legal init_scheduler
proof (unfold_locales, goal_cases)
  case (1 s x)
  then show ?case
    by (cases x) (auto simp: wf_set_data_dir wf_create_task wf_delete_task wf_update_task
        wf_finish_due, auto simp: sched_wf_def)
next
  case 2
  show ?case by (simp add: sched_wf_def init_scheduler_def)
qed

section \<open>Properties\<close>


definition ex_env :: sched_env where
  "ex_env = \<lparr>draws = [10, 11, 12, 13, 1, 2, 3, 4], created_now = 1000, now = 1000, save_io = Replaced\<rparr>"

definition ex_params :: json where
  "ex_params = jobj [(''prompt'', JString ''hi''), (''every_seconds'', JUInt 60)]"

definition ex_task :: ScheduledTask where
  "ex_task = \<lparr>task_id = ''abcd1234'', enabled = True, prompt = ''hi'', cron = [], at_time = 0,
     every_seconds = 60, once = False, created = 1000, last_run = 0, next_run = 1060\<rparr>"

lemma ex_create: "tasks (fst (create_task ex_env ex_params s)) = tasks s @ [ex_task]"
  by (simp add: create_task_def ex_params_def ex_env_def cpp_simps generate_id_def first_run_def
      Let_def ex_task_def split: prod.splits sum.splits) (auto dest: save_tasks_tasksD)




lemma after_fire_not_due:
  assumes "0 \<le> n" "\<not> once t"
  shows "\<not> (enabled (after_fire n t) \<and> 0 < next_run (after_fire n t) \<and> next_run (after_fire n t) \<le> n)"
proof (cases "cron t = []")
  case False
  have "compute_next_cron (cron t) n = 0 \<or> n < compute_next_cron (cron t) n"
  proof (cases "cron_parse (cron t)")
    case (Some sp)
    let ?t = "cron_start utc_localtime utc_mktime n"
    show ?thesis
      using utc.search_first [of ?t sp 0] utc.start_minute [OF assms(1)] assms(1)
      by (auto simp: compute_next_cron_def Some) (meson less_le_trans)
  qed (simp add: compute_next_cron_def)
  with False assms show ?thesis by (auto simp: after_fire_def Let_def)
qed (use assms in \<open>auto simp: after_fire_def Let_def\<close>)

text \<open>
  a check that is not interfered with handles every due task: at its time of update no
  task that was due is due again, so nothing is fired twice.
\<close>

theorem check_tasks_no_refire:
  assumes "0 \<le> n" "distinct (map task_id (tasks s))"
  shows "due_tasks n (fst (check_tasks n envs n io s)) = []"
proof (cases "due_tasks n s = []")
  case True
  then show ?thesis by (simp add: check_tasks_def)
next
  case False
  let ?due = "due_tasks n s"
  have d: "distinct (map task_id ?due)"
    using assms(2) by (simp add: due_tasks_def distinct_map_filter)
  have "tasks (fst (check_tasks n envs n io s)) = finish_spec n ?due (tasks s)"
    using False assms(2) d by (simp add: check_tasks_def finish_due_tasks Let_def)
  moreover have "\<not> (enabled u \<and> 0 < next_run u \<and> next_run u \<le> n)"
    if u: "u \<in> set (finish_spec n ?due (tasks s))" for u
  proof -
    from u obtain t where t: "t \<in> set (tasks s)" "\<not> (fired ?due t \<and> once t)"
      "u = (if fired ?due t then after_fire n t else t)"
      by (auto simp: finish_spec_def)
    show ?thesis
    proof (cases "fired ?due t")
      case True
      with t after_fire_not_due [OF assms(1)] show ?thesis by simp
    next
      case nf: False
      with t(1) have "t \<notin> set ?due" by (auto simp: fired_def)
      with t nf show ?thesis by (auto simp: due_tasks_def)
    qed
  qed
  ultimately show ?thesis
    by (subst due_tasks_def) (force simp: filter_empty_conv)
qed

theorem check_tasks_no_refire_witness:
  "due_tasks 5000 (init_scheduler\<lparr>tasks := [ex_task]\<rparr>) = [ex_task]
   \<and> due_tasks 5000 (fst (check_tasks 5000 [([], 5000)] 5000 OpenFails
         (init_scheduler\<lparr>tasks := [ex_task]\<rparr>))) = []"
proof -
  have "due_tasks 5000 (init_scheduler\<lparr>tasks := [ex_task]\<rparr>) = [ex_task]"
    by (simp add: due_tasks_def ex_task_def)
  with check_tasks_no_refire [of 5000 "init_scheduler\<lparr>tasks := [ex_task]\<rparr>" "[([], 5000)]" OpenFails]
  show ?thesis by simp
qed

definition storable :: "ScheduledTask \<Rightarrow> bool" where
  "storable t \<longleftrightarrow> task_id t \<noteq> [] \<and> prompt t \<noteq> [] \<and>
     utf8_ok (task_id t) \<and> utf8_ok (prompt t) \<and> utf8_ok (cron t) \<and>
     list_all (\<lambda>i. - (2 ^ 31) \<le> i \<and> i < 2 ^ 31)
       [at_time t, every_seconds t, created t, last_run t]"

lemma get_int_reparse: "- (2 ^ 31) \<le> i \<Longrightarrow> i < 2 ^ 31 \<Longrightarrow> get_int (reparse (JInt i)) = Inr i"
  by (simp add: cpp_simps)

lemma load_task_saved:
  assumes "storable t"
  shows "load_task n (reparse (task_json t)) = Inr (Some (t\<lparr>next_run := loaded_next_run n t\<rparr>))"
proof -
  have "loaded_next_run n (t\<lparr>next_run := 0\<rparr>) = loaded_next_run n t"
    by (simp add: loaded_next_run_def)
  with assms show ?thesis
    by (cases t) (simp add: load_task_def task_json_def cpp_simps storable_def Let_def del: reparse.simps
        add: get_int_reparse reparse.simps(4-))
qed

lemma load_loop_saved:
  "list_all storable ts \<Longrightarrow> load_loop n (map (reparse \<circ> task_json) ts) acc
    = (acc @ map (\<lambda>t. t\<lparr>next_run := loaded_next_run n t\<rparr>) ts, Inr ())"
  by (induction ts arbitrary: acc) (simp_all add: load_task_saved)

lemma task_json_dump_ok: "storable t \<Longrightarrow> dump_ok (task_json t)"
  by (simp add: task_json_def jobj_def storable_def utf8_ok_ascii)

text \<open>
  C40: saving the tasks and loading them again gives every task back with its next run
  recomputed, when the directory is set, the write succeeds, the texts are UTF-8, the identifier
  and prompt are not empty and the times fit 32 bits.
\<close>

theorem save_load_roundtrip:
  assumes "data_dir s \<noteq> []" "list_all storable (tasks s)"
  shows "tasks (fst (load_tasks n (fst (save_tasks Replaced s))))
    = map (\<lambda>t. t\<lparr>next_run := loaded_next_run n t\<rparr>) (tasks s)"
proof -
  have "list_all dump_ok (map task_json (tasks s))"
    using assms(2) by (auto simp: list_all_iff task_json_dump_ok)
  then have "fst (save_tasks Replaced s)
      = s\<lparr>sched_file := Doc (JArray (map (reparse \<circ> task_json) (tasks s)))\<rparr>"
    using assms(1) by (simp add: save_tasks_def dump_def)
  with assms show ?thesis
    by (simp add: load_tasks_def load_loop_saved)
qed

theorem save_load_roundtrip_witness:
  "tasks (fst (load_tasks 5000 (fst (save_tasks Replaced
      (init_scheduler\<lparr>data_dir := ''/d'', tasks := [ex_task]\<rparr>)))))
     = [ex_task\<lparr>next_run := 5060\<rparr>]"
proof -
  have "storable ex_task"
    by (simp add: storable_def ex_task_def utf8_ok_ascii)
  then show ?thesis
    using save_load_roundtrip [of "init_scheduler\<lparr>data_dir := ''/d'', tasks := [ex_task]\<rparr>" 5000]
    by (simp add: loaded_next_run_def ex_task_def)
qed

lemma to_i32_wraps: "2 ^ 31 \<le> x \<Longrightarrow> x < 2 ^ 32 \<Longrightarrow> to_i32 x = x - 2 ^ 32"
proof -
  assume x: "2 ^ 31 \<le> x" "x < 2 ^ 32"
  have "(word_of_int (x - 2 ^ 32) :: 32 word) = word_of_int x"
    by (simp add: word_of_int_eq_iff take_bit_eq_mod)
  then have "to_i32 x = to_i32 (x - 2 ^ 32)" by (simp only: to_i32_def)
  also have "\<dots> = x - 2 ^ 32" using x by (intro to_i32_id) simp_all
  finally show ?thesis .
qed

text \<open>
  the one-shot time is loaded through a 32-bit integer: a task for a time between 2^31 and
  2^32 (from January 2038 on) comes back with a negative time and no next run, so it never
  fires.
\<close>

theorem load_loses_times_after_2038:
  assumes "task_id t \<noteq> []" "prompt t \<noteq> []" "cron t = []" "every_seconds t = 0"
    and "2 ^ 31 \<le> at_time t" "at_time t < 2 ^ 32"
  shows "\<exists>u. load_task n (reparse (task_json t)) = Inr (Some u)
    \<and> at_time u = at_time t - 2 ^ 32 \<and> next_run u = 0"
  using assms
  by (cases t) (simp add: load_task_def task_json_def cpp_simps Let_def loaded_next_run_def
      to_i32_wraps del: reparse.simps(1) add: reparse.simps(1))

theorem load_loses_times_after_2038_witness:
  "\<exists>u. load_task 5000 (reparse (task_json (ex_task\<lparr>every_seconds := 0, at_time := 2147483648\<rparr>)))
      = Inr (Some u) \<and> at_time u = - 2147483648 \<and> next_run u = 0"
  using load_loses_times_after_2038 [of "ex_task\<lparr>every_seconds := 0, at_time := 2147483648\<rparr>" 5000]
  by (simp add: ex_task_def)

text \<open>
  the body of a notification has at most 200 bytes and is the whole result or its first 197
  bytes and an ellipsis; but the cut may split a character, and then the notification of a
  result that is UTF-8 cannot be dumped: writing it to the clients throws.
\<close>

theorem truncated_notification_not_utf8:
  "(\<forall>r. length (truncate_body r) \<le> 200)
   \<and> utf8_ok (concat (replicate 101 e_acute))
   \<and> \<not> dump_ok (notification_json (n\<lparr>notif_body := truncate_body (concat (replicate 101 e_acute))\<rparr>))"
proof -
  have r: "replicate 101 e_acute = replicate 98 e_acute @ [e_acute, e_acute, e_acute]"
    by (simp add: eval_nat_numeral)
  have len: "length (concat (replicate k e_acute)) = 2 * k" for k
    by (induction k) (simp_all add: e_acute_def)
  have "take 197 (concat (replicate 101 e_acute)) = concat (replicate 98 e_acute) @ [CHR 0xC3]"
    unfolding r concat_append by (simp add: len) (simp add: e_acute_def)
  then have t: "truncate_body (concat (replicate 101 e_acute))
      = concat (replicate 98 e_acute) @ [CHR 0xC3] @ ''...''"
    by (simp add: truncate_body_def len)
  have "\<not> utf8_ok (truncate_body (concat (replicate 101 e_acute)))"
    unfolding t utf8_ok_def utf8_run_e_acutes by (simp add: e_acute_decode)
  moreover have "utf8_ok (concat (replicate 101 e_acute))"
    using utf8_run_e_acutes [of 101 "[]"] by (simp add: utf8_ok_def)
  moreover have "length (truncate_body r) \<le> 200" for r
    by (simp add: truncate_body_def)
  ultimately show ?thesis
    by (simp add: notification_json_def jobj_def)
qed

text \<open>
  the update phase disables a fired task that has only a one-shot time, whatever that time
  is by then: a new time given while the task was firing is kept in the task but never runs.
\<close>

theorem finish_due_loses_new_time:
  assumes "distinct (map task_id (tasks s))" "t \<in> set (tasks s)" "task_id d = task_id t"
    and "cron t = []" "every_seconds t \<le> 0" "\<not> once t"
  shows "\<exists>u \<in> set (tasks (fst (finish_due n io [d] s))).
    task_id u = task_id t \<and> at_time u = at_time t \<and> next_run u = 0 \<and> \<not> enabled u"
proof -
  have f: "fired [d] t" using assms(3) by (simp add: fired_def)
  have "after_fire n t \<in> set (finish_spec n [d] (tasks s))"
    using assms(2,6) f unfolding finish_spec_def by (auto intro!: image_eqI [of _ _ t])
  moreover have "next_run (after_fire n t) = 0 \<and> \<not> enabled (after_fire n t)"
    using assms(4-6) by (simp add: after_fire_def Let_def)
  ultimately show ?thesis
    using assms(1) by (intro bexI [of _ "after_fire n t"]) (simp_all add: finish_due_tasks)
qed

theorem finish_due_loses_new_time_witness:
  "\<exists>u \<in> set (tasks (fst (finish_due 2000 OpenFails [ex_task]
       (init_scheduler\<lparr>tasks := [ex_task\<lparr>every_seconds := 0, at_time := 9000, next_run := 9000\<rparr>]\<rparr>)))).
     task_id u = ''abcd1234'' \<and> at_time u = 9000 \<and> next_run u = 0 \<and> \<not> enabled u"
  using finish_due_loses_new_time
    [of "init_scheduler\<lparr>tasks := [ex_task\<lparr>every_seconds := 0, at_time := 9000, next_run := 9000\<rparr>]\<rparr>"
      "ex_task\<lparr>every_seconds := 0, at_time := 9000, next_run := 9000\<rparr>" ex_task 2000 OpenFails]
  by (simp add: ex_task_def)

lemma Min_absorb: "finite R \<Longrightarrow> n \<le> e \<Longrightarrow> Min (insert e (insert n R)) = Min (insert (n::int) R)"
  by (metis Min_insert Min_le finite_insert insertI1 insert_not_empty min.absorb2 order_trans)

abbreviation coming_runs :: "ScheduledTask list \<Rightarrow> int set" where
  "coming_runs ts \<equiv> {next_run t |t. t \<in> set ts \<and> enabled t \<and> 0 < next_run t}"

lemma earliest_run_spec:
  assumes "0 < e"
  shows "earliest_run e ts = Min (insert e (coming_runs ts))"
  using assms
proof (induction ts arbitrary: e)
  case (Cons t ts)
  have fin: "finite (coming_runs ts)" by simp
  have ins: "coming_runs (t # ts)
      = (if enabled t \<and> 0 < next_run t then insert (next_run t) (coming_runs ts) else coming_runs ts)"
    by auto
  show ?case
  proof (cases "enabled t \<and> 0 < next_run t")
    case True
    with Cons Min_absorb [OF fin, of "next_run t" e] Min_absorb [OF fin, of e "next_run t"]
    show ?thesis unfolding ins by (simp add: insert_commute)
  next
    case False
    with Cons show ?thesis unfolding ins by auto
  qed
qed simp

lemma earliest_run_0:
  "earliest_run 0 ts = (if coming_runs ts = {} then 0 else Min (coming_runs ts))"
proof (induction ts)
  case (Cons t ts)
  have ins: "coming_runs (t # ts)
      = (if enabled t \<and> 0 < next_run t then insert (next_run t) (coming_runs ts) else coming_runs ts)"
    by auto
  show ?case
  proof (cases "enabled t \<and> 0 < next_run t")
    case True
    then show ?thesis unfolding ins by (simp add: earliest_run_spec)
  next
    case False
    then have "earliest_run 0 (t # ts) = earliest_run 0 ts" by auto
    with False Cons show ?thesis unfolding ins by (simp only: if_False)
  qed
qed simp

text \<open>
  the next scheduled time is the least positive next run of an enabled task, or 0 when there
  is none.
\<close>

theorem next_scheduled_time_least:
  "next_scheduled_time s =
    (let rs = {next_run t |t. t \<in> set (tasks s) \<and> enabled t \<and> 0 < next_run t}
     in if rs = {} then 0 else Min rs)"
  by (simp only: next_scheduled_time_def earliest_run_0 Let_def)

end
