(* ===== verification/SchedulerAlerts.thy ===== *)
theory SchedulerAlerts
  imports Scheduler
begin

text \<open>
  \<open>Scheduler::check_alerts\<close> of \<^verbatim>\<open>scheduler.cpp\<close>: the RAM, disk, model and temperature checks
  with their cooldowns, the arithmetic at the width of the C++ types. The theorems: the spacing
  of alerts, when the RAM alert is raised and where its arithmetic overflows, and that the model
  alert is raised only after a sustained absence of the model.
\<close>

section \<open>The checks\<close>

text \<open>What one run reads: the clock, \<open>read_meminfo_kb\<close>, \<open>statvfs\<close> (blocks, fragment size, free
  blocks), the two calls of the model check, the text of the thermal zone, and the draws of the
  identifiers.\<close>

record alert_env =
  a_now :: int
  mem_total :: int
  mem_avail :: int
  vfs :: "(int \<times> int \<times> int) option"
  loaded1 :: bool
  loaded2 :: bool
  temp_str :: string
  d_ram :: "nat list"
  d_disk :: "nat list"
  d_model :: "nat list"
  d_temp :: "nat list"

definition push_alert :: "nat list \<Rightarrow> string \<Rightarrow> string \<Rightarrow> int \<Rightarrow> Scheduler \<Rightarrow> Scheduler" where
  "push_alert dr title body n s =
     push_notification \<lparr>notif_id = generate_id dr, notif_type = ''alert'', notif_title = title,
       notif_body = body, notif_time = n\<rparr> s"

definition ram_used_pct :: "int \<Rightarrow> int \<Rightarrow> int" where
  "ram_used_pct total_kb avail_kb = tdiv (to_i32 (to_i32 (total_kb - avail_kb) * 100)) total_kb"

definition check_ram :: "alert_env \<Rightarrow> Scheduler \<Rightarrow> Scheduler" where
  "check_ram e s =
     (if ram_threshold_percent (alerts s) > 0 then
        if mem_total e > 0 \<and> mem_avail e \<ge> 0 then
          let used = to_i32 (mem_total e - mem_avail e);
              pct = ram_used_pct (mem_total e) (mem_avail e)
          in if pct \<ge> ram_threshold_percent (alerts s) then
               if a_now e - last_ram_alert s \<ge> cooldown_seconds (alerts s) then
                 push_alert (d_ram e) ''High RAM Usage''
                   (''RAM usage at '' @ show_int pct @ ''% ('' @ show_int (tdiv used 1024) @ '' MB / ''
                     @ show_int (tdiv (mem_total e) 1024) @ '' MB used)'')
                   (a_now e) (s\<lparr>last_ram_alert := a_now e\<rparr>)
               else s
             else s
        else s
      else s)"

definition check_disk :: "alert_env \<Rightarrow> Scheduler \<Rightarrow> Scheduler" where
  "check_disk e s =
     (if disk_threshold_percent (alerts s) > 0 then
        case vfs e of
          None \<Rightarrow> s
        | Some (blocks, frsize, bfree) \<Rightarrow>
            if blocks > 0 then
              let total = to_u64 (blocks * frsize); free_bytes = to_u64 (bfree * frsize);
                  used = to_u64 (total - free_bytes);
                  pct = to_i32 (to_u64 (used * 100) div total)
              in if pct \<ge> disk_threshold_percent (alerts s) then
                   if a_now e - last_disk_alert s \<ge> cooldown_seconds (alerts s) then
                     push_alert (d_disk e) ''High Disk Usage''
                       (''Disk usage at '' @ show_int pct @ ''% ('' @ show_int (used div (1024 * 1024))
                         @ '' MB / '' @ show_int (total div (1024 * 1024)) @ '' MB used)'')
                       (a_now e) (s\<lparr>last_disk_alert := a_now e\<rparr>)
                   else s
                 else s
            else s
      else s)"

definition track_model :: "alert_env \<Rightarrow> Scheduler \<Rightarrow> Scheduler" where
  "track_model e s =
     (if model_check_set s then
        if loaded1 e then s\<lparr>model_unloaded_since := 0\<rparr>
        else if model_unloaded_since s = 0 then s\<lparr>model_unloaded_since := a_now e\<rparr>
        else s
      else s)"

definition model_body :: string where
  "model_body = ''Chat is unavailable. Go to Dashboard '' @ [CHR 0xE2, CHR 0x86, CHR 0x92]
     @ '' Download a model to enable AI.''"

definition check_model :: "alert_env \<Rightarrow> Scheduler \<Rightarrow> Scheduler" where
  "check_model e s0 =
     (let s = track_model e s0
      in if model_check_set s \<and> start_time s > 0 \<and> a_now e - start_time s \<ge> 60 \<and> \<not> loaded2 e
            \<and> model_unloaded_since s > 0 \<and> a_now e - model_unloaded_since s \<ge> 120
            \<and> a_now e - last_model_alert s \<ge> 1800
         then push_alert (d_model e) ''No AI Model Loaded'' model_body (a_now e)
                (s\<lparr>last_model_alert := a_now e\<rparr>)
         else s)"

definition check_temp :: "alert_env \<Rightarrow> Scheduler \<Rightarrow> Scheduler" where
  "check_temp e s =
     (if temp_threshold_c (alerts s) > 0 then
        if temp_str e \<noteq> [] then
          case strtol (temp_str e) of
            None \<Rightarrow> s
          | Some (milli_c, rest, erange) \<Rightarrow>
              if \<not> erange then
                let temp_c = to_i32 (tdiv milli_c 1000)
                in if temp_c \<ge> temp_threshold_c (alerts s) then
                     if a_now e - last_temp_alert s \<ge> cooldown_seconds (alerts s) then
                       push_alert (d_temp e) ''High CPU Temperature''
                         (''CPU temperature at '' @ show_int temp_c @ '' C (threshold: ''
                           @ show_int (temp_threshold_c (alerts s)) @ '' C)'')
                         (a_now e) (s\<lparr>last_temp_alert := a_now e\<rparr>)
                     else s
                   else s
              else s
        else s
      else s)"

definition check_alerts :: "alert_env \<Rightarrow> Scheduler \<Rightarrow> Scheduler" where
  "check_alerts e s = check_temp e (check_model e (check_disk e (check_ram e s)))"

section \<open>Throttled logs\<close>

text \<open>The interface of a check that logs at most once in a gap of time: an entry is made only
  when the gap since the last one has passed.\<close>

locale throttled =
  fixes chk :: "'e \<Rightarrow> 's \<Rightarrow> 's" and log :: "'s \<Rightarrow> int list" and last :: "'s \<Rightarrow> int"
    and gap :: "'s \<Rightarrow> int"
  assumes step: "(log (chk e s) = log s \<and> last (chk e s) = last s)
      \<or> (\<exists>n. n - last s \<ge> gap s \<and> log (chk e s) = log s @ [n] \<and> last (chk e s) = n)"
    and gap_kept: "gap (chk e s) = gap s"
begin

definition spaced :: "'s \<Rightarrow> bool" where
  "spaced s \<longleftrightarrow> sorted_wrt (\<lambda>a b. a + gap s \<le> b) (log s) \<and> (\<forall>a \<in> set (log s). a \<le> last s)"

lemma spaced_step: "0 \<le> gap s \<Longrightarrow> spaced s \<Longrightarrow> spaced (chk e s)"
  using step [where e = e and s = s]
  by (auto simp: spaced_def gap_kept sorted_wrt_append) (drule (1) bspec, linarith)+

lemma spaced_run: "0 \<le> gap s \<Longrightarrow> spaced s \<Longrightarrow> spaced (fold chk es s) \<and> gap (fold chk es s) = gap s"
  by (induction es arbitrary: s) (simp_all add: spaced_step gap_kept)

lemma run_spaced:
  "0 \<le> gap s \<Longrightarrow> log s = [] \<Longrightarrow> sorted_wrt (\<lambda>a b. a + gap s \<le> b) (log (fold chk es s))"
  using spaced_run [of s es] by (auto simp: spaced_def)

end

definition alert_times :: "string \<Rightarrow> Scheduler \<Rightarrow> int list" where
  "alert_times title s = map notif_time (filter (\<lambda>n. notif_title n = title) (pending s))"

lemma push_alert_simps [simp]:
  "alert_times title (push_alert dr ti b n s)
     = alert_times title s @ (if ti = title then [n] else [])"
  "alerts (push_alert dr ti b n s) = alerts s"
  "last_ram_alert (push_alert dr ti b n s) = last_ram_alert s"
  "last_disk_alert (push_alert dr ti b n s) = last_disk_alert s"
  "last_temp_alert (push_alert dr ti b n s) = last_temp_alert s"
  "last_model_alert (push_alert dr ti b n s) = last_model_alert s"
  "model_unloaded_since (push_alert dr ti b n s) = model_unloaded_since s"
  "model_check_set (push_alert dr ti b n s) = model_check_set s"
  by (simp_all add: push_alert_def push_notification_def alert_times_def Let_def)

lemma alert_times_upd [simp]:
  "alert_times title (s\<lparr>last_ram_alert := n\<rparr>) = alert_times title s"
  "alert_times title (s\<lparr>last_disk_alert := n\<rparr>) = alert_times title s"
  "alert_times title (s\<lparr>last_temp_alert := n\<rparr>) = alert_times title s"
  "alert_times title (s\<lparr>last_model_alert := n\<rparr>) = alert_times title s"
  "alert_times title (s\<lparr>model_unloaded_since := n\<rparr>) = alert_times title s"
  by (simp_all add: alert_times_def)

text \<open>What each check leaves alone.\<close>

lemma check_ram_frame [simp]:
  "alerts (check_ram e s) = alerts s"
  "last_disk_alert (check_ram e s) = last_disk_alert s"
  "last_temp_alert (check_ram e s) = last_temp_alert s"
  "last_model_alert (check_ram e s) = last_model_alert s"
  "model_unloaded_since (check_ram e s) = model_unloaded_since s"
  "model_check_set (check_ram e s) = model_check_set s"
  "ti \<noteq> ''High RAM Usage'' \<Longrightarrow> alert_times ti (check_ram e s) = alert_times ti s"
  by (simp_all add: check_ram_def Let_def)

lemma check_disk_frame [simp]:
  "alerts (check_disk e s) = alerts s"
  "last_ram_alert (check_disk e s) = last_ram_alert s"
  "last_temp_alert (check_disk e s) = last_temp_alert s"
  "last_model_alert (check_disk e s) = last_model_alert s"
  "model_unloaded_since (check_disk e s) = model_unloaded_since s"
  "model_check_set (check_disk e s) = model_check_set s"
  "ti \<noteq> ''High Disk Usage'' \<Longrightarrow> alert_times ti (check_disk e s) = alert_times ti s"
  by (simp_all add: check_disk_def Let_def split: option.splits)

lemma check_model_frame [simp]:
  "alerts (check_model e s) = alerts s"
  "last_ram_alert (check_model e s) = last_ram_alert s"
  "last_disk_alert (check_model e s) = last_disk_alert s"
  "last_temp_alert (check_model e s) = last_temp_alert s"
  "model_check_set (check_model e s) = model_check_set s"
  "ti \<noteq> ''No AI Model Loaded'' \<Longrightarrow> alert_times ti (check_model e s) = alert_times ti s"
  by (simp_all add: check_model_def track_model_def Let_def)

lemma check_temp_frame [simp]:
  "alerts (check_temp e s) = alerts s"
  "last_ram_alert (check_temp e s) = last_ram_alert s"
  "last_disk_alert (check_temp e s) = last_disk_alert s"
  "last_model_alert (check_temp e s) = last_model_alert s"
  "model_unloaded_since (check_temp e s) = model_unloaded_since s"
  "model_check_set (check_temp e s) = model_check_set s"
  "ti \<noteq> ''High CPU Temperature'' \<Longrightarrow> alert_times ti (check_temp e s) = alert_times ti s"
  by (simp_all add: check_temp_def Let_def split: option.splits)

interpretation ram: throttled check_alerts "alert_times ''High RAM Usage''" last_ram_alert
  "\<lambda>s. cooldown_seconds (alerts s)"
  by unfold_locales (auto simp: check_alerts_def check_ram_def Let_def)

interpretation disk: throttled check_alerts "alert_times ''High Disk Usage''" last_disk_alert
  "\<lambda>s. cooldown_seconds (alerts s)"
proof (unfold_locales, goal_cases)
  case (1 e s)
  define s1 where "s1 = check_ram e s"
  have "alert_times ''High Disk Usage'' s1 = alert_times ''High Disk Usage'' s"
    "last_disk_alert s1 = last_disk_alert s" "alerts s1 = alerts s"
    by (simp_all add: s1_def)
  then show ?case
    by (auto simp: check_alerts_def check_disk_def Let_def simp flip: s1_def split: option.splits)
qed (simp add: check_alerts_def)

interpretation temp: throttled check_alerts "alert_times ''High CPU Temperature''" last_temp_alert
  "\<lambda>s. cooldown_seconds (alerts s)"
proof (unfold_locales, goal_cases)
  case (1 e s)
  define s1 where "s1 = check_model e (check_disk e (check_ram e s))"
  have "alert_times ''High CPU Temperature'' s1 = alert_times ''High CPU Temperature'' s"
    "last_temp_alert s1 = last_temp_alert s" "alerts s1 = alerts s"
    by (simp_all add: s1_def)
  then show ?case
    by (auto simp: check_alerts_def check_temp_def Let_def simp flip: s1_def split: option.splits)
qed (simp add: check_alerts_def)

interpretation model: throttled check_alerts "alert_times ''No AI Model Loaded''" last_model_alert
  "\<lambda>s. 1800"
proof (unfold_locales, goal_cases)
  case (1 e s)
  define s1 where "s1 = check_disk e (check_ram e s)"
  have "alert_times ''No AI Model Loaded'' s1 = alert_times ''No AI Model Loaded'' s"
    "last_model_alert s1 = last_model_alert s"
    by (simp_all add: s1_def)
  then show ?case
    by (auto simp: check_alerts_def check_model_def track_model_def Let_def simp flip: s1_def)
qed simp

section \<open>The model alert waits for a sustained absence\<close>

text \<open>After a run of checks from a state in which the model was loaded, a positive
  \<open>model_unloaded_since\<close> is the time of the first check of an unbroken series, up to the last
  one, in which the model was reported unloaded.\<close>

definition absent_since :: "alert_env list \<Rightarrow> int \<Rightarrow> bool" where
  "absent_since es m \<longleftrightarrow>
     (\<exists>pre e post. es = pre @ e # post \<and> a_now e = m \<and> list_all (\<lambda>x. \<not> loaded1 x) (e # post))"

lemma check_alerts_model:
  "model_check_set (check_alerts e s) = model_check_set s"
  "model_check_set s \<Longrightarrow> model_unloaded_since (check_alerts e s)
     = (if loaded1 e then 0 else if model_unloaded_since s = 0 then a_now e
        else model_unloaded_since s)"
  by (simp_all add: check_alerts_def check_model_def track_model_def Let_def)

lemma absent_since_run:
  assumes "model_check_set s" "model_unloaded_since s = 0"
  shows "model_check_set (fold check_alerts es s)
    \<and> (model_unloaded_since (fold check_alerts es s) = 0
       \<or> absent_since es (model_unloaded_since (fold check_alerts es s)))"
proof (induction es rule: rev_induct)
  case (snoc e es)
  let ?s = "fold check_alerts es s"
  from snoc have m: "model_check_set ?s" by simp
  have ext: "absent_since (es @ [e]) k" if "absent_since es k" "\<not> loaded1 e" for k
  proof -
    from that(1) obtain pre x post where "es = pre @ x # post" "a_now x = k"
      "list_all (\<lambda>x. \<not> loaded1 x) (x # post)" unfolding absent_since_def by blast
    with that(2) show ?thesis
      unfolding absent_since_def by (intro exI [of _ pre] exI [of _ x] exI [of _ "post @ [e]"]) simp
  qed
  have new: "absent_since (es @ [e]) (a_now e)" if "\<not> loaded1 e"
    using that unfolding absent_since_def by (intro exI [of _ es]) auto
  show ?case using snoc m ext new by (auto simp: check_alerts_model)
qed (use assms in simp)

lemma model_alert_cond:
  assumes "alert_times ''No AI Model Loaded'' (check_alerts e s) \<noteq> alert_times ''No AI Model Loaded'' s"
  shows "0 < model_unloaded_since (check_alerts e s)"
    "model_unloaded_since (check_alerts e s) + 120 \<le> a_now e" "start_time (check_alerts e s) > 0"
proof -
  define s1 where "s1 = check_disk e (check_ram e s)"
  have same: "alert_times ''No AI Model Loaded'' s1 = alert_times ''No AI Model Loaded'' s"
    by (simp add: s1_def)
  have st: "start_time (check_temp e u) = start_time u" for u
    by (simp add: check_temp_def push_alert_def push_notification_def Let_def split: option.splits)
  show "0 < model_unloaded_since (check_alerts e s)"
    "model_unloaded_since (check_alerts e s) + 120 \<le> a_now e" "start_time (check_alerts e s) > 0"
    using assms same
    by (auto simp: check_alerts_def check_model_def Let_def st simp flip: s1_def split: if_splits)
      (auto simp: push_alert_def push_notification_def Let_def track_model_def split: if_splits)
qed

section \<open>Properties\<close>

text \<open>
  over any run of checks, two alerts of one kind are at least the cooldown apart, and two
  model alerts at least 30 minutes.
\<close>

theorem alerts_spaced:
  assumes "0 \<le> cooldown_seconds (alerts s)" "pending s = []"
  shows "sorted_wrt (\<lambda>a b. a + cooldown_seconds (alerts s) \<le> b)
           (alert_times ''High RAM Usage'' (fold check_alerts es s))
    \<and> sorted_wrt (\<lambda>a b. a + cooldown_seconds (alerts s) \<le> b)
           (alert_times ''High Disk Usage'' (fold check_alerts es s))
    \<and> sorted_wrt (\<lambda>a b. a + cooldown_seconds (alerts s) \<le> b)
           (alert_times ''High CPU Temperature'' (fold check_alerts es s))
    \<and> sorted_wrt (\<lambda>a b. a + 1800 \<le> b)
           (alert_times ''No AI Model Loaded'' (fold check_alerts es s))"
proof -
  have "alert_times ti s = []" for ti using assms(2) by (simp add: alert_times_def)
  then show ?thesis
    using ram.run_spaced [of s es] disk.run_spaced [of s es] temp.run_spaced [of s es]
      model.run_spaced [of s es] assms(1) by simp
qed

definition ex_alert_env :: "int \<Rightarrow> alert_env" where
  "ex_alert_env n = \<lparr>a_now = n, mem_total = 1000000, mem_avail = 100000, vfs = None,
     loaded1 = False, loaded2 = False, temp_str = ''45000'', d_ram = [], d_disk = [],
     d_model = [], d_temp = []\<rparr>"

theorem alerts_spaced_witness:
  "sorted_wrt (\<lambda>a b. a + 300 \<le> b)
     (alert_times ''High RAM Usage''
       (fold check_alerts [ex_alert_env 1000, ex_alert_env 1010, ex_alert_env 1400] init_scheduler))"
  using alerts_spaced [of init_scheduler "[ex_alert_env 1000, ex_alert_env 1010, ex_alert_env 1400]"]
  by (simp add: init_scheduler_def default_alerts_def)

text \<open>
  while the used memory is below 2^31 / 100 kB (about 20.4 GiB), a RAM alert is raised
  exactly when the used share reaches the threshold and the cooldown has passed.
\<close>

theorem ram_alert_iff:
  assumes "0 < mem_total e" "mem_total e < 2 ^ 31" "0 \<le> mem_avail e" "mem_avail e \<le> mem_total e"
    and "(mem_total e - mem_avail e) * 100 < 2 ^ 31" "0 < ram_threshold_percent (alerts s)"
  shows "alert_times ''High RAM Usage'' (check_ram e s)
    = alert_times ''High RAM Usage'' s
      @ (if ram_threshold_percent (alerts s) * mem_total e \<le> (mem_total e - mem_avail e) * 100
            \<and> cooldown_seconds (alerts s) \<le> a_now e - last_ram_alert s
         then [a_now e] else [])"
proof -
  have pct: "ram_used_pct (mem_total e) (mem_avail e)
      = (mem_total e - mem_avail e) * 100 div mem_total e"
    using assms by (simp add: ram_used_pct_def cpp_simps)
  with assms show ?thesis by (simp add: check_ram_def Let_def le_div_iff)
qed

text \<open>
  above that bound the product overflows \<open>int\<close>: with more than 20.4 GiB and up to 40.9 GiB
  in use the percentage is negative and no RAM alert is ever raised, however full the memory is.
\<close>

theorem ram_alert_overflow:
  assumes "0 < mem_total e" "mem_total e < 2 ^ 31" "0 \<le> mem_avail e" "mem_avail e \<le> mem_total e"
    and "2 ^ 31 \<le> (mem_total e - mem_avail e) * 100" "(mem_total e - mem_avail e) * 100 < 2 ^ 32"
    and "0 < ram_threshold_percent (alerts s)"
  shows "check_ram e s = s"
proof -
  let ?used = "mem_total e - mem_avail e"
  have w: "to_i32 (?used * 100) = ?used * 100 - 2 ^ 32"
  proof -
    have "(word_of_int (?used * 100 - 2 ^ 32) :: 32 word) = word_of_int (?used * 100)"
      by (simp add: word_of_int_eq_iff take_bit_eq_mod)
    then have "to_i32 (?used * 100) = to_i32 (?used * 100 - 2 ^ 32)" by (simp only: to_i32_def)
    also have "\<dots> = ?used * 100 - 2 ^ 32" using assms by (intro to_i32_id) simp_all
    finally show ?thesis .
  qed
  have "to_i32 ?used = ?used" using assms by (simp add: cpp_simps)
  then have "ram_used_pct (mem_total e) (mem_avail e) \<le> 0"
    using assms w by (simp only: ram_used_pct_def) (intro tdiv_neg_le; simp)
  with assms(7) show ?thesis by (simp add: check_ram_def Let_def)
qed

text \<open>
  a model alert is raised only when the model was reported unloaded at every check of an
  unbroken series up to now whose first check was at least 120 seconds ago.
\<close>

theorem model_alert_sustained:
  assumes "model_check_set s" "model_unloaded_since s = 0"
    and "alert_times ''No AI Model Loaded'' (check_alerts e (fold check_alerts es s))
         \<noteq> alert_times ''No AI Model Loaded'' (fold check_alerts es s)"
  shows "\<exists>m. absent_since (es @ [e]) m \<and> m + 120 \<le> a_now e"
  using model_alert_cond [OF assms(3)] absent_since_run [OF assms(1,2), of "es @ [e]"]
  by auto

text \<open>Witnesses: a machine of 1 GB at 90 percent, one of 32 GiB with 30 GiB in use, and a model
  that has been away for three minutes.\<close>

theorem ram_alert_iff_witness:
  "alert_times ''High RAM Usage'' (check_ram (ex_alert_env 1000) init_scheduler) = [1000]"
  using ram_alert_iff [of "ex_alert_env 1000" init_scheduler]
  by (simp add: ex_alert_env_def init_scheduler_def default_alerts_def alert_times_def)

theorem ram_alert_overflow_witness:
  "check_ram ((ex_alert_env 1000)\<lparr>mem_total := 33554432, mem_avail := 2097152\<rparr>) init_scheduler
     = init_scheduler"
  by (rule ram_alert_overflow)
    (simp_all add: ex_alert_env_def init_scheduler_def default_alerts_def)

theorem model_alert_sustained_witness:
  "\<exists>m. absent_since [ex_alert_env 1000, ex_alert_env 1060, ex_alert_env 2900] m
     \<and> m + 120 \<le> 2900"
proof -
  let ?s = "init_scheduler\<lparr>model_check_set := True, start_time := 500\<rparr>"
  let ?es = "[ex_alert_env 1000, ex_alert_env 1060]"
  have "alert_times ''No AI Model Loaded'' (check_alerts (ex_alert_env 2900) (fold check_alerts ?es ?s))
      \<noteq> alert_times ''No AI Model Loaded'' (fold check_alerts ?es ?s)"
    by (simp add: check_alerts_def check_ram_def check_disk_def check_model_def check_temp_def
        track_model_def ex_alert_env_def init_scheduler_def default_alerts_def ram_used_pct_def
        strtol_def Let_def cpp_simps is_space_def is_digit_def digit_val_def long_max_def long_min_def
        push_alert_def push_notification_def alert_times_def)
  from model_alert_sustained [OF _ _ this] show ?thesis
    by (simp add: init_scheduler_def ex_alert_env_def)
qed

end
