(* ===== verification/Bcrypt.thy ===== *)
theory Bcrypt
  imports LlPrelude
begin

text \<open>
  \<^verbatim>\<open>bcrypt.cpp\<close>: the Blowfish cipher, its expensive key schedule, bcrypt's base 64 and the two
  entry points \<open>bcrypt_hash\<close> and \<open>bcrypt_check\<close>. The words are \<open>u32\<close> and the bytes \<open>byte\<close>, as
  in the code. Two things that the code reads without having written them are arguments: the
  bytes that lie on the stack in the salt buffer, and what follows the decode table in memory.
  The theorems: a hash is accepted for the password it was made from, the base 64 round trip,
  one Blowfish encryption is a bijection, the length and shape of a hash, and which passwords
  the check cannot tell apart.
\<close>

unbundle bit_operations_syntax

section \<open>Tables\<close>

definition BF_INIT_P :: "u32 list" where
  "BF_INIT_P = [
     0x243f6a88, 0x85a308d3, 0x13198a2e, 0x03707344, 0xa4093822, 0x299f31d0, 0x082efa98, 0xec4e6c89,
     0x452821e6, 0x38d01377, 0xbe5466cf, 0x34e90c6c, 0xc0ac29b7, 0xc97c50dd, 0x3f84d5b5, 0xb5470917,
     0x9216d5d9, 0x8979fb1b]"

definition bf_init_s0 :: "u32 list" where
  "bf_init_s0 = [
     0xd1310ba6, 0x98dfb5ac, 0x2ffd72db, 0xd01adfb7, 0xb8e1afed, 0x6a267e96, 0xba7c9045, 0xf12c7f99,
     0x24a19947, 0xb3916cf7, 0x0801f2e2, 0x858efc16, 0x636920d8, 0x71574e69, 0xa458fea3, 0xf4933d7e,
     0x0d95748f, 0x728eb658, 0x718bcd58, 0x82154aee, 0x7b54a41d, 0xc25a59b5, 0x9c30d539, 0x2af26013,
     0xc5d1b023, 0x286085f0, 0xca417918, 0xb8db38ef, 0x8e79dcb0, 0x603a180e, 0x6c9e0e8b, 0xb01e8a3e,
     0xd71577c1, 0xbd314b27, 0x78af2fda, 0x55605c60, 0xe65525f3, 0xaa55ab94, 0x57489862, 0x63e81440,
     0x55ca396a, 0x2aab10b6, 0xb4cc5c34, 0x1141e8ce, 0xa15486af, 0x7c72e993, 0xb3ee1411, 0x636fbc2a,
     0x2ba9c55d, 0x741831f6, 0xce5c3e16, 0x9b87931e, 0xafd6ba33, 0x6c24cf5c, 0x7a325381, 0x28958677,
     0x3b8f4898, 0x6b4bb9af, 0xc4bfe81b, 0x66282193, 0x61d809cc, 0xfb21a991, 0x487cac60, 0x5dec8032,
     0xef845d5d, 0xe98575b1, 0xdc262302, 0xeb651b88, 0x23893e81, 0xd396acc5, 0x0f6d6ff3, 0x83f44239,
     0x2e0b4482, 0xa4842004, 0x69c8f04a, 0x9e1f9b5e, 0x21c66842, 0xf6e96c9a, 0x670c9c61, 0xabd388f0,
     0x6a51a0d2, 0xd8542f68, 0x960fa728, 0xab5133a3, 0x6eef0b6c, 0x137a3be4, 0xba3bf050, 0x7efb2a98,
     0xa1f1651d, 0x39af0176, 0x66ca593e, 0x82430e88, 0x8cee8619, 0x456f9fb4, 0x7d84a5c3, 0x3b8b5ebe,
     0xe06f75d8, 0x85c12073, 0x401a449f, 0x56c16aa6, 0x4ed3aa62, 0x363f7706, 0x1bfedf72, 0x429b023d,
     0x37d0d724, 0xd00a1248, 0xdb0fead3, 0x49f1c09b, 0x075372c9, 0x80991b7b, 0x25d479d8, 0xf6e8def7,
     0xe3fe501a, 0xb6794c3b, 0x976ce0bd, 0x04c006ba, 0xc1a94fb6, 0x409f60c4, 0x5e5c9ec2, 0x196a2463,
     0x68fb6faf, 0x3e6c53b5, 0x1339b2eb, 0x3b52ec6f, 0x6dfc511f, 0x9b30952c, 0xcc814544, 0xaf5ebd09,
     0xbee3d004, 0xde334afd, 0x660f2807, 0x192e4bb3, 0xc0cba857, 0x45c8740f, 0xd20b5f39, 0xb9d3fbdb,
     0x5579c0bd, 0x1a60320a, 0xd6a100c6, 0x402c7279, 0x679f25fe, 0xfb1fa3cc, 0x8ea5e9f8, 0xdb3222f8,
     0x3c7516df, 0xfd616b15, 0x2f501ec8, 0xad0552ab, 0x323db5fa, 0xfd238760, 0x53317b48, 0x3e00df82,
     0x9e5c57bb, 0xca6f8ca0, 0x1a87562e, 0xdf1769db, 0xd542a8f6, 0x287effc3, 0xac6732c6, 0x8c4f5573,
     0x695b27b0, 0xbbca58c8, 0xe1ffa35d, 0xb8f011a0, 0x10fa3d98, 0xfd2183b8, 0x4afcb56c, 0x2dd1d35b,
     0x9a53e479, 0xb6f84565, 0xd28e49bc, 0x4bfb9790, 0xe1ddf2da, 0xa4cb7e33, 0x62fb1341, 0xcee4c6e8,
     0xef20cada, 0x36774c01, 0xd07e9efe, 0x2bf11fb4, 0x95dbda4d, 0xae909198, 0xeaad8e71, 0x6b93d5a0,
     0xd08ed1d0, 0xafc725e0, 0x8e3c5b2f, 0x8e7594b7, 0x8ff6e2fb, 0xf2122b64, 0x8888b812, 0x900df01c,
     0x4fad5ea0, 0x688fc31c, 0xd1cff191, 0xb3a8c1ad, 0x2f2f2218, 0xbe0e1777, 0xea752dfe, 0x8b021fa1,
     0xe5a0cc0f, 0xb56f74e8, 0x18acf3d6, 0xce89e299, 0xb4a84fe0, 0xfd13e0b7, 0x7cc43b81, 0xd2ada8d9,
     0x165fa266, 0x80957705, 0x93cc7314, 0x211a1477, 0xe6ad2065, 0x77b5fa86, 0xc75442f5, 0xfb9d35cf,
     0xebcdaf0c, 0x7b3e89a0, 0xd6411bd3, 0xae1e7e49, 0x00250e2d, 0x2071b35e, 0x226800bb, 0x57b8e0af,
     0x2464369b, 0xf009b91e, 0x5563911d, 0x59dfa6aa, 0x78c14389, 0xd95a537f, 0x207d5ba2, 0x02e5b9c5,
     0x83260376, 0x6295cfa9, 0x11c81968, 0x4e734a41, 0xb3472dca, 0x7b14a94a, 0x1b510052, 0x9a532915,
     0xd60f573f, 0xbc9bc6e4, 0x2b60a476, 0x81e67400, 0x08ba6fb5, 0x571be91f, 0xf296ec6b, 0x2a0dd915,
     0xb6636521, 0xe7b9f9b6, 0xff34052e, 0xc5855664, 0x53b02d5d, 0xa99f8fa1, 0x08ba4799, 0x6e85076a]"

definition bf_init_s1 :: "u32 list" where
  "bf_init_s1 = [
     0x4b7a70e9, 0xb5b32944, 0xdb75092e, 0xc4192623, 0xad6ea6b0, 0x49a7df7d, 0x9cee60b8, 0x8fedb266,
     0xecaa8c71, 0x699a17ff, 0x5664526c, 0xc2b19ee1, 0x193602a5, 0x75094c29, 0xa0591340, 0xe4183a3e,
     0x3f54989a, 0x5b429d65, 0x6b8fe4d6, 0x99f73fd6, 0xa1d29c07, 0xefe830f5, 0x4d2d38e6, 0xf0255dc1,
     0x4cdd2086, 0x8470eb26, 0x6382e9c6, 0x021ecc5e, 0x09686b3f, 0x3ebaefc9, 0x3c971814, 0x6b6a70a1,
     0x687f3584, 0x52a0e286, 0xb79c5305, 0xaa500737, 0x3e07841c, 0x7fdeae5c, 0x8e7d44ec, 0x5716f2b8,
     0xb03ada37, 0xf0500c0d, 0xf01c1f04, 0x0200b3ff, 0xae0cf51a, 0x3cb574b2, 0x25837a58, 0xdc0921bd,
     0xd19113f9, 0x7ca92ff6, 0x94324773, 0x22f54701, 0x3ae5e581, 0x37c2dadc, 0xc8b57634, 0x9af3dda7,
     0xa9446146, 0x0fd0030e, 0xecc8c73e, 0xa4751e41, 0xe238cd99, 0x3bea0e2f, 0x3280bba1, 0x183eb331,
     0x4e548b38, 0x4f6db908, 0x6f420d03, 0xf60a04bf, 0x2cb81290, 0x24977c79, 0x5679b072, 0xbcaf89af,
     0xde9a771f, 0xd9930810, 0xb38bae12, 0xdccf3f2e, 0x5512721f, 0x2e6b7124, 0x501adde6, 0x9f84cd87,
     0x7a584718, 0x7408da17, 0xbc9f9abc, 0xe94b7d8c, 0xec7aec3a, 0xdb851dfa, 0x63094366, 0xc464c3d2,
     0xef1c1847, 0x3215d908, 0xdd433b37, 0x24c2ba16, 0x12a14d43, 0x2a65c451, 0x50940002, 0x133ae4dd,
     0x71dff89e, 0x10314e55, 0x81ac77d6, 0x5f11199b, 0x043556f1, 0xd7a3c76b, 0x3c11183b, 0x5924a509,
     0xf28fe6ed, 0x97f1fbfa, 0x9ebabf2c, 0x1e153c6e, 0x86e34570, 0xeae96fb1, 0x860e5e0a, 0x5a3e2ab3,
     0x771fe71c, 0x4e3d06fa, 0x2965dcb9, 0x99e71d0f, 0x803e89d6, 0x5266c825, 0x2e4cc978, 0x9c10b36a,
     0xc6150eba, 0x94e2ea78, 0xa5fc3c53, 0x1e0a2df4, 0xf2f74ea7, 0x361d2b3d, 0x1939260f, 0x19c27960,
     0x5223a708, 0xf71312b6, 0xebadfe6e, 0xeac31f66, 0xe3bc4595, 0xa67bc883, 0xb17f37d1, 0x018cff28,
     0xc332ddef, 0xbe6c5aa5, 0x65582185, 0x68ab9802, 0xeecea50f, 0xdb2f953b, 0x2aef7dad, 0x5b6e2f84,
     0x1521b628, 0x29076170, 0xecdd4775, 0x619f1510, 0x13cca830, 0xeb61bd96, 0x0334fe1e, 0xaa0363cf,
     0xb5735c90, 0x4c70a239, 0xd59e9e0b, 0xcbaade14, 0xeecc86bc, 0x60622ca7, 0x9cab5cab, 0xb2f3846e,
     0x648b1eaf, 0x19bdf0ca, 0xa02369b9, 0x655abb50, 0x40685a32, 0x3c2ab4b3, 0x319ee9d5, 0xc021b8f7,
     0x9b540b19, 0x875fa099, 0x95f7997e, 0x623d7da8, 0xf837889a, 0x97e32d77, 0x11ed935f, 0x16681281,
     0x0e358829, 0xc7e61fd6, 0x96dedfa1, 0x7858ba99, 0x57f584a5, 0x1b227263, 0x9b83c3ff, 0x1ac24696,
     0xcdb30aeb, 0x532e3054, 0x8fd948e4, 0x6dbc3128, 0x58ebf2ef, 0x34c6ffea, 0xfe28ed61, 0xee7c3c73,
     0x5d4a14d9, 0xe864b7e3, 0x42105d14, 0x203e13e0, 0x45eee2b6, 0xa3aaabea, 0xdb6c4f15, 0xfacb4fd0,
     0xc742f442, 0xef6abbb5, 0x654f3b1d, 0x41cd2105, 0xd81e799e, 0x86854dc7, 0xe44b476a, 0x3d816250,
     0xcf62a1f2, 0x5b8d2646, 0xfc8883a0, 0xc1c7b6a3, 0x7f1524c3, 0x69cb7492, 0x47848a0b, 0x5692b285,
     0x095bbf00, 0xad19489d, 0x1462b174, 0x23820e00, 0x58428d2a, 0x0c55f5ea, 0x1dadf43e, 0x233f7061,
     0x3372f092, 0x8d937e41, 0xd65fecf1, 0x6c223bdb, 0x7cde3759, 0xcbee7460, 0x4085f2a7, 0xce77326e,
     0xa6078084, 0x19f8509e, 0xe8efd855, 0x61d99735, 0xa969a7aa, 0xc50c06c2, 0x5a04abfc, 0x800bcadc,
     0x9e447a2e, 0xc3453484, 0xfdd56705, 0x0e1e9ec9, 0xdb73dbd3, 0x105588cd, 0x675fda79, 0xe3674340,
     0xc5c43465, 0x713e38d8, 0x3d28f89e, 0xf16dff20, 0x153e21e7, 0x8fb03d4a, 0xe6e39f2b, 0xdb83adf7]"

definition bf_init_s2 :: "u32 list" where
  "bf_init_s2 = [
     0xe93d5a68, 0x948140f7, 0xf64c261c, 0x94692934, 0x411520f7, 0x7602d4f7, 0xbcf46b2e, 0xd4a20068,
     0xd4082471, 0x3320f46a, 0x43b7d4b7, 0x500061af, 0x1e39f62e, 0x97244546, 0x14214f74, 0xbf8b8840,
     0x4d95fc1d, 0x96b591af, 0x70f4ddd3, 0x66a02f45, 0xbfbc09ec, 0x03bd9785, 0x7fac6dd0, 0x31cb8504,
     0x96eb27b3, 0x55fd3941, 0xda2547e6, 0xabca0a9a, 0x28507825, 0x530429f4, 0x0a2c86da, 0xe9b66dfb,
     0x68dc1462, 0xd7486900, 0x680ec0a4, 0x27a18dee, 0x4f3ffea2, 0xe887ad8c, 0xb58ce006, 0x7af4d6b6,
     0xaace1e7c, 0xd3375fec, 0xce78a399, 0x406b2a42, 0x20fe9e35, 0xd9f385b9, 0xee39d7ab, 0x3b124e8b,
     0x1dc9faf7, 0x4b6d1856, 0x26a36631, 0xeae397b2, 0x3a6efa74, 0xdd5b4332, 0x6841e7f7, 0xca7820fb,
     0xfb0af54e, 0xd8feb397, 0x454056ac, 0xba489527, 0x55533a3a, 0x20838d87, 0xfe6ba9b7, 0xd096954b,
     0x55a867bc, 0xa1159a58, 0xcca92963, 0x99e1db33, 0xa62a4a56, 0x3f3125f9, 0x5ef47e1c, 0x9029317c,
     0xfdf8e802, 0x04272f70, 0x80bb155c, 0x05282ce3, 0x95c11548, 0xe4c66d22, 0x48c1133f, 0xc70f86dc,
     0x07f9c9ee, 0x41041f0f, 0x404779a4, 0x5d886e17, 0x325f51eb, 0xd59bc0d1, 0xf2bcc18f, 0x41113564,
     0x257b7834, 0x602a9c60, 0xdff8e8a3, 0x1f636c1b, 0x0e12b4c2, 0x02e1329e, 0xaf664fd1, 0xcad18115,
     0x6b2395e0, 0x333e92e1, 0x3b240b62, 0xeebeb922, 0x85b2a20e, 0xe6ba0d99, 0xde720c8c, 0x2da2f728,
     0xd0127845, 0x95b794fd, 0x647d0862, 0xe7ccf5f0, 0x5449a36f, 0x877d48fa, 0xc39dfd27, 0xf33e8d1e,
     0x0a476341, 0x992eff74, 0x3a6f6eab, 0xf4f8fd37, 0xa812dc60, 0xa1ebddf8, 0x991be14c, 0xdb6e6b0d,
     0xc67b5510, 0x6d672c37, 0x2765d43b, 0xdcd0e804, 0xf1290dc7, 0xcc00ffa3, 0xb5390f92, 0x690fed0b,
     0x667b9ffb, 0xcedb7d9c, 0xa091cf0b, 0xd9155ea3, 0xbb132f88, 0x515bad24, 0x7b9479bf, 0x763bd6eb,
     0x37392eb3, 0xcc115979, 0x8026e297, 0xf42e312d, 0x6842ada7, 0xc66a2b3b, 0x12754ccc, 0x782ef11c,
     0x6a124237, 0xb79251e7, 0x06a1bbe6, 0x4bfb6350, 0x1a6b1018, 0x11caedfa, 0x3d25bdd8, 0xe2e1c3c9,
     0x44421659, 0x0a121386, 0xd90cec6e, 0xd5abea2a, 0x64af674e, 0xda86a85f, 0xbebfe988, 0x64e4c3fe,
     0x9dbc8057, 0xf0f7c086, 0x60787bf8, 0x6003604d, 0xd1fd8346, 0xf6381fb0, 0x7745ae04, 0xd736fccc,
     0x83426b33, 0xf01eab71, 0xb0804187, 0x3c005e5f, 0x77a057be, 0xbde8ae24, 0x55464299, 0xbf582e61,
     0x4e58f48f, 0xf2ddfda2, 0xf474ef38, 0x8789bdc2, 0x5366f9c3, 0xc8b38e74, 0xb475f255, 0x46fcd9b9,
     0x7aeb2661, 0x8b1ddf84, 0x846a0e79, 0x915f95e2, 0x466e598e, 0x20b45770, 0x8cd55591, 0xc902de4c,
     0xb90bace1, 0xbb8205d0, 0x11a86248, 0x7574a99e, 0xb77f19b6, 0xe0a9dc09, 0x662d09a1, 0xc4324633,
     0xe85a1f02, 0x09f0be8c, 0x4a99a025, 0x1d6efe10, 0x1ab93d1d, 0x0ba5a4df, 0xa186f20f, 0x2868f169,
     0xdcb7da83, 0x573906fe, 0xa1e2ce9b, 0x4fcd7f52, 0x50115e01, 0xa70683fa, 0xa002b5c4, 0x0de6d027,
     0x9af88c27, 0x773f8641, 0xc3604c06, 0x61a806b5, 0xf0177a28, 0xc0f586e0, 0x006058aa, 0x30dc7d62,
     0x11e69ed7, 0x2338ea63, 0x53c2dd94, 0xc2c21634, 0xbbcbee56, 0x90bcb6de, 0xebfc7da1, 0xce591d76,
     0x6f05e409, 0x4b7c0188, 0x39720a3d, 0x7c927c24, 0x86e3725f, 0x724d9db9, 0x1ac15bb4, 0xd39eb8fc,
     0xed545578, 0x08fca5b5, 0xd83d7cd3, 0x4dad0fc4, 0x1e50ef5e, 0xb161e6f8, 0xa28514d9, 0x6c51133c,
     0x6fd5c7e7, 0x56e14ec4, 0x362abfce, 0xddc6c837, 0xd79a3234, 0x92638212, 0x670efa8e, 0x406000e0]"

definition bf_init_s3 :: "u32 list" where
  "bf_init_s3 = [
     0x3a39ce37, 0xd3faf5cf, 0xabc27737, 0x5ac52d1b, 0x5cb0679e, 0x4fa33742, 0xd3822740, 0x99bc9bbe,
     0xd5118e9d, 0xbf0f7315, 0xd62d1c7e, 0xc700c47b, 0xb78c1b6b, 0x21a19045, 0xb26eb1be, 0x6a366eb4,
     0x5748ab2f, 0xbc946e79, 0xc6a376d2, 0x6549c2c8, 0x530ff8ee, 0x468dde7d, 0xd5730a1d, 0x4cd04dc6,
     0x2939bbdb, 0xa9ba4650, 0xac9526e8, 0xbe5ee304, 0xa1fad5f0, 0x6a2d519a, 0x63ef8ce2, 0x9a86ee22,
     0xc089c2b8, 0x43242ef6, 0xa51e03aa, 0x9cf2d0a4, 0x83c061ba, 0x9be96a4d, 0x8fe51550, 0xba645bd6,
     0x2826a2f9, 0xa73a3ae1, 0x4ba99586, 0xef5562e9, 0xc72fefd3, 0xf752f7da, 0x3f046f69, 0x77fa0a59,
     0x80e4a915, 0x87b08601, 0x9b09e6ad, 0x3b3ee593, 0xe990fd5a, 0x9e34d797, 0x2cf0b7d9, 0x022b8b51,
     0x96d5ac3a, 0x017da67d, 0xd1cf3ed6, 0x7c7d2d28, 0x1f9f25cf, 0xadf2b89b, 0x5ad6b472, 0x5a88f54c,
     0xe029ac71, 0xe019a5e6, 0x47b0acfd, 0xed93fa9b, 0xe8d3c48d, 0x283b57cc, 0xf8d56629, 0x79132e28,
     0x785f0191, 0xed756055, 0xf7960e44, 0xe3d35e8c, 0x15056dd4, 0x88f46dba, 0x03a16125, 0x0564f0bd,
     0xc3eb9e15, 0x3c9057a2, 0x97271aec, 0xa93a072a, 0x1b3f6d9b, 0x1e6321f5, 0xf59c66fb, 0x26dcf319,
     0x7533d928, 0xb155fdf5, 0x03563482, 0x8aba3cbb, 0x28517711, 0xc20ad9f8, 0xabcc5167, 0xccad925f,
     0x4de81751, 0x3830dc8e, 0x379d5862, 0x9320f991, 0xea7a90c2, 0xfb3e7bce, 0x5121ce64, 0x774fbe32,
     0xa8b6e37e, 0xc3293d46, 0x48de5369, 0x6413e680, 0xa2ae0810, 0xdd6db224, 0x69852dfd, 0x09072166,
     0xb39a460a, 0x6445c0dd, 0x586cdecf, 0x1c20c8ae, 0x5bbef7dd, 0x1b588d40, 0xccd2017f, 0x6bb4e3bb,
     0xdda26a7e, 0x3a59ff45, 0x3e350a44, 0xbcb4cdd5, 0x72eacea8, 0xfa6484bb, 0x8d6612ae, 0xbf3c6f47,
     0xd29be463, 0x542f5d9e, 0xaec2771b, 0xf64e6370, 0x740e0d8d, 0xe75b1357, 0xf8721671, 0xaf537d5d,
     0x4040cb08, 0x4eb4e2cc, 0x34d2466a, 0x0115af84, 0xe1b00428, 0x95983a1d, 0x06b89fb4, 0xce6ea048,
     0x6f3f3b82, 0x3520ab82, 0x011a1d4b, 0x277227f8, 0x611560b1, 0xe7933fdc, 0xbb3a792b, 0x344525bd,
     0xa08839e1, 0x51ce794b, 0x2f32c9b7, 0xa01fbac9, 0xe01cc87e, 0xbcc7d1f6, 0xcf0111c3, 0xa1e8aac7,
     0x1a908749, 0xd44fbd9a, 0xd0dadecb, 0xd50ada38, 0x0339c32a, 0xc6913667, 0x8df9317c, 0xe0b12b4f,
     0xf79e59b7, 0x43f5bb3a, 0xf2d519ff, 0x27d9459c, 0xbf97222c, 0x15e6fc2a, 0x0f91fc71, 0x9b941525,
     0xfae59361, 0xceb69ceb, 0xc2a86459, 0x12baa8d1, 0xb6c1075e, 0xe3056a0c, 0x10d25065, 0xcb03a442,
     0xe0ec6e0e, 0x1698db3b, 0x4c98a0be, 0x3278e964, 0x9f1f9532, 0xe0d392df, 0xd3a0342b, 0x8971f21e,
     0x1b0a7441, 0x4ba3348c, 0xc5be7120, 0xc37632d8, 0xdf359f8d, 0x9b992f2e, 0xe60b6f47, 0x0fe3f11d,
     0xe54cda54, 0x1edad891, 0xce6279cf, 0xcd3e7e6f, 0x1618b166, 0xfd2c1d05, 0x848fd2c5, 0xf6fb2299,
     0xf523f357, 0xa6327623, 0x93a83531, 0x56cccd02, 0xacf08162, 0x5a75ebb5, 0x6e163697, 0x88d273cc,
     0xde966292, 0x81b949d0, 0x4c50901b, 0x71c65614, 0xe6c6c7bd, 0x327a140a, 0x45e1d006, 0xc3f27b9a,
     0xc9aa53fd, 0x62a80f00, 0xbb25bfe2, 0x35bdd2f6, 0x71126905, 0xb2040222, 0xb6cbcf7c, 0xcd769c2b,
     0x53113ec0, 0x1640e3d3, 0x38abbd60, 0x2547adf0, 0xba38209c, 0xf746ce76, 0x77afa1c5, 0x20756060,
     0x85cbfe4e, 0x8ae88dd8, 0x7aaaf9b0, 0x4cf9aa7e, 0x1948c25c, 0x02fb8a8c, 0x01c36ae4, 0xd6ebe1f9,
     0x90d4f869, 0xa65cdea0, 0x3f09252d, 0xc208e69f, 0xb74e6132, 0xce77e25b, 0x578fdfe3, 0x3ac372e6]"

definition BF_INIT_S :: "u32 list list" where
  "BF_INIT_S = [bf_init_s0, bf_init_s1, bf_init_s2, bf_init_s3]"

definition BF_BASE64 :: string where
  "BF_BASE64 = ''./ABCDEFGHIJKLMNOPQRSTUVWXYZabcdefghijklmnopqrstuvwxyz0123456789''"

definition BF_BASE64_DECODE :: "byte list" where
  "BF_BASE64_DECODE = [
     255, 255, 255, 255, 255, 255, 255, 255, 255, 255, 255, 255, 255, 255, 255, 255,
     255, 255, 255, 255, 255, 255, 255, 255, 255, 255, 255, 255, 255, 255, 255, 255,
     255, 255, 255, 255, 255, 255, 255, 255, 255, 255, 255, 255, 255, 255, 0, 1,
     54, 55, 56, 57, 58, 59, 60, 61, 62, 63, 255, 255, 255, 255, 255, 255,
     255, 2, 3, 4, 5, 6, 7, 8, 9, 10, 11, 12, 13, 14, 15, 16,
     17, 18, 19, 20, 21, 22, 23, 24, 25, 26, 27, 255, 255, 255, 255, 255,
     255, 28, 29, 30, 31, 32, 33, 34, 35, 36, 37, 38, 39, 40, 41, 42,
     43, 44, 45, 46, 47, 48, 49, 50, 51, 52, 53, 255, 255, 255, 255, 255]"

definition BF_CTEXT :: "u32 list" where
  "BF_CTEXT = [
     0x4f727068, 0x65616e42, 0x65686f6c, 0x64657253, 0x63727944, 0x6f756274]"

section \<open>Blowfish\<close>

record BfState =
  bf_P :: "u32 list"
  bf_S :: "u32 list list"

definition sbox :: "BfState \<Rightarrow> nat \<Rightarrow> u32 \<Rightarrow> u32" where
  "sbox s i x = bf_S s ! i ! unat x"

definition bf_f :: "BfState \<Rightarrow> u32 \<Rightarrow> u32" where
  "bf_f s x =
     ((sbox s 0 (drop_bit 24 x AND 0xff) + sbox s 1 (drop_bit 16 x AND 0xff))
       XOR sbox s 2 (drop_bit 8 x AND 0xff)) + sbox s 3 (x AND 0xff)"

text \<open>Two of the sixteen rounds, the body of the loop for \<open>i\<close> = 2 * \<open>k\<close>.\<close>

definition bf_round2 :: "BfState \<Rightarrow> nat \<Rightarrow> u32 \<times> u32 \<Rightarrow> u32 \<times> u32" where
  "bf_round2 s k = (\<lambda>(l, r).
     let l = l XOR bf_P s ! (2 * k);
         r = r XOR bf_f s l;
         r = r XOR bf_P s ! (2 * k + 1);
         l = l XOR bf_f s r
     in (l, r))"

definition bf_encrypt :: "BfState \<Rightarrow> u32 \<times> u32 \<Rightarrow> u32 \<times> u32" where
  "bf_encrypt s lr =
     (case fold (bf_round2 s) [0..<8] lr of (l, r) \<Rightarrow>
        (r XOR bf_P s ! 17, l XOR bf_P s ! 16))"

definition bf_init_state :: BfState where
  "bf_init_state = \<lparr>bf_P = BF_INIT_P, bf_S = BF_INIT_S\<rparr>"

section \<open>Key schedule\<close>

text \<open>\<open>stream_word\<close> reads four bytes of a cycling stream, most significant first; the index is
  the number of bytes read so far.\<close>

definition stream_word :: "byte list \<Rightarrow> nat \<Rightarrow> u32" where
  "stream_word d idx =
     fold (\<lambda>i w. push_bit 8 w OR ucast (d ! ((idx + i) mod length d))) [0..<4] 0"

text \<open>The first loop of both key expansions.\<close>

definition mix_key :: "byte list \<Rightarrow> BfState \<Rightarrow> BfState" where
  "mix_key key s = s\<lparr>bf_P := map (\<lambda>i. bf_P s ! i XOR stream_word key (4 * i)) [0..<18]\<rparr>"

definition set_P2 :: "nat \<Rightarrow> u32 \<times> u32 \<Rightarrow> BfState \<Rightarrow> BfState" where
  "set_P2 i lr s = s\<lparr>bf_P := (bf_P s)[i := fst lr, i + 1 := snd lr]\<rparr>"

definition set_S2 :: "nat \<Rightarrow> nat \<Rightarrow> u32 \<times> u32 \<Rightarrow> BfState \<Rightarrow> BfState" where
  "set_S2 i j lr s = s\<lparr>bf_S := (bf_S s)[i := (bf_S s ! i)[j := fst lr, j + 1 := snd lr]]\<rparr>"

text \<open>The block that is encrypted next: the last one, with two words of the salt stream mixed
  in. The state of the loops is the cipher, the block and the index of the salt stream.\<close>

type_synonym schedule = "BfState \<times> (u32 \<times> u32) \<times> nat"

definition salted_block :: "byte list \<Rightarrow> schedule \<Rightarrow> u32 \<times> u32" where
  "salted_block salt = (\<lambda>(s, (l, r), idx).
     bf_encrypt s (l XOR stream_word salt idx, r XOR stream_word salt (idx + 4)))"

definition salted_P :: "byte list \<Rightarrow> nat \<Rightarrow> schedule \<Rightarrow> schedule" where
  "salted_P salt k st =
     (let lr = salted_block salt st in (set_P2 (2 * k) lr (fst st), lr, snd (snd st) + 8))"

definition salted_S :: "byte list \<Rightarrow> nat \<times> nat \<Rightarrow> schedule \<Rightarrow> schedule" where
  "salted_S salt = (\<lambda>(i, k) st.
     let lr = salted_block salt st in (set_S2 i (2 * k) lr (fst st), lr, snd (snd st) + 8))"

definition sbox_pairs :: "(nat \<times> nat) list" where
  "sbox_pairs = List.product [0..<4] [0..<128]"

definition bf_expand_key :: "BfState \<Rightarrow> byte list \<Rightarrow> byte list \<Rightarrow> BfState" where
  "bf_expand_key s key salt =
     fst (fold (salted_S salt) sbox_pairs
       (fold (salted_P salt) [0..<9] (mix_key key s, (0, 0), 0)))"

definition plain_P :: "nat \<Rightarrow> BfState \<times> (u32 \<times> u32) \<Rightarrow> BfState \<times> (u32 \<times> u32)" where
  "plain_P k = (\<lambda>(s, lr). let lr = bf_encrypt s lr in (set_P2 (2 * k) lr s, lr))"

definition plain_S :: "nat \<times> nat \<Rightarrow> BfState \<times> (u32 \<times> u32) \<Rightarrow> BfState \<times> (u32 \<times> u32)" where
  "plain_S = (\<lambda>(i, k) (s, lr). let lr = bf_encrypt s lr in (set_S2 i (2 * k) lr s, lr))"

definition bf_expand_key_nosalt :: "BfState \<Rightarrow> byte list \<Rightarrow> BfState" where
  "bf_expand_key_nosalt s key =
     fst (fold plain_S sbox_pairs (fold plain_P [0..<9] (mix_key key s, (0, 0))))"

section \<open>Base 64\<close>

definition b64_char :: "byte \<Rightarrow> char" where
  "b64_char b = BF_BASE64 ! unat b"

fun bf_base64_encode :: "byte list \<Rightarrow> string" where
  "bf_base64_encode [] = []"
| "bf_base64_encode [b0] = [b64_char (drop_bit 2 b0), b64_char (push_bit 4 (b0 AND 3))]"
| "bf_base64_encode [b0, b1] =
     [b64_char (drop_bit 2 b0), b64_char (push_bit 4 (b0 AND 3) OR drop_bit 4 b1),
      b64_char (push_bit 2 (b1 AND 0xf))]"
| "bf_base64_encode (b0 # b1 # b2 # bs) =
     b64_char (drop_bit 2 b0) # b64_char (push_bit 4 (b0 AND 3) OR drop_bit 4 b1)
     # b64_char (push_bit 2 (b1 AND 0xf) OR drop_bit 6 b2) # b64_char (b2 AND 0x3f)
     # bf_base64_encode bs"

text \<open>The decode table has 128 entries and is indexed by any byte: \<open>past\<close> is what lies behind
  it.\<close>

definition decode_char :: "(nat \<Rightarrow> byte) \<Rightarrow> char \<Rightarrow> byte" where
  "decode_char past c =
     (if of_char c < (128 :: nat) then BF_BASE64_DECODE ! of_char c else past (of_char c))"

text \<open>The input is the C string up to its terminator; \<open>k\<close> is the room left in the output.\<close>

function (sequential) bf_base64_decode :: "(nat \<Rightarrow> byte) \<Rightarrow> nat \<Rightarrow> string \<Rightarrow> byte list" where
  "bf_base64_decode past k [] = []"
| "bf_base64_decode past k [a] = []"
| "bf_base64_decode past k (a # b # cs) =
     (let c0 = decode_char past a; c1 = decode_char past b
      in if k = 0 \<or> c0 = 255 \<or> c1 = 255 then []
         else (push_bit 2 c0 OR drop_bit 4 c1) #
           (case cs of
              [] \<Rightarrow> []
            | c # ds \<Rightarrow>
                let c2 = decode_char past c
                in if k = 1 \<or> c2 = 255 then []
                   else (push_bit 4 (c1 AND 0xf) OR drop_bit 2 c2) #
                     (case ds of
                        [] \<Rightarrow> []
                      | d # es \<Rightarrow>
                          let c3 = decode_char past d
                          in if k = 2 \<or> c3 = 255 then []
                             else (push_bit 6 (c2 AND 3) OR c3) # bf_base64_decode past (k - 3) es)))"
  by pat_completeness auto
termination by (relation "measure (\<lambda>(past, k, s). length s)") auto

section \<open>Hashing and checking\<close>

text \<open>A password as the bytes of its string with the terminator, cut to 72 bytes.\<close>

definition key_bytes :: "string \<Rightarrow> byte list" where
  "key_bytes password = take 72 (map of_char password @ [0])"

definition eks_setup :: "byte list \<Rightarrow> nat \<Rightarrow> byte list \<Rightarrow> BfState" where
  "eks_setup key work_factor salt =
     ((\<lambda>s. bf_expand_key_nosalt (bf_expand_key_nosalt s key) salt) ^^ (2 ^ work_factor))
       (bf_expand_key bf_init_state key salt)"

definition encrypt_ctext :: "BfState \<Rightarrow> u32 list \<Rightarrow> u32 list" where
  "encrypt_ctext s c =
     fold (\<lambda>j c. case bf_encrypt s (c ! (2 * j), c ! (2 * j + 1)) of (l, r) \<Rightarrow>
             c[2 * j := l, 2 * j + 1 := r]) [0..<3] c"

definition word_bytes :: "u32 \<Rightarrow> byte list" where
  "word_bytes w =
     [ucast (drop_bit 24 w AND 0xff), ucast (drop_bit 16 w AND 0xff),
      ucast (drop_bit 8 w AND 0xff), ucast (w AND 0xff)]"

definition hash_bytes :: "byte list \<Rightarrow> nat \<Rightarrow> byte list \<Rightarrow> byte list" where
  "hash_bytes key work_factor salt =
     concat (map word_bytes ((encrypt_ctext (eks_setup key work_factor salt) ^^ 64) BF_CTEXT))"

definition two_digits :: "nat \<Rightarrow> string" where
  "two_digits n = (if n < 10 then ''0'' @ show_nat n else show_nat n)"

definition clamp_factor :: "int \<Rightarrow> nat" where
  "clamp_factor w = nat (if w < 4 then 4 else if w > 31 then 31 else w)"

text \<open>\<open>bcrypt_hash\<close>: the salt is the 16 bytes read from the random device, \<open>None\<close> when that
  fails. The result buffer holds 63 characters.\<close>

definition bcrypt_hash :: "byte list option \<Rightarrow> string \<Rightarrow> int \<Rightarrow> string" where
  "bcrypt_hash rnd password work_factor =
     (let cost = clamp_factor work_factor
      in if password = [] then []
         else case rnd of
           None \<Rightarrow> []
         | Some salt \<Rightarrow>
             take 63 (''$2b$'' @ two_digits cost @ ''$'' @ bf_base64_encode salt
               @ bf_base64_encode (take 23 (hash_bytes (key_bytes password) cost salt))))"

text \<open>The constant-time comparison: at most 31 characters, up to a terminator in either.\<close>

fun ct_diff :: "nat \<Rightarrow> string \<Rightarrow> string \<Rightarrow> byte" where
  "ct_diff (Suc n) (a # as) (b # bs) =
     (if a \<noteq> CHR 0x00 \<and> b \<noteq> CHR 0x00 then (of_char a XOR of_char b) OR ct_diff n as bs else 0)"
| "ct_diff _ _ _ = 0"

definition schar :: "char \<Rightarrow> int" where
  "schar c = (if of_char c < (128 :: int) then of_char c else of_char c - 256)"

definition c_str :: "string \<Rightarrow> string" where
  "c_str s = takeWhile (\<lambda>c. c \<noteq> CHR 0x00) s"

definition decode_salt :: "(nat \<Rightarrow> byte) \<Rightarrow> byte list \<Rightarrow> string \<Rightarrow> byte list" where
  "decode_salt past stack s =
     (let out = bf_base64_decode past 16 (c_str s) in out @ drop (length out) stack)"

definition bcrypt_check :: "(nat \<Rightarrow> byte) \<Rightarrow> byte list \<Rightarrow> string \<Rightarrow> string \<Rightarrow> bool" where
  "bcrypt_check past stack password hash =
     (if length hash < 59 then False
      else if hash ! 0 \<noteq> CHR ''$'' \<or> hash ! 3 \<noteq> CHR ''$'' \<or> hash ! 6 \<noteq> CHR ''$'' then False
      else if hash ! 1 \<noteq> CHR ''2''
           \<or> (hash ! 2 \<noteq> CHR ''b'' \<and> hash ! 2 \<noteq> CHR ''a'' \<and> hash ! 2 \<noteq> CHR ''y'') then False
      else
        let cost = (schar (hash ! 4) - 48) * 10 + (schar (hash ! 5) - 48)
        in if cost < 4 \<or> cost > 31 then False
           else
             let salt = decode_salt past stack (drop 7 hash)
             in if password = [] then False
                else ct_diff 31
                       (bf_base64_encode (take 23 (hash_bytes (key_bytes password) (nat cost) salt)))
                       (drop 29 hash) = 0)"

section \<open>Blowfish is a bijection\<close>

definition bf_unround2 :: "BfState \<Rightarrow> nat \<Rightarrow> u32 \<times> u32 \<Rightarrow> u32 \<times> u32" where
  "bf_unround2 s k = (\<lambda>(l, r).
     let l = l XOR bf_f s r;
         r = r XOR bf_P s ! (2 * k + 1);
         r = r XOR bf_f s l;
         l = l XOR bf_P s ! (2 * k)
     in (l, r))"

definition bf_decrypt :: "BfState \<Rightarrow> u32 \<times> u32 \<Rightarrow> u32 \<times> u32" where
  "bf_decrypt s = (\<lambda>(l, r).
     fold (bf_unround2 s) (rev [0..<8]) (r XOR bf_P s ! 16, l XOR bf_P s ! 17))"

lemma xor_cancel [simp]: "(a XOR b) XOR b = (a :: 'a::len word)"
  by (simp add: xor.assoc)

lemma bf_unround2_round2 [simp]: "bf_unround2 s k (bf_round2 s k lr) = lr"
  by (simp add: bf_unround2_def bf_round2_def Let_def split: prod.split)

lemma bf_round2_unround2 [simp]: "bf_round2 s k (bf_unround2 s k lr) = lr"
  by (simp add: bf_unround2_def bf_round2_def Let_def split: prod.split)

lemma fold_unround: "fold (bf_unround2 s) (rev ks) (fold (bf_round2 s) ks lr) = lr"
  by (induction ks arbitrary: lr) simp_all

lemma fold_round: "fold (bf_round2 s) ks (fold (bf_unround2 s) (rev ks) lr) = lr"
  by (induction ks arbitrary: lr) simp_all

lemma bf_decrypt_encrypt: "bf_decrypt s (bf_encrypt s lr) = lr"
proof -
  obtain l r where lr: "fold (bf_round2 s) [0..<8] lr = (l, r)" by fastforce
  show ?thesis
    using fold_unround [of s "[0..<8]" lr] unfolding bf_encrypt_def bf_decrypt_def lr by simp
qed

lemma bf_encrypt_decrypt: "bf_encrypt s (bf_decrypt s lr) = lr"
proof (cases lr)
  case (Pair l r)
  then show ?thesis
    unfolding bf_encrypt_def bf_decrypt_def by (simp only: prod.case fold_round) simp
qed

text \<open>
  One Blowfish encryption, whatever the subkeys and S-boxes, is a bijection on 64-bit
  blocks: running the rounds backwards undoes it, and it undoes running them backwards.
\<close>

theorem bf_encrypt_bij: "bij (bf_encrypt s) \<and> inv (bf_encrypt s) = bf_decrypt s"
proof
  show "bij (bf_encrypt s)"
    by (intro o_bij [of "bf_decrypt s"]) (auto simp: bf_decrypt_encrypt bf_encrypt_decrypt)
  show "inv (bf_encrypt s) = bf_decrypt s"
    by (intro inv_equality bf_decrypt_encrypt bf_encrypt_decrypt)
qed

section \<open>Base 64 round trip\<close>

lemma b64_alphabet: "length BF_BASE64 = 64"
  "list_all (\<lambda>c. of_char c < (128 :: nat) \<and> c \<noteq> CHR 0x00) BF_BASE64"
  by (simp_all add: BF_BASE64_def)

lemma b64_decode_table: "map (\<lambda>c. BF_BASE64_DECODE ! of_char c) BF_BASE64 = map of_nat [0..<64]"
  by (simp add: BF_BASE64_def BF_BASE64_DECODE_def upt_conv_Cons)

lemma b64_char_ok:
  assumes "b < 64"
  shows "decode_char past (b64_char b) = b" "b64_char b \<noteq> CHR 0x00" "b \<noteq> 255"
proof -
  from assms have n: "unat b < 64" by (simp add: word_less_nat_alt)
  have "of_char (BF_BASE64 ! unat b) < (128 :: nat)" "BF_BASE64 ! unat b \<noteq> CHR 0x00"
    using b64_alphabet n by (auto simp: list_all_length)
  moreover have "BF_BASE64_DECODE ! of_char (BF_BASE64 ! unat b) = b"
    using arg_cong [where f = "\<lambda>xs. xs ! unat b", OF b64_decode_table] n by (simp add: b64_alphabet)
  ultimately show "decode_char past (b64_char b) = b" "b64_char b \<noteq> CHR 0x00"
    by (simp_all add: decode_char_def b64_char_def)
  show "b \<noteq> 255" using assms by auto
qed

lemma less_8: "n < 8 \<longleftrightarrow> n = 0 \<or> n = 1 \<or> n = 2 \<or> n = 3 \<or> n = 4 \<or> n = 5 \<or> n = 6 \<or> n = (7 :: nat)"
  by auto

lemma mask_less: "take_bit 6 w = w \<Longrightarrow> w < (64 :: byte)"
proof -
  assume w: "take_bit 6 w = w"
  have "uint (take_bit 6 w) < 2 ^ 6"
    by (simp only: unsigned_take_bit_eq take_bit_int_less_exp)
  with w have "uint w < uint (64 :: byte)" by simp
  then show "w < 64" by (simp only: word_less_def)
qed

lemma byte_high [simp]: "8 \<le> n \<Longrightarrow> \<not> bit (b :: byte) n"
  by (auto dest!: bit_imp_le_length)

lemma bit_Suc2: "bit (b::byte) (Suc (Suc 0)) = bit b 2" "bit b (Suc (Suc (Suc 0))) = bit b 3"
  by (simp_all add: numeral_eq_Suc)

lemma sextet_bits1:
  fixes b0 b1 b2 :: byte
  shows "push_bit 2 (drop_bit 2 b0) OR drop_bit 4 (push_bit 4 (b0 AND 3) OR drop_bit 4 b1) = b0"
  by (rule bit_word_eqI) (auto simp: less_8 bit_simps bit_Suc2)
lemma sextet_bits2:
  fixes b0 b1 b2 :: byte
  shows "push_bit 2 (drop_bit 2 b0) OR drop_bit 4 (push_bit 4 (b0 AND 3)) = b0"
  by (rule bit_word_eqI) (auto simp: less_8 bit_simps bit_Suc2)
lemma sextet_bits3:
  fixes b0 b1 b2 :: byte
  shows "push_bit 4 ((push_bit 4 (b0 AND 3) OR drop_bit 4 b1) AND 0xf)
       OR drop_bit 2 (push_bit 2 (b1 AND 0xf) OR drop_bit 6 b2) = b1"
  by (rule bit_word_eqI) (auto simp: less_8 bit_simps bit_Suc2)
lemma sextet_bits4:
  fixes b0 b1 b2 :: byte
  shows "push_bit 4 ((push_bit 4 (b0 AND 3) OR drop_bit 4 b1) AND 0xf)
       OR drop_bit 2 (push_bit 2 (b1 AND 0xf)) = b1"
  by (rule bit_word_eqI) (auto simp: less_8 bit_simps bit_Suc2)
lemma sextet_bits5:
  fixes b0 b1 b2 :: byte
  shows "push_bit 6 ((push_bit 2 (b1 AND 0xf) OR drop_bit 6 b2) AND 3) OR (b2 AND 0x3f) = b2"
  by (rule bit_word_eqI) (auto simp: less_8 bit_simps bit_Suc2)

lemma sextet_less1:
  fixes b0 b1 b2 :: byte
  shows "drop_bit 2 b0 < 64"
  by (rule mask_less, rule bit_word_eqI) (auto simp: less_8 bit_simps bit_Suc2)
lemma sextet_less2:
  fixes b0 b1 b2 :: byte
  shows "push_bit 4 (b0 AND 3) OR drop_bit 4 b1 < 64"
  by (rule mask_less, rule bit_word_eqI) (auto simp: less_8 bit_simps bit_Suc2)
lemma sextet_less3:
  fixes b0 b1 b2 :: byte
  shows "push_bit 2 (b1 AND 0xf) OR drop_bit 6 b2 < 64"
  by (rule mask_less, rule bit_word_eqI) (auto simp: less_8 bit_simps bit_Suc2)
lemma sextet_less4:
  fixes b0 b1 b2 :: byte
  shows "b2 AND 0x3f < 64"
  by (rule mask_less, rule bit_word_eqI) (auto simp: less_8 bit_simps bit_Suc2)
lemma sextet_less5:
  fixes b0 b1 b2 :: byte
  shows "push_bit 4 (b0 AND 3) < 64"
  by (rule mask_less, rule bit_word_eqI) (auto simp: less_8 bit_simps bit_Suc2)
lemma sextet_less6:
  fixes b0 b1 b2 :: byte
  shows "push_bit 2 (b1 AND 0xf) < 64"
  by (rule mask_less, rule bit_word_eqI) (auto simp: less_8 bit_simps bit_Suc2)
declare push_bit_and [simp del]

lemmas sextet_less = sextet_less1 sextet_less2 sextet_less3 sextet_less4 sextet_less5 sextet_less6
lemmas sextet_bits = sextet_bits1 sextet_bits2 sextet_bits3 sextet_bits4 sextet_bits5
lemmas b64_simps = sextet_less sextet_bits b64_char_ok Let_def

lemma decode_encode:
  "k = 0 \<or> rest = [] \<Longrightarrow>
     bf_base64_decode past (length bs + k) (bf_base64_encode bs @ rest) = bs"
proof (induction bs rule: bf_base64_encode.induct)
  case 1
  then show ?case by (cases "(past, k, rest)" rule: bf_base64_decode.cases) (auto simp: Let_def)
next
  case (2 b0)
  then show ?case by (auto simp: b64_simps split: list.split)
next
  case (3 b0 b1)
  then show ?case by (auto simp: b64_simps split: list.split)
next
  case (4 b0 b1 b2 bs)
  from 4(1) [OF 4(2)] show ?case by (simp add: b64_simps add.commute)
qed

lemma length_b64 [simp]: "length (bf_base64_encode bs) = (4 * length bs + 2) div 3"
  by (induction bs rule: bf_base64_encode.induct) auto

lemma b64_no_nul: "list_all (\<lambda>c. c \<noteq> CHR 0x00) (bf_base64_encode bs)"
  by (induction bs rule: bf_base64_encode.induct) (simp_all add: b64_simps)

text \<open>
  Decoding the base 64 text of some bytes gives the bytes back: when the output buffer has
  exactly their length, whatever text follows, and when the text ends, whatever room is left.
  What lies behind the decode table is never read.
\<close>

theorem base64_roundtrip:
  "bf_base64_decode past (length bs) (bf_base64_encode bs @ rest) = bs
    \<and> bf_base64_decode past (length bs + k) (bf_base64_encode bs) = bs"
  using decode_encode [of 0 rest past bs] decode_encode [of k "[]" past bs] by simp

section \<open>The shape of a hash\<close>

lemma length_encrypt_ctext [simp]: "length (encrypt_ctext s c) = length c"
  by (simp add: encrypt_ctext_def upt_conv_Cons split: prod.split)

lemma length_encrypt_ctext_funpow [simp]: "length ((encrypt_ctext s ^^ n) c) = length c"
  by (induction n) simp_all

lemma length_concat_word_bytes: "length (concat (map word_bytes ws)) = 4 * length ws"
  by (induction ws) (simp_all add: word_bytes_def)

lemma length_hash_bytes [simp]: "length (hash_bytes key cost salt) = 24"
  by (simp add: hash_bytes_def length_concat_word_bytes BF_CTEXT_def)

lemma two_digits_table:
  "list_all (\<lambda>n. length (two_digits n) = 2 \<and> list_all is_digit (two_digits n)
     \<and> (schar (two_digits n ! 0) - 48) * 10 + (schar (two_digits n ! 1) - 48) = int n) [0..<32]"
  by code_simp

lemma two_digits_ok:
  assumes "n < 32"
  shows "\<exists>a b. two_digits n = [a, b] \<and> is_digit a \<and> is_digit b
    \<and> (schar a - 48) * 10 + (schar b - 48) = int n"
proof -
  from assms have "n \<in> set [0..<32]" by simp
  from two_digits_table [unfolded list_all_iff [of _ "[0..<32]"], rule_format, OF this]
  have d: "length (two_digits n) = 2" "list_all is_digit (two_digits n)"
    "(schar (two_digits n ! 0) - 48) * 10 + (schar (two_digits n ! 1) - 48) = int n"
    by blast+
  from d(1) obtain a b where "two_digits n = [a, b]"
    by (auto simp: numeral_2_eq_2 length_Suc_conv)
  with d show ?thesis by auto
qed

lemma clamp_factor_range: "4 \<le> clamp_factor w" "clamp_factor w < 32"
  by (auto simp: clamp_factor_def)

definition hash_text :: "string \<Rightarrow> nat \<Rightarrow> byte list \<Rightarrow> string" where
  "hash_text password cost salt =
     bf_base64_encode (take 23 (hash_bytes (key_bytes password) cost salt))"

lemma length_hash_text [simp]: "length (hash_text password cost salt) = 31"
  by (simp add: hash_text_def)

lemma bcrypt_hash_parts:
  assumes "password \<noteq> []" "length salt = 16"
  shows "bcrypt_hash (Some salt) password w =
    ''$2b$'' @ two_digits (clamp_factor w) @ ''$'' @ bf_base64_encode salt
      @ hash_text password (clamp_factor w) salt"
proof -
  obtain a b where "two_digits (clamp_factor w) = [a, b]"
    using two_digits_ok clamp_factor_range(2) by blast
  then show ?thesis
    using assms by (simp add: bcrypt_hash_def Let_def flip: hash_text_def)
qed

text \<open>
  A hash made from a non-empty password and a full salt has 60 characters, none of them a NUL,
  its cost is the work factor brought into the range 4 to 31, and without a salt or a password
  the result is empty.
\<close>

lemma bcrypt_hash_shape:
  assumes "password \<noteq> []" "length salt = 16"
  shows "length (bcrypt_hash (Some salt) password w) = 60
    \<and> CHR 0x00 \<notin> set (bcrypt_hash (Some salt) password w)
    \<and> take 7 (bcrypt_hash (Some salt) password w)
        = ''$2b$'' @ two_digits (nat (max 4 (min 31 w))) @ ''$''
    \<and> bcrypt_hash (Some salt) [] w = [] \<and> bcrypt_hash None password w = []"
proof -
  obtain a b where ab: "two_digits (clamp_factor w) = [a, b]" "is_digit a" "is_digit b"
    using two_digits_ok clamp_factor_range(2) by blast
  then have n: "a \<noteq> CHR 0x00" "b \<noteq> CHR 0x00" by (auto simp: is_digit_def)
  have c: "clamp_factor w = nat (max 4 (min 31 w))" by (simp add: clamp_factor_def)
  show ?thesis
    unfolding bcrypt_hash_parts [OF assms]
    using ab n b64_no_nul [of salt] b64_no_nul [of "take 23 (hash_bytes (key_bytes password) (clamp_factor w) salt)"]
    by (auto simp: list_all_iff hash_text_def bcrypt_hash_def assms simp flip: c)
qed

lemma b64_char_ascii: "b < 64 \<Longrightarrow> of_char (b64_char b) < (128 :: nat)"
  using b64_alphabet by (simp add: b64_char_def list_all_length word_less_nat_alt)

lemma b64_ascii: "list_all (\<lambda>c. of_char c < (128 :: nat)) (bf_base64_encode bs)"
  by (induction bs rule: bf_base64_encode.induct) (simp_all add: sextet_less b64_char_ascii)

lemma bcrypt_hash_ascii:
  assumes "password \<noteq> []" "length salt = 16"
  shows "list_all (\<lambda>c. of_char c < (128 :: nat)) (bcrypt_hash (Some salt) password w)"
proof -
  obtain a b where "two_digits (clamp_factor w) = [a, b]" "is_digit a" "is_digit b"
    using two_digits_ok clamp_factor_range(2) by blast
  then show ?thesis
    unfolding bcrypt_hash_parts [OF assms] by (simp add: b64_ascii hash_text_def is_digit_def)
qed

section \<open>The check\<close>

lemma xor_eq_0: "(a XOR b = 0) = (a = (b :: 'a::len word))"
  by (metis xor.right_neutral xor_cancel xor_self_eq)

lemma or_eq_0: "(a OR b = 0) = (a = 0 \<and> b = (0 :: 'a::len word))"
  by (metis or.left_neutral or_eq_0_iff)

lemma of_char_byte_inj: "(of_char a :: byte) = of_char b \<Longrightarrow> a = b"
proof -
  assume "(of_char a :: byte) = of_char b"
  then have "uint (of_char a :: byte) = uint (of_char b :: byte)" by simp
  moreover have "uint (of_char c :: byte) = of_char c" for c
    by (cases c) (simp add: of_char_def)
  ultimately show "a = b" by (metis char_of_char)
qed

lemma ct_diff_eq_0:
  "list_all (\<lambda>c. c \<noteq> CHR 0x00) as \<Longrightarrow> list_all (\<lambda>c. c \<noteq> CHR 0x00) bs \<Longrightarrow> length as = length bs \<Longrightarrow>
     ct_diff (length as) as bs = 0 \<longleftrightarrow> as = bs"
  by (induction as bs rule: list_induct2') (auto simp: or_eq_0 xor_eq_0 dest: of_char_byte_inj)

lemma c_str_append: "list_all (\<lambda>c. c \<noteq> CHR 0x00) s \<Longrightarrow> c_str (s @ t) = s @ c_str t"
  by (simp add: c_str_def takeWhile_append list_all_iff)

lemma decode_salt_encode:
  assumes "length salt = 16"
  shows "decode_salt past stack (bf_base64_encode salt @ t) = salt @ drop 16 stack"
proof -
  have "c_str (bf_base64_encode salt @ t) = bf_base64_encode salt @ c_str t"
    by (rule c_str_append [OF b64_no_nul])
  moreover have "bf_base64_decode past 16 (bf_base64_encode salt @ c_str t) = salt"
    using decode_encode [of 0 "c_str t" past salt] assms by simp
  ultimately show ?thesis using assms by (simp add: decode_salt_def)
qed

text \<open>A hash string as \<open>bcrypt_hash\<close> writes it, over a salt and the final 31 characters.\<close>

definition hash_string :: "nat \<Rightarrow> byte list \<Rightarrow> string \<Rightarrow> string" where
  "hash_string cost salt txt = ''$2b$'' @ two_digits cost @ ''$'' @ bf_base64_encode salt @ txt"

lemma bcrypt_check_hash_string:
  assumes "4 \<le> cost" "cost < 32" "length salt = 16" "length stack = 16" "length txt = 31"
  shows "bcrypt_check past stack password (hash_string cost salt txt) \<longleftrightarrow>
    password \<noteq> [] \<and> ct_diff 31 (hash_text password cost salt) txt = 0"
proof -
  obtain a b where ab: "two_digits cost = [a, b]" "(schar a - 48) * 10 + (schar b - 48) = int cost"
    using two_digits_ok [OF assms(2)] by blast
  show ?thesis
    using assms ab
    by (simp add: bcrypt_check_def hash_string_def Let_def decode_salt_encode flip: hash_text_def)
qed

lemma bcrypt_check_own:
  assumes "length salt = 16" "length stack = 16" "length txt = 31" "CHR 0x00 \<notin> set txt"
    "4 \<le> cost" "cost < 32"
  shows "(bcrypt_check past stack password (hash_string cost salt txt)
      \<longleftrightarrow> password \<noteq> [] \<and> hash_string cost salt txt = bcrypt_hash (Some salt) password (int cost))
    \<and> (password = [] \<or> bcrypt_check past stack password (bcrypt_hash (Some salt) password (int cost)))"
proof -
  have cost: "clamp_factor (int cost) = cost" using assms(5,6) by (simp add: clamp_factor_def)
  have n: "list_all (\<lambda>c. c \<noteq> CHR 0x00) (hash_text p cost salt)" for p
    unfolding hash_text_def by (rule b64_no_nul)
  have t: "list_all (\<lambda>c. c \<noteq> CHR 0x00) txt" using assms(4) by (auto simp: list_all_iff)
  have h: "p \<noteq> [] \<Longrightarrow> bcrypt_hash (Some salt) p (int cost) = hash_string cost salt (hash_text p cost salt)" for p
    using bcrypt_hash_parts [OF _ assms(1), of p "int cost"] by (simp add: cost hash_string_def)
  have d: "ct_diff 31 (hash_text p cost salt) txt = 0 \<longleftrightarrow> hash_text p cost salt = txt" for p
    using ct_diff_eq_0 [OF n t] assms(3) by simp
  have d': "ct_diff 31 (hash_text p cost salt) (hash_text p cost salt) = 0" for p
    using ct_diff_eq_0 [OF n n, of p p] by simp
  show ?thesis
    using assms
    by (cases "password = []") (auto simp: bcrypt_check_hash_string h d d', auto simp: hash_string_def)
qed



section \<open>Passwords the check cannot tell apart\<close>

lemma stream_word_cong:
  assumes "\<And>i. i < 4 \<Longrightarrow> d ! ((idx + i) mod length d) = d' ! ((idx + i) mod length d')"
  shows "stream_word d idx = stream_word d' idx"
  unfolding stream_word_def by (intro fold_cong) (simp_all add: assms)

lemma mix_key_cong:
  assumes "\<And>i. i < 72 \<Longrightarrow> d ! (i mod length d) = d' ! (i mod length d')"
  shows "mix_key d s = mix_key d' s"
proof -
  have "stream_word d (4 * i) = stream_word d' (4 * i)" if "i < 18" for i
    by (rule stream_word_cong) (use that in \<open>auto intro: assms\<close>)
  then show ?thesis by (simp add: mix_key_def)
qed

lemma hash_bytes_cong:
  assumes "\<And>i. i < 72 \<Longrightarrow> d ! (i mod length d) = d' ! (i mod length d')"
  shows "hash_bytes d cost salt = hash_bytes d' cost salt"
proof -
  have m: "mix_key d = mix_key d'" using mix_key_cong [OF assms] by (simp add: fun_eq_iff)
  have "bf_expand_key s d salt = bf_expand_key s d' salt"
    "bf_expand_key_nosalt s d = bf_expand_key_nosalt s d'" for s
    by (simp_all add: bf_expand_key_def bf_expand_key_nosalt_def m)
  then have "eks_setup d cost salt = eks_setup d' cost salt" by (simp add: eks_setup_def)
  then show ?thesis by (simp add: hash_bytes_def)
qed

lemma bcrypt_check_cong:
  assumes "hash_bytes (key_bytes p) = hash_bytes (key_bytes q)" "p = [] \<longleftrightarrow> q = []"
  shows "bcrypt_check past stack p hash = bcrypt_check past stack q hash"
  using assms(2) unfolding bcrypt_check_def assms(1) by simp

lemma key_stream:
  assumes "i < 72"
  shows "key_bytes p ! (i mod length (key_bytes p)) = (map of_char p @ [0]) ! (i mod (length p + 1))"
proof (cases "length p + 1 \<le> 72")
  case True
  then show ?thesis by (simp add: key_bytes_def)
next
  case False
  then have "length (key_bytes p) = 72" by (simp add: key_bytes_def)
  with False assms show ?thesis by (simp add: key_bytes_def nth_append)
qed

lemma key_stream_doubled:
  "(map of_char (p @ CHR 0x00 # p) @ [0 :: byte]) ! (i mod (length (p @ CHR 0x00 # p) + 1))
     = (map of_char p @ [0]) ! (i mod (length p + 1))"
proof -
  let ?k = "map of_char p @ [0 :: byte]" and ?n = "length p + 1"
  have l: "length ?k = ?n" by simp
  have k: "map of_char (p @ CHR 0x00 # p) @ [0 :: byte] = ?k @ ?k" by simp
  have m: "i mod (2 * ?n) mod ?n = i mod ?n" by (simp only: mod_mod_cancel dvd_triv_right)
  have lt: "i mod (2 * ?n) < 2 * ?n" by simp
  have "(?k @ ?k) ! j = ?k ! (j mod ?n)" if "j < 2 * ?n" for j
  proof (cases "j < ?n")
    case True
    then show ?thesis by (simp only: nth_append mod_less l if_True)
  next
    case False
    with that have "j mod ?n = j - ?n" by (simp add: mod_if le_mod_geq)
    with False show ?thesis by (simp only: nth_append l if_False)
  qed
  from this [OF lt] m have "(?k @ ?k) ! (i mod (2 * ?n)) = ?k ! (i mod ?n)" by simp
  moreover have "length (p @ CHR 0x00 # p) + 1 = 2 * ?n" by simp
  ultimately show ?thesis by (simp only: k)
qed

text \<open>
  The check knows a password only by its first 72 bytes, and by the cyclic stream they make
  with the terminator: a password is not distinguished from any other with the same first 72
  bytes, nor from its own repetition around a NUL character.
\<close>

theorem bcrypt_check_blind:
  assumes "p \<noteq> []" "length q \<ge> 72"
  shows "bcrypt_check past stack (p @ CHR 0x00 # p) hash = bcrypt_check past stack p hash
    \<and> bcrypt_check past stack (q @ r) hash = bcrypt_check past stack q hash"
proof
  have "hash_bytes (key_bytes (p @ CHR 0x00 # p)) cost salt = hash_bytes (key_bytes p) cost salt"
    for cost salt
  proof (rule hash_bytes_cong)
    fix i :: nat
    assume "i < 72"
    then show "key_bytes (p @ CHR 0x00 # p) ! (i mod length (key_bytes (p @ CHR 0x00 # p)))
        = key_bytes p ! (i mod length (key_bytes p))"
      by (simp only: key_stream key_stream_doubled)
  qed
  then show "bcrypt_check past stack (p @ CHR 0x00 # p) hash = bcrypt_check past stack p hash"
    using assms(1) by (intro bcrypt_check_cong) (auto simp: fun_eq_iff)
  have "key_bytes (q @ r) = key_bytes q"
    using assms(2) by (simp add: key_bytes_def)
  then show "bcrypt_check past stack (q @ r) hash = bcrypt_check past stack q hash"
    using assms(2) by (intro bcrypt_check_cong) auto
qed

theorem bcrypt_check_blind_witness:
  "bcrypt_check (\<lambda>_. 0) [] [CHR ''a'', CHR ''b'', CHR 0x00, CHR ''a'', CHR ''b''] ''$2b$'' = bcrypt_check (\<lambda>_. 0) [] ''ab'' ''$2b$''"
  using bcrypt_check_blind [of "''ab''" "replicate 72 CHR ''x''" "\<lambda>_. 0" "[]" "''$2b$''"] by simp

end
