(* ===== verification/Auth.thy ===== *)
theory Auth
  imports LlPrelude JsonValue Http Bcrypt
begin

text \<open>
  \<^verbatim>\<open>auth.cpp\<close>, \<^verbatim>\<open>auth.h\<close>, the setup, login and logout handlers of \<^verbatim>\<open>child_main.cpp\<close> and the
  tools of \<^verbatim>\<open>tools_auth.cpp\<close>: the device password, sessions, the API key, the limit on failed
  logins and the configuration file. Definitions only; the lemmas are in AuthFacts. Times are
  those of the steady clock, in nanoseconds. Random bytes are arguments (\<open>None\<close> when the system
  has none), and so is the memory that \<open>bcrypt_check\<close> reads uninitialised.
\<close>

section \<open>State\<close>

record Session =
  created :: int
  last_seen :: int

record LoginAttempt =
  failures :: int
  last_failure :: int

text \<open>\<open>device_file\<close> is the file at \<open>config_path_\<close>: what \<open>f >> j\<close> reads from it, \<open>None\<close> when it
  cannot be opened; \<open>writable\<close> tells whether writing the temporary file and renaming it
  succeed.\<close>

record AuthManager =
  config_dir :: string
  password_hash :: string
  api_key :: string
  device_name :: string
  session_timeout_seconds :: int
  setup_complete :: bool
  sessions :: "string \<rightharpoonup> Session"
  login_attempts :: "string \<rightharpoonup> LoginAttempt"
  device_file :: "json result option"
  writable :: bool

definition new_auth :: "json result option \<Rightarrow> bool \<Rightarrow> AuthManager" where
  "new_auth f w = \<lparr>config_dir = [], password_hash = [], api_key = [], device_name = ''llamaste'',
     session_timeout_seconds = 604800, setup_complete = False, sessions = (\<lambda>_. None),
     login_attempts = (\<lambda>_. None), device_file = f, writable = w\<rparr>"

definition MAX_FAILURES :: int where "MAX_FAILURES = 5"
definition COOLDOWN_SECONDS :: int where "COOLDOWN_SECONDS = 30"

text \<open>\<open>std::chrono::seconds\<close> in nanoseconds.\<close>

definition seconds :: "int \<Rightarrow> int" where
  "seconds n = n * 1000000000"

type_synonym memory = "(nat \<Rightarrow> byte) \<times> byte list"

section \<open>Tokens and the configuration file\<close>

definition generate_token :: "byte list option \<Rightarrow> nat \<Rightarrow> string" where
  "generate_token rnd bytes =
     (case rnd of None \<Rightarrow> [] | Some buf \<Rightarrow> hex_string (take (min bytes 32) buf))"

definition generate_api_key :: "byte list option \<Rightarrow> string" where
  "generate_api_key rnd = ''llm-'' @ generate_token rnd 10"

definition read_config :: "json \<Rightarrow> (AuthManager, unit) op" where
  "read_config j =
     bindS (liftS (jvalue get_string j ''password_hash'' [])) (\<lambda>x.
     bindS (modifyS (\<lambda>s. s\<lparr>password_hash := x\<rparr>)) (\<lambda>_.
     bindS (liftS (jvalue get_string j ''api_key'' [])) (\<lambda>x.
     bindS (modifyS (\<lambda>s. s\<lparr>api_key := x\<rparr>)) (\<lambda>_.
     bindS (liftS (jvalue get_string j ''device_name'' ''llamaste'')) (\<lambda>x.
     bindS (modifyS (\<lambda>s. s\<lparr>device_name := x\<rparr>)) (\<lambda>_.
     bindS (liftS (jvalue get_int j ''session_timeout_seconds'' 604800)) (\<lambda>n.
     bindS (modifyS (\<lambda>s. s\<lparr>session_timeout_seconds := n\<rparr>)) (\<lambda>_.
     bindS (liftS (jvalue get_bool j ''setup_complete'' False)) (\<lambda>b.
     modifyS (\<lambda>s. s\<lparr>setup_complete := b\<rparr>))))))))))"

definition load_config :: "string \<Rightarrow> AuthManager \<Rightarrow> AuthManager" where
  "load_config dir s0 =
     (let s = s0\<lparr>config_dir := dir\<rparr>
      in case device_file s of
           None \<Rightarrow> s
         | Some f \<Rightarrow>
             (case bindS (liftS f) read_config s of
                (Inr _, s') \<Rightarrow> s'
              | (Inl _, s') \<Rightarrow> s'\<lparr>password_hash := [], setup_complete := False\<rparr>))"

definition config_json :: "AuthManager \<Rightarrow> json" where
  "config_json s = jobj [(''password_hash'', JString (password_hash s)),
     (''api_key'', JString (api_key s)), (''device_name'', JString (device_name s)),
     (''session_timeout_seconds'', JInt (session_timeout_seconds s)),
     (''setup_complete'', JBool (setup_complete s))]"

definition save_config :: "(AuthManager, unit) op" where
  "save_config s =
     (if writable s then
        case dump (config_json s) of
          Inl e \<Rightarrow> (Inl e, s)
        | Inr j \<Rightarrow> (Inr (), s\<lparr>device_file := Some (Inr (reparse j))\<rparr>)
      else (Inr (), s))"

section \<open>Password\<close>

definition is_setup_complete :: "AuthManager \<Rightarrow> bool" where
  "is_setup_complete s = setup_complete s"

definition set_device_password :: "byte list option \<Rightarrow> byte list option \<Rightarrow> string \<Rightarrow> (AuthManager, bool) op" where
  "set_device_password salt rnd password s =
     (if password = [] \<or> length password > 72 then (Inr False, s)
      else
        let hash = bcrypt_hash salt password 12
        in if hash = [] then (Inr False, s)
           else
             let s1 = s\<lparr>password_hash := hash, setup_complete := True\<rparr>;
                 s2 = (if api_key s1 = [] then s1\<lparr>api_key := generate_api_key rnd\<rparr> else s1)
             in bindS save_config (\<lambda>_. returnS True) s2)"

definition verify_device_password :: "memory \<Rightarrow> string \<Rightarrow> AuthManager \<Rightarrow> bool" where
  "verify_device_password mem password s =
     (if password_hash s = [] then False
      else bcrypt_check (fst mem) (snd mem) password (password_hash s))"

section \<open>Sessions\<close>

definition create_session :: "byte list option \<Rightarrow> int \<Rightarrow> AuthManager \<Rightarrow> string \<times> AuthManager" where
  "create_session rnd now s =
     (let token = generate_token rnd 16
      in (token, s\<lparr>sessions := (sessions s)(token \<mapsto> \<lparr>created = now, last_seen = now\<rparr>)\<rparr>))"

definition is_valid_session :: "int \<Rightarrow> string \<Rightarrow> AuthManager \<Rightarrow> bool" where
  "is_valid_session now token s =
     (if token = [] then False
      else case sessions s token of
             None \<Rightarrow> False
           | Some se \<Rightarrow> now - last_seen se < seconds (session_timeout_seconds s))"

definition touch_session :: "int \<Rightarrow> string \<Rightarrow> AuthManager \<Rightarrow> AuthManager" where
  "touch_session now token s =
     (if token = [] then s
      else case sessions s token of
             None \<Rightarrow> s
           | Some se \<Rightarrow> s\<lparr>sessions := (sessions s)(token \<mapsto> se\<lparr>last_seen := now\<rparr>)\<rparr>)"

definition expire_sessions :: "int \<Rightarrow> AuthManager \<Rightarrow> AuthManager" where
  "expire_sessions now s =
     s\<lparr>sessions := (\<lambda>k. case sessions s k of
           None \<Rightarrow> None
         | Some se \<Rightarrow> if now - last_seen se \<ge> seconds (session_timeout_seconds s) then None else Some se),
       login_attempts := (\<lambda>k. case login_attempts s k of
           None \<Rightarrow> None
         | Some a \<Rightarrow> if now - last_failure a > seconds (COOLDOWN_SECONDS * 10) then None else Some a)\<rparr>"

definition invalidate_session :: "string \<Rightarrow> AuthManager \<Rightarrow> AuthManager" where
  "invalidate_session token s = s\<lparr>sessions := (sessions s)(token := None)\<rparr>"

section \<open>API key\<close>

definition byte_at :: "string \<Rightarrow> nat \<Rightarrow> byte" where
  "byte_at k i = (if i < length k then of_char (k ! i) else 0)"

definition verify_api_key :: "string \<Rightarrow> AuthManager \<Rightarrow> bool" where
  "verify_api_key key s =
     (if key = [] then False
      else if api_key s = [] then False
      else fold (\<lambda>i diff. diff OR (byte_at key i XOR byte_at (api_key s) i)) [0..<32] 0 = 0)"

section \<open>Requests\<close>

definition extract_session_cookie :: "http_req \<Rightarrow> string" where
  "extract_session_cookie req =
     (case find_header req ''Cookie'' of
        None \<Rightarrow> []
      | Some cookies \<Rightarrow>
          (case find_sub ''llamaste_sid='' cookies of
             None \<Rightarrow> []
           | Some pos \<Rightarrow> takeWhile (\<lambda>c. c \<noteq> CHR '';'') (drop (pos + 13) cookies)))"

definition extract_bearer_token :: "http_req \<Rightarrow> string" where
  "extract_bearer_token req =
     (case find_header req ''Authorization'' of
        None \<Rightarrow> []
      | Some auth \<Rightarrow> if length auth > 7 \<and> take 7 auth = ''Bearer '' then drop 7 auth else [])"

definition is_authenticated :: "int \<Rightarrow> http_req \<Rightarrow> AuthManager \<Rightarrow> bool \<times> AuthManager" where
  "is_authenticated now req s =
     (if \<not> setup_complete s then (True, s)
      else
        let sid = extract_session_cookie req
        in if is_valid_session now sid s then (True, touch_session now sid s)
           else if verify_api_key (extract_bearer_token req) s then (True, s)
           else (False, s))"

definition set_session_cookie :: "string \<Rightarrow> AuthManager \<Rightarrow> http_resp \<Rightarrow> http_resp" where
  "set_session_cookie token s res =
     set_header ''Set-Cookie''
       (take 255 (''llamaste_sid='' @ c_str token @ ''; HttpOnly; SameSite=Lax; Path=/; Max-Age=''
         @ show_int (session_timeout_seconds s))) res"

definition clear_session_cookie :: "http_resp \<Rightarrow> http_resp" where
  "clear_session_cookie res =
     set_header ''Set-Cookie'' ''llamaste_sid=; HttpOnly; SameSite=Lax; Path=/; Max-Age=0'' res"

section \<open>Failed logins\<close>

text \<open>\<open>login_attempts_[ip]\<close> makes an entry with no failures at the epoch of the clock.\<close>

definition attempt_of :: "string \<Rightarrow> AuthManager \<Rightarrow> LoginAttempt" where
  "attempt_of ip s =
     (case login_attempts s ip of None \<Rightarrow> \<lparr>failures = 0, last_failure = 0\<rparr> | Some a \<Rightarrow> a)"

definition record_failed_login :: "int \<Rightarrow> string \<Rightarrow> AuthManager \<Rightarrow> bool \<times> AuthManager" where
  "record_failed_login now ip s =
     (let a = attempt_of ip s;
          a1 = (if now - last_failure a > seconds COOLDOWN_SECONDS then a\<lparr>failures := 0\<rparr> else a);
          a2 = a1\<lparr>failures := failures a1 + 1, last_failure := now\<rparr>
      in (failures a2 \<ge> MAX_FAILURES, s\<lparr>login_attempts := (login_attempts s)(ip \<mapsto> a2)\<rparr>))"

definition is_rate_limited :: "int \<Rightarrow> string \<Rightarrow> AuthManager \<Rightarrow> bool" where
  "is_rate_limited now ip s =
     (case login_attempts s ip of
        None \<Rightarrow> False
      | Some a \<Rightarrow> if failures a < MAX_FAILURES then False
                  else now - last_failure a < seconds COOLDOWN_SECONDS)"

definition set_session_timeout :: "int \<Rightarrow> (AuthManager, unit) op" where
  "set_session_timeout secs s =
     (let n = (if secs < 60 then 60 else secs);
          n = (if n > 31536000 then 31536000 else n)
      in save_config (s\<lparr>session_timeout_seconds := n\<rparr>))"

section \<open>Route handlers\<close>

definition require_auth ::
  "string \<Rightarrow> int \<Rightarrow> (http_req \<Rightarrow> AuthManager \<Rightarrow> http_resp \<times> AuthManager) \<Rightarrow> http_req
     \<Rightarrow> AuthManager \<Rightarrow> http_resp \<times> AuthManager" where
  "require_auth boot_mode now handler req s =
     (if boot_mode = ''desktop'' \<and> (remote_addr req = ''127.0.0.1'' \<or> remote_addr req = ''::1'')
      then handler req s
      else case is_authenticated now req s of
             (False, s') \<Rightarrow>
               (set_content (jobj [(''error'', JString ''Unauthorized''), (''login_url'', JString ''/login.html'')])
                  (new_resp\<lparr>status := 401\<rparr>), s')
           | (True, s') \<Rightarrow> handler req s')"

definition open_session :: "byte list option \<Rightarrow> int \<Rightarrow> AuthManager \<Rightarrow> http_resp \<times> AuthManager" where
  "open_session rnd now s =
     (case create_session rnd now s of (token, s') \<Rightarrow> (set_session_cookie token s' new_resp, s'))"

text \<open>\<open>POST /llamaste/auth/setup\<close>: the random bytes are those of the salt, of the API key and of
  the session token.\<close>

definition handle_setup ::
  "int \<Rightarrow> byte list option \<times> byte list option \<times> byte list option \<Rightarrow> http_req \<Rightarrow> (AuthManager, http_resp) op" where
  "handle_setup now = (\<lambda>(salt, rkey, rtok) req s.
     if is_setup_complete s then (Inr (fail_with 403 ''Setup already complete'' new_resp), s)
     else case req_json req of
       None \<Rightarrow> (Inr (fail_with 400 ''Invalid JSON'' new_resp), s)
     | Some body \<Rightarrow>
         bindS (liftS (jvalue get_string body ''password'' [])) (\<lambda>password s.
           if length password < 4
           then (Inr (fail_with 400 ''Password must be at least 4 characters'' new_resp), s)
           else bindS (set_device_password salt rkey password) (\<lambda>ok s.
             if \<not> ok then (Inr (fail_with 500 ''Failed to set password'' new_resp), s)
             else case open_session rtok now s of (res, s) \<Rightarrow>
               (bindE (dump (jobj [(''success'', JBool True), (''api_key'', JString (api_key s)),
                  (''message'', JString ''Device password set. Save your API key for programmatic access.'')]))
                  (\<lambda>j. Inr (set_content j res)), s)) s) s)"

text \<open>\<open>POST /llamaste/auth/login\<close>. The clock is read once for the limit, once for the failure
  (the check of the password takes time in between) and once for the session.\<close>

definition handle_login ::
  "memory \<Rightarrow> int \<times> int \<Rightarrow> byte list option \<Rightarrow> http_req \<Rightarrow> (AuthManager, http_resp) op" where
  "handle_login mem = (\<lambda>(t1, t2) rtok req s.
     if is_rate_limited t1 (remote_addr req) s
     then (Inr (fail_with 429 ''Too many failed attempts. Try again in 30 seconds.'' new_resp), s)
     else case req_json req of
       None \<Rightarrow> (Inr (fail_with 400 ''Invalid JSON'' new_resp), s)
     | Some body \<Rightarrow>
         bindS (liftS (jvalue get_string body ''password'' [])) (\<lambda>password s.
           if \<not> verify_device_password mem password s
           then case record_failed_login t2 (remote_addr req) s of (limited, s) \<Rightarrow>
             (Inr (fail_with 401
                (if limited then ''Too many failed attempts. Locked for 30 seconds.'' else ''Invalid password'')
                new_resp), s)
           else case open_session rtok t2 s of (res, s) \<Rightarrow>
             (Inr (set_content (jobj [(''success'', JBool True)]) res), s)) s)"

definition handle_logout :: "http_req \<Rightarrow> AuthManager \<Rightarrow> http_resp \<times> AuthManager" where
  "handle_logout req s =
     (let sid = extract_session_cookie req;
          s' = (if sid \<noteq> [] then invalidate_session sid s else s)
      in (set_content (jobj [(''success'', JBool True)]) (clear_session_cookie new_resp), s'))"

section \<open>Tools\<close>

text \<open>The arguments are what \<open>json::parse\<close> makes of them; \<open>ready\<close> tells whether the manager was
  registered.\<close>

definition handle_auth_change_password ::
  "memory \<Rightarrow> byte list option \<Rightarrow> byte list option \<Rightarrow> bool \<Rightarrow> json option \<Rightarrow> (AuthManager, json) op" where
  "handle_auth_change_password mem salt rkey ready args s =
     (case args of
        None \<Rightarrow> (Inr (json_error ''Invalid JSON arguments''), s)
      | Some args \<Rightarrow>
          if \<not> ready then (Inr (json_error ''Auth system not initialized''), s)
          else
            bindS (liftS (jvalue get_string args ''current_password'' [])) (\<lambda>current.
            bindS (liftS (jvalue get_string args ''new_password'' [])) (\<lambda>new_pass s.
              if current = [] \<or> new_pass = [] then
                (Inr (json_error ''Both 'current_password' and 'new_password' are required''), s)
              else if length new_pass < 4 then
                (Inr (json_error ''New password must be at least 4 characters''), s)
              else if \<not> verify_device_password mem current s then
                (Inr (json_error ''Current password is incorrect''), s)
              else bindS (set_device_password salt rkey new_pass) (\<lambda>ok s.
                if \<not> ok then (Inr (json_error ''Failed to set new password''), s)
                else (Inr (jobj [(''success'', JBool True),
                       (''message'', JString ''Device password changed successfully'')]), s)) s)) s)"

definition handle_auth_get_api_key :: "bool \<Rightarrow> AuthManager \<Rightarrow> json result" where
  "handle_auth_get_api_key ready s =
     (if \<not> ready then Inr (json_error ''Auth system not initialized'')
      else if api_key s = [] then
        Inr (json_error ''No API key available. Set a device password first.'')
      else dump (jobj [(''api_key'', JString (api_key s)),
        (''usage'', JString (''Use as Bearer token: Authorization: Bearer '' @ api_key s))]))"

definition duration_seconds :: "string \<Rightarrow> int option" where
  "duration_seconds d =
     (if d = ''1h'' \<or> d = ''1 hour'' then Some 3600
      else if d = ''1d'' \<or> d = ''1 day'' then Some 86400
      else if d = ''7d'' \<or> d = ''1 week'' then Some 604800
      else if d = ''30d'' \<or> d = ''1 month'' then Some 2592000
      else if d = ''1y'' \<or> d = ''1 year'' then Some 31536000
      else None)"

definition timeout_argument :: "json \<Rightarrow> int option result" where
  "timeout_argument args =
     bindE (jvalue get_int args ''seconds'' 0) (\<lambda>n.
       if n \<le> 0 then bindE (jvalue get_string args ''duration'' []) (\<lambda>d. Inr (duration_seconds d))
       else Inr (Some n))"

definition handle_auth_set_session_timeout :: "bool \<Rightarrow> json option \<Rightarrow> (AuthManager, json) op" where
  "handle_auth_set_session_timeout ready args s =
     (case args of
        None \<Rightarrow> (Inr (json_error ''Invalid JSON arguments''), s)
      | Some args \<Rightarrow>
          if \<not> ready then (Inr (json_error ''Auth system not initialized''), s)
          else bindS (liftS (timeout_argument args)) (\<lambda>r s.
            case r of
              None \<Rightarrow> (Inr (json_error
                ''Provide 'seconds' (int) or 'duration' (e.g. '7d', '1 week')''), s)
            | Some n \<Rightarrow> bindS (set_session_timeout n) (\<lambda>_ s.
                (Inr (jobj [(''success'', JBool True),
                   (''session_timeout_seconds'', JInt (session_timeout_seconds s))]), s)) s) s)"

end
