(* ===== verification/AuthFacts.thy ===== *)
theory AuthFacts
  imports Auth
begin

text \<open>
  The lemmas and properties of the authentication manager: the comparison of API keys, the limit
  on failed logins over any sequence of events, the life of a session, the way from setup over
  login to an authenticated request, and what the configuration file keeps.
\<close>

section \<open>The API key\<close>

lemma fold_or_zero: "fold (\<lambda>i d. d OR f i) is (d :: 'a::len word) = 0 \<longleftrightarrow> d = 0 \<and> (\<forall>i \<in> set is. f i = 0)"
  by (induction "is" arbitrary: d) (auto simp: or_eq_0)

lemma of_char_byte_0: "(of_char c :: byte) = 0 \<longleftrightarrow> c = CHR 0x00"
  using of_char_byte_inj [of c "CHR 0x00"] by auto

lemma verify_api_key_bytes:
  "verify_api_key key s \<longleftrightarrow>
     key \<noteq> [] \<and> api_key s \<noteq> [] \<and> (\<forall>i<32. byte_at key i = byte_at (api_key s) i)"
  by (simp add: verify_api_key_def fold_or_zero xor_eq_0 Ball_def)

lemma bytes_eq_length:
  assumes "CHR 0x00 \<notin> set b" "length a < 32" "\<forall>i<32. byte_at a i = byte_at b i"
  shows "length b \<le> length a"
proof (rule ccontr)
  assume "\<not> length b \<le> length a"
  then have lt: "length a < length b" by simp
  have "byte_at b (length a) = 0"
    using assms(2,3) by (metis byte_at_def less_irrefl)
  with lt have "b ! length a = CHR 0x00" by (simp add: byte_at_def of_char_byte_0)
  with assms(1) lt nth_mem show False by metis
qed

text \<open>
  For keys without NUL characters the padded constant-time comparison of \<open>verify_api_key\<close> is
  equality with the stored key, whatever the length of the key offered, as long as the stored
  key is shorter than the window of 32 bytes.
\<close>

theorem verify_api_key_iff:
  assumes "CHR 0x00 \<notin> set key" "CHR 0x00 \<notin> set (api_key s)" "length (api_key s) < 32"
  shows "verify_api_key key s \<longleftrightarrow> key \<noteq> [] \<and> key = api_key s"
proof
  assume "verify_api_key key s"
  then have ne: "key \<noteq> []" and eq: "\<forall>i<32. byte_at key i = byte_at (api_key s) i"
    by (auto simp: verify_api_key_bytes)
  have le: "length key \<le> length (api_key s)"
    using bytes_eq_length [OF assms(1,3)] eq by simp
  moreover have "length (api_key s) \<le> length key"
    using bytes_eq_length [OF assms(2), of key] eq le assms(3) by simp
  ultimately have len: "length key = length (api_key s)" by simp
  have "key ! i = api_key s ! i" if "i < length key" for i
  proof -
    have "byte_at key i = byte_at (api_key s) i" using eq that len assms(3) by simp
    with that len show ?thesis by (auto simp: byte_at_def intro: of_char_byte_inj)
  qed
  with len ne show "key \<noteq> [] \<and> key = api_key s" by (auto intro: nth_equalityI)
qed (auto simp: verify_api_key_bytes)

theorem verify_api_key_iff_witness:
  "verify_api_key ''llm-12'' ((new_auth None True)\<lparr>api_key := ''llm-12''\<rparr>)
    \<and> \<not> verify_api_key ''llm-13'' ((new_auth None True)\<lparr>api_key := ''llm-12''\<rparr>)"
  using verify_api_key_iff [of "''llm-12''" "(new_auth None True)\<lparr>api_key := ''llm-12''\<rparr>"]
    verify_api_key_iff [of "''llm-13''" "(new_auth None True)\<lparr>api_key := ''llm-12''\<rparr>"]
  by (simp add: new_auth_def)

section \<open>Events\<close>

text \<open>What reaches the manager between two starts: logins, authenticated routes, logouts and the
  periodic pass, one at a time.\<close>

datatype auth_event =
    Login "int \<times> int" "byte list option" http_req
  | Request int http_req
  | Logout http_req
  | Expire int

fun auth_step :: "memory \<Rightarrow> auth_event \<Rightarrow> AuthManager \<Rightarrow> AuthManager" where
  "auth_step mem (Login ts rtok req) s = snd (handle_login mem ts rtok req s)"
| "auth_step mem (Request t req) s = snd (is_authenticated t req s)"
| "auth_step mem (Logout req) s = snd (handle_logout req s)"
| "auth_step mem (Expire t) s = expire_sessions t s"

text \<open>The times at which a password from an address was verified and found wrong, newest first:
  the logins from it that are answered 401.\<close>

fun failure_of :: "memory \<Rightarrow> string \<Rightarrow> auth_event \<Rightarrow> AuthManager \<Rightarrow> int list" where
  "failure_of mem ip (Login (t1, t2) rtok req) s =
     (case fst (handle_login mem (t1, t2) rtok req s) of
        Inr res \<Rightarrow> if remote_addr req = ip \<and> status res = 401 then [t2] else []
      | Inl _ \<Rightarrow> [])"
| "failure_of mem ip _ s = []"

fun run_failures :: "memory \<Rightarrow> string \<Rightarrow> auth_event list \<Rightarrow> AuthManager \<times> int list \<Rightarrow> AuthManager \<times> int list" where
  "run_failures mem ip [] st = st"
| "run_failures mem ip (e # es) (s, rs) =
     run_failures mem ip es (auth_step mem e s, failure_of mem ip e s @ rs)"

text \<open>The clock does not run backwards.\<close>

fun clocked :: "int \<Rightarrow> auth_event list \<Rightarrow> bool" where
  "clocked now [] = True"
| "clocked now (Login (t1, t2) rtok req # es) = (now \<le> t1 \<and> t1 \<le> t2 \<and> clocked t2 es)"
| "clocked now (Request t req # es) = (now \<le> t \<and> clocked t es)"
| "clocked now (Logout req # es) = clocked now es"
| "clocked now (Expire t # es) = (now \<le> t \<and> clocked t es)"

section \<open>The limit on failed logins\<close>

definition window :: int where "window = seconds COOLDOWN_SECONDS"

text \<open>The invariant ties the counter of an address to its failures: the last of them is recorded,
  the series the counter stands for began with a reset, and any six failures span the window.\<close>

definition limit_inv :: "int \<Rightarrow> LoginAttempt option \<Rightarrow> int list \<Rightarrow> bool" where
  "limit_inv now a rs \<longleftrightarrow>
     sorted_wrt (\<ge>) rs \<and> (\<forall>t \<in> set rs. t \<le> now)
     \<and> (\<forall>i. i + 5 < length rs \<longrightarrow> rs ! i - rs ! (i + 5) \<ge> window)
     \<and> (case a of
          None \<Rightarrow> (\<forall>t \<in> set rs. now - t > window)
        | Some a \<Rightarrow> 1 \<le> failures a \<and> rs \<noteq> [] \<and> hd rs = last_failure a \<and> nat (failures a) \<le> length rs
            \<and> (nat (failures a) < length rs \<longrightarrow>
                 rs ! (nat (failures a) - 1) - rs ! nat (failures a) > window))"

lemma window_pos: "0 < window"
  by (simp add: window_def seconds_def COOLDOWN_SECONDS_def)

lemma limit_inv_later: "limit_inv now a rs \<Longrightarrow> now \<le> t \<Longrightarrow> limit_inv t a rs"
  unfolding limit_inv_def by (fastforce split: option.splits)

lemma limit_inv_expire:
  assumes "limit_inv t (Some a) rs" "t - last_failure a > seconds (COOLDOWN_SECONDS * 10)"
  shows "limit_inv t None rs"
proof -
  from assms(1) have s: "sorted_wrt (\<ge>) rs" and ne: "rs \<noteq> []" and hd: "hd rs = last_failure a"
    by (auto simp: limit_inv_def)
  have "x \<le> hd rs" if "x \<in> set rs" for x using s ne that by (cases rs) auto
  then have "\<forall>x \<in> set rs. t - x > window"
    using assms(2) hd by (auto simp: window_def seconds_def COOLDOWN_SECONDS_def) fastforce
  with assms(1) show ?thesis by (auto simp: limit_inv_def)
qed

lemma limit_inv_fail:
  assumes inv: "limit_inv t1 a rs" and t: "t1 \<le> t2"
    and free: "\<And>b. a = Some b \<Longrightarrow> failures b \<ge> MAX_FAILURES \<Longrightarrow> t1 - last_failure b \<ge> window"
    and b: "b = (case a of None \<Rightarrow> \<lparr>failures = 0, last_failure = 0\<rparr> | Some b \<Rightarrow> b)"
    and n: "n = (if t2 - last_failure b > window then 0 else failures b)"
  shows "limit_inv t2 (Some \<lparr>failures = n + 1, last_failure = t2\<rparr>) (t2 # rs)"
proof -
  have srt: "sorted_wrt (\<ge>) rs" and le: "\<forall>x \<in> set rs. x \<le> t2"
    and six: "\<forall>i. i + 5 < length rs \<longrightarrow> rs ! i - rs ! (i + 5) \<ge> window"
    using inv t by (auto simp: limit_inv_def)
  have hd_le: "x \<le> hd rs" if "x \<in> set rs" for x using srt that by (cases rs) auto
  have nth_le: "rs ! j \<le> rs ! i" if "i \<le> j" "j < length rs" for i j
    using srt that by (cases "i = j") (auto simp: sorted_wrt_iff_nth_less)
  have new: "t2 - rs ! 4 \<ge> window" if l: "4 < length rs"
  proof (cases a)
    case None
    with inv have "t1 - rs ! 4 > window" using l by (auto simp: limit_inv_def)
    with t show ?thesis by simp
  next
    case (Some c)
    show ?thesis
    proof (cases "failures c \<ge> MAX_FAILURES")
      case True
      have "hd rs = last_failure c" using inv Some by (auto simp: limit_inv_def)
      moreover have "rs ! 4 \<le> hd rs" using hd_le l by simp
      ultimately show ?thesis using free [OF Some True] t by simp
    next
      case False
      let ?k = "nat (failures c)"
      have k: "1 \<le> ?k" "?k \<le> 4" using inv Some False by (auto simp: limit_inv_def MAX_FAILURES_def)
      then have "?k < length rs" using l by simp
      then have "rs ! (?k - 1) - rs ! ?k > window" using inv Some by (auto simp: limit_inv_def)
      moreover have "rs ! 4 \<le> rs ! ?k" using nth_le k l by simp
      moreover have "rs ! (?k - 1) \<le> t2" using le l k by simp
      ultimately show ?thesis by simp
    qed
  qed
  have six': "(t2 # rs) ! i - (t2 # rs) ! (i + 5) \<ge> window" if "i + 5 < length (t2 # rs)" for i
  proof (cases i)
    case 0
    with that new show ?thesis by simp
  next
    case (Suc j)
    then have "(t2 # rs) ! (i + 5) = rs ! (j + 5)" by (simp add: add.commute)
    with Suc that six show ?thesis by simp
  qed
  have n0: "0 \<le> n" using inv b n by (auto simp: limit_inv_def split: option.splits)
  have series: "nat (n + 1) \<le> length (t2 # rs)
      \<and> (nat (n + 1) < length (t2 # rs) \<longrightarrow>
           (t2 # rs) ! (nat (n + 1) - 1) - (t2 # rs) ! nat (n + 1) > window)"
  proof (cases a)
    case None
    then have "n = 0" using b n by simp
    moreover have "t2 - rs ! 0 > window" if "rs \<noteq> []"
    proof -
      have "t1 - rs ! 0 > window" using inv None that by (auto simp: limit_inv_def)
      with t show ?thesis by simp
    qed
    ultimately show ?thesis by auto
  next
    case (Some c)
    then have bc: "b = c" using b by simp
    have ci: "1 \<le> failures c" "rs \<noteq> []" "hd rs = last_failure c" "nat (failures c) \<le> length rs"
      "nat (failures c) < length rs \<longrightarrow> rs ! (nat (failures c) - 1) - rs ! nat (failures c) > window"
      using inv Some by (auto simp: limit_inv_def)
    show ?thesis
    proof (cases "t2 - last_failure c > window")
      case True
      then have "n = 0" using n bc by simp
      with ci True show ?thesis by (simp add: hd_conv_nth)
    next
      case False
      then have "n = failures c" using n bc by simp
      moreover obtain k where k: "nat (failures c) = Suc k" using ci(1) by (cases "nat (failures c)") auto
      moreover have "nat (failures c + 1) = Suc (nat (failures c))" using ci(1) by simp
      ultimately show ?thesis using ci by simp
    qed
  qed
  show ?thesis
    unfolding limit_inv_def using srt le six' n0 series by simp
qed

lemma attempt_eq: "a\<lparr>failures := n, last_failure := t\<rparr> = \<lparr>failures = n, last_failure = t\<rparr>"
  by (cases a) simp

lemma login_cases:
  obtains (same) "login_attempts (snd (handle_login mem (t1, t2) rtok req s)) = login_attempts s"
      "failure_of mem ip (Login (t1, t2) rtok req) s = []"
  | (wrong) "\<not> is_rate_limited t1 (remote_addr req) s"
      "snd (handle_login mem (t1, t2) rtok req s) = snd (record_failed_login t2 (remote_addr req) s)"
      "failure_of mem ip (Login (t1, t2) rtok req) s = (if remote_addr req = ip then [t2] else [])"
proof (cases "is_rate_limited t1 (remote_addr req) s \<or> req_json req = None
    \<or> (\<exists>e. jvalue get_string (the (req_json req)) ''password'' [] = Inl e)")
  case True
  then show ?thesis
    by (intro same) (auto simp: handle_login_def split: option.split)
next
  case False
  then obtain body pw where "\<not> is_rate_limited t1 (remote_addr req) s" "req_json req = Some body"
    "jvalue get_string body ''password'' [] = Inr pw"
    by (cases "jvalue get_string (the (req_json req)) ''password'' []") auto
  note d = this
  show ?thesis
  proof (cases "verify_device_password mem pw s")
    case True
    with d show ?thesis
      by (intro same) (auto simp: handle_login_def open_session_def create_session_def
        set_session_cookie_def Let_def)
  next
    case False
    with d show ?thesis
      by (intro wrong) (auto simp: handle_login_def split: prod.split)
  qed
qed

lemma other_attempts:
  "login_attempts (snd (is_authenticated t req s)) = login_attempts s"
  "login_attempts (snd (handle_logout req s)) = login_attempts s"
  by (simp_all add: is_authenticated_def touch_session_def handle_logout_def invalidate_session_def
      Let_def split: option.split)

lemma limit_inv_run:
  "limit_inv now (login_attempts s ip) rs \<Longrightarrow> clocked now es \<Longrightarrow> run_failures mem ip es (s, rs) = (s', rs') \<Longrightarrow>
     \<exists>now'. limit_inv now' (login_attempts s' ip) rs'"
proof (induction now es arbitrary: s rs rule: clocked.induct)
  case (2 now t1 t2 rtok req es)
  have inv: "limit_inv t1 (login_attempts s ip) rs" using 2 by (auto intro: limit_inv_later)
  show ?case
  proof (cases rule: login_cases [of mem t1 t2 rtok req s ip])
    case same
    show ?thesis
      by (rule 2(1)) (use 2(2-) same limit_inv_later [OF inv, of t2] in \<open>simp_all del: failure_of.simps\<close>)
  next
    case wrong
    show ?thesis
    proof (cases "remote_addr req = ip")
      case False
      show ?thesis
        by (rule 2(1)) (use 2(2-) False wrong limit_inv_later [OF inv, of t2] in
          \<open>simp_all del: failure_of.simps add: record_failed_login_def Let_def\<close>)
    next
      case True
      let ?b = "attempt_of ip s"
      have "limit_inv t2 (Some \<lparr>failures = (if t2 - last_failure ?b > window then 0 else failures ?b) + 1,
          last_failure = t2\<rparr>) (t2 # rs)"
        by (rule limit_inv_fail [OF inv _ _ attempt_of_def refl])
          (use 2 wrong True in \<open>auto simp: is_rate_limited_def window_def split: if_splits\<close>)
      then show ?thesis
        by (intro 2(1)) (use 2(2-) True wrong in
          \<open>simp_all del: failure_of.simps add: record_failed_login_def Let_def window_def attempt_eq split: if_splits\<close>)
    qed
  qed
next
  case (5 now t es)
  have inv: "limit_inv t (login_attempts s ip) rs" using 5 by (auto intro: limit_inv_later)
  then have "limit_inv t (login_attempts (expire_sessions t s) ip) rs"
    by (auto simp: expire_sessions_def intro: limit_inv_expire split: option.split)
  with 5 show ?case by simp
next
  case (3 now t req es)
  show ?case
    by (rule 3(1)) (use 3(2-) in \<open>auto simp: other_attempts intro: limit_inv_later\<close>)
next
  case (4 now req es)
  show ?case
    by (rule 4(1)) (use 4(2-) in \<open>auto simp: other_attempts\<close>)
qed auto


definition guess :: "int \<Rightarrow> auth_event" where
  "guess t = Login (t * 1000000000, t * 1000000000) None
     \<lparr>req_headers = [], remote_addr = ''10.0.0.7'', req_empty = False,
      req_json = Some (jobj [(''password'', JString ''guess'')])\<rparr>"

lemma run_failures_guess:
  "run_failures mem ''10.0.0.7'' (guess t # es) (s, rs) =
     run_failures mem ''10.0.0.7'' es
       (if is_rate_limited (t * 1000000000) ''10.0.0.7'' s then (s, rs)
        else if verify_device_password mem ''guess'' s
          then (snd (open_session None (t * 1000000000) s), rs)
        else (snd (record_failed_login (t * 1000000000) ''10.0.0.7'' s), (t * 1000000000) # rs))"
  by (auto simp: guess_def handle_login_def cpp_simps open_session_def create_session_def
      set_session_cookie_def Let_def split: prod.split)


section \<open>Sessions\<close>

definition seen_at :: "AuthManager \<Rightarrow> string \<Rightarrow> int option" where
  "seen_at s k = map_option last_seen (sessions s k)"

definition idle_limit :: "AuthManager \<Rightarrow> int" where
  "idle_limit s = seconds (session_timeout_seconds s)"

text \<open>What a request that carries the cookie of a session does to the sessions.\<close>

definition use_session :: "int \<Rightarrow> string \<Rightarrow> AuthManager \<Rightarrow> AuthManager" where
  "use_session t k s = (if is_valid_session t k s then touch_session t k s else s)"

lemma is_valid_session_seen:
  "is_valid_session t k s \<longleftrightarrow> k \<noteq> [] \<and> (\<exists>l. seen_at s k = Some l \<and> t - l < idle_limit s)"
  by (auto simp: is_valid_session_def seen_at_def idle_limit_def split: option.splits)

interpretation auth_sessions: session_store seen_at use_session expire_sessions idle_limit is_valid_session
proof
  fix t k k' s
  show "seen_at (use_session t k s) k' = (if k' = k \<and> is_valid_session t k s then Some t else seen_at s k')"
    by (auto simp: seen_at_def use_session_def is_valid_session_def touch_session_def split: option.splits)
  show "idle_limit (use_session t k s) = idle_limit s"
    by (auto simp: use_session_def touch_session_def idle_limit_def split: option.split)
next
  fix t k s
  show "seen_at (expire_sessions t s) k =
      (case seen_at s k of None \<Rightarrow> None | Some l \<Rightarrow> if t - l \<ge> idle_limit s then None else Some l)"
    by (auto simp: seen_at_def expire_sessions_def idle_limit_def split: option.splits)
  show "idle_limit (expire_sessions t s) = idle_limit s"
    by (simp add: expire_sessions_def idle_limit_def)
  show "k \<noteq> [] \<Longrightarrow> seen_at s k = Some l \<Longrightarrow> t - l < idle_limit s \<Longrightarrow> is_valid_session t k s" for l
    by (auto simp: is_valid_session_seen)
qed

lemma is_authenticated_session:
  "setup_complete s \<Longrightarrow> is_valid_session t (extract_session_cookie req) s \<Longrightarrow>
     is_authenticated t req s = (True, use_session t (extract_session_cookie req) s)"
  by (simp add: is_authenticated_def use_session_def Let_def)


definition demo_auth :: AuthManager where
  "demo_auth = (new_auth None True)\<lparr>setup_complete := True, session_timeout_seconds := 60,
     sessions := [''ab'' \<mapsto> \<lparr>created = 0, last_seen = 0\<rparr>]\<rparr>"

definition demo_req :: http_req where
  "demo_req = \<lparr>req_headers = [(''cookie'', ''x=1; llamaste_sid=ab; y=2'')], remote_addr = [],
     req_empty = True, req_json = None\<rparr>"

lemma demo_cookie: "extract_session_cookie demo_req = ''ab''"
  by code_simp


section \<open>From setup to an authenticated request\<close>

lemma hex_lower_char: "is_hex_lower c \<Longrightarrow> c \<noteq> CHR 0x00 \<and> c \<noteq> CHR '';''"
  by (auto simp: is_hex_lower_def is_digit_def)

lemma find_sub_here: "starts_with p s \<Longrightarrow> s \<noteq> [] \<Longrightarrow> find_sub p s = Some 0"
  by (cases s) auto

text \<open>The cookie pair of a \<open>Set-Cookie\<close> value as a client sends it back.\<close>

definition cookie_pair :: "string \<Rightarrow> string" where
  "cookie_pair v = takeWhile (\<lambda>c. c \<noteq> CHR '';'') v"

text \<open>
  The cookie round trip. For a session token as the program makes it, the header that
  \<open>set_session_cookie\<close> writes fits its buffer up to the attributes, and a client that returns the
  pair, alone or with cookies after it, is recognised by exactly that token; the cookie of
  \<open>clear_session_cookie\<close> gives the empty token, which is never a valid session.
\<close>

theorem cookie_roundtrip:
  assumes "length bs = 16" "rest = [] \<or> hd rest = CHR '';''"
    "find_header req ''Cookie'' =
       Some (cookie_pair (snd (last (resp_headers (set_session_cookie (generate_token (Some bs) 16) s res)))) @ rest)"
  shows "extract_session_cookie req = hex_string bs \<and> length (hex_string bs) = 32
    \<and> cookie_pair (snd (last (resp_headers (clear_session_cookie res)))) = ''llamaste_sid=''"
proof -
  have tok: "generate_token (Some bs) 16 = hex_string bs" using assms(1) by (simp add: generate_token_def)
  have len: "length (hex_string bs) = 32" using assms(1) by simp
  have ok: "\<forall>c \<in> set (hex_string bs). c \<noteq> CHR 0x00 \<and> c \<noteq> CHR '';''"
    using hex_string_chars [of bs] hex_lower_char by (auto simp: list_all_iff)
  have c: "c_str (hex_string bs) = hex_string bs" using ok by (simp add: c_str_def takeWhile_eq_all_conv)
  have p: "cookie_pair (snd (last (resp_headers (set_session_cookie (hex_string bs) s res))))
      = ''llamaste_sid='' @ hex_string bs"
    using ok len by (simp add: set_session_cookie_def set_header_def cookie_pair_def c takeWhile_append)
  have f: "find_sub ''llamaste_sid='' (''llamaste_sid='' @ hex_string bs @ rest) = Some 0"
    by (rule find_sub_here [OF starts_with_append]) simp
  have t: "takeWhile (\<lambda>c. c \<noteq> CHR '';'') (hex_string bs @ rest) = hex_string bs"
    using ok assms(2) by (cases rest) (auto simp: takeWhile_append)
  have "extract_session_cookie req = hex_string bs"
    using assms(3) f t by (simp only: tok p) (simp add: extract_session_cookie_def)
  with len show ?thesis
    by (simp add: clear_session_cookie_def set_header_def cookie_pair_def)
qed

theorem cookie_roundtrip_witness:
  "extract_session_cookie
      \<lparr>req_headers = [(''Cookie'', cookie_pair (snd (last (resp_headers (set_session_cookie
          (generate_token (Some (replicate 16 0xa5)) 16) demo_auth new_resp)))) @ ''; lang=de'')],
       remote_addr = [], req_empty = True, req_json = None\<rparr> = hex_string (replicate 16 0xa5)"
  by (rule cookie_roundtrip [where bs = "replicate 16 0xa5" and rest = "''; lang=de''"
        and s = demo_auth and res = new_resp, THEN conjunct1]) (simp_all add: find_header_def)

lemma generate_api_key_ascii: "list_all (\<lambda>c. of_char c < (128 :: nat)) (generate_api_key r)"
proof -
  have "is_hex_lower c \<Longrightarrow> of_char c < (128 :: nat)" for c by (auto simp: is_hex_lower_def is_digit_def)
  then show ?thesis
    using hex_string_chars [of "take 10 (the r)"]
    by (auto simp: generate_api_key_def generate_token_def list_all_iff split: option.split)
qed

lemma config_json_ok:
  "utf8_ok (password_hash s) \<Longrightarrow> utf8_ok (api_key s) \<Longrightarrow> utf8_ok (device_name s) \<Longrightarrow> dump_ok (config_json s)"
  by (simp add: config_json_def jobj_def list_all_iff utf8_ok_ascii)

definition stored_key :: "byte list option \<Rightarrow> AuthManager \<Rightarrow> string" where
  "stored_key rkey s = (if api_key s = [] then generate_api_key rkey else api_key s)"

lemma stored_key_utf8: "utf8_ok (api_key s) \<Longrightarrow> utf8_ok (stored_key rkey s)"
  by (simp add: stored_key_def utf8_ok_ascii generate_api_key_ascii)

lemma set_device_password_ok:
  assumes "utf8_ok (api_key s)" "utf8_ok (device_name s)"
    and "length salt = 16" "0 < length pw" "length pw \<le> 72"
  obtains f where "set_device_password (Some salt) rkey pw s =
    (Inr True, s\<lparr>password_hash := bcrypt_hash (Some salt) pw 12, setup_complete := True,
       api_key := stored_key rkey s, device_file := f\<rparr>)"
proof -
  have pw: "pw \<noteq> []" using assms by auto
  have ne: "bcrypt_hash (Some salt) pw 12 \<noteq> []"
    using bcrypt_hash_shape [OF pw assms(3), of 12] by (metis list.size(3) zero_neq_numeral)
  let ?s = "s\<lparr>password_hash := bcrypt_hash (Some salt) pw 12, setup_complete := True,
       api_key := stored_key rkey s\<rparr>"
  have "(if api_key s = [] then s\<lparr>password_hash := h, setup_complete := True, api_key := generate_api_key rkey\<rparr>
      else s\<lparr>password_hash := h, setup_complete := True\<rparr>)
    = s\<lparr>password_hash := h, setup_complete := True, api_key := stored_key rkey s\<rparr>" for h
    by (simp add: stored_key_def)
  then have e: "set_device_password (Some salt) rkey pw s = bindS save_config (\<lambda>_. returnS True) ?s"
    using assms pw ne by (simp add: set_device_password_def Let_def)
  have "dump_ok (config_json ?s)"
    using assms pw by (intro config_json_ok) (simp_all add: stored_key_utf8 utf8_ok_ascii bcrypt_hash_ascii)
  then have "\<exists>f. bindS save_config (\<lambda>_. returnS True) ?s = (Inr True, ?s\<lparr>device_file := f\<rparr>)"
    by (cases "writable s") (auto simp: bindS_def save_config_def dump_def intro: exI [of _ "device_file s"])
  with e that show ?thesis by auto
qed

lemma verify_own_password:
  assumes "length salt = 16" "length (snd mem) = 16" "pw \<noteq> []"
    "password_hash s = bcrypt_hash (Some salt) pw 12"
  shows "verify_device_password mem pw' s \<longleftrightarrow>
    pw' \<noteq> [] \<and> bcrypt_hash (Some salt) pw' 12 = bcrypt_hash (Some salt) pw 12"
proof -
  let ?t = "hash_text pw 12 salt"
  have h: "bcrypt_hash (Some salt) pw 12 = hash_string 12 salt ?t"
    using bcrypt_hash_parts [OF assms(3,1), of 12] by (simp add: hash_string_def clamp_factor_def)
  have n: "CHR 0x00 \<notin> set ?t"
    using b64_no_nul unfolding hash_text_def by (fastforce simp: list_all_iff)
  have ne: "hash_string 12 salt ?t \<noteq> []" by (simp add: hash_string_def)
  show ?thesis
    using bcrypt_check_own [OF assms(1,2) length_hash_text n, of 12 "fst mem" pw'] ne
    by (auto simp: verify_device_password_def assms(4) h)
qed

lemma handle_setup_ok:
  assumes "\<not> setup_complete s" "req_json req = Some body"
    "jvalue get_string body ''password'' [] = Inr pw" "4 \<le> length pw"
    "set_device_password salt rkey pw s = (Inr True, s1)" "utf8_ok (api_key s1)"
    "open_session rtok now s1 = (res, s2)" "api_key s2 = api_key s1"
  shows "\<exists>j. handle_setup now (salt, rkey, rtok) req s = (Inr (set_content j res), s2)"
proof -
  let ?j = "jobj [(''success'', JBool True), (''api_key'', JString (api_key s2)),
    (''message'', JString ''Device password set. Save your API key for programmatic access.'')]"
  have "dump_ok ?j" using assms(6,8) by (simp add: jobj_def utf8_ok_ascii)
  then have "dump ?j = Inr ?j" by (simp add: dump_def)
  with assms(1-4,7) show ?thesis
    by (intro exI [of _ ?j]) (simp add: handle_setup_def is_setup_complete_def
        bindS_Inr [where m = "set_device_password salt rkey pw" and s = s, OF assms(5)])
qed

text \<open>
  Setting the device up. A setup request with a password of 4 to 72 bytes on a device that is
  not set up is answered 200; afterwards exactly the passwords with the same bcrypt hash are
  verified, a second setup is refused with 403, and the cookie of the answer authenticates
  requests until the session timeout.
\<close>

theorem setup_locks_device:
  assumes "\<not> setup_complete s" "utf8_ok (api_key s)" "utf8_ok (device_name s)"
    "req_json req = Some body" "jvalue get_string body ''password'' [] = Inr pw"
    "4 \<le> length pw" "length pw \<le> 72" "length salt = 16" "length tok = 16" "length (snd mem) = 16"
    "handle_setup now (Some salt, rkey, Some tok) req s = (r, s')"
    "extract_session_cookie req' = hex_string tok" "t - now < seconds (session_timeout_seconds s)"
  shows "(\<exists>res. r = Inr res \<and> status res = 200)
    \<and> (verify_device_password mem pw' s' \<longleftrightarrow>
         pw' \<noteq> [] \<and> bcrypt_hash (Some salt) pw' 12 = bcrypt_hash (Some salt) pw 12)
    \<and> handle_setup now' rnds req'' s' = (Inr (fail_with 403 ''Setup already complete'' new_resp), s')
    \<and> fst (is_authenticated t req' s')"
proof -
  have pw: "pw \<noteq> []" using assms by auto
  obtain f where f: "set_device_password (Some salt) rkey pw s =
    (Inr True, s\<lparr>password_hash := bcrypt_hash (Some salt) pw 12, setup_complete := True,
       api_key := stored_key rkey s, device_file := f\<rparr>)"
    by (rule set_device_password_ok [OF assms(2,3,8), of pw rkey]) (use assms(6,7) in auto)
  have tok: "generate_token (Some tok) 16 = hex_string tok" "hex_string tok \<noteq> []"
    using assms(9) length_hex_string [of tok] by (auto simp: generate_token_def simp del: length_hex_string)
  let ?s1 = "s\<lparr>password_hash := bcrypt_hash (Some salt) pw 12, setup_complete := True,
       api_key := stored_key rkey s, device_file := f\<rparr>"
  let ?s2 = "?s1\<lparr>sessions := (sessions s)(hex_string tok \<mapsto> \<lparr>created = now, last_seen = now\<rparr>)\<rparr>"
  have key: "utf8_ok (api_key ?s1)" by (simp add: stored_key_utf8 assms(2))
  have open_s: "open_session (Some tok) now ?s1 = (set_session_cookie (hex_string tok) ?s2 new_resp, ?s2)"
    by (simp add: open_session_def create_session_def tok Let_def)
  obtain j where "handle_setup now (Some salt, rkey, Some tok) req s
      = (Inr (set_content j (set_session_cookie (hex_string tok) ?s2 new_resp)), ?s2)"
    using handle_setup_ok [OF assms(1,4,5,6) f key open_s] by auto
  then have s': "s' = ?s2" and r: "r = Inr (set_content j (set_session_cookie (hex_string tok) ?s2 new_resp))"
    using assms(11) by simp_all
  have v: "is_valid_session t (hex_string tok) s'"
    using assms(13) tok(2) by (simp add: s' is_valid_session_def)
  have "(\<exists>res. r = Inr res \<and> status res = 200)"
    unfolding r by (simp add: set_session_cookie_def)
  moreover have "verify_device_password mem pw' s' \<longleftrightarrow>
      pw' \<noteq> [] \<and> bcrypt_hash (Some salt) pw' 12 = bcrypt_hash (Some salt) pw 12"
    by (rule verify_own_password [OF assms(8,10) pw]) (simp add: s')
  moreover have fin: "setup_complete s'" by (simp add: s')
  then have "handle_setup now' rnds req'' s' = (Inr (fail_with 403 ''Setup already complete'' new_resp), s')"
    by (cases rnds) (simp only: handle_setup_def is_setup_complete_def prod.case if_True)
  moreover have "fst (is_authenticated t req' s')"
    unfolding is_authenticated_def Let_def assms(12) using v fin by (simp only: if_True if_False not_True_eq_False fst_conv)
  ultimately show ?thesis by blast
qed

theorem setup_locks_device_witness:
  "fst (is_authenticated 5000000000 \<lparr>req_headers = [(''Cookie'', ''llamaste_sid='' @ hex_string (replicate 16 0xa5))],
       remote_addr = [], req_empty = True, req_json = None\<rparr>
     (snd (handle_setup 0 (Some (replicate 16 7), Some (replicate 10 9), Some (replicate 16 0xa5))
       \<lparr>req_headers = [], remote_addr = [], req_empty = False,
        req_json = Some (jobj [(''password'', JString ''secret'')])\<rparr> (new_auth None True))))"
proof -
  let ?req = "\<lparr>req_headers = [], remote_addr = [], req_empty = False,
        req_json = Some (jobj [(''password'', JString ''secret'')])\<rparr>"
  let ?req' = "\<lparr>req_headers = [(''Cookie'', ''llamaste_sid='' @ hex_string (replicate 16 0xa5))],
       remote_addr = [], req_empty = True, req_json = None\<rparr>"
  have c: "extract_session_cookie ?req' = hex_string (replicate 16 0xa5)" by code_simp
  obtain r s' where h: "handle_setup 0 (Some (replicate 16 7), Some (replicate 10 9), Some (replicate 16 0xa5))
     ?req (new_auth None True) = (r, s')" by fastforce
  have u: "utf8_ok (api_key (new_auth None True))" "utf8_ok (device_name (new_auth None True))"
    by (simp_all add: new_auth_def utf8_ok_ascii)
  have "fst (is_authenticated 5000000000 ?req' s')"
    by (rule setup_locks_device [OF _ u _ _ _ _ _ _ _ h c, where mem = "(\<lambda>_. 0, replicate 16 0)" and pw = "''secret''"
            and body = "jobj [(''password'', JString ''secret'')]",
          THEN conjunct2, THEN conjunct2, THEN conjunct2])
      (simp_all add: new_auth_def cpp_simps seconds_def)
  then show ?thesis by (simp only: h snd_conv)
qed

section \<open>The configuration file\<close>

text \<open>
  Saving the configuration and loading it in a new process restores the password hash, the
  API key, the device name, the timeout and the setup flag, and starts without sessions and
  failed logins.
\<close>

theorem config_roundtrip:
  assumes "writable s" "utf8_ok (password_hash s)" "utf8_ok (api_key s)" "utf8_ok (device_name s)"
    "0 \<le> session_timeout_seconds s" "session_timeout_seconds s < 2 ^ 31"
  shows "load_config dir (new_auth (device_file (snd (save_config s))) w) =
    (new_auth (device_file (snd (save_config s))) w)\<lparr>config_dir := dir, password_hash := password_hash s,
       api_key := api_key s, device_name := device_name s,
       session_timeout_seconds := session_timeout_seconds s, setup_complete := setup_complete s\<rparr>"
proof -
  have "dump_ok (config_json s)" by (rule config_json_ok [OF assms(2-4)])
  then have f: "device_file (snd (save_config s)) = Some (Inr (reparse (config_json s)))"
    using assms(1) by (simp add: save_config_def dump_def)
  show ?thesis
    using assms(5,6)
    by (simp add: f load_config_def read_config_def new_auth_def config_json_def cpp_simps Let_def)
qed

theorem config_roundtrip_witness:
  "load_config ''/data'' (new_auth (device_file (snd (save_config demo_auth))) True) =
    (new_auth (device_file (snd (save_config demo_auth))) True)\<lparr>config_dir := ''/data'', setup_complete := True,
       session_timeout_seconds := 60\<rparr>"
  using config_roundtrip [of demo_auth "''/data''" True]
  by (simp add: demo_auth_def new_auth_def utf8_ok_ascii)

lemma save_config_key: "api_key (snd (save_config s)) = api_key s"
  by (simp add: save_config_def split: sum.split)

lemma snd_save_then: "snd (bindS save_config (\<lambda>_. returnS x) s) = snd (save_config s)"
  by (simp add: bindS_def split: prod.split sum.split)

lemma set_device_password_key:
  "api_key s \<noteq> [] \<Longrightarrow> api_key (snd (set_device_password salt rkey pw s)) = api_key s"
  by (simp add: set_device_password_def Let_def snd_save_then save_config_key)

text \<open>
  A configuration file that is damaged in its last field reopens the device: the password is
  dropped and every request is authenticated, while the API key of the file stays in force, also
  after the password is set again.
\<close>

theorem damaged_config_keeps_key:
  assumes "device_file s = Some (Inr (jobj [(''password_hash'', JString h), (''api_key'', JString k),
      (''setup_complete'', JNull)]))" "k \<noteq> []"
  shows "password_hash (load_config dir s) = [] \<and> api_key (load_config dir s) = k
    \<and> fst (is_authenticated t req (load_config dir s))
    \<and> api_key (snd (set_device_password salt rkey pw (load_config dir s))) = k"
proof -
  have l: "load_config dir s = s\<lparr>config_dir := dir, password_hash := [], api_key := k, device_name := ''llamaste'',
      session_timeout_seconds := 604800, setup_complete := False\<rparr>"
    using assms(1) by (simp add: load_config_def read_config_def cpp_simps Let_def)
  have "api_key (snd (set_device_password salt rkey pw (load_config dir s))) = k"
    using set_device_password_key [of "load_config dir s"] assms(2) by (simp add: l)
  moreover have "fst (is_authenticated t req (load_config dir s))"
    by (simp add: l is_authenticated_def)
  ultimately show ?thesis by (simp add: l)
qed

theorem damaged_config_keeps_key_witness:
  "fst (is_authenticated 0 demo_req (load_config ''/data''
     (new_auth (Some (Inr (jobj [(''password_hash'', JString ''x''), (''api_key'', JString ''llm-1''),
      (''setup_complete'', JNull)]))) True)))"
  using damaged_config_keeps_key [of "new_auth (Some (Inr (jobj [(''password_hash'', JString ''x''),
      (''api_key'', JString ''llm-1''), (''setup_complete'', JNull)]))) True" "''x''" "''llm-1''"]
  by (simp add: new_auth_def)

end
