(* ===== verification/Updater.thy ===== *)
theory Updater
  imports LlPrelude JsonValue
begin

text \<open>
  \<^verbatim>\<open>updater.cpp\<close>, \<^verbatim>\<open>updater.h\<close>, the tools of \<^verbatim>\<open>tools_update.cpp\<close> that change the boot slot, and the
  boot logic of \<^verbatim>\<open>grub.cfg\<close>: slot detection, the GRUB environment block, version comparison, the
  manifest, the format of an update file and its installation. Definitions only; the lemmas are in
  UpdaterFacts. The vendored cryptography (\<^verbatim>\<open>tweetnacl.h\<close>) and JSON text parser are arguments.
\<close>

unbundle bit_operations_syntax

text \<open>The dash of the messages, in UTF-8.\<close>

definition em_dash :: string where
  "em_dash = [CHR 0xE2, CHR 0x80, CHR 0x94]"

section \<open>Slots\<close>

definition parse_active_slot :: "string \<Rightarrow> string" where
  "parse_active_slot cmdline =
     (case find_sub ''llamaste.slot='' cmdline of
        None \<Rightarrow> ''A''
      | Some i \<Rightarrow>
          (case drop (i + 14) cmdline of
             c # _ \<Rightarrow> if c = CHR ''B'' \<or> c = CHR ''b'' then ''B'' else ''A''
           | [] \<Rightarrow> ''A''))"

definition inactive_slot :: "string \<Rightarrow> string" where
  "inactive_slot active = (if active = ''A'' then ''B'' else ''A'')"

definition inactive_partition_num :: "string \<Rightarrow> nat" where
  "inactive_partition_num active = (if active = ''A'' then 4 else 3)"

section \<open>The GRUB environment block\<close>

type_synonym env = "(string \<times> string) list"

definition GRUBENV_HEADER :: string where
  "GRUBENV_HEADER = ''# GRUB Environment Block'' @ [CHR 0x0A]"

definition GRUBENV_SIZE :: nat where "GRUBENV_SIZE = 1024"

definition parse_env_line :: "string \<Rightarrow> env \<Rightarrow> env" where
  "parse_env_line l vars =
     (if l = [] \<or> hd l = CHR ''#'' then vars
      else if CHR ''='' \<notin> set l then vars
      else smap_insert (takeWhile (\<lambda>c. c \<noteq> CHR ''='') l)
             (tl (dropWhile (\<lambda>c. c \<noteq> CHR ''='') l)) vars)"

definition grubenv_parse :: "string \<Rightarrow> env" where
  "grubenv_parse content = fold parse_env_line (getlines (CHR 0x0A) [] content) []"

definition env_line :: "string \<times> string \<Rightarrow> string" where
  "env_line = (\<lambda>(k, v). k @ ''='' @ v @ [CHR 0x0A])"

definition grubenv_serialize :: "env \<Rightarrow> string" where
  "grubenv_serialize vars =
     (let result = GRUBENV_HEADER @ concat (map env_line vars)
      in if length result < GRUBENV_SIZE
         then result @ replicate (GRUBENV_SIZE - length result) (CHR ''#'')
         else take GRUBENV_SIZE result)"

section \<open>Versions\<close>

text \<open>\<open>sscanf\<close> with \<open>%d.%d.%d\<close>: each number as \<open>strtol\<close> reads it, stored in an \<open>int\<close>; the
  conversion stops at the first mismatch and leaves the rest 0.\<close>

definition scan_version :: "string \<Rightarrow> int \<times> int \<times> int" where
  "scan_version s =
     (case strtol s of
        None \<Rightarrow> (0, 0, 0)
      | Some (a, r, _) \<Rightarrow>
          (case r of
             c # r1 \<Rightarrow>
               if c \<noteq> CHR ''.'' then (to_i32 a, 0, 0)
               else (case strtol r1 of
                  None \<Rightarrow> (to_i32 a, 0, 0)
                | Some (b, r2, _) \<Rightarrow>
                    (case r2 of
                       d # r3 \<Rightarrow>
                         if d \<noteq> CHR ''.'' then (to_i32 a, to_i32 b, 0)
                         else (case strtol r3 of
                            None \<Rightarrow> (to_i32 a, to_i32 b, 0)
                          | Some (p, _, _) \<Rightarrow> (to_i32 a, to_i32 b, to_i32 p))
                     | [] \<Rightarrow> (to_i32 a, to_i32 b, 0)))
           | [] \<Rightarrow> (to_i32 a, 0, 0)))"

definition version_compare :: "string \<Rightarrow> string \<Rightarrow> int" where
  "version_compare a b =
     (case (scan_version a, scan_version b) of
        ((a1, a2, a3), (b1, b2, b3)) \<Rightarrow>
          if a1 \<noteq> b1 then to_i32 (a1 - b1)
          else if a2 \<noteq> b2 then to_i32 (a2 - b2)
          else to_i32 (a3 - b3))"

definition LLAMASTE_VERSION :: string where
  "LLAMASTE_VERSION = ''0.5.17-beta''"

section \<open>The manifest\<close>

record UpdateComponent =
  comp_file :: string
  sha256 :: string
  size_compressed :: int
  size_uncompressed :: int

record UpdateManifest =
  manifest_valid :: bool
  format_version :: int
  version :: string
  build_date :: string
  arch :: string
  min_version :: string
  system_component :: UpdateComponent
  changelog :: "string list"

definition no_component :: UpdateComponent where
  "no_component = \<lparr>comp_file = [], sha256 = [], size_compressed = 0, size_uncompressed = 0\<rparr>"

definition no_manifest :: UpdateManifest where
  "no_manifest = \<lparr>manifest_valid = False, format_version = 0, version = [], build_date = [], arch = [],
     min_version = [], system_component = no_component, changelog = []\<rparr>"

definition read_component :: "json \<Rightarrow> UpdateComponent result" where
  "read_component sys =
     bindE (jvalue get_string sys ''file'' []) (\<lambda>f.
     bindE (jvalue get_string sys ''sha256'' []) (\<lambda>h.
     bindE (jvalue get_u64 sys ''size_compressed'' 0) (\<lambda>c.
     bindE (jvalue get_u64 sys ''size_uncompressed'' 0) (\<lambda>u.
       Inr \<lparr>comp_file = f, sha256 = h, size_compressed = c, size_uncompressed = u\<rparr>))))"

fun json_strings :: "json list \<Rightarrow> string list" where
  "json_strings [] = []"
| "json_strings (JString s # js) = s # json_strings js"
| "json_strings (_ # js) = json_strings js"

definition read_manifest :: "json \<Rightarrow> UpdateManifest result" where
  "read_manifest j =
     bindE (jvalue get_int j ''format_version'' 0) (\<lambda>fv.
     bindE (jvalue get_string j ''version'' []) (\<lambda>v.
     bindE (jvalue get_string j ''build_date'' []) (\<lambda>bd.
     bindE (jvalue get_string j ''arch'' []) (\<lambda>ar.
     bindE (jvalue get_string j ''min_version'' []) (\<lambda>mv.
     bindE (if contains j ''components'' \<and> contains (jmember j ''components'') ''system''
            then read_component (jmember (jmember j ''components'') ''system'')
            else Inr no_component) (\<lambda>sys.
       Inr \<lparr>manifest_valid = (v \<noteq> [] \<and> fv > 0), format_version = fv, version = v, build_date = bd,
         arch = ar, min_version = mv, system_component = sys,
         changelog = (case jmember j ''changelog'' of JArray js \<Rightarrow> json_strings js | _ \<Rightarrow> [])\<rparr>))))))"

text \<open>\<open>parse_manifest\<close>: any exception leaves a manifest that is not valid; the fields read before
  it are not used then. \<open>parse\<close> is the text parser, \<open>None\<close> for a parse error.\<close>

definition parse_manifest :: "(string \<Rightarrow> json option) \<Rightarrow> string \<Rightarrow> UpdateManifest" where
  "parse_manifest parse s =
     (case parse s of
        None \<Rightarrow> no_manifest
      | Some j \<Rightarrow> (case read_manifest j of Inl _ \<Rightarrow> no_manifest | Inr m \<Rightarrow> m))"

section \<open>Update files\<close>

definition read_u32_le :: "byte list \<Rightarrow> u32" where
  "read_u32_le p =
     ucast (p ! 0) OR push_bit 8 (ucast (p ! 1)) OR push_bit 16 (ucast (p ! 2)) OR push_bit 24 (ucast (p ! 3))"

definition chars_of :: "byte list \<Rightarrow> string" where
  "chars_of bs = map (\<lambda>b. char_of (unat b)) bs"

record UpdateFileInfo =
  manifest :: UpdateManifest
  manifest_json :: string
  signature :: "byte list"
  payload_offset :: nat
  payload_size :: nat

text \<open>\<open>parse_update_file\<close>: the error message, or the header (\<open>valid\<close> is set exactly then).\<close>

definition parse_update_file ::
  "(string \<Rightarrow> json option) \<Rightarrow> string \<Rightarrow> byte list option \<Rightarrow> string + UpdateFileInfo" where
  "parse_update_file parse path file =
     (case file of
        None \<Rightarrow> Inl (''cannot open file: '' @ path)
      | Some f \<Rightarrow>
          if length f < 12 then Inl ''file too small for header''
          else if take 4 f \<noteq> map of_char ''LMUP'' then Inl ''invalid magic (not a .update file)''
          else let fmt_ver = unat (read_u32_le (drop 4 f)) in
          if fmt_ver \<noteq> 1 then Inl (''unsupported format version: '' @ show_nat fmt_ver)
          else let manifest_size = unat (read_u32_le (drop 8 f)) in
          if manifest_size > 1024 * 1024 then Inl (''manifest too large: '' @ show_nat manifest_size)
          else if length (drop 12 f) < manifest_size then Inl ''truncated manifest''
          else let mj = chars_of (take manifest_size (drop 12 f)) in
          if length (drop (12 + manifest_size) f) < 64 then Inl ''truncated signature''
          else let sig = take 64 (drop (12 + manifest_size) f);
                   offset = 12 + manifest_size + 64;
                   m = parse_manifest parse mj
          in if \<not> manifest_valid m then Inl ''invalid manifest JSON''
             else Inr \<lparr>manifest = m, manifest_json = mj, signature = sig, payload_offset = offset,
               payload_size = (if length f > offset then length f - offset else 0)\<rparr>)"

section \<open>The machine\<close>

text \<open>What the installation reads and writes: the kernel command line, the lines of
  \<^verbatim>\<open>/proc/mounts\<close>, the block devices (whether each can be opened for writing and how many bytes it
  takes before a write fails), the files at the paths of the environment block, whether they can be
  replaced, and the metadata of the slots.\<close>

record machine =
  cmdline :: "string option"
  mounts :: "string list option"
  devices :: "string \<rightharpoonup> byte list"
  dev_opens :: "string \<Rightarrow> bool"
  dev_room :: "string \<Rightarrow> nat"
  files :: "string \<rightharpoonup> string"
  replaceable :: "string \<Rightarrow> bool"
  meta_opens :: bool
  slot_meta :: "string \<rightharpoonup> json"
  esp_mounts :: "string \<rightharpoonup> (string \<rightharpoonup> string)"

definition detect_current_slot :: "machine \<Rightarrow> string" where
  "detect_current_slot m = (case cmdline m of None \<Rightarrow> ''A'' | Some c \<Rightarrow> parse_active_slot c)"

definition grubenv_paths :: "string list" where
  "grubenv_paths = [''/boot/efi/EFI/BOOT/grubenv'', ''/boot/efi/grub/grubenv'',
     ''/boot/efi/boot/grub/grubenv'', ''/boot/grub/grubenv'', ''/mnt/esp/EFI/BOOT/grubenv'',
     ''/mnt/esp/grub/grubenv'', ''/mnt/esp/boot/grub/grubenv'']"

definition find_grubenv_path :: "machine \<Rightarrow> string" where
  "find_grubenv_path m =
     (case find (\<lambda>p. files m p \<noteq> None) grubenv_paths of None \<Rightarrow> [] | Some p \<Rightarrow> p)"

definition grubenv_read :: "machine \<Rightarrow> string \<Rightarrow> env" where
  "grubenv_read m path = (case files m path of None \<Rightarrow> [] | Some c \<Rightarrow> grubenv_parse c)"

definition grubenv_write :: "string \<Rightarrow> env \<Rightarrow> machine \<Rightarrow> bool \<times> machine" where
  "grubenv_write path vars m =
     (if replaceable m path then (True, m\<lparr>files := (files m)(path \<mapsto> grubenv_serialize vars)\<rparr>)
      else (False, m))"

section \<open>Installation\<close>

text \<open>The device mounted on the root directory, from the first line of \<^verbatim>\<open>/proc/mounts\<close> for it.\<close>

fun root_device :: "string list \<Rightarrow> string" where
  "root_device [] = []"
| "root_device (l # ls) =
     (let dev = takeWhile (\<lambda>c. c \<noteq> CHR '' '') l; rest = dropWhile (\<lambda>c. c \<noteq> CHR '' '') l
      in if rest = [] then root_device ls
         else if takeWhile (\<lambda>c. c \<noteq> CHR '' '') (tl rest) = ''/'' then dev
         else root_device ls)"

definition partition_path :: "string \<Rightarrow> nat \<Rightarrow> string" where
  "partition_path rootdev part_num =
     (let name = (if starts_with ''/dev/'' rootdev then drop 5 rootdev else rootdev);
          tail = dropWhile (Not \<circ> is_digit) (rev name)
      in if rootdev = [] \<or> tail = [] then []
         else let base_name = rev (dropWhile is_digit tail)
              in if starts_with ''nvme'' name \<or> starts_with ''mmcblk'' name
                 then ''/dev/'' @ base_name @ ''p'' @ show_nat part_num
                 else ''/dev/'' @ base_name @ show_nat part_num)"

definition find_block_device :: "machine \<Rightarrow> nat \<Rightarrow> string" where
  "find_block_device m part_num =
     (let dev = partition_path (case mounts m of None \<Rightarrow> [] | Some ls \<Rightarrow> root_device ls) part_num
      in if dev \<noteq> [] then dev
         else case find (\<lambda>d. devices m d \<noteq> None)
                (map (\<lambda>b. b @ show_nat part_num) [''/dev/sda'', ''/dev/vda'', ''/dev/nvme0n1p'']) of
                None \<Rightarrow> [] | Some d \<Rightarrow> d)"

definition CHUNK :: nat where "CHUNK = 4 * 1024 * 1024"

text \<open>The loop that writes the payload in chunks to a device that takes \<open>room\<close> bytes: whether all
  writes succeeded, and the counter. A write that fails may still have stored a part.\<close>

function write_chunks :: "nat \<Rightarrow> nat \<Rightarrow> nat \<Rightarrow> bool \<times> nat" where
  "write_chunks room len written =
     (if written < len then
        let chunk = min CHUNK (len - written)
        in if written + chunk > room then (False, written)
           else write_chunks room len (written + chunk)
      else (True, written))"
  by pat_completeness auto
termination
  by (relation "measure (\<lambda>(room, len, written). len - written)") (auto simp: CHUNK_def)

declare write_chunks.simps [simp del]

definition write_device :: "string \<Rightarrow> byte list \<Rightarrow> machine \<Rightarrow> bool \<times> nat \<times> machine" where
  "write_device dev payload m =
     (let stored = min (dev_room m dev) (length payload);
          old = (case devices m dev of None \<Rightarrow> [] | Some c \<Rightarrow> c);
          m' = m\<lparr>devices := (devices m)(dev \<mapsto> take stored payload @ drop stored old)\<rparr>
      in case write_chunks (dev_room m dev) (length payload) 0 of (ok, written) \<Rightarrow> (ok, written, m'))"

text \<open>The environment that boots a slot on trial.\<close>

definition trial_env :: "string \<Rightarrow> env \<Rightarrow> env" where
  "trial_env slot vars =
     smap_insert ''boot_counter'' ''3'' (smap_insert ''boot_success'' ''0''
       (smap_insert ''active_slot'' slot vars))"

definition MAX_PAYLOAD :: nat where "MAX_PAYLOAD = 1024 * 1024 * 1024"

type_synonym crypto = "(byte list \<Rightarrow> byte list) \<times> (byte list \<Rightarrow> string \<Rightarrow> byte list \<Rightarrow> bool)"

text \<open>\<open>sha256_hex\<close> over the digest of the vendored library.\<close>

definition sha256_hex :: "crypto \<Rightarrow> byte list \<Rightarrow> string" where
  "sha256_hex cr data = hex_string (fst cr data)"

text \<open>Steps 2 to 5: the checks, over the header and the bytes that the second read of the file
  gives.\<close>

definition check_update :: "crypto \<Rightarrow> byte list \<Rightarrow> UpdateFileInfo \<Rightarrow> byte list option \<Rightarrow> string + byte list" where
  "check_update cr pubkey info file2 =
     (if version_compare (version (manifest info)) LLAMASTE_VERSION \<le> 0 then
        Inl (''update version '' @ version (manifest info) @ '' is not newer than current '' @ LLAMASTE_VERSION)
      else if min_version (manifest info) \<noteq> [] \<and> version_compare LLAMASTE_VERSION (min_version (manifest info)) < 0 then
        Inl (''current version '' @ LLAMASTE_VERSION @ '' is below minimum required '' @ min_version (manifest info))
      else if list_all (\<lambda>b. b = 0) pubkey then
        Inl (''update public key is not configured (placeholder) '' @ em_dash @ '' refusing to install unauthenticated update'')
      else if \<not> snd cr (signature info) (manifest_json info) pubkey then
        Inl (''signature verification failed '' @ em_dash @ '' update is not authentic'')
      else if payload_size info = 0 then Inl ''update has no payload''
      else if payload_size info > MAX_PAYLOAD then
        Inl (''payload too large: '' @ show_nat (payload_size info) @ '' bytes'')
      else case file2 of
        None \<Rightarrow> Inl ''cannot open .update file to read payload''
      | Some f \<Rightarrow>
          let payload = take (payload_size info) (drop (payload_offset info) f)
          in if length payload \<noteq> payload_size info then Inl ''short read on payload''
             else if sha256_hex cr payload \<noteq> sha256 (system_component (manifest info)) then
               Inl (''payload SHA-256 mismatch: expected '' @ sha256 (system_component (manifest info))
                 @ '' got '' @ sha256_hex cr payload)
             else Inr payload)"

text \<open>Steps 6 to 8.\<close>

definition activate_slot :: "string \<Rightarrow> UpdateManifest \<Rightarrow> machine \<Rightarrow> machine" where
  "activate_slot slot mf m =
     (let path = find_grubenv_path m;
          m1 = (if path \<noteq> [] then snd (grubenv_write path (trial_env slot (grubenv_read m path)) m) else m)
      in if meta_opens m1
         then m1\<lparr>slot_meta := (slot_meta m1)(slot \<mapsto> jobj [(''version'', JString (version mf)),
                (''build_date'', JString (build_date mf)), (''installed_at'', JString [])])\<rparr>
         else m1)"

definition write_update :: "UpdateManifest \<Rightarrow> byte list \<Rightarrow> machine \<Rightarrow> json \<times> machine" where
  "write_update mf payload m =
     (let active = detect_current_slot m;
          part_num = inactive_partition_num active;
          target_slot = inactive_slot active;
          dev = find_block_device m part_num
      in if dev = [] then
           (json_error (''cannot find block device for partition '' @ show_nat part_num), m)
         else if \<not> dev_opens m dev then (json_error (''cannot open '' @ dev @ '' for writing''), m)
         else case write_device dev payload m of
           (False, written, m1) \<Rightarrow> (json_error (''write failed after '' @ show_nat written @ '' bytes''), m1)
         | (True, written, m1) \<Rightarrow>
             (jobj [(''success'', JBool True), (''version'', JString (version mf)),
                (''installed_to_slot'', JString target_slot), (''partition'', JString dev),
                (''bytes_written'', JUInt (int written)),
                (''message'', JString (''Update installed to slot '' @ target_slot
                  @ ''. Reboot to activate (version '' @ version mf @ '').''))],
              activate_slot target_slot mf m1))"

definition install_update ::
  "crypto \<Rightarrow> (string \<Rightarrow> json option) \<Rightarrow> byte list \<Rightarrow> string \<Rightarrow> byte list option \<Rightarrow> byte list option
     \<Rightarrow> machine \<Rightarrow> json result \<times> machine" where
  "install_update cr parse pubkey path file1 file2 m =
     (case parse_update_file parse path file1 of
        Inl e \<Rightarrow> (dump (json_error e), m)
      | Inr info \<Rightarrow>
          (case check_update cr pubkey info file2 of
             Inl e \<Rightarrow> (dump (json_error e), m)
           | Inr payload \<Rightarrow>
               (case write_update (manifest info) payload m of (j, m') \<Rightarrow> (dump j, m'))))"

definition UPDATE_PUBLIC_KEY :: "byte list" where
  "UPDATE_PUBLIC_KEY = replicate 32 0"

section \<open>Boot success and rollback\<close>

definition success_env :: "env \<Rightarrow> env" where
  "success_env vars = smap_erase ''boot_counter'' (smap_insert ''boot_success'' ''1'' vars)"

text \<open>The mount of the ESP makes the files of the first device that exists and mounts visible.\<close>

definition mount_esp :: "machine \<Rightarrow> machine" where
  "mount_esp m =
     (case find (\<lambda>d. devices m d \<noteq> None \<and> esp_mounts m d \<noteq> None) [''/dev/sda2'', ''/dev/vda2'', ''/dev/nvme0n1p2''] of
        None \<Rightarrow> m
      | Some d \<Rightarrow> m\<lparr>files := files m ++ the (esp_mounts m d)\<rparr>)"

definition mark_boot_success :: "machine \<Rightarrow> machine" where
  "mark_boot_success m0 =
     (let m = (if find_grubenv_path m0 = [] then mount_esp m0 else m0);
          path = find_grubenv_path m
      in if path = [] then m
         else snd (grubenv_write path (success_env (grubenv_read m path)) m))"

definition handle_update_rollback :: "machine \<Rightarrow> json \<times> machine" where
  "handle_update_rollback m =
     (let path = find_grubenv_path m
      in if path = [] then
           (json_error (''grubenv not found '' @ em_dash @ '' cannot switch slot. Is the ESP mounted?''), m)
         else
           let current = detect_current_slot m; new_slot = inactive_slot current
           in case grubenv_write path (trial_env new_slot (grubenv_read m path)) m of
                (True, m') \<Rightarrow> (jobj [(''success'', JBool True), (''previous_slot'', JString current),
                   (''new_slot'', JString new_slot),
                   (''message'', JString (''Switched to slot '' @ new_slot @ ''. Reboot to activate.''))], m')
              | (False, m') \<Rightarrow> (json_error ''Failed to write grubenv'', m'))"

section \<open>The boot loader\<close>

definition env_get :: "env \<Rightarrow> string \<Rightarrow> string" where
  "env_get vars k = (case map_of vars k of None \<Rightarrow> [] | Some v \<Rightarrow> v)"

text \<open>The cascade of tests on the counter.\<close>

definition count_down :: "string \<Rightarrow> string" where
  "count_down c0 =
     (let c1 = (if c0 = ''3'' then ''2'' else c0);
          c2 = (if c1 = ''2'' then ''1'' else c1)
      in if c2 = ''1'' then ''0'' else c2)"

text \<open>One boot: the slot passed to the kernel and the environment as saved.\<close>

definition grub_boot :: "env \<Rightarrow> string \<times> env" where
  "grub_boot vars =
     (let slot = (if env_get vars ''active_slot'' = [] then ''A'' else env_get vars ''active_slot'');
          counter = env_get vars ''boot_counter''
      in if env_get vars ''boot_success'' = ''0'' \<and> counter \<noteq> [] then
           if counter = ''0'' then
             let slot' = (if slot = ''A'' then ''B'' else ''A'')
             in (slot', smap_insert ''boot_counter'' [] (smap_insert ''active_slot'' slot' vars))
           else (slot, smap_insert ''boot_counter'' (count_down counter) vars)
         else (slot, vars))"

end
