(* ===== verification/UpdaterFacts.thy ===== *)
theory UpdaterFacts
  imports Updater
begin

text \<open>
  The lemmas and properties of the updater: the environment block is written and read back
  exactly, versions are compared by their numbers, an installation touches nothing before
  everything is verified and then only the inactive slot, and the behaviour of the boot loader
  after an installation, over any number of boots.
\<close>

section \<open>The environment block\<close>

definition legal_entry :: "string \<times> string \<Rightarrow> bool" where
  "legal_entry = (\<lambda>(k, v). CHR ''='' \<notin> set k \<and> CHR 0x0A \<notin> set k \<and> (k = [] \<or> hd k \<noteq> CHR ''#'')
     \<and> CHR 0x0A \<notin> set v)"

definition legal_env :: "env \<Rightarrow> bool" where
  "legal_env vars \<longleftrightarrow> smap_sorted vars \<and> list_all legal_entry vars
     \<and> length (GRUBENV_HEADER @ concat (map env_line vars)) \<le> GRUBENV_SIZE"

lemma parse_env_entry:
  "legal_entry (k, v) \<Longrightarrow> parse_env_line (k @ ''='' @ v) vars = smap_insert k v vars"
  by (cases k) (auto simp: parse_env_line_def legal_entry_def takeWhile_append dropWhile_append
      takeWhile_eq_all_conv dropWhile_eq_Nil_conv)

lemma getlines_env:
  "list_all legal_entry vars \<Longrightarrow> getlines (CHR 0x0A) [] (concat (map env_line vars) @ s)
     = map (\<lambda>(k, v). k @ ''='' @ v) vars @ getlines (CHR 0x0A) [] s"
proof (induction vars)
  case (Cons x vars)
  obtain k v where x: "x = (k, v)" by fastforce
  have "CHR 0x0A \<notin> set (k @ ''='' @ v)" using Cons.prems x by (auto simp: legal_entry_def)
  from getlines_line [OF this, of "[]" "concat (map env_line vars) @ s"] Cons x
  show ?case by (simp add: env_line_def)
qed simp

lemma fold_parse_entries:
  "list_all legal_entry vars \<Longrightarrow> fold parse_env_line (map (\<lambda>(k, v). k @ ''='' @ v) vars) acc
     = fold (\<lambda>(k, v). smap_insert k v) vars acc"
  by (induction vars arbitrary: acc) (auto simp: parse_env_entry [simplified])

lemma map_of_fold_smap: "map_of (fold (\<lambda>(k, v). smap_insert k v) m acc) = map_of acc ++ map_of (rev m)"
proof (induction m arbitrary: acc)
  case (Cons x m)
  then show ?case by (cases x) (simp add: map_add_def fun_eq_iff split: option.splits)
qed simp

lemma smap_sorted_fold: "smap_sorted acc \<Longrightarrow> smap_sorted (fold (\<lambda>(k, v). smap_insert k v) m acc)"
  by (induction m arbitrary: acc) auto

lemma fold_smap_id: "smap_sorted m \<Longrightarrow> fold (\<lambda>(k, v). smap_insert k v) m [] = m"
proof (rule smap_ext)
  assume s: "smap_sorted m"
  then have "distinct (map fst m)" by (simp add: smap_sorted_def strict_sorted_iff)
  then have "map_of (rev m) = map_of m" by (subst map_of_inject_set) (simp_all add: rev_map [symmetric])
  then show "map_of (fold (\<lambda>(k, v). smap_insert k v) m []) = map_of m"
    by (simp add: map_of_fold_smap)
qed (rule smap_sorted_fold, simp add: smap_sorted_def)

lemma parse_padding: "fold parse_env_line (getlines (CHR 0x0A) [] (replicate n CHR ''#'')) acc = acc"
  using getlines_last [of "CHR 0x0A" "replicate n CHR ''#''"]
  by (cases n) (simp_all add: parse_env_line_def del: getlines.simps)

lemma getlines_header: "getlines (CHR 0x0A) [] (GRUBENV_HEADER @ s) = ''# GRUB Environment Block'' # getlines (CHR 0x0A) [] s"
proof -
  have "CHR 0x0A \<notin> set ''# GRUB Environment Block''" by simp
  from getlines_line [OF this, of "[]" s] show ?thesis by (simp add: GRUBENV_HEADER_def)
qed

lemma grubenv_parse_content:
  assumes "smap_sorted vars" "list_all legal_entry vars"
  shows "grubenv_parse (GRUBENV_HEADER @ concat (map env_line vars) @ replicate n CHR ''#'') = vars"
  by (simp only: grubenv_parse_def getlines_header getlines_env [OF assms(2)] fold_append o_apply
      fold_parse_entries [OF assms(2)] parse_padding fold.simps)
    (simp add: parse_env_line_def fold_smap_id [OF assms(1)])

lemma grubenv_parse_serialize: "legal_env vars \<Longrightarrow> grubenv_parse (grubenv_serialize vars) = vars"
  using grubenv_parse_content [of vars 0] grubenv_parse_content [of vars]
  by (auto simp: legal_env_def grubenv_serialize_def Let_def)

interpretation grubenv: codec grubenv_serialize "\<lambda>s. Some (grubenv_parse s)" legal_env
  by unfold_locales (simp add: grubenv_parse_serialize)

text \<open>
  The environment block is always 1024 bytes; variables that fit into it, without line breaks,
  \<open>=\<close> in a key or a key that looks like a comment, are read back exactly as they were written, so
  two different environments are never written as the same block.
\<close>

theorem grubenv_roundtrip:
  assumes "legal_env vars" "legal_env vars'"
  shows "length (grubenv_serialize vars) = 1024 \<and> grubenv_parse (grubenv_serialize vars) = vars
    \<and> (grubenv_serialize vars = grubenv_serialize vars' \<longleftrightarrow> vars = vars')"
proof -
  have "length (grubenv_serialize vars) = 1024"
    by (simp add: grubenv_serialize_def Let_def GRUBENV_SIZE_def GRUBENV_HEADER_def)
  then show ?thesis
    using grubenv.enc_inj [OF assms] grubenv_parse_serialize [OF assms(1)] by auto
qed

definition demo_env :: env where
  "demo_env = trial_env ''B'' []"

lemma demo_env_legal: "legal_env demo_env" "legal_env []"
  by (simp_all add: demo_env_def trial_env_def legal_env_def smap_sorted_def legal_entry_def env_line_def
      GRUBENV_HEADER_def GRUBENV_SIZE_def less_char_def)

theorem grubenv_roundtrip_witness:
  "grubenv_parse (grubenv_serialize demo_env) = demo_env \<and> length (grubenv_serialize demo_env) = 1024"
  using grubenv_roundtrip [OF demo_env_legal] by simp

section \<open>Versions\<close>

definition version_text :: "nat \<Rightarrow> nat \<Rightarrow> nat \<Rightarrow> string \<Rightarrow> string" where
  "version_text a b c suffix = show_nat a @ ''.'' @ show_nat b @ ''.'' @ show_nat c @ suffix"

lemma strtol_show_nat:
  assumes "n < 2 ^ 31" "s = [] \<or> \<not> is_digit (hd s)"
  shows "strtol (show_nat n @ s) = Some (int n, s, False)"
proof -
  obtain d ds where d: "show_nat n = d # ds" by (cases "show_nat n") auto
  have dig: "list_all is_digit (show_nat n)" by (rule show_nat_digits)
  then have "\<not> is_space d" "d \<noteq> CHR ''-''" "d \<noteq> CHR ''+''" using d by (auto simp: digit_not_space is_digit_def)
  moreover have "takeWhile is_digit (show_nat n @ s) = show_nat n" "dropWhile is_digit (show_nat n @ s) = s"
    using dig assms(2) by (cases s; auto simp: takeWhile_append dropWhile_append list_all_iff)+
  moreover have "int n \<le> long_max" "\<not> int n < long_min" using assms(1) by (simp_all add: long_max_def long_min_def)
  ultimately show ?thesis
    using digits_val_show_nat [of n] by (simp add: strtol_def d Let_def)
qed

lemma scan_version_text:
  assumes "a < 2 ^ 31" "b < 2 ^ 31" "c < 2 ^ 31" "suffix = [] \<or> \<not> is_digit (hd suffix)"
  shows "scan_version (version_text a b c suffix) = (int a, int b, int c)"
proof -
  have dot: "\<not> is_digit CHR ''.''" by (simp add: is_digit_def)
  have "strtol (show_nat a @ CHR ''.'' # r) = Some (int a, CHR ''.'' # r, False)" for r
    using strtol_show_nat [OF assms(1), of "CHR ''.'' # r"] dot by simp
  moreover have "strtol (show_nat b @ CHR ''.'' # r) = Some (int b, CHR ''.'' # r, False)" for r
    using strtol_show_nat [OF assms(2), of "CHR ''.'' # r"] dot by simp
  ultimately show ?thesis
    using strtol_show_nat [OF assms(3,4)] assms(1-3)
    by (simp add: scan_version_def version_text_def to_i32_id)
qed

text \<open>
  Versions are compared by their three numbers in lexicographic order, as numbers and not as
  text, and a suffix such as \<open>-beta\<close> does not count: for numbers below 2\<open>\<^sup>31\<close> the result is
  negative, zero or positive accordingly.
\<close>

theorem version_compare_lex:
  assumes "a < 2 ^ 31" "b < 2 ^ 31" "c < 2 ^ 31" "suffix = [] \<or> \<not> is_digit (hd suffix)"
    "a' < 2 ^ 31" "b' < 2 ^ 31" "c' < 2 ^ 31" "suffix' = [] \<or> \<not> is_digit (hd suffix')"
  shows "sgn (version_compare (version_text a b c suffix) (version_text a' b' c' suffix')) =
    (if (a, b, c) = (a', b', c') then 0
     else if a < a' \<or> a = a' \<and> (b < b' \<or> b = b' \<and> c < c') then -1 else 1)"
  using assms
  by (simp add: version_compare_def scan_version_text to_i32_id)

theorem version_compare_lex_witness:
  "sgn (version_compare (version_text 0 10 0 ''-beta'') (version_text 0 9 3 [])) = 1"
  using version_compare_lex [of 0 10 0 "''-beta''" 0 9 3 "[]"] by (simp add: is_digit_def)

section \<open>Installation\<close>

lemma write_chunks_ok:
  "written \<le> room \<Longrightarrow> written \<le> len \<Longrightarrow> write_chunks room len written = (ok, n) \<Longrightarrow>
     (ok \<longleftrightarrow> len \<le> room) \<and> (ok \<longrightarrow> n = len) \<and> n \<le> room \<and> n \<le> len"
proof (induction room len written rule: write_chunks.induct)
  case (1 room len written)
  show ?case
  proof (cases "written < len \<and> written + min CHUNK (len - written) \<le> room")
    case True
    then have "(ok \<longleftrightarrow> len \<le> room) \<and> (ok \<longrightarrow> n = len) \<and> n \<le> room \<and> n \<le> len"
      by (intro 1(1) [OF _ refl]) (use 1(2-) write_chunks.simps [of room len written] in
        \<open>auto simp: Let_def split: if_splits\<close>)
    then show ?thesis .
  next
    case False
    with 1(2-) write_chunks.simps [of room len written] show ?thesis
      by (auto simp: Let_def split: if_splits)
  qed
qed

text \<open>What an update must satisfy before anything is written: a newer version whose minimum is
  met, a signature of its manifest under a key that is not the placeholder, and a payload of the
  announced size whose hash is the manifest's.\<close>

definition verified :: "crypto \<Rightarrow> byte list \<Rightarrow> UpdateFileInfo \<Rightarrow> byte list \<Rightarrow> bool" where
  "verified cr pubkey info payload \<longleftrightarrow>
     version_compare (version (manifest info)) LLAMASTE_VERSION > 0
     \<and> (min_version (manifest info) = [] \<or> version_compare LLAMASTE_VERSION (min_version (manifest info)) \<ge> 0)
     \<and> \<not> list_all (\<lambda>b. b = 0) pubkey
     \<and> snd cr (signature info) (manifest_json info) pubkey
     \<and> sha256_hex cr payload = sha256 (system_component (manifest info))
     \<and> payload \<noteq> [] \<and> length payload = payload_size info \<and> length payload \<le> 2 ^ 30"

lemma check_update_verified: "check_update cr pubkey info file2 = Inr payload \<Longrightarrow> verified cr pubkey info payload"
  by (auto simp: check_update_def verified_def Let_def MAX_PAYLOAD_def split: if_splits option.splits)

lemma files_after_activate:
  "devices (activate_slot slot mf m) = devices m"
  "find_grubenv_path m \<noteq> [] \<Longrightarrow> replaceable m (find_grubenv_path m) \<Longrightarrow>
     files (activate_slot slot mf m) (find_grubenv_path m)
       = Some (grubenv_serialize (trial_env slot (grubenv_read m (find_grubenv_path m))))"
  by (simp_all add: activate_slot_def grubenv_write_def Let_def)

text \<open>The device that holds the slot that is not running.\<close>

definition target_device :: "machine \<Rightarrow> string" where
  "target_device m = find_block_device m (inactive_partition_num (detect_current_slot m))"

lemma write_device_spec:
  "write_device dev payload m = (ok, written, m1) \<Longrightarrow>
     (\<forall>d. d \<noteq> dev \<longrightarrow> devices m1 d = devices m d) \<and> files m1 = files m \<and> slot_meta m1 = slot_meta m
     \<and> replaceable m1 = replaceable m
     \<and> (ok \<longrightarrow> written = length payload
          \<and> (\<exists>rest. devices m1 dev = Some (payload @ rest)))"
  using write_chunks_ok [of 0 "dev_room m dev" "length payload"]
  by (auto simp: write_device_def Let_def split: prod.splits)

lemma find_grubenv_path_cong: "files m1 = files m \<Longrightarrow> find_grubenv_path m1 = find_grubenv_path m"
  by (simp add: find_grubenv_path_def)

text \<open>What an installation of verified content does to the machine.\<close>

definition install_post :: "UpdateFileInfo \<Rightarrow> byte list \<Rightarrow> machine \<Rightarrow> json \<Rightarrow> machine \<Rightarrow> bool" where
  "install_post info payload m j m' \<longleftrightarrow>
     (\<forall>d. d \<noteq> target_device m \<longrightarrow> devices m' d = devices m d)
     \<and> (if contains j ''error'' then files m' = files m \<and> slot_meta m' = slot_meta m
        else (\<exists>rest. devices m' (target_device m) = Some (payload @ rest))
          \<and> (find_grubenv_path m \<noteq> [] \<longrightarrow> replaceable m (find_grubenv_path m) \<longrightarrow>
               files m' (find_grubenv_path m) = Some (grubenv_serialize
                 (trial_env (inactive_slot (detect_current_slot m)) (grubenv_read m (find_grubenv_path m))))))"

lemma write_update_post:
  assumes "write_update (manifest info) payload m = (j, m')"
  shows "m' = m \<and> contains j ''error'' \<or> install_post info payload m j m'"
proof -
  let ?dev = "target_device m"
  show ?thesis
  proof (cases "?dev = [] \<or> \<not> dev_opens m ?dev")
    case True
    with assms show ?thesis
      by (auto simp: write_update_def target_device_def Let_def split: if_splits)
  next
    case False
    obtain ok written m1 where w: "write_device ?dev payload m = (ok, written, m1)"
      by (cases "write_device ?dev payload m") auto
    note spec = write_device_spec [OF w]
    show ?thesis
    proof (cases ok)
      case False
      with \<open>\<not> (?dev = [] \<or> \<not> dev_opens m ?dev)\<close> assms w spec show ?thesis
        by (auto simp: write_update_def target_device_def install_post_def Let_def)
    next
      case True
      then have j: "\<not> contains j ''error''" and m': "m' = activate_slot (inactive_slot (detect_current_slot m)) (manifest info) m1"
        using \<open>\<not> (?dev = [] \<or> \<not> dev_opens m ?dev)\<close> assms w
        by (auto simp: write_update_def target_device_def Let_def cpp_simps)
      have p: "find_grubenv_path m1 = find_grubenv_path m" using spec by (auto intro: find_grubenv_path_cong)
      show ?thesis
        using j spec True files_after_activate(2) [of m1] p
        by (auto simp: m' install_post_def files_after_activate(1) grubenv_read_def)
    qed
  qed
qed


definition demo_update :: "byte list" where
  "demo_update = map of_char ''LMUP'' @ [1, 0, 0, 0, 2, 0, 0, 0] @ map of_char ''{}'' @ replicate 64 0 @ [7, 8, 9]"

definition demo_manifest :: json where
  "demo_manifest = JObject [(''components'', JObject [(''system'', JObject [(''sha256'', JString ''00ff'')])]),
     (''format_version'', JUInt 1), (''version'', JString ''0.6.0'')]"

definition demo_crypto :: crypto where
  "demo_crypto = (\<lambda>_. [0, 255], \<lambda>_ _ _. True)"

definition demo_machine :: machine where
  "demo_machine = \<lparr>cmdline = Some ''ro llamaste.slot=A'', mounts = Some [''/dev/sda3 / squashfs ro''],
     devices = [''/dev/sda4'' \<mapsto> [1, 2, 3, 4]], dev_opens = (\<lambda>_. True), dev_room = (\<lambda>_. 100),
     files = (\<lambda>_. None), replaceable = (\<lambda>_. True), meta_opens = False, slot_meta = (\<lambda>_. None), esp_mounts = (\<lambda>_. None)\<rparr>"


lemma demo_chars: "char_of (48 :: nat) = CHR ''0''" "char_of (102 :: nat) = CHR ''f''"
  "chars_of (map of_char ''{}'') = ''{}''"
  by code_simp+

lemma demo_manifest_parsed: "parse_manifest (\<lambda>_. Some demo_manifest) s = \<lparr>manifest_valid = True, format_version = 1, version = ''0.6.0'', build_date = [], arch = [], min_version = [],
     system_component = no_component\<lparr>sha256 := ''00ff''\<rparr>, changelog = []\<rparr>"
  by (simp add: parse_manifest_def read_manifest_def demo_manifest_def read_component_def no_component_def to_i32_id)

lemma demo_update_parts: "length demo_update = 81" "take 4 demo_update = map of_char ''LMUP''"
  "read_u32_le (drop 4 demo_update) = 1" "read_u32_le (drop 8 demo_update) = 2"
  "take 2 (drop 12 demo_update) = map of_char ''{}''" "take 64 (drop 14 demo_update) = replicate 64 0"
  "drop 78 demo_update = [7, 8, 9]"
  by (simp_all add: demo_update_def read_u32_le_def)

lemma demo_update_parsed: "parse_update_file (\<lambda>_. Some demo_manifest) ''u'' (Some demo_update) = Inr \<lparr>manifest =
   \<lparr>manifest_valid = True, format_version = 1, version = ''0.6.0'', build_date = [], arch = [], min_version = [],
     system_component = no_component\<lparr>sha256 := ''00ff''\<rparr>, changelog = []\<rparr>,
   manifest_json = ''{}'', signature = replicate 64 0, payload_offset = 78, payload_size = 3\<rparr>"
  by (simp add: parse_update_file_def demo_update_parts demo_manifest_parsed Let_def demo_chars del: map_map list.map)

lemma demo_slot: "detect_current_slot demo_machine = ''A''"
  by code_simp

lemma demo_device: "find_block_device demo_machine 4 = ''/dev/sda4''"
  by code_simp

lemma demo_newer: "version_compare ''0.6.0'' LLAMASTE_VERSION = 1"
  by code_simp

lemma demo_written: "write_device ''/dev/sda4'' [7, 8, 9] demo_machine = (True, 3, demo_machine\<lparr>devices := [''/dev/sda4'' \<mapsto> [7, 8, 9, 4]]\<rparr>)"
  by (simp add: write_device_def demo_machine_def write_chunks.simps CHUNK_def Let_def)

lemma demo_install: "install_update demo_crypto (\<lambda>_. Some demo_manifest) [1] ''u'' (Some demo_update) (Some demo_update) demo_machine
  = (Inr (jobj [(''success'', JBool True), (''version'', JString ''0.6.0''),
                (''installed_to_slot'', JString ''B''), (''partition'', JString ''/dev/sda4''),
                (''bytes_written'', JUInt 3),
                (''message'', JString ''Update installed to slot B. Reboot to activate (version 0.6.0).'')]),
     demo_machine\<lparr>devices := [''/dev/sda4'' \<mapsto> [7, 8, 9, 4]]\<rparr>)"
proof -
  have ck: "check_update demo_crypto [1] \<lparr>manifest =
   \<lparr>manifest_valid = True, format_version = 1, version = ''0.6.0'', build_date = [], arch = [], min_version = [],
     system_component = no_component\<lparr>sha256 := ''00ff''\<rparr>, changelog = []\<rparr>,
   manifest_json = ''{}'', signature = replicate 64 0, payload_offset = 78, payload_size = 3\<rparr> (Some demo_update) = Inr [7, 8, 9]"
    by (simp add: check_update_def demo_newer demo_update_parts demo_crypto_def sha256_hex_def hex_string_def hex_byte_def hex_digit_def demo_chars MAX_PAYLOAD_def Let_def)
  have mo: "activate_slot ''B'' mf (demo_machine\<lparr>devices := d\<rparr>) = demo_machine\<lparr>devices := d\<rparr>" for mf d
    by (simp add: activate_slot_def demo_machine_def find_grubenv_path_def grubenv_paths_def Let_def)
  show ?thesis
    by (simp add: install_update_def demo_update_parsed ck write_update_def demo_slot inactive_partition_num_def inactive_slot_def demo_device demo_written mo
      Let_def dump_def jobj_def utf8_ok_ascii) (simp add: demo_machine_def)
qed


text \<open>
  As shipped, with the all-zero public key of \<open>update_pubkey.h\<close>, no update is ever installed:
  whatever the cryptography says, nothing changes and the result is an error.
\<close>

theorem shipped_key_fails_closed:
  "snd (install_update cr parse UPDATE_PUBLIC_KEY path file1 file2 m) = m
    \<and> (case fst (install_update cr parse UPDATE_PUBLIC_KEY path file1 file2 m) of
         Inr j \<Rightarrow> contains j ''error'' | Inl e \<Rightarrow> e = TypeError 316)"
proof (cases "parse_update_file parse path file1")
  case (Inr info)
  have "list_all (\<lambda>b. b = 0) UPDATE_PUBLIC_KEY" by (simp add: UPDATE_PUBLIC_KEY_def list_all_iff)
  then obtain e where "check_update cr UPDATE_PUBLIC_KEY info file2 = Inl e"
    by (cases "check_update cr UPDATE_PUBLIC_KEY info file2")
      (auto dest: check_update_verified simp: verified_def)
  with Inr show ?thesis by (auto simp: install_update_def dump_def)
qed (auto simp: install_update_def dump_def)

section \<open>The partition path\<close>

lemma rev_digits:
  assumes "list_all is_digit ds" "base \<noteq> []" "\<not> is_digit (last base)"
  shows "dropWhile is_digit (rev (base @ ds)) = rev base"
proof -
  obtain c cs where c: "rev base = c # cs" using assms(2) by (cases "rev base") auto
  then have "last base = c" by (metis hd_rev list.sel(1))
  with assms c show ?thesis by (simp add: dropWhile_append list_all_iff)
qed

lemma no_digit_tail:
  assumes "list_all is_digit ds" "ds \<noteq> []"
  shows "dropWhile (Not \<circ> is_digit) (rev (base @ ds)) = rev (base @ ds)"
proof -
  obtain c cs where c: "rev ds = c # cs" using assms(2) by (cases "rev ds") auto
  then have "c \<in> set ds" by (metis list.set_intros(1) set_rev)
  with assms(1) c show ?thesis by (simp add: list_all_iff)
qed

lemma starts_with_digits:
  assumes "starts_with p (xs @ ds)" "list_all is_digit ds" "ds \<noteq> []" "list_all (Not \<circ> is_digit) p"
  shows "starts_with p xs"
proof (cases "length p \<le> length xs")
  case True
  with assms(1) show ?thesis by (simp add: starts_with_def)
next
  case False
  then have "p ! length xs = (xs @ ds) ! length xs"
    using assms(1) by (metis nth_take not_le starts_with_def)
  also have "\<dots> = hd ds" using assms(3) by (simp add: nth_append hd_conv_nth)
  finally have "is_digit (p ! length xs)" using assms(2,3) by (simp add: list_all_iff)
  with assms(4) False show ?thesis by (simp add: list_all_length)
qed

lemma letters_no_digit: "list_all (Not \<circ> is_digit) ''nvme''" "list_all (Not \<circ> is_digit) ''mmcblk''"
  by (simp_all add: is_digit_def)

lemma partition_path_dev:
  assumes "base \<noteq> []" "\<not> is_digit (last base)"
  shows "partition_path (''/dev/'' @ base @ show_nat n) k =
    (if starts_with ''nvme'' base \<or> starts_with ''mmcblk'' base
     then ''/dev/'' @ base @ ''p'' @ show_nat k else ''/dev/'' @ base @ show_nat k)"
proof -
  have w: "starts_with p (base @ show_nat n) \<longleftrightarrow> starts_with p base" if "list_all (Not \<circ> is_digit) p" for p
    using starts_with_digits [OF _ show_nat_digits show_nat_nonempty that]
    by (auto simp: starts_with_iff)
  have d: "drop 5 (''/dev/'' @ base @ show_nat n) = base @ show_nat n"
    "starts_with ''/dev/'' (''/dev/'' @ base @ show_nat n)"
    by (simp, rule starts_with_append)
  show ?thesis
    unfolding partition_path_def Let_def if_P [OF d(2)] d(1)
      no_digit_tail [OF show_nat_digits show_nat_nonempty] rev_digits [OF show_nat_digits assms]
      w [OF letters_no_digit(1)] w [OF letters_no_digit(2)]
    by simp
qed

text \<open>
  For a disk whose partitions are numbered directly, the path of the target partition is the
  disk with the target's number. For an NVMe or MMC disk, whose partition names have a \<open>p\<close> before
  the number, that \<open>p\<close> is kept and another is added, so the path names no partition and the
  installation cannot open it.
\<close>

theorem partition_path_of_root:
  assumes "disk \<noteq> []" "\<not> is_digit (last disk)" "\<not> starts_with ''nvme'' disk" "\<not> starts_with ''mmcblk'' disk"
    "starts_with ''nvme'' base \<or> starts_with ''mmcblk'' base"
  shows "partition_path (''/dev/'' @ disk @ show_nat n) k = ''/dev/'' @ disk @ show_nat k
    \<and> partition_path (''/dev/'' @ base @ ''p'' @ show_nat n) k = ''/dev/'' @ base @ ''pp'' @ show_nat k"
proof
  show "partition_path (''/dev/'' @ disk @ show_nat n) k = ''/dev/'' @ disk @ show_nat k"
    using assms(1-4) by (simp only: partition_path_dev [OF assms(1,2)] simp_thms if_False)
  have b: "base @ ''p'' \<noteq> []" "\<not> is_digit (last (base @ ''p''))" by (simp_all add: is_digit_def)
  have "starts_with ''nvme'' (base @ ''p'') \<or> starts_with ''mmcblk'' (base @ ''p'')"
    using assms(5) by (auto simp: starts_with_iff)
  with partition_path_dev [OF b, of n k]
  show "partition_path (''/dev/'' @ base @ ''p'' @ show_nat n) k = ''/dev/'' @ base @ ''pp'' @ show_nat k"
    by simp
qed

theorem partition_path_of_root_witness:
  "partition_path (''/dev/'' @ ''sda'' @ show_nat 3) 4 = ''/dev/'' @ ''sda'' @ show_nat 4
    \<and> partition_path (''/dev/'' @ ''nvme0n1'' @ ''p'' @ show_nat 3) 4 = ''/dev/'' @ ''nvme0n1'' @ ''pp'' @ show_nat 4"
  by (rule partition_path_of_root) (simp_all add: is_digit_def starts_with_def)

section \<open>The boot loader and the two slots\<close>

definition other_slot :: "string \<Rightarrow> string" where
  "other_slot s = (if s = ''A'' then ''B'' else ''A'')"

lemma env_get_simps [simp]:
  "env_get (smap_insert k v vars) k' = (if k' = k then v else env_get vars k')"
  "env_get (smap_erase k vars) k' = (if k' = k then [] else env_get vars k')"
  by (simp_all add: env_get_def)

text \<open>The slots of \<open>n\<close> boots in a row none of which is marked as successful.\<close>

fun boots :: "nat \<Rightarrow> env \<Rightarrow> string list" where
  "boots 0 vars = []"
| "boots (Suc n) vars = fst (grub_boot vars) # boots n (snd (grub_boot vars))"

lemma boots_settled:
  "env_get vars ''active_slot'' = slot \<Longrightarrow> slot \<noteq> [] \<Longrightarrow>
     env_get vars ''boot_success'' \<noteq> ''0'' \<or> env_get vars ''boot_counter'' = [] \<Longrightarrow>
     boots n vars = replicate n slot"
  by (induction n) (auto simp: grub_boot_def Let_def)

lemma success_settled:
  "env_get (success_env vars) ''boot_success'' \<noteq> ''0''"
  "env_get (success_env vars) ''active_slot'' = env_get vars ''active_slot''"
  by (simp_all add: success_env_def)

lemma grub_boot_trial:
  assumes "slot = ''A'' \<or> slot = ''B''"
  shows "fst (grub_boot (trial_env slot vars)) = slot"
    "env_get (snd (grub_boot (trial_env slot vars))) ''active_slot'' = slot"
    "env_get (snd (grub_boot (trial_env slot vars))) ''boot_success'' = ''0''"
    "env_get (snd (grub_boot (trial_env slot vars))) ''boot_counter'' = ''0''"
  using assms by (auto simp: grub_boot_def trial_env_def count_down_def Let_def)

text \<open>
  The trial of a new slot, over any number of boots. After an installation or a rollback to a
  slot the first boot uses it. If that boot is marked as successful, all later boots use it too; if
  not, already the second boot goes back to the other slot, and all later boots stay there: the
  counter of 3 gives one attempt, because the tests of the boot loader fall through.
\<close>

theorem trial_boots:
  assumes "slot = ''A'' \<or> slot = ''B''"
  shows "boots (Suc n) (trial_env slot vars) = slot # replicate n (other_slot slot)
    \<and> boots n (success_env (snd (grub_boot (trial_env slot vars)))) = replicate n slot"
proof
  let ?v = "snd (grub_boot (trial_env slot vars))"
  have ne: "slot \<noteq> []" using assms by auto
  have "boots n ?v = replicate n (other_slot slot)"
  proof (cases n)
    case (Suc k)
    have "fst (grub_boot ?v) = other_slot slot"
      "env_get (snd (grub_boot ?v)) ''active_slot'' = other_slot slot"
      "env_get (snd (grub_boot ?v)) ''boot_counter'' = []"
      using ne by (simp_all add: grub_boot_def [of ?v] grub_boot_trial(2-) [OF assms] other_slot_def Let_def)
    moreover have "other_slot slot \<noteq> []" by (simp add: other_slot_def)
    ultimately show ?thesis
      using boots_settled [of "snd (grub_boot ?v)" "other_slot slot" k] Suc by simp
  qed simp
  then show "boots (Suc n) (trial_env slot vars) = slot # replicate n (other_slot slot)"
    by (simp add: grub_boot_trial(1) [OF assms])
  show "boots n (success_env ?v) = replicate n slot"
    using ne by (intro boots_settled) (simp_all add: success_settled grub_boot_trial(2) [OF assms])
qed

theorem trial_boots_witness:
  "boots 3 (trial_env ''B'' []) = [''B'', ''A'', ''A'']"
  using trial_boots [of "''B''" 2 "[]"] by (simp add: numeral_3_eq_3 numeral_2_eq_2 other_slot_def)

text \<open>
  Marking the boot as successful does not look at which slot is running: when the old slot
  marks its boot after the installation (its server is restarted, or the update comes within the
  first five seconds), the trial is over before it began, and every later boot uses the new slot
  however often it fails.
\<close>

theorem success_disarms_trial:
  assumes "slot = ''A'' \<or> slot = ''B''"
  shows "boots n (success_env (trial_env slot vars)) = replicate n slot"
  using assms by (intro boots_settled) (auto simp: success_env_def trial_env_def)

theorem success_disarms_trial_witness:
  "boots 9 (success_env (trial_env ''B'' [])) = replicate 9 ''B''"
  using success_disarms_trial [of "''B''" 9 "[]"] by simp

section \<open>Reachable boot environments\<close>

text \<open>The environment block on disk and the slot that runs. A boot reads the block and saves it
  when it changed; an installation or rollback puts the other slot on trial; a boot is marked.\<close>

record ab_state =
  block :: string
  running :: string

inductive ab_step :: "ab_state \<Rightarrow> ab_state \<Rightarrow> bool" where
  boot: "grub_boot (grubenv_parse (block s)) = (slot, v) \<Longrightarrow>
    ab_step s \<lparr>block = (if v = grubenv_parse (block s) then block s else grubenv_serialize v),
      running = parse_active_slot (''llamaste.slot='' @ slot)\<rparr>"
| trial: "ab_step s (s\<lparr>block := grubenv_serialize (trial_env (inactive_slot (running s)) (grubenv_parse (block s)))\<rparr>)"
| success: "ab_step s (s\<lparr>block := grubenv_serialize (success_env (grubenv_parse (block s)))\<rparr>)"

inductive_cases ab_stepE: "ab_step s t"

definition env_keys :: "string set" where
  "env_keys = {''active_slot'', ''boot_success'', ''boot_counter''}"

definition env_values :: "string set" where
  "env_values = {[], ''0'', ''1'', ''3'', ''A'', ''B''}"

definition small_env :: "env \<Rightarrow> bool" where
  "small_env vars \<longleftrightarrow> smap_sorted vars \<and> fst ` set vars \<subseteq> env_keys \<and> snd ` set vars \<subseteq> env_values
     \<and> env_get vars ''active_slot'' \<in> {[], ''A'', ''B''}"

lemma env_keys_in: "''active_slot'' \<in> env_keys" "''boot_success'' \<in> env_keys" "''boot_counter'' \<in> env_keys"
  by (simp_all add: env_keys_def)

lemma env_values_in: "[] \<in> env_values" "''0'' \<in> env_values" "''1'' \<in> env_values" "''3'' \<in> env_values"
  "''A'' \<in> env_values" "''B'' \<in> env_values"
  by (simp_all add: env_values_def)

lemma values_smap_insert: "snd ` set (smap_insert k v m) \<subseteq> insert v (snd ` set m)"
  by (induction k v m rule: smap_insert.induct) auto

lemma small_env_insert:
  assumes "small_env vars" "k \<in> env_keys" "v \<in> env_values" "k = ''active_slot'' \<Longrightarrow> v \<in> {[], ''A'', ''B''}"
  shows "small_env (smap_insert k v vars)"
  unfolding small_env_def
proof (intro conjI)
  show "smap_sorted (smap_insert k v vars)" using assms(1) by (auto simp: small_env_def)
  show "fst ` set (smap_insert k v vars) \<subseteq> env_keys"
    using assms(1,2) by (simp add: keys_smap_insert small_env_def)
  show "snd ` set (smap_insert k v vars) \<subseteq> env_values"
    using values_smap_insert [of k v vars] assms(1,3) by (auto simp: small_env_def)
  have "env_get vars ''active_slot'' \<in> {[], ''A'', ''B''}" using assms(1) by (simp only: small_env_def)
  then show "env_get (smap_insert k v vars) ''active_slot'' \<in> {[], ''A'', ''B''}"
    using assms(4) unfolding env_get_simps by (cases "''active_slot'' = k") (simp_all only: if_True if_False simp_thms)
qed

lemma small_env_erase:
  assumes "small_env vars" shows "small_env (smap_erase k vars)"
  unfolding small_env_def
proof (intro conjI)
  show "smap_sorted (smap_erase k vars)" using assms by (auto simp: small_env_def)
  show "fst ` set (smap_erase k vars) \<subseteq> env_keys" "snd ` set (smap_erase k vars) \<subseteq> env_values"
    using assms by (auto simp: small_env_def smap_erase_def)
  have "env_get vars ''active_slot'' \<in> {[], ''A'', ''B''}" using assms by (simp only: small_env_def)
  then show "env_get (smap_erase k vars) ''active_slot'' \<in> {[], ''A'', ''B''}"
    unfolding env_get_simps by (cases "''active_slot'' = k") (simp_all only: if_True if_False simp_thms insertI1)
qed

lemma length_lines: "\<forall>kv \<in> set vars. length (fst kv) \<le> 12 \<and> length (snd kv) \<le> 1 \<Longrightarrow>
    length (concat (map env_line vars)) \<le> 15 * length vars"
  by (induction vars) (auto simp: env_line_def)

lemma env_keys_legal: "k \<in> env_keys \<Longrightarrow> v \<in> env_values \<Longrightarrow> legal_entry (k, v) \<and> length k \<le> 12 \<and> length v \<le> 1"
  by (auto simp: env_keys_def env_values_def legal_entry_def)

lemma small_env_legal:
  assumes "small_env vars"
  shows "legal_env vars"
proof -
  have s: "smap_sorted vars" and kv: "fst ` set vars \<subseteq> env_keys" "snd ` set vars \<subseteq> env_values"
    using assms by (auto simp: small_env_def)
  have e: "legal_entry (fst kv, snd kv) \<and> length (fst kv) \<le> 12 \<and> length (snd kv) \<le> 1" if "kv \<in> set vars" for kv
    using that kv by (intro env_keys_legal) auto
  have "distinct (map fst vars)" using s by (simp add: smap_sorted_def strict_sorted_iff)
  then have "length vars = card (fst ` set vars)" by (metis distinct_card length_map list.set_map)
  also have "\<dots> \<le> card env_keys" using kv by (intro card_mono) (simp_all add: env_keys_def)
  also have "\<dots> \<le> 3" by (simp add: env_keys_def card_insert_if)
  finally have n: "length vars \<le> 3" .
  have "length (concat (map env_line vars)) \<le> 15 * length vars"
    by (rule length_lines) (use e in blast)
  with n have "length (GRUBENV_HEADER @ concat (map env_line vars)) \<le> GRUBENV_SIZE"
    by (simp add: GRUBENV_HEADER_def GRUBENV_SIZE_def)
  moreover have "list_all legal_entry vars" using e by (simp add: list_all_iff)
  ultimately show ?thesis using s by (simp add: legal_env_def)
qed

lemma small_env_trial:
  assumes "small_env vars" "slot = ''A'' \<or> slot = ''B''"
  shows "small_env (trial_env slot vars)"
proof -
  have "slot \<in> env_values" "slot \<in> {[], ''A'', ''B''}" using assms(2) by (auto simp: env_values_def)
  then show ?thesis
    unfolding trial_env_def
    by (intro small_env_insert assms(1) env_keys_in env_values_in) simp_all
qed

lemma small_env_success: "small_env vars \<Longrightarrow> small_env (success_env vars)"
  unfolding success_env_def by (intro small_env_erase small_env_insert env_keys_in env_values_in) simp_all

lemma env_get_small: "small_env vars \<Longrightarrow> env_get vars k \<in> env_values"
  by (force simp: small_env_def env_get_def env_values_in dest!: map_of_SomeD split: option.split)

lemma count_down_small: "c \<in> env_values \<Longrightarrow> count_down c \<in> env_values"
  by (simp add: count_down_def env_values_in)

lemma small_env_boot:
  assumes "small_env vars" "grub_boot vars = (slot, v)"
  shows "small_env v \<and> (slot = ''A'' \<or> slot = ''B'')"
proof -
  let ?a = "env_get vars ''active_slot''"
  have a: "?a \<in> {[], ''A'', ''B''}" using assms(1) by (simp only: small_env_def)
  have flip: "small_env (smap_insert ''boot_counter'' [] (smap_insert ''active_slot'' x vars))"
    if "x = ''A'' \<or> x = ''B''" for x
  proof -
    have "x \<in> env_values" "x \<in> {[], ''A'', ''B''}" using that by (auto simp: env_values_def)
    then show ?thesis by (intro small_env_insert assms(1) env_keys_in env_values_in) simp_all
  qed
  have down: "small_env (smap_insert ''boot_counter'' (count_down (env_get vars ''boot_counter'')) vars)"
    by (intro small_env_insert assms(1) env_keys_in count_down_small env_get_small) simp
  have "(if ?a = [] then ''A'' else ?a) = ''A'' \<or> (if ?a = [] then ''A'' else ?a) = ''B''" using a by auto
  then show ?thesis
    using assms flip [of "''A''"] flip [of "''B''"] down
    by (simp add: grub_boot_def Let_def split: if_split_asm) auto
qed

definition ab_inv :: "ab_state \<Rightarrow> bool" where
  "ab_inv s \<longleftrightarrow> (\<exists>vars. small_env vars \<and> block s = grubenv_serialize vars) \<and> (running s = ''A'' \<or> running s = ''B'')"

lemma ab_inv_parse: "ab_inv s \<Longrightarrow> small_env (grubenv_parse (block s))"
  by (auto simp: ab_inv_def grubenv_parse_serialize small_env_legal)

lemma running_slot: "slot = ''A'' \<or> slot = ''B'' \<Longrightarrow> parse_active_slot (''llamaste.slot='' @ slot) = slot"
  by (auto simp: parse_active_slot_def starts_with_def)

lemma ab_step_inv: "ab_step s t \<Longrightarrow> ab_inv s \<Longrightarrow> ab_inv t"
proof (induction rule: ab_step.induct)
  case (boot s slot v)
  have "small_env v \<and> (slot = ''A'' \<or> slot = ''B'')"
    using small_env_boot [OF ab_inv_parse [OF boot(2)] boot(1)] .
  with boot(2) running_slot [of slot] show ?case by (auto simp: ab_inv_def)
next
  case (trial s)
  have "small_env (trial_env (inactive_slot (running s)) (grubenv_parse (block s)))"
    using ab_inv_parse [OF trial] by (rule small_env_trial) (simp add: inactive_slot_def)
  with trial show ?case by (auto simp: ab_inv_def)
next
  case (success s)
  have "small_env (success_env (grubenv_parse (block s)))"
    using ab_inv_parse [OF success] by (rule small_env_success)
  with success show ?case by (auto simp: ab_inv_def)
qed

lemma ab_reachable_inv: "ab_step\<^sup>*\<^sup>* s t \<Longrightarrow> ab_inv s \<Longrightarrow> ab_inv t"
  by (induction rule: rtranclp_induct) (auto intro: ab_step_inv)

definition first_boot :: ab_state where
  "first_boot = \<lparr>block = grubenv_serialize [], running = ''A''\<rparr>"

lemma first_boot_inv: "ab_inv first_boot"
  by (auto simp: ab_inv_def first_boot_def small_env_def smap_sorted_def env_get_def intro!: exI [of _ "[]"])



end
