(* ===== verification/Registry.thy ===== *)
theory Registry
  imports LlPrelude JsonValue
begin

text \<open>
  \<^verbatim>\<open>tools.cpp\<close> and \<^verbatim>\<open>tools.h\<close>: the registry that maps tool names to handlers, the dispatch with its
  confirmation guard and its two catch clauses, and the list of tools for the model. Texts in JSON
  are strings; rendering and parsing them is the vendored library's, an argument of the
  definitions.
\<close>

text \<open>The renderer and the parser (\<open>None\<close> for a parse error).\<close>

type_synonym json_text = "(json \<Rightarrow> string) \<times> (string \<Rightarrow> json option)"

definition dump_text :: "json_text \<Rightarrow> json \<Rightarrow> string result" where
  "dump_text tx j = bindE (dump j) (\<lambda>j. Inr (fst tx j))"

text \<open>What a handler may throw: a \<open>std::exception\<close> with its message, or anything else.\<close>

datatype tool_exn = StdExn string | OtherExn

record ToolDef =
  tool_name :: string
  description :: string
  parameters :: string
  handler :: "string \<Rightarrow> tool_exn + string"
  requires_confirmation :: bool

type_synonym registry = "(string \<times> ToolDef) list"

definition register_tool :: "ToolDef \<Rightarrow> registry \<Rightarrow> registry" where
  "register_tool tool tools = smap_insert (tool_name tool) tool tools"

definition tool_count :: "registry \<Rightarrow> nat" where
  "tool_count tools = length tools"

definition tool_names :: "registry \<Rightarrow> string list" where
  "tool_names tools = map fst tools"

definition needs_confirmation :: "registry \<Rightarrow> string \<Rightarrow> bool" where
  "needs_confirmation tools name =
     (case map_of tools name of None \<Rightarrow> False | Some t \<Rightarrow> requires_confirmation t)"

definition dispatch_confirmed :: "json_text \<Rightarrow> registry \<Rightarrow> string \<Rightarrow> string \<Rightarrow> bool \<Rightarrow> string result" where
  "dispatch_confirmed tx tools name args confirmed =
     (case map_of tools name of
        None \<Rightarrow> dump_text tx (json_error (''unknown tool: '' @ name))
      | Some t \<Rightarrow>
          if \<not> confirmed \<and> requires_confirmation t then
            dump_text tx (jobj [(''error'', JString (''confirmation required for tool: '' @ name)),
              (''confirm_required'', JBool True)])
          else case handler t args of
                 Inr r \<Rightarrow> Inr r
               | Inl (StdExn m) \<Rightarrow> dump_text tx (json_error (''tool execution failed: '' @ m))
               | Inl OtherExn \<Rightarrow> dump_text tx (json_error ''tool execution failed: unknown error''))"

definition dispatch :: "json_text \<Rightarrow> registry \<Rightarrow> string \<Rightarrow> string \<Rightarrow> string result" where
  "dispatch tx tools name args = dispatch_confirmed tx tools name args False"

definition openai_entry :: "json_text \<Rightarrow> ToolDef \<Rightarrow> json" where
  "openai_entry tx t =
     jobj [(''type'', JString ''function''),
       (''function'', jobj [(''name'', JString (tool_name t)), (''description'', JString (description t)),
          (''parameters'', case snd tx (parameters t) of
             Some p \<Rightarrow> p
           | None \<Rightarrow> jobj [(''type'', JString ''object''), (''properties'', JObject [])])])]"

definition openai_tools :: "json_text \<Rightarrow> registry \<Rightarrow> json" where
  "openai_tools tx tools = JArray (map (\<lambda>name. openai_entry tx (the (map_of tools name))) (tool_names tools))"

definition to_openai_tools_json :: "json_text \<Rightarrow> registry \<Rightarrow> string result" where
  "to_openai_tools_json tx tools = dump_text tx (openai_tools tx tools)"

section \<open>The registry as a map\<close>

lemma dispatch_cong:
  "map_of tools name = map_of tools' name \<Longrightarrow>
     dispatch_confirmed tx tools name args c = dispatch_confirmed tx tools' name args c"
  by (simp add: dispatch_confirmed_def)

text \<open>A registry made by registrations: sorted by name, each entry under its own name.\<close>

definition registry_inv :: "registry \<Rightarrow> bool" where
  "registry_inv tools \<longleftrightarrow> smap_sorted tools \<and> (\<forall>(k, t) \<in> set tools. tool_name t = k)"

lemma registry_inv_register:
  assumes "registry_inv tools"
  shows "registry_inv (register_tool t tools)"
  using assms set_smap_insert [of "tool_name t" t tools]
  by (auto simp: registry_inv_def register_tool_def)

interpretation registry: invariant_system register_tool registry_inv "\<lambda>_. True"
  by unfold_locales (rule registry_inv_register)

lemma registry_inv_lookup:
  "registry_inv tools \<Longrightarrow> map_of tools k = Some t \<Longrightarrow> tool_name t = k"
  by (auto simp: registry_inv_def dest: map_of_SomeD)

lemma map_of_register: "map_of (register_tool t tools) = (map_of tools)(tool_name t \<mapsto> t)"
  by (simp add: register_tool_def)

lemma map_of_fold_register:
  "map_of (fold register_tool ts tools) = map_of tools ++ map_of (rev (map (\<lambda>t. (tool_name t, t)) ts))"
proof (induction ts arbitrary: tools)
  case (Cons t ts)
  show ?case
    by (simp only: fold.simps o_apply Cons map_of_register)
      (simp add: map_add_def fun_eq_iff split: option.splits)
qed simp

lemma names_smap_insert:
  "smap_sorted m \<Longrightarrow> map_of m k \<noteq> None \<Longrightarrow> map fst (smap_insert k v m) = map fst m"
proof (induction k v m rule: smap_insert.induct)
  case (2 k v k' v' m)
  show ?case
  proof (cases "k < k'")
    case True
    then have "map_of ((k', v') # m) k = None"
      using 2(2) by (fastforce simp: smap_sorted_def map_of_eq_None_iff)
    with 2(3) show ?thesis by simp
  next
    case False
    with 2 show ?thesis by (auto simp: smap_sorted_def)
  qed
qed simp

text \<open>Two registries that differ only in the handler of a tool that needs confirmation.\<close>

definition same_unconfirmed :: "registry \<Rightarrow> registry \<Rightarrow> bool" where
  "same_unconfirmed tools tools' \<longleftrightarrow>
     (\<forall>tx n a. dispatch tx tools n a = dispatch tx tools' n a)
     \<and> (\<forall>tx. openai_tools tx tools = openai_tools tx tools')"

lemma same_unconfirmed_handler:
  assumes "registry_inv tools" "map_of tools (tool_name t) = Some t" "requires_confirmation t"
  shows "same_unconfirmed tools (register_tool (t\<lparr>handler := h\<rparr>) tools)"
proof -
  let ?tools = "register_tool (t\<lparr>handler := h\<rparr>) tools"
  have m: "map_of ?tools = (map_of tools)(tool_name t \<mapsto> t\<lparr>handler := h\<rparr>)"
    by (simp add: map_of_register)
  have n: "tool_names ?tools = tool_names tools"
    unfolding tool_names_def register_tool_def
    by (rule names_smap_insert) (use assms in \<open>auto simp: registry_inv_def\<close>)
  have "dispatch tx tools k a = dispatch tx ?tools k a" for tx k a
    using assms(2,3) by (cases "k = tool_name t") (simp_all add: dispatch_def dispatch_confirmed_def m)
  moreover have "openai_entry tx (the (map_of ?tools k)) = openai_entry tx (the (map_of tools k))" for tx k
    using assms(2) by (cases "k = tool_name t") (simp_all add: m openai_entry_def)
  then have "openai_tools tx tools = openai_tools tx ?tools" for tx
    by (simp add: openai_tools_def n)
  ultimately show ?thesis by (simp add: same_unconfirmed_def)
qed

definition function_name :: "json \<Rightarrow> json" where
  "function_name e = jmember (jmember e ''function'') ''name''"

text \<open>
  After any sequence of registrations the list of tools is strictly sorted by name, every tool
  is found under its name as it was registered last, and the array offered to the model has exactly
  one entry per registered name, in that order.
\<close>

theorem registry_correct:
  "sorted_wrt (<) (tool_names (fold register_tool ts []))
    \<and> map_of (fold register_tool ts []) = map_of (rev (map (\<lambda>t. (tool_name t, t)) ts))
    \<and> set (tool_names (fold register_tool ts [])) = tool_name ` set ts
    \<and> (case openai_tools tx (fold register_tool ts []) of
         JArray es \<Rightarrow> map function_name es = map JString (tool_names (fold register_tool ts []))
       | _ \<Rightarrow> False)"
proof -
  let ?r = "fold register_tool ts []"
  have inv: "registry_inv ?r"
    by (rule registry.run_keeps) (simp_all add: registry_inv_def smap_sorted_def list_all_iff)
  have m: "map_of ?r = map_of (rev (map (\<lambda>t. (tool_name t, t)) ts))"
    by (simp add: map_of_fold_register)
  have "set (tool_names ?r) = dom (map_of ?r)" by (simp add: tool_names_def dom_map_of_conv_image_fst)
  also have "\<dots> = tool_name ` set ts"
    by (simp only: m) (auto simp: dom_map_of_conv_image_fst image_iff)
  finally have s: "set (tool_names ?r) = tool_name ` set ts" .
  have "tool_name (the (map_of ?r k)) = k" if "k \<in> set (tool_names ?r)" for k
  proof -
    from that obtain t where "map_of ?r k = Some t"
      by (auto simp: tool_names_def) (metis map_of_eq_None_iff not_None_eq image_eqI fst_conv)
    with registry_inv_lookup [OF inv] show ?thesis by simp
  qed
  then have "map function_name (map (\<lambda>name. openai_entry tx (the (map_of ?r name))) (tool_names ?r))
      = map JString (tool_names ?r)"
    by (simp add: function_name_def openai_entry_def cpp_simps)
  with inv m s show ?thesis
    by (simp add: openai_tools_def registry_inv_def smap_sorted_def tool_names_def)
qed

end
