(* ===== verification/Mcp.thy ===== *)
theory Mcp
  imports LlPrelude JsonValue Http Registry Updater
begin

text \<open>
  \<^verbatim>\<open>mcp_server.cpp\<close> and \<^verbatim>\<open>mcp_server.h\<close>: the server of the Model Context Protocol. Its API key and the
  file that keeps it, the authorisation of a request, the POST handler with batches and
  notifications, the JSON-RPC dispatch with its catch clauses, the methods and the sessions.
  Definitions only; the lemmas are in McpFacts. The clock, the random bytes, the texts of exceptions
  and the JSON text library are arguments.
\<close>

section \<open>State\<close>

record McpSession =
  mcp_id :: string
  initialized :: bool
  last_access :: int
  client_name :: string
  client_version :: string

record McpServer =
  mcp_key :: string
  key_file :: "string option"
  key_writable :: bool
  mcp_sessions :: "string \<rightharpoonup> McpSession"
  request_count :: u64

text \<open>What a request draws from its surroundings: the time, random bytes for a session, the texts
  of the exceptions of the JSON library and the library itself.\<close>

record mcp_env =
  e_now :: int
  e_rnd :: "byte list option"
  e_what :: "exn \<Rightarrow> string"
  e_txt :: json_text

definition gen_random_hex :: "byte list option \<Rightarrow> nat \<Rightarrow> string" where
  "gen_random_hex rnd bytes = (case rnd of None \<Rightarrow> [] | Some buf \<Rightarrow> hex_string (take bytes buf))"

section \<open>The API key\<close>

definition write_key_file :: "string \<Rightarrow> McpServer \<Rightarrow> McpServer" where
  "write_key_file key s = (if key_writable s then s\<lparr>key_file := Some (key @ [CHR 0x0A])\<rparr> else s)"

definition stored_mcp_key :: "McpServer \<Rightarrow> string option" where
  "stored_mcp_key s =
     (case key_file s of
        None \<Rightarrow> None
      | Some c \<Rightarrow>
          let key = (case cpp_words c of [] \<Rightarrow> [] | w # _ \<Rightarrow> w)
          in if length key = 64 \<and> list_all is_hex_lower key then Some key else None)"

definition load_or_create_api_key :: "byte list option \<Rightarrow> McpServer \<Rightarrow> McpServer" where
  "load_or_create_api_key rnd s =
     (if mcp_key s \<noteq> [] then s
      else case stored_mcp_key s of
        Some key \<Rightarrow> s\<lparr>mcp_key := key\<rparr>
      | None \<Rightarrow> let new_key = gen_random_hex rnd 32 in (write_key_file new_key s)\<lparr>mcp_key := new_key\<rparr>)"

definition key_info_locked :: "McpServer \<Rightarrow> json" where
  "key_info_locked s =
     (if mcp_key s = [] then
        jobj [(''active'', JBool False), (''key_prefix'', JString []), (''key'', JString [])]
      else
        jobj [(''active'', JBool True), (''key_prefix'', JString (take 8 (mcp_key s) @ ''...'')),
          (''key'', JString (mcp_key s))])"

definition get_api_key_info :: "byte list option \<Rightarrow> McpServer \<Rightarrow> json \<times> McpServer" where
  "get_api_key_info rnd s = (let s = load_or_create_api_key rnd s in (key_info_locked s, s))"

definition regenerate_api_key :: "byte list option \<Rightarrow> McpServer \<Rightarrow> json \<times> McpServer" where
  "regenerate_api_key rnd s =
     (let new_key = gen_random_hex rnd 32; s = write_key_file new_key (s\<lparr>mcp_key := new_key\<rparr>)
      in (key_info_locked s, s))"

section \<open>Authorisation\<close>

definition bearer_ok :: "http_req \<Rightarrow> McpServer \<Rightarrow> bool" where
  "bearer_ok req s =
     (case find_header req ''Authorization'' of
        None \<Rightarrow> False
      | Some h \<Rightarrow>
          if length h > 7 \<and> take 7 h = ''Bearer '' then drop 7 h \<noteq> [] \<and> drop 7 h = mcp_key s else False)"

definition mcp_unauthorized :: http_resp where
  "mcp_unauthorized =
     set_content (jobj [(''error'', JString ''Unauthorized''),
         (''hint'', JString ''Use Authorization: Bearer <api-key> or a valid session cookie'')])
       (set_header ''Access-Control-Allow-Origin'' ''*'' (new_resp\<lparr>status := 401\<rparr>))"

text \<open>The wrapper: \<open>cookie_ok\<close> is what the session check of the main server answers.\<close>

definition mcp_auth ::
  "bool \<Rightarrow> (http_req \<Rightarrow> (McpServer, http_resp) op) \<Rightarrow> http_req \<Rightarrow> (McpServer, http_resp) op" where
  "mcp_auth cookie_ok h req s =
     (if \<not> bearer_ok req s \<and> \<not> cookie_ok then (Inr mcp_unauthorized, s) else h req s)"

section \<open>Sessions\<close>

definition touch_mcp_session :: "int \<Rightarrow> string \<Rightarrow> McpServer \<Rightarrow> McpServer" where
  "touch_mcp_session now k s =
     (if k = [] then s
      else case mcp_sessions s k of
             None \<Rightarrow> s
           | Some se \<Rightarrow> s\<lparr>mcp_sessions := (mcp_sessions s)(k \<mapsto> se\<lparr>last_access := now\<rparr>)\<rparr>)"

text \<open>\<open>duration_cast\<close> to whole minutes, rounding towards zero.\<close>

definition minutes_between :: "int \<Rightarrow> int \<Rightarrow> int" where
  "minutes_between since now = tdiv (now - since) 60000000000"

definition expire_old_sessions :: "int \<Rightarrow> McpServer \<Rightarrow> McpServer" where
  "expire_old_sessions now s =
     s\<lparr>mcp_sessions := (\<lambda>k. case mcp_sessions s k of
         None \<Rightarrow> None
       | Some se \<Rightarrow> if minutes_between (last_access se) now > 30 then None else Some se)\<rparr>"

definition create_mcp_session :: "mcp_env \<Rightarrow> json \<Rightarrow> (McpServer, string) op" where
  "create_mcp_session e client_info =
     bindS (modifyS (expire_old_sessions (e_now e))) (\<lambda>_.
     bindS (liftS (jvalue get_string client_info ''name'' ''unknown'')) (\<lambda>n.
     bindS (liftS (jvalue get_string client_info ''version'' [])) (\<lambda>v.
       let k = gen_random_hex (e_rnd e) 16
       in bindS (modifyS (\<lambda>s. s\<lparr>mcp_sessions := (mcp_sessions s)(k \<mapsto> \<lparr>mcp_id = k, initialized = True,
             last_access = e_now e, client_name = n, client_version = v\<rparr>)\<rparr>)) (\<lambda>_. returnS k))))"

section \<open>Methods\<close>

definition rpc_result :: "json \<Rightarrow> json \<Rightarrow> json" where
  "rpc_result i r = jobj [(''jsonrpc'', JString ''2.0''), (''id'', i), (''result'', r)]"

definition rpc_error :: "json \<Rightarrow> int \<Rightarrow> string \<Rightarrow> json" where
  "rpc_error i code msg = jobj [(''jsonrpc'', JString ''2.0''), (''id'', i),
     (''error'', jobj [(''code'', JInt code), (''message'', JString msg)])]"

definition instructions_text :: string where
  "instructions_text =
     ''Llamaste LLM-OS system management tools. '' @
     ''Manage files, processes, network, configuration, models, and audio on a '' @
     ''self-hosted AI appliance running Llamaste. '' @
     ''All filesystem operations are restricted to /data/. '' @
     ''Destructive operations (delete, shutdown, reboot, factory_reset) require '' @
     ''setting the 'confirm' parameter to true.''"

text \<open>The result of \<open>initialize\<close> with the identifier of the new session.\<close>

definition handle_initialize :: "mcp_env \<Rightarrow> json \<Rightarrow> (McpServer, json \<times> string) op" where
  "handle_initialize e params =
     bindS (liftS (jvalue get_json params ''clientInfo'' (JObject []))) (\<lambda>ci.
     bindS (create_mcp_session e ci) (\<lambda>k.
       returnS (jobj [(''protocolVersion'', JString ''2025-03-26''),
         (''capabilities'', jobj [(''tools'', JObject []), (''resources'', JObject [])]),
         (''serverInfo'', jobj [(''name'', JString ''llamaste''), (''version'', JString LLAMASTE_VERSION)]),
         (''instructions'', JString instructions_text)], k)))"

definition handle_ping :: "json \<Rightarrow> json" where
  "handle_ping params = JObject []"

fun mcp_tools :: "json list \<Rightarrow> json list result" where
  "mcp_tools [] = Inr []"
| "mcp_tools (entry # es) =
     (if \<not> is_object entry \<or> \<not> contains entry ''function'' then mcp_tools es
      else let f = jmember entry ''function'' in
        bindE (jvalue get_string f ''name'' []) (\<lambda>n.
        bindE (jvalue get_string f ''description'' []) (\<lambda>d.
        bindE (jvalue get_json f ''parameters'' (JObject [])) (\<lambda>p.
        bindE (mcp_tools es) (\<lambda>ts.
          Inr (jobj [(''name'', JString n), (''description'', JString d), (''inputSchema'', p)] # ts))))))"

definition build_tools_array :: "mcp_env \<Rightarrow> registry \<Rightarrow> json result" where
  "build_tools_array e tools =
     bindE (to_openai_tools_json (e_txt e) tools) (\<lambda>t.
       case snd (e_txt e) t of
         Some (JArray es) \<Rightarrow> bindE (mcp_tools es) (\<lambda>ts. Inr (JArray ts))
       | _ \<Rightarrow> Inr (JArray []))"

definition handle_tools_list :: "mcp_env \<Rightarrow> registry \<Rightarrow> json result" where
  "handle_tools_list e tools = bindE (build_tools_array e tools) (\<lambda>a. Inr (jobj [(''tools'', a)]))"

definition handle_tools_call :: "mcp_env \<Rightarrow> registry \<Rightarrow> json \<Rightarrow> json result" where
  "handle_tools_call e tools params =
     (case jmember params ''name'' of
        JString name \<Rightarrow>
          bindE (jvalue get_json params ''arguments'' (JObject [])) (\<lambda>args.
          bindE (dump_text (e_txt e) args) (\<lambda>a.
          bindE (dispatch (e_txt e) tools name a) (\<lambda>r.
            let is_error = (case snd (e_txt e) r of None \<Rightarrow> False | Some j \<Rightarrow> is_object j \<and> contains j ''error'')
            in Inr (jobj [(''content'', JArray [jobj [(''type'', JString ''text''), (''text'', JString r)]]),
                 (''isError'', JBool is_error)]))))
      | _ \<Rightarrow> Inl (InvalidArgument ''Missing required parameter: name (string)''))"

definition handle_resources_list :: json where
  "handle_resources_list = jobj [(''resources'', JArray
     [jobj [(''uri'', JString ''llamaste://system/status''), (''name'', JString ''System Status''),
        (''description'', JString ''Current CPU, RAM, disk, model, and uptime''),
        (''mimeType'', JString ''application/json'')],
      jobj [(''uri'', JString ''llamaste://tools/catalog''), (''name'', JString ''Tool Catalog''),
        (''description'', JString ''Full list of available Llamaste tools with schemas''),
        (''mimeType'', JString ''application/json'')]])]"

definition handle_resources_read :: "mcp_env \<Rightarrow> registry \<Rightarrow> json \<Rightarrow> json result" where
  "handle_resources_read e tools params =
     (case jmember params ''uri'' of
        JString uri \<Rightarrow>
          bindE (if uri = ''llamaste://system/status'' then dispatch (e_txt e) tools ''system.info'' ''{}''
                 else if uri = ''llamaste://tools/catalog'' then to_openai_tools_json (e_txt e) tools
                 else Inl (InvalidArgument (''Unknown resource URI: '' @ uri))) (\<lambda>t.
            Inr (jobj [(''contents'', JArray [jobj [(''uri'', JString uri),
              (''mimeType'', JString ''application/json''), (''text'', JString t)]])]))
      | _ \<Rightarrow> Inl (InvalidArgument ''Missing required parameter: uri (string)''))"

definition handle_prompts_list :: json where
  "handle_prompts_list = jobj [(''prompts'', JArray [])]"

section \<open>Dispatch\<close>

text \<open>The body of the try block: the result and the identifier of a new session (empty for none), or
  \<open>None\<close> for an unknown method.\<close>

definition call_method :: "mcp_env \<Rightarrow> registry \<Rightarrow> string \<Rightarrow> json \<Rightarrow> (McpServer, (json \<times> string) option) op" where
  "call_method e tools m params =
     (if m = ''initialize'' then bindS (handle_initialize e params) (\<lambda>r. returnS (Some r))
      else if m = ''ping'' then returnS (Some (handle_ping params, []))
      else if m = ''tools/list'' then bindS (liftS (handle_tools_list e tools)) (\<lambda>r. returnS (Some (r, [])))
      else if m = ''tools/call'' then bindS (liftS (handle_tools_call e tools params)) (\<lambda>r. returnS (Some (r, [])))
      else if m = ''resources/list'' then returnS (Some (handle_resources_list, []))
      else if m = ''resources/read'' then bindS (liftS (handle_resources_read e tools params)) (\<lambda>r. returnS (Some (r, [])))
      else if m = ''resources/templates/list'' then returnS (Some (jobj [(''resourceTemplates'', JArray [])], []))
      else if m = ''prompts/list'' then returnS (Some (handle_prompts_list, []))
      else returnS None)"

text \<open>The reply and the identifier of a new session. The fields are read before the try block, so a
  type error there leaves the handler.\<close>

definition dispatch_rpc :: "mcp_env \<Rightarrow> registry \<Rightarrow> json \<Rightarrow> (McpServer, json \<times> string) op" where
  "dispatch_rpc e tools request =
     (if jmember request ''jsonrpc'' \<noteq> JString ''2.0'' then
        bindS (liftS (jvalue get_json request ''id'' JNull)) (\<lambda>i.
          returnS (rpc_error i (-32600) ''Not JSON-RPC 2.0'', []))
      else
        bindS (liftS (jvalue get_json request ''id'' JNull)) (\<lambda>i.
        bindS (liftS (jvalue get_json request ''params'' (JObject []))) (\<lambda>params.
        bindS (liftS (jvalue get_string request ''method'' [])) (\<lambda>m s.
          if m = [] then (Inr (rpc_error i (-32600) ''Missing 'method' field'', []), s)
          else case call_method e tools m params s of
            (Inr (Some (r, k)), s') \<Rightarrow> (Inr (rpc_result i r, k), s')
          | (Inr None, s') \<Rightarrow> (Inr (rpc_error i (-32601) (''Method not found: '' @ m), []), s')
          | (Inl (InvalidArgument msg), s') \<Rightarrow> (Inr (rpc_error i (-32602) msg, []), s')
          | (Inl x, s') \<Rightarrow> (Inr (rpc_error i (-32603) (''Internal error: '' @ e_what e x), []), s')))))"

text \<open>A batch: notifications are dropped, entries that are not objects skipped; the response header is
  set for every new session.\<close>

fun run_batch :: "(nat \<Rightarrow> mcp_env) \<Rightarrow> registry \<Rightarrow> nat \<Rightarrow> json list \<Rightarrow> http_resp \<Rightarrow> (McpServer, json list \<times> http_resp) op" where
  "run_batch es tools n [] res s = (Inr ([], res), s)"
| "run_batch es tools n (rpc # js) res s =
     (if \<not> is_object rpc \<or> \<not> contains rpc ''id'' then run_batch es tools (Suc n) js res s
      else bindS (dispatch_rpc (es n) tools rpc) (\<lambda>(r, k) s.
        bindS (run_batch es tools (Suc n) js (if k \<noteq> [] then set_header ''Mcp-Session-Id'' k res else res))
          (\<lambda>(rs, res'). returnS (r # rs, res')) s) s)"

text \<open>The POST handler. \<open>es\<close> gives the environment of each entry of a batch; the first is that of a
  single request and of the touch.\<close>

definition handle_post :: "(nat \<Rightarrow> mcp_env) \<Rightarrow> registry \<Rightarrow> http_req \<Rightarrow> (McpServer, http_resp) op" where
  "handle_post es tools req s0 =
     (let s = s0\<lparr>request_count := request_count s0 + 1\<rparr>;
          res = set_header ''Access-Control-Expose-Headers'' ''Mcp-Session-Id''
                  (set_header ''Access-Control-Allow-Origin'' ''*'' new_resp);
          reply = (\<lambda>j res. bindE (dump j) (\<lambda>j. Inr (set_content j res)))
      in if req_empty req then (reply (rpc_error JNull (-32600) ''Empty request body'') res, s)
         else case req_json req of
           None \<Rightarrow> (reply (rpc_error JNull (-32700) ''JSON parse error'') res, s)
         | Some body \<Rightarrow>
             let s = (case find_header req ''Mcp-Session-Id'' of
                        None \<Rightarrow> s | Some k \<Rightarrow> touch_mcp_session (e_now (es 0)) k s)
             in case body of
                  JArray js \<Rightarrow>
                    bindS (run_batch es tools 0 js res) (\<lambda>(rs, res). liftS (reply (JArray rs) res)) s
                | JObject _ \<Rightarrow>
                    if \<not> contains body ''id'' then (Inr (res\<lparr>status := 202\<rparr>), s)
                    else bindS (dispatch_rpc (es 0) tools body) (\<lambda>(r, k).
                      liftS (reply r (if k \<noteq> [] then set_header ''Mcp-Session-Id'' k res else res))) s
                | _ \<Rightarrow> (reply (rpc_error JNull (-32600) ''Expected JSON object or array'') res, s))"

end
