(* ===== verification/McpFacts.thy ===== *)
theory McpFacts
  imports Mcp
begin

text \<open>
  The lemmas and properties of the protocol server: every request gets exactly one well-formed
  reply, tools that need confirmation are never run, the API key survives a restart, and the
  sessions form a store that times out.
\<close>

section \<open>Replies\<close>

definition well_formed_reply :: "json \<Rightarrow> bool" where
  "well_formed_reply r \<longleftrightarrow> jmember r ''jsonrpc'' = JString ''2.0'' \<and> (contains r ''result'' \<longleftrightarrow> \<not> contains r ''error'')"

lemma reply_simps [simp]:
  "well_formed_reply (rpc_result i r)" "well_formed_reply (rpc_error i c m)"
  "jmember (rpc_result i r) ''id'' = i" "jmember (rpc_error i c m) ''id'' = i"
  by (simp_all add: well_formed_reply_def rpc_result_def rpc_error_def cpp_simps)

lemma jvalue_get_json: "contains j k \<Longrightarrow> jvalue get_json j k d = Inr (jmember j k)"
  by (cases j) (auto simp: get_json_def)

lemma bindS_Inr_iff: "bindS m f s = (Inr y, s') \<longleftrightarrow> (\<exists>x t. m s = (Inr x, t) \<and> f x t = (Inr y, s'))"
  by (auto simp: bindS_def split: prod.splits sum.splits)

lemma dispatch_rpc_reply:
  assumes "contains req ''id''" "dispatch_rpc e tools req s = (Inr (r, k), s')"
  shows "well_formed_reply r \<and> jmember r ''id'' = jmember req ''id''"
  using assms(2) jvalue_get_json [OF assms(1), of JNull]
  by (auto simp: dispatch_rpc_def bindS_Inr_iff liftS_def returnS_def
      split: if_splits prod.splits sum.splits option.splits exn.splits)

text \<open>What a batch asks to be answered.\<close>

definition is_call :: "json \<Rightarrow> bool" where
  "is_call j \<longleftrightarrow> is_object j \<and> contains j ''id''"

lemma run_batch_replies:
  "run_batch es tools n js res s = (Inr (rs, res'), s') \<Longrightarrow>
     list_all well_formed_reply rs
     \<and> map (\<lambda>r. jmember r ''id'') rs = map (\<lambda>j. jmember j ''id'') (filter is_call js)"
proof (induction es tools n js res s arbitrary: rs res' s' rule: run_batch.induct)
  case (2 es tools n rpc js res s)
  show ?case
  proof (cases "is_call rpc")
    case False
    with 2 show ?thesis by (auto simp: is_call_def)
  next
    case True
    with 2(3) obtain r k t rs' res'' where d: "dispatch_rpc (es n) tools rpc s = (Inr (r, k), t)"
      and b: "run_batch es tools (Suc n) js (if k \<noteq> [] then set_header ''Mcp-Session-Id'' k res else res) t
        = (Inr (rs', res''), s')" and rs: "rs = r # rs'"
      by (auto simp: is_call_def bindS_Inr_iff returnS_def)
    have "well_formed_reply r \<and> jmember r ''id'' = jmember rpc ''id''"
      using dispatch_rpc_reply [OF _ d] True by (simp add: is_call_def)
    moreover have "list_all well_formed_reply rs'
        \<and> map (\<lambda>r. jmember r ''id'') rs' = map (\<lambda>j. jmember j ''id'') (filter is_call js)"
      by (rule 2(2) [OF _ b]) (use True in \<open>auto simp: is_call_def\<close>)
    ultimately show ?thesis using True rs by simp
  qed
qed simp

text \<open>The replies that a response carries.\<close>

fun replies :: "json \<Rightarrow> json option \<Rightarrow> json list" where
  "replies (JArray _) (Some (JArray rs)) = rs"
| "replies _ None = []"
| "replies _ (Some r) = [r]"

fun calls :: "json \<Rightarrow> json list" where
  "calls (JArray js) = filter is_call js"
| "calls j = (if is_call j then [j] else [])"

lemma dump_Inr: "dump j = Inr j' \<Longrightarrow> j' = j"
  by (auto simp: dump_def split: if_splits)

text \<open>
  Every request body that is an object or an array is answered, when no exception leaves the
  handler, by exactly one reply for each call in it, in the order of the calls and with their
  identifiers; each reply is JSON-RPC 2.0 and has either a result or an error. Notifications and
  entries of a batch that are not objects get none.
\<close>

theorem mcp_one_reply_per_call:
  assumes "handle_post es tools req s = (Inr res, s')" "\<not> req_empty req" "req_json req = Some body"
    "is_array body \<or> is_object body"
  shows "list_all well_formed_reply (replies body (content res))
    \<and> map (\<lambda>r. jmember r ''id'') (replies body (content res)) = map (\<lambda>j. jmember j ''id'') (calls body)"
proof (cases body)
  case (JArray js)
  then obtain n s1 rs res1 where b: "run_batch es tools n js (set_header ''Access-Control-Expose-Headers'' ''Mcp-Session-Id''
      (set_header ''Access-Control-Allow-Origin'' ''*'' new_resp)) s1 = (Inr (rs, res1), s')"
    and c: "content res = Some (JArray rs)"
    using assms by (auto simp: handle_post_def Let_def bindS_Inr_iff liftS_def bindE_Inr_iff set_content_def
        dest!: dump_Inr)
  from run_batch_replies [OF b] c JArray show ?thesis by simp
next
  case (JObject ms)
  show ?thesis
  proof (cases "contains body ''id''")
    case False
    with assms JObject show ?thesis
      by (auto simp: handle_post_def Let_def is_call_def new_resp_def set_header_def)
  next
    case True
    then obtain s1 r k where d: "dispatch_rpc (es 0) tools body s1 = (Inr (r, k), s')" and c: "content res = Some r"
      using assms JObject by (auto simp: handle_post_def Let_def bindS_Inr_iff liftS_def bindE_Inr_iff set_content_def
          dest!: dump_Inr split: if_splits)
    from dispatch_rpc_reply [OF True d] c True JObject show ?thesis by (cases r) (auto simp: is_call_def)
  qed
qed (use assms in auto)

definition demo_mcp_env :: mcp_env where
  "demo_mcp_env = \<lparr>e_now = 0, e_rnd = None, e_what = (\<lambda>_. []), e_txt = (\<lambda>_. [], \<lambda>_. None)\<rparr>"

definition demo_mcp :: McpServer where
  "demo_mcp = \<lparr>mcp_key = [], key_file = None, key_writable = True, mcp_sessions = (\<lambda>_. None), request_count = 0\<rparr>"

definition demo_call :: "string \<Rightarrow> json" where
  "demo_call m = jobj [(''jsonrpc'', JString ''2.0''), (''id'', JUInt 7), (''method'', JString m)]"

definition demo_post :: "json \<Rightarrow> http_req" where
  "demo_post j = \<lparr>req_headers = [], remote_addr = [], req_empty = False, req_json = Some j\<rparr>"

lemma demo_ping: "dispatch_rpc demo_mcp_env [] (demo_call ''ping'') s = (Inr (rpc_result (JUInt 7) (JObject []), []), s)"
  by (simp add: dispatch_rpc_def demo_call_def cpp_simps call_method_def handle_ping_def get_json_def
      bindS_def liftS_def returnS_def)

theorem mcp_one_reply_per_call_witness:
  "\<exists>res s'. handle_post (\<lambda>_. demo_mcp_env) [] (demo_post (demo_call ''ping'')) demo_mcp = (Inr res, s')
     \<and> map (\<lambda>r. jmember r ''id'') (replies (demo_call ''ping'') (content res)) = [JUInt 7]"
proof -
  obtain ms where ms: "demo_call ''ping'' = JObject ms" by (simp add: demo_call_def jobj_def)
  have i: "contains (demo_call ''ping'') ''id''" "jmember (demo_call ''ping'') ''id'' = JUInt 7"
    by (simp_all add: demo_call_def cpp_simps)
  obtain v where v: "map_of ms ''id'' = Some v" using i(1) ms by auto
  have "dump_ok (rpc_result (JUInt 7) (JObject []))" by (simp add: rpc_result_def jobj_def utf8_ok_ascii)
  then obtain res s' where h: "handle_post (\<lambda>_. demo_mcp_env) [] (demo_post (demo_call ''ping'')) demo_mcp = (Inr res, s')"
    using v ms by (simp add: handle_post_def demo_post_def find_header_def Let_def
        demo_ping [unfolded ms] bindS_def liftS_def dump_def)
  from mcp_one_reply_per_call [OF h, of "demo_call ''ping''"] show ?thesis
    using h i ms by (auto simp: demo_post_def is_call_def)
qed

section \<open>Tools that need confirmation\<close>

lemma same_unconfirmed_method:
  assumes "same_unconfirmed tools tools'"
  shows "call_method e tools = call_method e tools'"
proof -
  have a: "dispatch tx tools n x = dispatch tx tools' n x" and b: "openai_tools tx tools = openai_tools tx tools'" for tx n x
    using assms unfolding same_unconfirmed_def by blast+
  have d: "dispatch tx tools = dispatch tx tools'" for tx by (intro ext) (rule a)
  have o: "to_openai_tools_json tx tools = to_openai_tools_json tx tools'" for tx
    by (simp only: to_openai_tools_json_def b)
  show ?thesis
    by (intro ext) (simp only: call_method_def handle_tools_list_def build_tools_array_def handle_tools_call_def
        handle_resources_read_def d o)
qed

lemma same_unconfirmed_rpc:
  assumes "same_unconfirmed tools tools'"
  shows "dispatch_rpc e tools = dispatch_rpc e tools'"
  by (intro ext) (simp only: dispatch_rpc_def same_unconfirmed_method [OF assms])

lemma same_unconfirmed_batch:
  "same_unconfirmed tools tools' \<Longrightarrow> run_batch es tools n js res s = run_batch es tools' n js res s"
proof (induction es tools n js res s rule: run_batch.induct)
  case (2 es tools n rpc js res s)
  have "dispatch_rpc (es n) tools = dispatch_rpc (es n) tools'"
    by (rule same_unconfirmed_rpc [OF 2(3)])
  with 2 show ?case by (auto simp: bindS_def split: prod.split sum.split)
qed simp

text \<open>
  C8: A tool that needs confirmation is never run by the protocol server, whatever the request and
  its arguments: the response and the state do not depend on what its handler does.
\<close>

theorem mcp_never_runs_unconfirmed:
  assumes "registry_inv tools" "map_of tools (tool_name t) = Some t" "requires_confirmation t"
  shows "handle_post es (register_tool (t\<lparr>handler := h\<rparr>) tools) req s = handle_post es tools req s"
proof -
  have same: "same_unconfirmed tools (register_tool (t\<lparr>handler := h\<rparr>) tools)"
    by (rule same_unconfirmed_handler [OF assms])
  show ?thesis
    by (simp only: handle_post_def same_unconfirmed_rpc [OF same] ext [OF same_unconfirmed_batch [OF same]])
qed

definition demo_tool :: ToolDef where
  "demo_tool = \<lparr>tool_name = ''fs.delete'', description = [], parameters = [], handler = (\<lambda>_. Inr []),
     requires_confirmation = True\<rparr>"

theorem mcp_never_runs_unconfirmed_witness:
  "handle_post (\<lambda>_. demo_mcp_env) (register_tool (demo_tool\<lparr>handler := (\<lambda>_. Inl OtherExn)\<rparr>) [(''fs.delete'', demo_tool)])
      (demo_post (demo_call ''tools/call'')) demo_mcp
    = handle_post (\<lambda>_. demo_mcp_env) [(''fs.delete'', demo_tool)] (demo_post (demo_call ''tools/call'')) demo_mcp"
  by (rule mcp_never_runs_unconfirmed) (simp_all add: registry_inv_def smap_sorted_def demo_tool_def)

section \<open>The key\<close>

lemma first_word:
  assumes "w \<noteq> []" "list_all is_hex_lower w" "is_space c"
  shows "\<exists>ws. cpp_words (w @ c # s) = w # ws"
proof -
  have "\<not> is_space x" if "is_hex_lower x" for x using that by (auto simp: is_hex_lower_def is_digit_def is_space_def)
  then have "list_all (Not \<circ> is_space) w" using assms(2) by (auto simp: list_all_iff)
  from cpp_words_word [OF assms(1) this assms(3)] show ?thesis by blast
qed

lemma hex_string_ne: "bs \<noteq> [] \<Longrightarrow> hex_string bs \<noteq> []"
  by (cases bs) (simp_all add: hex_string_def hex_byte_def)

lemma stored_after_write:
  assumes "length bs = 32" "key_writable s"
  shows "stored_mcp_key (write_key_file (hex_string bs) s) = Some (hex_string bs)"
proof -
  have "is_space CHR 0x0A" by (simp add: is_space_def)
  moreover have "hex_string bs \<noteq> []" using assms(1) by (metis hex_string_ne list.size(3) zero_neq_numeral)
  ultimately obtain ws where "cpp_words (hex_string bs @ [CHR 0x0A]) = hex_string bs # ws"
    using first_word hex_string_chars by blast
  with assms show ?thesis by (simp add: stored_mcp_key_def write_key_file_def hex_string_chars)
qed

text \<open>
  A key made from 32 random bytes is written so that every later start finds it again: after
  creating or regenerating it on a writable file, a restarted server loads the same key and needs no
  new one, and the key is what clients must present.
\<close>

theorem mcp_key_persists:
  assumes "length bs = 32" "key_writable s" "s' = snd (regenerate_api_key (Some bs) s)
      \<or> (mcp_key s = [] \<and> stored_mcp_key s = None \<and> s' = load_or_create_api_key (Some bs) s)"
  shows "mcp_key (load_or_create_api_key rnd (s'\<lparr>mcp_key := []\<rparr>)) = mcp_key s' \<and> mcp_key s' = hex_string bs
    \<and> (find_header req ''Authorization'' = Some (''Bearer '' @ k) \<longrightarrow> (bearer_ok req s' \<longleftrightarrow> k = hex_string bs))"
proof -
  have g: "gen_random_hex (Some bs) 32 = hex_string bs" using assms(1) by (simp add: gen_random_hex_def)
  have ne: "hex_string bs \<noteq> []" using assms(1) by (metis hex_string_ne list.size(3) zero_neq_numeral)
  have f: "mcp_key s' = hex_string bs \<and> key_file s' = Some (hex_string bs @ [CHR 0x0A])"
    using assms(2,3) by (auto simp: regenerate_api_key_def load_or_create_api_key_def write_key_file_def g Let_def)
  have "stored_mcp_key (s'\<lparr>mcp_key := []\<rparr>) = stored_mcp_key (write_key_file (hex_string bs) s)"
    using f assms(2) by (simp add: stored_mcp_key_def write_key_file_def)
  then have "stored_mcp_key (s'\<lparr>mcp_key := []\<rparr>) = Some (hex_string bs)"
    by (simp add: stored_after_write [OF assms(1,2)])
  with f ne show ?thesis by (auto simp: load_or_create_api_key_def bearer_ok_def)
qed

theorem mcp_key_persists_witness:
  "mcp_key (load_or_create_api_key None ((load_or_create_api_key (Some (replicate 32 0xab)) demo_mcp)\<lparr>mcp_key := []\<rparr>))
    = hex_string (replicate 32 0xab)"
  using mcp_key_persists [of "replicate 32 0xab" demo_mcp "load_or_create_api_key (Some (replicate 32 0xab)) demo_mcp" None]
  by (simp add: demo_mcp_def stored_mcp_key_def)

section \<open>Sessions\<close>

definition mcp_seen :: "McpServer \<Rightarrow> string \<Rightarrow> int option" where
  "mcp_seen s k = map_option last_access (mcp_sessions s k)"

lemma minutes_over_30: "minutes_between l t > 30 \<longleftrightarrow> t - l \<ge> 31 * 60000000000"
proof (cases "t \<ge> l")
  case True
  have "minutes_between l t > 30 \<longleftrightarrow> 31 \<le> (t - l) div 60000000000"
    using True by (auto simp: minutes_between_def tdiv_nonneg)
  also have "\<dots> \<longleftrightarrow> 31 * 60000000000 \<le> t - l" by (rule le_div_iff) simp
  finally show ?thesis .
next
  case False
  then show ?thesis using tdiv_neg_le [of "t - l" 60000000000] by (simp add: minutes_between_def)
qed

interpretation mcp_store: session_store mcp_seen touch_mcp_session expire_old_sessions "\<lambda>_. 31 * 60000000000"
  "\<lambda>t k s. k \<noteq> [] \<and> mcp_seen s k \<noteq> None"
proof
  fix t k k' s
  show "mcp_seen (touch_mcp_session t k s) k' = (if k' = k \<and> k \<noteq> [] \<and> mcp_seen s k \<noteq> None then Some t else mcp_seen s k')"
    by (auto simp: mcp_seen_def touch_mcp_session_def split: option.splits)
next
  fix t k s
  show "mcp_seen (expire_old_sessions t s) k =
      (case mcp_seen s k of None \<Rightarrow> None | Some l \<Rightarrow> if t - l \<ge> 31 * 60000000000 then None else Some l)"
    by (auto simp: mcp_seen_def expire_old_sessions_def minutes_over_30 split: option.splits)
qed simp_all

text \<open>
  A session of the protocol server is kept through any sequence of uses and expiry passes in
  which it is never idle for 31 minutes, with the time of its last use, and the pass that finds it
  idle for 31 minutes removes it: the limit of 30 minutes is compared after rounding down.
\<close>

theorem mcp_session_life:
  assumes "k \<noteq> []" "mcp_seen s k = Some l" "busy (31 * 60000000000) k l es"
  shows "mcp_seen (run_sessions touch_mcp_session expire_old_sessions es s) k = Some (last_use k l es)
    \<and> mcp_seen (expire_old_sessions (last_use k l es + 31 * 60000000000)
         (run_sessions touch_mcp_session expire_old_sessions es s)) k = None"
  using mcp_store.kept_alive [OF assms(1,2)] assms(3) by (auto intro: mcp_store.expired_session)

definition demo_mcp_session :: McpServer where
  "demo_mcp_session = demo_mcp\<lparr>mcp_sessions := [''ab'' \<mapsto> \<lparr>mcp_id = ''ab'', initialized = True, last_access = 0,
     client_name = [], client_version = []\<rparr>]\<rparr>"

theorem mcp_session_life_witness:
  "mcp_seen (run_sessions touch_mcp_session expire_old_sessions
      [SUse 1800000000000 ''ab'', SExpire 3600000000000] demo_mcp_session) ''ab'' = Some 1800000000000"
  using mcp_session_life [of "''ab''" demo_mcp_session 0 "[SUse 1800000000000 ''ab'', SExpire 3600000000000]"]
  by (simp add: mcp_seen_def demo_mcp_session_def)

end
