(* ===== verification/Cluster.thy ===== *)
theory Cluster
  imports LlPrelude
begin

text \<open>
  \<^verbatim>\<open>cluster.cpp\<close> and \<^verbatim>\<open>cluster.h\<close>: peers and their expiry, the election of the coordinator, the
  endpoints and the split of the layers, and the choice of a model that fits. The product with
  0.70 is computed as the double arithmetic of the code does. The theorems: nodes that see the same
  cluster agree on one coordinator, and the invariant of the list of peers. Times are those of the
  steady clock in nanoseconds; a listing of the model directory is an argument.
\<close>

section \<open>Data\<close>

record PeerInfo =
  hostname :: string
  ip :: string
  rpc_port :: int
  ram_mb :: int
  cpu_cores :: int
  model :: string
  peer_seen :: int

record ModelTier =
  tier_name :: string
  gguf_file :: string
  size_mb :: int
  min_ram_mb :: int
  layers :: int

datatype ClusterState = STANDALONE | DISCOVERING | COORDINATOR | WORKER

record ClusterManager =
  self_node :: PeerInfo
  peers :: "PeerInfo list"
  cstate :: ClusterState
  coordinator :: PeerInfo
  topology_cb :: bool
  notified :: nat

text \<open>\<open>notified\<close> counts the calls of the topology callback.\<close>

definition notify :: "bool \<Rightarrow> ClusterManager \<Rightarrow> ClusterManager" where
  "notify changed s = (if changed \<and> topology_cb s then s\<lparr>notified := notified s + 1\<rparr> else s)"

section \<open>Election\<close>

definition election_score :: "PeerInfo \<Rightarrow> int" where
  "election_score p = to_i32 (to_i32 (to_i32 (ram_mb p div 1024) * 10) + to_i32 (cpu_cores p))"

text \<open>The order by which the election compares: a higher score first, then the smaller address.\<close>

datatype rank = Rank int string

instantiation rank :: linorder
begin

fun less_eq_rank :: "rank \<Rightarrow> rank \<Rightarrow> bool" where
  "less_eq_rank (Rank a x) (Rank b y) = (a > b \<or> (a = b \<and> x \<le> y))"

definition less_rank :: "rank \<Rightarrow> rank \<Rightarrow> bool" where
  "less_rank r q = (r \<le> q \<and> \<not> q \<le> r)"

instance
proof
  fix r q p :: rank
  show "r < q \<longleftrightarrow> r \<le> q \<and> \<not> q \<le> r" by (simp add: less_rank_def)
  show "r \<le> r" by (cases r) simp
  show "r \<le> q \<Longrightarrow> q \<le> p \<Longrightarrow> r \<le> p" by (cases r; cases q; cases p) auto
  show "r \<le> q \<Longrightarrow> q \<le> r \<Longrightarrow> r = q" by (cases r; cases q) auto
  show "r \<le> q \<or> q \<le> r" by (cases r; cases q) auto
qed

end

definition rank_of :: "PeerInfo \<Rightarrow> rank" where
  "rank_of p = Rank (election_score p) (ip p)"

fun elect_loop :: "PeerInfo \<Rightarrow> int \<Rightarrow> PeerInfo list \<Rightarrow> PeerInfo" where
  "elect_loop best best_score [] = best"
| "elect_loop best best_score (p # ps) =
     (let s = election_score p
      in if s > best_score \<or> (s = best_score \<and> ip p < ip best) then elect_loop p s ps
         else elect_loop best best_score ps)"

definition elect_coordinator :: "PeerInfo \<Rightarrow> PeerInfo list \<Rightarrow> PeerInfo" where
  "elect_coordinator self ps = elect_loop self (election_score self) ps"

definition run_election :: "ClusterManager \<Rightarrow> ClusterManager" where
  "run_election s =
     (let winner = elect_coordinator (self_node s) (peers s);
          new = (if peers s = [] then STANDALONE
                 else if ip winner = ip (self_node s) then COORDINATOR else WORKER)
      in notify (new \<noteq> cstate s) (s\<lparr>coordinator := winner, cstate := new\<rparr>))"

section \<open>Peers\<close>

definition set_self_info :: "PeerInfo \<Rightarrow> ClusterManager \<Rightarrow> ClusterManager" where
  "set_self_info p s = s\<lparr>self_node := p\<rparr>"

definition same_endpoint :: "PeerInfo \<Rightarrow> PeerInfo \<Rightarrow> bool" where
  "same_endpoint p q \<longleftrightarrow> ip p = ip q \<and> rpc_port p = rpc_port q"

definition add_peer :: "int \<Rightarrow> PeerInfo \<Rightarrow> ClusterManager \<Rightarrow> ClusterManager" where
  "add_peer now peer s =
     (let p = peer\<lparr>peer_seen := now\<rparr>
      in if list_ex (\<lambda>q. same_endpoint q peer) (peers s)
         then s\<lparr>peers := upd_first (\<lambda>q. same_endpoint q peer) (\<lambda>_. p) (peers s)\<rparr>
         else s\<lparr>peers := peers s @ [p]\<rparr>)"

definition expired :: "int \<Rightarrow> int \<Rightarrow> PeerInfo \<Rightarrow> bool" where
  "expired now timeout p \<longleftrightarrow> tdiv (now - peer_seen p) 1000000000 \<ge> timeout"

definition expire_peers :: "int \<Rightarrow> int \<Rightarrow> ClusterManager \<Rightarrow> ClusterManager" where
  "expire_peers now timeout s =
     notify (list_ex (expired now timeout) (peers s))
       (s\<lparr>peers := filter (\<lambda>p. \<not> expired now timeout p) (peers s)\<rparr>)"

fun role_name :: "ClusterState \<Rightarrow> string" where
  "role_name STANDALONE = ''standalone''"
| "role_name DISCOVERING = ''discovering''"
| "role_name COORDINATOR = ''coordinator''"
| "role_name WORKER = ''worker''"

definition is_coordinator :: "ClusterManager \<Rightarrow> bool" where
  "is_coordinator s \<longleftrightarrow> cstate s = COORDINATOR \<or> cstate s = STANDALONE"

definition endpoint :: "PeerInfo \<Rightarrow> string" where
  "endpoint p = ip p @ '':'' @ show_int (rpc_port p)"

definition rpc_endpoint_list :: "ClusterManager \<Rightarrow> string" where
  "rpc_endpoint_list s = endpoint (self_node s) @ concat (map (\<lambda>p. '','' @ endpoint p) (peers s))"

definition fire_topology_callback :: "ClusterManager \<Rightarrow> ClusterManager" where
  "fire_topology_callback s = notify True s"

section \<open>Capacity\<close>

text \<open>The product of an integer with the double 0.70, which is 6305039478318694 / 2\<open>\<^sup>53\<close>: the exact
  product rounded to 53 bits, halves to even, and then cut to an integer.\<close>

fun bit_length :: "nat \<Rightarrow> nat" where
  "bit_length n = (if n = 0 then 0 else Suc (bit_length (n div 2)))"

declare bit_length.simps [simp del]

definition round53 :: "nat \<Rightarrow> nat" where
  "round53 m =
     (let e = bit_length m - 53; q = m div 2 ^ e; r = m mod 2 ^ e
      in (if 2 * r > 2 ^ e \<or> (2 * r = 2 ^ e \<and> odd q) then q + 1 else q) * 2 ^ e)"

definition usable_mb :: "int \<Rightarrow> int" where
  "usable_mb ram = int (round53 (nat ram * 6305039478318694) div 2 ^ 53)"

definition node_share :: "PeerInfo \<Rightarrow> int" where
  "node_share p = (if usable_mb (ram_mb p) > 300 then usable_mb (ram_mb p) - 300 else 0)"

definition ratios :: "int list \<Rightarrow> int list" where
  "ratios us =
     (let m = Min (set us); m = (if m = 0 then 1 else m)
      in map (\<lambda>u. if u div m = 0 then 1 else u div m) us)"

fun join :: "string list \<Rightarrow> string" where
  "join [] = []"
| "join [x] = x"
| "join (x # xs) = x @ '','' @ join xs"

definition compute_tensor_split :: "ClusterManager \<Rightarrow> string" where
  "compute_tensor_split s =
     (if peers s = [] then []
      else join (map show_int (ratios (map node_share (self_node s # peers s)))))"

definition tier :: "string \<Rightarrow> string \<Rightarrow> int \<Rightarrow> int \<Rightarrow> int \<Rightarrow> ModelTier" where
  "tier n g sz r l = \<lparr>tier_name = n, gguf_file = g, size_mb = sz, min_ram_mb = r, layers = l\<rparr>"

definition model_tiers :: "ModelTier list" where
  "model_tiers =
    [tier ''qwen2.5-0.5b-instruct'' ''qwen2.5-0.5b-instruct-q4_k_m.gguf'' 400 1024 24,
     tier ''qwen2.5-1.5b-instruct'' ''qwen2.5-1.5b-instruct-q4_k_m.gguf'' 1100 2048 28,
     tier ''qwen2.5-3b-instruct'' ''qwen2.5-3b-instruct-q4_k_m.gguf'' 2000 3072 36,
     tier ''qwen2.5-7b-instruct'' ''qwen2.5-7b-instruct-q4_k_m-00001-of-00002.gguf'' 4400 6144 32,
     tier ''qwen2.5-14b-instruct'' ''qwen2.5-14b-instruct-q4_k_m-00001-of-00003.gguf'' 8500 12288 40,
     tier ''qwen2.5-32b-instruct'' ''qwen2.5-32b-instruct-q4_k_m-00001-of-00005.gguf'' 19000 24576 64,
     tier ''qwen2.5-72b-instruct'' ''qwen2.5-72b-instruct-q4_k_m-00001-of-00009.gguf'' 42000 52224 80]"

text \<open>An entry of the directory: its name, whether it may be a file, and its size when \<open>stat\<close>
  succeeds.\<close>

definition model_of_entry :: "string \<times> bool \<times> int option \<Rightarrow> ModelTier list" where
  "model_of_entry = (\<lambda>(fname, is_file, size).
     if \<not> is_file then []
     else case size of
       None \<Rightarrow> []
     | Some sz \<Rightarrow>
         if sz \<le> 0 then []
         else let mb = to_u32 (sz div (1024 * 1024))
         in case find (\<lambda>t. gguf_file t = fname) model_tiers of
              Some t \<Rightarrow> [t\<lparr>size_mb := mb\<rparr>]
            | None \<Rightarrow>
                if length fname > 5 \<and> drop (length fname - 5) fname = ''.gguf''
                then [tier (take (length fname - 5) fname) fname mb (to_u32 (mb + 512)) 32]
                else [])"

text \<open>\<open>None\<close> is a directory that cannot be opened. The order that \<open>std::sort\<close> gives to models of
  equal size is not specified; here it is the order of the listing.\<close>

definition available_models :: "(string \<times> bool \<times> int option) list option \<Rightarrow> ModelTier list" where
  "available_models dir =
     (case dir of None \<Rightarrow> [] | Some es \<Rightarrow> sort_key size_mb (concat (map model_of_entry es)))"

definition usable_cluster :: "ClusterManager \<Rightarrow> int" where
  "usable_cluster s = fold (\<lambda>p u. to_u32 (u + usable_mb (ram_mb p))) (peers s) (usable_mb (ram_mb (self_node s)))"

definition select_model :: "(string \<times> bool \<times> int option) list option \<Rightarrow> ClusterManager \<Rightarrow> ModelTier option" where
  "select_model dir s =
     fold (\<lambda>m best. if min_ram_mb m \<le> usable_cluster s then Some m else best) (available_models dir) None"

record ClusterCapacity =
  total_ram_mb :: int
  usable_ram_mb :: int
  total_cores :: int
  node_count :: nat
  recommended_model :: string
  recommended_gguf :: string
  tensor_split :: string
  upgrade_available :: bool

definition analyze_capacity :: "(string \<times> bool \<times> int option) list option \<Rightarrow> ClusterManager \<Rightarrow> ClusterCapacity" where
  "analyze_capacity dir s =
     (let ram = fold (\<lambda>p t. to_u32 (t + ram_mb p)) (peers s) (ram_mb (self_node s));
          cores = fold (\<lambda>p t. to_u32 (t + cpu_cores p)) (peers s) (cpu_cores (self_node s));
          usable = usable_mb ram;
          best = (case select_model dir s of
                    Some m \<Rightarrow> if tier_name m = [] then None else Some m | None \<Rightarrow> None)
      in \<lparr>total_ram_mb = ram, usable_ram_mb = usable, total_cores = cores,
          node_count = 1 + length (peers s),
          recommended_model = (case best of None \<Rightarrow> [] | Some m \<Rightarrow> tier_name m),
          recommended_gguf = (case best of None \<Rightarrow> [] | Some m \<Rightarrow> gguf_file m),
          tensor_split = compute_tensor_split s,
          upgrade_available =
            (case find (\<lambda>t. min_ram_mb t \<le> usable) (rev model_tiers) of
               None \<Rightarrow> False
             | Some t \<Rightarrow> (case best of None \<Rightarrow> True | Some m \<Rightarrow> size_mb t > size_mb m))\<rparr>)"

section \<open>The winner of an election\<close>

lemma elect_loop_min:
  "elect_loop best (election_score best) ps \<in> set (best # ps)
    \<and> (\<forall>q \<in> set (best # ps). rank_of (elect_loop best (election_score best) ps) \<le> rank_of q)"
proof (induction ps arbitrary: best)
  case (Cons p ps)
  show ?case
  proof (cases "rank_of p < rank_of best")
    case True
    then have "elect_loop best (election_score best) (p # ps) = elect_loop p (election_score p) ps"
      by (auto simp: rank_of_def less_rank_def Let_def)
    with Cons [of p] True show ?thesis by (auto intro: order.trans [OF _ less_imp_le])
  next
    case False
    then have "elect_loop best (election_score best) (p # ps) = elect_loop best (election_score best) ps"
      by (auto simp: rank_of_def less_rank_def Let_def)
    with Cons [of best] False show ?thesis by (auto intro: order.trans simp: not_less)
  qed
qed simp

lemma elect_min:
  "elect_coordinator s ps \<in> set (s # ps) \<and> (\<forall>q \<in> set (s # ps). rank_of (elect_coordinator s ps) \<le> rank_of q)"
  unfolding elect_coordinator_def by (rule elect_loop_min)

text \<open>What an election looks at; the time a peer was last seen differs between nodes.\<close>

definition facts_of :: "PeerInfo \<Rightarrow> string \<times> int \<times> int" where
  "facts_of p = (ip p, ram_mb p, cpu_cores p)"

definition view :: "ClusterManager \<Rightarrow> (string \<times> int \<times> int) set" where
  "view s = facts_of ` set (self_node s # peers s)"

lemma rank_facts: "rank_of p = (case facts_of p of (i, r, c) \<Rightarrow>
    Rank (to_i32 (to_i32 (to_i32 (r div 1024) * 10) + to_i32 c)) i)"
  by (simp add: rank_of_def facts_of_def election_score_def)

lemma rank_facts_cong: "facts_of p = facts_of q \<Longrightarrow> rank_of p = rank_of q"
  by (simp add: rank_facts)

lemma elect_le:
  assumes "facts_of ` set (s # ps) = facts_of ` set (t # qs)"
  shows "rank_of (elect_coordinator s ps) \<le> rank_of (elect_coordinator t qs)"
proof -
  have "facts_of (elect_coordinator t qs) \<in> facts_of ` set (s # ps)"
    using elect_min [of t qs] assms by blast
  then obtain p where "p \<in> set (s # ps)" "facts_of p = facts_of (elect_coordinator t qs)" by force
  with elect_min [of s ps] rank_facts_cong show ?thesis by metis
qed

lemma elect_agree:
  "view s = view t \<Longrightarrow>
     rank_of (elect_coordinator (self_node s) (peers s)) = rank_of (elect_coordinator (self_node t) (peers t))"
  unfolding view_def by (intro antisym elect_le) simp_all

lemma view_length:
  assumes "distinct (map ip (self_node s # peers s))"
  shows "card (view s) = Suc (length (peers s))"
proof -
  have "distinct (map facts_of (self_node s # peers s))"
    using assms by (auto simp: distinct_map inj_on_def facts_of_def)
  then show ?thesis by (metis distinct_card length_Cons length_map list.set_map view_def)
qed

lemma run_election_simps [simp]:
  "coordinator (run_election s) = elect_coordinator (self_node s) (peers s)"
  "self_node (run_election s) = self_node s" "peers (run_election s) = peers s"
  "cstate (run_election s) = (if peers s = [] then STANDALONE
     else if ip (elect_coordinator (self_node s) (peers s)) = ip (self_node s) then COORDINATOR else WORKER)"
  by (simp_all add: run_election_def notify_def Let_def)

text \<open>
  C35: Agreement. Two managers that see the same nodes (each its own node and the others as peers, in
  any order and with any times of last contact), with one node per address, elect a coordinator with
  the same address: one of the nodes, which none beats in score and, at equal score, in address. Two
  nodes with different addresses never both act as coordinator, and both stand alone or neither
  does.
\<close>

theorem election_agreement:
  assumes "view s = view t" "distinct (map ip (self_node s # peers s))" "distinct (map ip (self_node t # peers t))"
  shows "ip (coordinator (run_election s)) = ip (coordinator (run_election t))
    \<and> coordinator (run_election s) \<in> set (self_node s # peers s)
    \<and> list_all (\<lambda>p. rank_of (coordinator (run_election s)) \<le> rank_of p) (self_node s # peers s)
    \<and> (ip (self_node s) = ip (self_node t)
         \<or> \<not> (is_coordinator (run_election s) \<and> is_coordinator (run_election t)))
    \<and> (cstate (run_election s) = STANDALONE \<longleftrightarrow> cstate (run_election t) = STANDALONE)"
proof -
  let ?v = "elect_coordinator (self_node s) (peers s)" and ?w = "elect_coordinator (self_node t) (peers t)"
  have same: "ip ?v = ip ?w" using elect_agree [OF assms(1)] by (simp add: rank_of_def)
  have len: "length (peers s) = length (peers t)"
    using view_length [OF assms(2)] view_length [OF assms(3)] assms(1) by simp
  then have empty: "peers s = [] \<longleftrightarrow> peers t = []" by (metis length_0_conv)
  have one: "\<not> (is_coordinator (run_election s) \<and> is_coordinator (run_election t))"
    if ne: "ip (self_node s) \<noteq> ip (self_node t)"
  proof (cases "peers s = []")
    case True
    with empty assms(1) ne show ?thesis by (simp add: view_def facts_of_def)
  next
    case False
    with empty same ne show ?thesis by (auto simp: is_coordinator_def)
  qed
  show ?thesis
    using same elect_min [of "self_node s" "peers s"] one empty by (auto simp: list_all_iff)
qed

definition node :: "string \<Rightarrow> int \<Rightarrow> int \<Rightarrow> int \<Rightarrow> PeerInfo" where
  "node i r c t = \<lparr>hostname = [], ip = i, rpc_port = 50052, ram_mb = r, cpu_cores = c, model = ''none'', peer_seen = t\<rparr>"

definition manager :: "PeerInfo \<Rightarrow> PeerInfo list \<Rightarrow> ClusterManager" where
  "manager p ps = \<lparr>self_node = p, peers = ps, cstate = STANDALONE, coordinator = p, topology_cb = True, notified = 0\<rparr>"

theorem election_agreement_witness:
  "ip (coordinator (run_election (manager (node ''10.0.0.1'' 8192 4 0) [node ''10.0.0.2'' 16384 8 5])))
    = ip (coordinator (run_election (manager (node ''10.0.0.2'' 16384 8 0) [node ''10.0.0.1'' 8192 4 9])))"
  using election_agreement [of "manager (node ''10.0.0.1'' 8192 4 0) [node ''10.0.0.2'' 16384 8 5]"
      "manager (node ''10.0.0.2'' 16384 8 0) [node ''10.0.0.1'' 8192 4 9]"]
  by (auto simp: view_def manager_def node_def facts_of_def)

section \<open>The list of peers\<close>

datatype cluster_op = AddPeer int PeerInfo | ExpirePeers int int | SetSelf PeerInfo | Election | FireCallback

fun cluster_apply :: "cluster_op \<Rightarrow> ClusterManager \<Rightarrow> ClusterManager" where
  "cluster_apply (AddPeer now p) s = add_peer now p s"
| "cluster_apply (ExpirePeers now timeout) s = expire_peers now timeout s"
| "cluster_apply (SetSelf p) s = set_self_info p s"
| "cluster_apply Election s = run_election s"
| "cluster_apply FireCallback s = fire_topology_callback s"

definition endpoints :: "PeerInfo list \<Rightarrow> (string \<times> int) list" where
  "endpoints ps = map (\<lambda>p. (ip p, rpc_port p)) ps"

definition cluster_inv :: "ClusterManager \<Rightarrow> bool" where
  "cluster_inv s \<longleftrightarrow> distinct (endpoints (peers s))"

lemma same_endpoint_key: "same_endpoint q p \<longleftrightarrow> (ip q, rpc_port q) = (ip p, rpc_port p)"
  by (auto simp: same_endpoint_def)

lemma endpoints_update:
  "endpoints (upd_first (\<lambda>q. same_endpoint q peer) (\<lambda>_. peer\<lparr>peer_seen := now\<rparr>) ps) = endpoints ps"
  by (induction ps) (auto simp: endpoints_def same_endpoint_def)

lemma add_peer_inv: "cluster_inv s \<Longrightarrow> cluster_inv (add_peer now p s)"
proof (cases "list_ex (\<lambda>q. same_endpoint q p) (peers s)")
  case True
  then show "cluster_inv s \<Longrightarrow> ?thesis" by (simp add: cluster_inv_def add_peer_def endpoints_update Let_def)
next
  case False
  then show "cluster_inv s \<Longrightarrow> ?thesis"
    by (auto simp: cluster_inv_def add_peer_def endpoints_def same_endpoint_def list_ex_iff Let_def)
qed

lemma notify_simps [simp]:
  "peers (notify c s) = peers s" "self_node (notify c s) = self_node s"
  by (simp_all add: notify_def)

interpretation cluster: invariant_system cluster_apply cluster_inv "\<lambda>_. True"
proof
  fix s x
  assume "cluster_inv s"
  then show "cluster_inv (cluster_apply x s)"
    by (cases x) (auto simp: add_peer_inv, auto simp: cluster_inv_def expire_peers_def set_self_info_def
        fire_topology_callback_def endpoints_def intro: distinct_map_filter)
qed

lemma add_peer_known: "\<exists>q \<in> set (peers (add_peer now p s)). same_endpoint q p \<and> peer_seen q = now"
proof (cases "list_ex (\<lambda>q. same_endpoint q p) (peers s)")
  case True
  have "list_ex (\<lambda>q. same_endpoint q p) ps \<Longrightarrow>
      \<exists>q \<in> set (upd_first (\<lambda>q. same_endpoint q p) (\<lambda>_. p\<lparr>peer_seen := now\<rparr>) ps). same_endpoint q p \<and> peer_seen q = now" for ps
    by (induction ps) (auto simp: same_endpoint_def)
  with True show ?thesis by (simp add: add_peer_def Let_def)
qed (auto simp: add_peer_def same_endpoint_def Let_def)

lemma not_expired_iff: "0 < timeout \<Longrightarrow> \<not> expired now timeout p \<longleftrightarrow> now - peer_seen p < timeout * 1000000000"
proof (cases "now \<ge> peer_seen p")
  case True
  then have "expired now timeout p \<longleftrightarrow> timeout \<le> (now - peer_seen p) div 1000000000"
    by (simp add: expired_def tdiv_nonneg)
  also have "\<dots> \<longleftrightarrow> timeout * 1000000000 \<le> now - peer_seen p" by (rule le_div_iff) simp
  finally show ?thesis by auto
next
  case False
  assume "0 < timeout"
  moreover have "tdiv (now - peer_seen p) 1000000000 \<le> 0" using False by (intro tdiv_neg_le) simp_all
  ultimately show ?thesis using False by (simp add: expired_def)
qed

text \<open>
  After any sequence of discoveries, expiry passes, elections and changes of the own node, no
  endpoint is listed twice as a peer; a peer just seen is listed with that time, and an expiry pass
  keeps exactly the peers seen less than the timeout ago, with one call of the topology callback
  when it drops any.
\<close>

theorem cluster_peers_sound:
  assumes "peers s0 = []" "s = fold cluster_apply ops s0" "0 < timeout"
  shows "distinct (endpoints (peers s))
    \<and> (\<exists>q \<in> set (peers (add_peer now p s)). same_endpoint q p \<and> peer_seen q = now)
    \<and> peers (expire_peers now timeout s) = filter (\<lambda>q. now - peer_seen q < timeout * 1000000000) (peers s)
    \<and> notified (expire_peers now timeout s) = notified s
        + (if topology_cb s \<and> peers (expire_peers now timeout s) \<noteq> peers s then 1 else 0)"
proof -
  have "cluster_inv s"
    unfolding assms(2) by (rule cluster.run_keeps) (simp_all add: cluster_inv_def endpoints_def assms(1) list_all_iff)
  moreover have f: "(\<lambda>q. \<not> expired now timeout q) = (\<lambda>q. now - peer_seen q < timeout * 1000000000)"
    using not_expired_iff [OF assms(3)] by auto
  moreover have "list_ex (expired now timeout) (peers s) \<longleftrightarrow> filter (\<lambda>q. \<not> expired now timeout q) (peers s) \<noteq> peers s"
    by (auto simp: list_ex_iff filter_id_conv)
  ultimately show ?thesis
    using add_peer_known [of now p s] by (simp add: cluster_inv_def expire_peers_def notify_def)
qed

theorem cluster_peers_sound_witness:
  "distinct (endpoints (peers (fold cluster_apply [AddPeer 5 (node ''10.0.0.2'' 1 1 0), AddPeer 9 (node ''10.0.0.2'' 2 1 0)]
      (manager (node ''10.0.0.1'' 1 1 0) []))))"
  using cluster_peers_sound [of "manager (node ''10.0.0.1'' 1 1 0) []" _
      "[AddPeer 5 (node ''10.0.0.2'' 1 1 0), AddPeer 9 (node ''10.0.0.2'' 2 1 0)]" 60, OF _ refl]
  by (simp add: manager_def)

section \<open>The model that is chosen\<close>

lemma fold_last_fit:
  "sorted (map size_mb ms) \<Longrightarrow> (\<And>m. best = Some m \<Longrightarrow> P m \<and> (\<forall>n \<in> set ms. size_mb m \<le> size_mb n)) \<Longrightarrow>
     case fold (\<lambda>m b. if P m then Some m else b) ms best of
       None \<Rightarrow> best = None \<and> (\<forall>n \<in> set ms. \<not> P n)
     | Some m \<Rightarrow> (m \<in> set ms \<or> best = Some m) \<and> P m \<and> (\<forall>n \<in> set ms. P n \<longrightarrow> size_mb n \<le> size_mb m)"
proof (induction ms arbitrary: best)
  case (Cons m ms)
  let ?b = "if P m then Some m else best"
  have "case fold (\<lambda>m b. if P m then Some m else b) ms ?b of
       None \<Rightarrow> ?b = None \<and> (\<forall>n \<in> set ms. \<not> P n)
     | Some x \<Rightarrow> (x \<in> set ms \<or> ?b = Some x) \<and> P x \<and> (\<forall>n \<in> set ms. P n \<longrightarrow> size_mb n \<le> size_mb x)"
    by (rule Cons(1)) (use Cons(2,3) in \<open>auto split: if_splits\<close>)
  then show ?case
    using Cons(2,3) by (fastforce split: option.splits if_splits)
qed (auto split: option.split)

lemma set_available: "sorted (map size_mb (available_models dir))"
  by (simp add: available_models_def split: option.split)

text \<open>
  The model chosen is one of the available ones, needs no more than the usable memory of the
  cluster, and is the largest such; none is chosen exactly when none fits.
\<close>

theorem select_model_largest:
  "case select_model dir s of
     None \<Rightarrow> list_all (\<lambda>m. min_ram_mb m > usable_cluster s) (available_models dir)
   | Some m \<Rightarrow> m \<in> set (available_models dir) \<and> min_ram_mb m \<le> usable_cluster s
       \<and> list_all (\<lambda>n. min_ram_mb n > usable_cluster s \<or> size_mb n \<le> size_mb m) (available_models dir)"
  using fold_last_fit [OF set_available [of dir], of None "\<lambda>m. min_ram_mb m \<le> usable_cluster s"]
  by (auto simp: select_model_def list_all_iff not_le split: option.split_asm)

end
