(* ===== verification/Agent.thy ===== *)
theory Agent
  imports LlPrelude JsonValue Registry
begin

text \<open>
  \<^verbatim>\<open>agent.cpp\<close> and \<^verbatim>\<open>agent.h\<close>, with the parts of \<^verbatim>\<open>child_main.cpp\<close> that turn a conversation into a
  prompt and a completion into a chat response: tool calls in the text of the model, the
  conversation and its persistence, the parsers of responses and the loop of the agent.
  Definitions only; the lemmas are in AgentFacts. The model that answers is an argument that may
  give another outcome at every call; JSON texts are the vendored library's, as in Registry.
\<close>

section \<open>Data\<close>

record ToolCall =
  call_id :: string
  call_name :: string
  call_args :: string

record Message =
  role :: string
  msg_text :: string
  msg_call_id :: string
  msg_name :: string
  msg_calls :: "ToolCall list"

record ConversationState =
  system_prompt :: string
  conversation_id :: string
  messages :: "Message list"

section \<open>Tool calls in the text of the model\<close>

definition TOOL_START :: string where "TOOL_START = ''<tool_call>''"
definition TOOL_END :: string where "TOOL_END = ''</tool_call>''"

text \<open>The next block: the text between the tags and the text after it. The code keeps a position
  in the whole text; here the rest of the text is handed on.\<close>

definition next_block :: "string \<Rightarrow> (string \<times> string) option" where
  "next_block s =
     (case find_sub TOOL_START s of
        None \<Rightarrow> None
      | Some i \<Rightarrow>
          let body = drop (i + length TOOL_START) s
          in case find_sub TOOL_END body of
               None \<Rightarrow> None
             | Some k \<Rightarrow> Some (take k body, drop (k + length TOOL_END) body))"

lemma next_block_shorter: "next_block s = Some (b, r) \<Longrightarrow> length r < length s"
  using find_sub_Some [of TOOL_START s]
  by (auto simp: next_block_def TOOL_START_def TOOL_END_def Let_def split: option.splits)

text \<open>The arguments: an object as it is, a string that holds JSON as what it holds.\<close>

definition qwen_arguments :: "json_text \<Rightarrow> json \<Rightarrow> json" where
  "qwen_arguments tx obj =
     (if contains obj ''arguments'' then
        case jmember obj ''arguments'' of
          JObject ms \<Rightarrow> JObject ms
        | JString a \<Rightarrow> (case snd tx a of Some p \<Rightarrow> p | None \<Rightarrow> JObject [])
        | _ \<Rightarrow> JObject []
      else JObject [])"

definition qwen_entry :: "int \<Rightarrow> string \<Rightarrow> string \<Rightarrow> json" where
  "qwen_entry n name args =
     jobj [(''id'', JString (''call_'' @ show_int n)), (''type'', JString ''function''),
       (''function'', jobj [(''name'', JString name), (''arguments'', JString args)])]"

text \<open>One block, over the counter of calls; \<open>None\<close> where the loop continues without an entry.\<close>

definition qwen_block :: "json_text \<Rightarrow> string \<Rightarrow> (int, json option) op" where
  "qwen_block tx block n =
     (let raw = trim_ws block
      in if raw = [] then (Inr None, n)
         else case snd tx raw of
           None \<Rightarrow> (Inr None, n)
         | Some obj \<Rightarrow>
             if \<not> is_object obj then (Inr None, n)
             else case jvalue get_string obj ''name'' [] of
                    Inl e \<Rightarrow> (Inl e, n)
                  | Inr name \<Rightarrow>
                      if name = [] then (Inr None, n)
                      else let n' = to_i32 (n + 1)
                           in case dump_text tx (qwen_arguments tx obj) of
                                Inl e \<Rightarrow> (Inl e, n')
                              | Inr args \<Rightarrow> (Inr (Some (qwen_entry n' name args)), n'))"

function qwen_loop :: "json_text \<Rightarrow> string \<Rightarrow> json list \<Rightarrow> (int, json list) op" where
  "qwen_loop tx s calls n =
     (case next_block s of
        None \<Rightarrow> (Inr calls, n)
      | Some (block, rest) \<Rightarrow>
          (case qwen_block tx block n of
             (Inl e, n') \<Rightarrow> (Inl e, n')
           | (Inr None, n') \<Rightarrow> qwen_loop tx rest calls n'
           | (Inr (Some c), n') \<Rightarrow> qwen_loop tx rest (calls @ [c]) n'))"
  by pat_completeness auto
termination
  by (relation "measure (\<lambda>(tx, s, calls, n). length s)") (auto simp: next_block_shorter)

declare qwen_loop.simps [simp del]

definition parse_qwen_tool_calls :: "json_text \<Rightarrow> string \<Rightarrow> (int, json list) op" where
  "parse_qwen_tool_calls tx s = qwen_loop tx s []"

section \<open>Residue of tool calls in a text for the user\<close>

function strip_blocks :: "string \<Rightarrow> string" where
  "strip_blocks s =
     (case find_sub TOOL_START s of
        None \<Rightarrow> s
      | Some i \<Rightarrow>
          (case next_block s of
             None \<Rightarrow> take i s
           | Some (_, rest) \<Rightarrow> take i s @ strip_blocks rest))"
  by pat_completeness auto
termination
  by (relation "measure length") (auto simp: next_block_shorter)

declare strip_blocks.simps [simp del]

function erase_ends :: "string \<Rightarrow> string" where
  "erase_ends s =
     (case find_sub TOOL_END s of
        None \<Rightarrow> s
      | Some i \<Rightarrow> erase_ends (take i s @ drop (i + length TOOL_END) s))"
  by pat_completeness auto
termination
proof (relation "measure length")
  fix s i assume "find_sub TOOL_END s = Some i"
  then show "(take i s @ drop (i + length TOOL_END) s, s) \<in> measure length"
    by (auto dest!: find_sub_Some simp: TOOL_END_def)
qed simp

declare erase_ends.simps [simp del]

definition strip_tool_call_residue :: "string \<Rightarrow> string" where
  "strip_tool_call_residue s = trim_ws (erase_ends (strip_blocks s))"

section \<open>The conversation\<close>

definition text_message :: "string \<Rightarrow> string \<Rightarrow> Message" where
  "text_message r t = \<lparr>role = r, msg_text = t, msg_call_id = [], msg_name = [], msg_calls = []\<rparr>"

definition push_message :: "Message \<Rightarrow> ConversationState \<Rightarrow> ConversationState" where
  "push_message m conv = conv\<lparr>messages := messages conv @ [m]\<rparr>"

definition add_user_message :: "string \<Rightarrow> ConversationState \<Rightarrow> ConversationState" where
  "add_user_message t = push_message (text_message ''user'' t)"

definition add_assistant_message :: "string \<Rightarrow> ConversationState \<Rightarrow> ConversationState" where
  "add_assistant_message t = push_message (text_message ''assistant'' t)"

definition add_assistant_tool_calls :: "ToolCall list \<Rightarrow> ConversationState \<Rightarrow> ConversationState" where
  "add_assistant_tool_calls calls = push_message ((text_message ''assistant'' [])\<lparr>msg_calls := calls\<rparr>)"

definition add_tool_result :: "string \<Rightarrow> string \<Rightarrow> string \<Rightarrow> ConversationState \<Rightarrow> ConversationState" where
  "add_tool_result i name r =
     push_message ((text_message ''tool'' r)\<lparr>msg_call_id := i, msg_name := name\<rparr>)"

definition call_json :: "ToolCall \<Rightarrow> json" where
  "call_json c =
     jobj [(''id'', JString (call_id c)), (''type'', JString ''function''),
       (''function'', jobj [(''name'', JString (call_name c)), (''arguments'', JString (call_args c))])]"

definition message_json :: "Message \<Rightarrow> json" where
  "message_json m =
     (if role m = ''assistant'' \<and> msg_calls m \<noteq> [] then
        jobj [(''role'', JString (role m)), (''content'', JNull),
          (''tool_calls'', JArray (map call_json (msg_calls m)))]
      else if role m = ''tool'' then
        jobj [(''role'', JString (role m)), (''content'', JString (msg_text m)),
          (''tool_call_id'', JString (msg_call_id m)), (''name'', JString (msg_name m))]
      else jobj [(''role'', JString (role m)), (''content'', JString (msg_text m))])"

definition to_messages_json :: "ConversationState \<Rightarrow> json" where
  "to_messages_json conv =
     JArray ((if system_prompt conv \<noteq> []
              then [jobj [(''role'', JString ''system''), (''content'', JString (system_prompt conv))]]
              else [])
       @ map message_json (messages conv))"

section \<open>Persistence\<close>

definition saved_call :: "ToolCall \<Rightarrow> json" where
  "saved_call c =
     jobj [(''id'', JString (call_id c)), (''name'', JString (call_name c)),
       (''arguments'', JString (call_args c))]"

definition saved_message :: "Message \<Rightarrow> json" where
  "saved_message m =
     jobj ([(''role'', JString (role m)), (''content'', JString (msg_text m))]
       @ (if msg_call_id m \<noteq> [] then [(''tool_call_id'', JString (msg_call_id m))] else [])
       @ (if msg_name m \<noteq> [] then [(''name'', JString (msg_name m))] else [])
       @ (if msg_calls m \<noteq> [] then [(''tool_calls'', JArray (map saved_call (msg_calls m)))] else []))"

definition conversation_json :: "ConversationState \<Rightarrow> json" where
  "conversation_json conv =
     jobj [(''system_prompt'', JString (system_prompt conv)),
       (''conversation_id'', JString (conversation_id conv)),
       (''messages'', JArray (map saved_message (messages conv)))]"

definition serialize :: "json_text \<Rightarrow> ConversationState \<Rightarrow> string result" where
  "serialize tx conv = dump_text tx (conversation_json conv)"

definition load_call :: "json \<Rightarrow> ToolCall result" where
  "load_call t =
     bindE (jvalue get_string t ''id'' []) (\<lambda>i.
     bindE (jvalue get_string t ''name'' []) (\<lambda>n.
     bindE (jvalue get_string t ''arguments'' []) (\<lambda>a.
       Inr \<lparr>call_id = i, call_name = n, call_args = a\<rparr>)))"

definition load_message :: "json \<Rightarrow> Message result" where
  "load_message m =
     bindE (jvalue get_string m ''role'' []) (\<lambda>r.
     bindE (jvalue get_string m ''content'' []) (\<lambda>t.
     bindE (jvalue get_string m ''tool_call_id'' []) (\<lambda>i.
     bindE (jvalue get_string m ''name'' []) (\<lambda>n.
     bindE (case jmember m ''tool_calls'' of JArray cs \<Rightarrow> mapE load_call cs | _ \<Rightarrow> Inr []) (\<lambda>cs.
       Inr \<lparr>role = r, msg_text = t, msg_call_id = i, msg_name = n, msg_calls = cs\<rparr>)))))"

definition load_conversation :: "json \<Rightarrow> ConversationState result" where
  "load_conversation j =
     bindE (jvalue get_string j ''system_prompt'' []) (\<lambda>p.
     bindE (jvalue get_string j ''conversation_id'' []) (\<lambda>i.
     bindE (case jmember j ''messages'' of JArray ms \<Rightarrow> mapE load_message ms | _ \<Rightarrow> Inr []) (\<lambda>ms.
       Inr \<lparr>system_prompt = p, conversation_id = i, messages = ms\<rparr>)))"

definition deserialize :: "json_text \<Rightarrow> string \<Rightarrow> ConversationState result" where
  "deserialize tx s =
     (case snd tx s of
        None \<Rightarrow> Inr \<lparr>system_prompt = [], conversation_id = [], messages = []\<rparr>
      | Some j \<Rightarrow> load_conversation j)"

section \<open>Truncation\<close>

text \<open>The loop that removes orphaned messages at the front.\<close>

function (sequential) drop_orphans :: "Message list \<Rightarrow> Message list" where
  "drop_orphans [] = []"
| "drop_orphans (m # ms) =
     (if role m = ''tool'' then drop_orphans ms
      else if role m = ''assistant'' \<and> msg_calls m \<noteq> [] then
        drop_orphans (dropWhile (\<lambda>m. role m = ''tool'') ms)
      else m # ms)"
  by pat_completeness auto
termination
  by (relation "measure length") (auto simp: length_dropWhile_le less_Suc_eq_le)

definition truncate_messages :: "int \<Rightarrow> ConversationState \<Rightarrow> ConversationState" where
  "truncate_messages max_messages conv =
     (let mx = (if max_messages < 0 then 0 else max_messages);
          n = int (length (messages conv))
      in if n \<le> mx then conv
         else conv\<lparr>messages := drop_orphans (drop (nat (n - mx)) (messages conv))\<rparr>)"

definition message_count :: "ConversationState \<Rightarrow> nat" where
  "message_count conv = length (messages conv)"

section \<open>Responses\<close>

text \<open>\<open>choices[0].message\<close>, where every member on the way exists and \<open>choices\<close> is an array.\<close>

definition first_message :: "json \<Rightarrow> json option" where
  "first_message j =
     (case jmember j ''choices'' of
        JArray (choice # _) \<Rightarrow>
          if contains choice ''message'' then Some (jmember choice ''message'') else None
      | _ \<Rightarrow> None)"

definition call_arguments :: "json_text \<Rightarrow> json \<Rightarrow> string result" where
  "call_arguments tx f =
     (case jmember f ''arguments'' of
        JNull \<Rightarrow> Inr ''{}''
      | JString a \<Rightarrow> Inr a
      | a \<Rightarrow> dump_text tx a)"

definition parse_call :: "json_text \<Rightarrow> json \<Rightarrow> ToolCall result" where
  "parse_call tx tc =
     bindE (jvalue get_string tc ''id'' []) (\<lambda>i.
       (let f = jmember tc ''function''
        in if contains tc ''function'' \<and> is_object f then
             bindE (jvalue get_string f ''name'' []) (\<lambda>n.
             bindE (call_arguments tx f) (\<lambda>a.
               Inr \<lparr>call_id = i, call_name = n, call_args = a\<rparr>))
           else Inr \<lparr>call_id = i, call_name = [], call_args = []\<rparr>))"

definition parse_tool_calls :: "json_text \<Rightarrow> string \<Rightarrow> ToolCall list result" where
  "parse_tool_calls tx response =
     (case snd tx response of
        None \<Rightarrow> Inr []
      | Some j \<Rightarrow>
          (case first_message j of
             None \<Rightarrow> Inr []
           | Some m \<Rightarrow>
               (case jmember m ''tool_calls'' of
                  JArray tcs \<Rightarrow> mapE (parse_call tx) tcs
                | _ \<Rightarrow> Inr [])))"

definition parse_content :: "json_text \<Rightarrow> string \<Rightarrow> string result" where
  "parse_content tx response =
     (case snd tx response of
        None \<Rightarrow> Inr []
      | Some j \<Rightarrow>
          (case first_message j of
             None \<Rightarrow> Inr []
           | Some m \<Rightarrow>
               if \<not> contains m ''content'' \<or> jmember m ''content'' = JNull then Inr []
               else get_string (jmember m ''content'')))"

section \<open>Requests and the loop\<close>

definition stop_tokens :: json where
  "stop_tokens = JArray (map JString [''<|im_end|>'', ''<|endoftext|>'', ''<|im_start|>''])"

definition request_json ::
  "json_text \<Rightarrow> ConversationState \<Rightarrow> string \<Rightarrow> int \<Rightarrow> rat \<Rightarrow> json" where
  "request_json tx conv tools_str max_tokens temperature =
     jobj ([(''model'', JString ''llamaste''), (''messages'', to_messages_json conv),
         (''max_tokens'', JInt max_tokens), (''temperature'', JFloat temperature),
         (''stream'', JBool False), (''stop'', stop_tokens)]
       @ (case snd tx tools_str of
            Some (JArray (t # ts)) \<Rightarrow> [(''tools'', JArray (t # ts))]
          | _ \<Rightarrow> []))"

definition build_inference_request ::
  "json_text \<Rightarrow> ConversationState \<Rightarrow> registry \<Rightarrow> int \<Rightarrow> rat \<Rightarrow> string result" where
  "build_inference_request tx conv tools max_tokens temperature =
     bindE (to_openai_tools_json tx tools) (\<lambda>tools_str.
       dump_text tx (request_json tx conv tools_str max_tokens temperature))"

text \<open>The default temperature: the float next to 0.7.\<close>

definition default_temperature :: rat where
  "default_temperature = 11744051 / 16777216"

text \<open>The outcome of the inference function at its n-th call in a turn.\<close>

type_synonym inference = "nat \<Rightarrow> string \<Rightarrow> tool_exn + string"

definition truncate_result :: "string \<Rightarrow> string" where
  "truncate_result r = (if length r > 4000 then take 4000 r @ ''...(truncated)'' else r)"

fun dispatch_calls :: "json_text \<Rightarrow> registry \<Rightarrow> ToolCall list \<Rightarrow> (ConversationState, unit) op" where
  "dispatch_calls tx tools [] conv = (Inr (), conv)"
| "dispatch_calls tx tools (c # cs) conv =
     (case dispatch tx tools (call_name c) (call_args c) of
        Inl e \<Rightarrow> (Inl e, conv)
      | Inr r \<Rightarrow> dispatch_calls tx tools cs
                  (add_tool_result (call_id c) (call_name c) (truncate_result r) conv))"

definition inference_error :: "tool_exn \<Rightarrow> string" where
  "inference_error x =
     (case x of StdExn m \<Rightarrow> ''[Inference error: '' @ m @ '']'' | OtherExn \<Rightarrow> ''[Inference error: unknown]'')"

definition final_answer :: "string \<Rightarrow> string" where
  "final_answer text =
     (let content = strip_tool_call_residue text
      in if content = [] then ''[No response from inference engine]'' else content)"

definition max_rounds_answer :: string where
  "max_rounds_answer =
     ''[Agent reached maximum tool call rounds without producing a final response]''"

text \<open>The loop over the rounds that are left; \<open>r\<close> counts the calls made.\<close>

fun agent_loop ::
  "json_text \<Rightarrow> registry \<Rightarrow> inference \<Rightarrow> nat \<Rightarrow> nat \<Rightarrow> (ConversationState, string) op" where
  "agent_loop tx tools infer r 0 conv = (Inr max_rounds_answer, conv)"
| "agent_loop tx tools infer r (Suc k) conv =
     (case build_inference_request tx conv tools 2048 default_temperature of
        Inl e \<Rightarrow> (Inl e, conv)
      | Inr request \<Rightarrow>
          (case infer r request of
             Inl x \<Rightarrow> (Inr (inference_error x), add_assistant_message (inference_error x) conv)
           | Inr response \<Rightarrow>
               (case parse_tool_calls tx response of
                  Inl e \<Rightarrow> (Inl e, conv)
                | Inr [] \<Rightarrow>
                    (case parse_content tx response of
                       Inl e \<Rightarrow> (Inl e, conv)
                     | Inr t \<Rightarrow> (Inr (final_answer t), add_assistant_message (final_answer t) conv))
                | Inr calls \<Rightarrow>
                    (case dispatch_calls tx tools calls (add_assistant_tool_calls calls conv) of
                       (Inl e, conv') \<Rightarrow> (Inl e, conv')
                     | (Inr _, conv') \<Rightarrow> agent_loop tx tools infer (Suc r) k conv'))))"

definition agent_turn ::
  "json_text \<Rightarrow> registry \<Rightarrow> inference \<Rightarrow> int \<Rightarrow> (ConversationState, string) op" where
  "agent_turn tx tools infer max_rounds conv = agent_loop tx tools infer 0 (nat max_rounds) conv"

end
