(* ===== verification/AgentFacts.thy ===== *)
theory AgentFacts
  imports Agent
begin

text \<open>
  The lemmas and properties of the agent: what is found in and removed from the text of the
  model, what truncation keeps, the round trip of a conversation, the shape of the conversation
  after any sequence of turns, what a turn returns, and which tools it can run.
\<close>

section \<open>Blocks in a text\<close>

lemma tags [simp]: "TOOL_START \<noteq> []" "TOOL_END \<noteq> []" "hd TOOL_START = CHR ''<''" "hd TOOL_END = CHR ''<''"
  by (simp_all add: TOOL_START_def TOOL_END_def)

definition tool_block :: "string \<Rightarrow> string" where
  "tool_block b = TOOL_START @ b @ TOOL_END"

definition plain_text :: "string \<Rightarrow> bool" where
  "plain_text s \<longleftrightarrow> CHR ''<'' \<notin> set s"

text \<open>Texts and calls in turn, as the model writes them.\<close>

definition with_calls :: "(string \<times> string) list \<Rightarrow> string \<Rightarrow> string" where
  "with_calls bs t = concat (map (\<lambda>(a, b). a @ tool_block b) bs) @ t"

lemma with_calls_simps [simp]:
  "with_calls [] t = t" "with_calls ((a, b) # bs) t = a @ TOOL_START @ b @ TOOL_END @ with_calls bs t"
  by (simp_all add: with_calls_def tool_block_def)

lemma next_block_first:
  "plain_text a \<Longrightarrow> plain_text b \<Longrightarrow> next_block (a @ TOOL_START @ b @ TOOL_END @ s) = Some (b, s)"
  using find_sub_first [of TOOL_START a "b @ TOOL_END @ s"] find_sub_first [of TOOL_END b s]
  by (simp add: next_block_def plain_text_def)

lemma next_block_none: "plain_text s \<Longrightarrow> next_block s = None"
  by (simp add: next_block_def find_sub_absent plain_text_def)

section \<open>The residue\<close>

lemma erase_ends_none: "find_sub TOOL_END (erase_ends s) = None"
proof (induction s rule: erase_ends.induct)
  case (1 s)
  then show ?case by (subst erase_ends.simps) (simp split: option.split)
qed

lemma erase_ends_id: "find_sub TOOL_END s = None \<Longrightarrow> erase_ends s = s"
  by (subst erase_ends.simps) simp

lemma strip_blocks_texts:
  "list_all (\<lambda>(a, b). plain_text a \<and> plain_text b) bs \<Longrightarrow> plain_text t \<Longrightarrow>
     strip_blocks (with_calls bs t) = concat (map fst bs) @ t"
proof (induction bs)
  case Nil
  then show ?case by (subst strip_blocks.simps) (simp add: find_sub_absent plain_text_def)
next
  case (Cons ab bs)
  obtain a b where ab: "ab = (a, b)" by (cases ab)
  have f: "find_sub TOOL_START (a @ TOOL_START @ b @ TOOL_END @ with_calls bs t) = Some (length a)"
    using Cons.prems ab by (intro find_sub_first) (simp_all add: plain_text_def)
  show ?case
    using Cons ab by (subst strip_blocks.simps) (simp add: f next_block_first)
qed

lemma strip_never_leaks_end: "find_sub TOOL_END (strip_tool_call_residue s) = None"
proof -
  obtain a b where "erase_ends (strip_blocks s) = a @ strip_tool_call_residue s @ b"
    unfolding strip_tool_call_residue_def using trim_ws_part by blast
  with erase_ends_none [of "strip_blocks s"] show ?thesis by (metis find_sub_part)
qed

lemma strip_residue_texts:
  assumes "list_all (\<lambda>(a, b). plain_text a \<and> plain_text b) bs" "plain_text t"
  shows "strip_tool_call_residue (with_calls bs t) = trim_ws (concat (map fst bs) @ t)"
proof -
  have "plain_text (concat (map fst bs) @ t)"
    using assms by (auto simp: plain_text_def list_all_iff)
  then have "find_sub TOOL_END (concat (map fst bs) @ t) = None"
    by (simp add: find_sub_absent plain_text_def)
  then show ?thesis
    by (simp add: strip_tool_call_residue_def strip_blocks_texts [OF assms] erase_ends_id)
qed

text \<open>
  the text shown to the user never contains a closing tag; of a text with complete calls in
  between the texts alone are left, trimmed; and of a text that ends in an unclosed call, what
  comes before it.
\<close>

theorem strip_residue_correct:
  assumes "list_all (\<lambda>(a, b). plain_text a \<and> plain_text b) bs" "plain_text t" "plain_text u"
  shows "strip_tool_call_residue (with_calls bs t) = trim_ws (concat (map fst bs) @ t)
    \<and> strip_tool_call_residue (with_calls bs (t @ TOOL_START @ u)) = trim_ws (concat (map fst bs) @ t)
    \<and> find_sub TOOL_END (strip_tool_call_residue s) = None"
proof -
  have "strip_blocks (with_calls bs (t @ TOOL_START @ u)) = concat (map fst bs) @ t"
    using assms(1)
  proof (induction bs)
    case Nil
    have f: "find_sub TOOL_START (t @ TOOL_START @ u) = Some (length t)"
      using assms(2) by (intro find_sub_first) (simp_all add: plain_text_def)
    with assms(3) have n: "next_block (t @ TOOL_START @ u) = None"
      by (simp add: next_block_def find_sub_absent plain_text_def)
    show ?case by (subst strip_blocks.simps) (simp add: f n)
  next
    case (Cons ab bs)
    obtain a b where ab: "ab = (a, b)" by (cases ab)
    have f: "find_sub TOOL_START (a @ TOOL_START @ b @ TOOL_END @ with_calls bs (t @ TOOL_START @ u))
        = Some (length a)"
      using Cons.prems ab by (intro find_sub_first) (simp_all add: plain_text_def)
    show ?case
      using Cons ab by (subst strip_blocks.simps) (simp add: f next_block_first)
  qed
  moreover have "plain_text (concat (map fst bs) @ t)"
    using assms by (auto simp: plain_text_def list_all_iff)
  ultimately have "strip_tool_call_residue (with_calls bs (t @ TOOL_START @ u))
      = trim_ws (concat (map fst bs) @ t)"
    by (simp add: strip_tool_call_residue_def erase_ends_id find_sub_absent plain_text_def)
  then show ?thesis
    using strip_residue_texts [OF assms(1,2)] strip_never_leaks_end by blast
qed

theorem strip_residue_correct_witness:
  "strip_tool_call_residue ''Hi <tool_call>{}</tool_call>there <tool_call>{''
     = ''Hi there''"
proof -
  have "strip_tool_call_residue (with_calls [(''Hi '', ''{}'')] (''there '' @ TOOL_START @ ''{''))
      = trim_ws (concat (map fst [(''Hi '', ''{}'')]) @ ''there '')"
    using strip_residue_correct [of "[(''Hi '', ''{}'')]" "''there ''" "''{''" "[]"]
    by (simp add: plain_text_def)
  then show ?thesis by (simp add: TOOL_START_def TOOL_END_def trim_ws_def is_trimmed_def)
qed

section \<open>Truncation\<close>

text \<open>The messages a conversation may start with: not a tool result and not a request for one.\<close>

definition opens_turn :: "Message \<Rightarrow> bool" where
  "opens_turn m \<longleftrightarrow> role m \<noteq> ''tool'' \<and> (role m = ''assistant'' \<longrightarrow> msg_calls m = [])"

lemma drop_orphans_dropWhile: "drop_orphans ms = dropWhile (\<lambda>m. \<not> opens_turn m) ms"
proof (induction ms rule: drop_orphans.induct)
  case (2 m ms)
  have skip: "dropWhile (\<lambda>m. \<not> opens_turn m) (dropWhile (\<lambda>m. role m = ''tool'') ms) = dropWhile (\<lambda>m. \<not> opens_turn m) ms"
    by (induction ms) (auto simp: opens_turn_def)
  have "opens_turn m \<longleftrightarrow> role m \<noteq> ''tool'' \<and> \<not> (role m = ''assistant'' \<and> msg_calls m \<noteq> [])"
    by (auto simp: opens_turn_def)
  with 2 skip show ?case by (cases "role m = ''tool''") auto
qed simp

lemma messages_truncate:
  "messages (truncate_messages k conv) =
     (let n = length (messages conv); mx = nat k
      in if n \<le> mx then messages conv else dropWhile (\<lambda>m. \<not> opens_turn m) (drop (n - mx) (messages conv)))"
proof -
  have mx: "(if k < 0 then 0 else k) = int (nat k)" by simp
  have d: "nat (int (length (messages conv)) - int (nat k)) = length (messages conv) - nat k"
    by (simp only: nat_minus_as_int)
  show ?thesis
    unfolding truncate_messages_def mx Let_def d drop_orphans_dropWhile of_nat_le_iff by simp
qed

text \<open>The results that answer a list of calls, in order.\<close>

definition answers :: "ToolCall list \<Rightarrow> Message list \<Rightarrow> bool" where
  "answers cs rs \<longleftrightarrow>
     list_all2 (\<lambda>c r. role r = ''tool'' \<and> msg_call_id r = call_id c \<and> msg_name r = call_name c) cs rs"

text \<open>Every request for tools is followed by exactly the results it asks for, and there are no
  others.\<close>

inductive paired :: "Message list \<Rightarrow> bool" where
  paired_nil: "paired []"
| paired_text: "opens_turn m \<Longrightarrow> paired ms \<Longrightarrow> paired (m # ms)"
| paired_calls: "role m = ''assistant'' \<Longrightarrow> msg_calls m \<noteq> [] \<Longrightarrow> answers (msg_calls m) rs \<Longrightarrow> paired ms \<Longrightarrow>
    paired (m # rs @ ms)"

lemma paired_append: "paired xs \<Longrightarrow> paired ys \<Longrightarrow> paired (xs @ ys)"
  by (induction rule: paired.induct) (auto intro: paired.intros)

lemma paired_single: "opens_turn m \<Longrightarrow> paired [m]"
  by (rule paired_text [OF _ paired_nil])

lemma paired_round: "role m = ''assistant'' \<Longrightarrow> msg_calls m \<noteq> [] \<Longrightarrow> answers (msg_calls m) rs \<Longrightarrow> paired (m # rs)"
  using paired_calls [OF _ _ _ paired_nil] by simp

lemma answers_tools: "answers cs rs \<Longrightarrow> r \<in> set rs \<Longrightarrow> \<not> opens_turn r"
  by (auto simp: answers_def list_all2_conv_all_nth in_set_conv_nth opens_turn_def)

lemma paired_dropWhile: "paired ms \<Longrightarrow> paired (dropWhile (\<lambda>m. \<not> opens_turn m) ms)"
proof (induction rule: paired.induct)
  case (paired_calls m rs ms)
  then show ?case
    using answers_tools by (auto simp: dropWhile_append opens_turn_def dest: set_dropWhileD)
qed (auto intro: paired.intros)

lemma paired_drop: "paired ms \<Longrightarrow> \<exists>rs ms'. drop n ms = rs @ ms' \<and> (\<forall>r \<in> set rs. \<not> opens_turn r) \<and> paired ms'"
proof (induction arbitrary: n rule: paired.induct)
  case paired_nil
  then show ?case by (auto intro: paired.intros)
next
  case (paired_text m ms)
  then show ?case
  proof (cases n)
    case 0
    with paired_text have "paired (m # ms)" by (intro paired.paired_text)
    with 0 show ?thesis by (auto intro: exI [of _ "[]"])
  qed (use paired_text in auto)
next
  case (paired_calls m rs ms)
  show ?case
  proof (cases n)
    case 0
    with paired_calls have "paired (m # rs @ ms)" by (intro paired.paired_calls)
    with 0 show ?thesis by (auto intro: exI [of _ "[]"])
  next
    case (Suc k)
    show ?thesis
    proof (cases "k \<le> length rs")
      case True
      with Suc paired_calls show ?thesis
        by (intro exI [of _ "drop k rs"] exI [of _ ms]) (auto dest: in_set_dropD answers_tools)
    next
      case False
      with Suc paired_calls(5) [of "k - length rs"] show ?thesis by simp
    qed
  qed
qed

lemma paired_truncate: "paired (messages conv) \<Longrightarrow> paired (messages (truncate_messages k conv))"
proof -
  assume p: "paired (messages conv)"
  obtain rs ms' where d: "drop (length (messages conv) - nat k) (messages conv) = rs @ ms'"
      "\<forall>r \<in> set rs. \<not> opens_turn r" "paired ms'"
    using paired_drop [OF p] by blast
  then have "dropWhile (\<lambda>m. \<not> opens_turn m) (rs @ ms') = dropWhile (\<lambda>m. \<not> opens_turn m) ms'"
    by (induction rs) auto
  with d p show ?thesis by (simp add: messages_truncate Let_def paired_dropWhile)
qed

text \<open>
  truncation keeps a conversation that is short enough as it is; otherwise it keeps, of the
  most recent messages up to the limit, those from the first one that opens a turn on. Requests
  and results stay paired, and a result never stands without its request.
\<close>

theorem truncate_correct:
  assumes "paired (messages conv)"
  shows "messages (truncate_messages k conv) =
      (if length (messages conv) \<le> nat k then messages conv
       else dropWhile (\<lambda>m. \<not> opens_turn m) (drop (length (messages conv) - nat k) (messages conv)))
    \<and> length (messages (truncate_messages k conv)) \<le> nat k
    \<and> paired (messages (truncate_messages k conv))
    \<and> system_prompt (truncate_messages k conv) = system_prompt conv"
proof -
  have "length (dropWhile P (drop (n - m) ms)) \<le> m" if "n = length ms" "m \<le> n" for n m P and ms :: "Message list"
    using that by (intro order.trans [OF length_dropWhile_le]) simp
  then have bound: "length (messages (truncate_messages k conv)) \<le> nat k"
    by (simp add: messages_truncate Let_def)
  have "system_prompt (truncate_messages k conv) = system_prompt conv"
    by (simp add: truncate_messages_def Let_def)
  with bound paired_truncate [OF assms] show ?thesis by (auto simp: messages_truncate Let_def)
qed

definition call_example :: ToolCall where
  "call_example = \<lparr>call_id = ''c1'', call_name = ''t'', call_args = ''{}''\<rparr>"

definition conv_example :: ConversationState where
  "conv_example = add_assistant_message ''done'' (add_tool_result ''c1'' ''t'' ''ok''
     (add_assistant_tool_calls [call_example] (add_user_message ''go''
       \<lparr>system_prompt = [], conversation_id = ''x'', messages = []\<rparr>)))"

lemma conv_example_messages: "messages conv_example =
    [text_message ''user'' ''go'', (text_message ''assistant'' [])\<lparr>msg_calls := [call_example]\<rparr>,
     (text_message ''tool'' ''ok'')\<lparr>msg_call_id := ''c1'', msg_name := ''t''\<rparr>, text_message ''assistant'' ''done'']"
  by (simp add: conv_example_def add_assistant_message_def add_tool_result_def add_assistant_tool_calls_def
      add_user_message_def push_message_def)

lemma conv_example_paired: "paired (messages conv_example)"
  unfolding conv_example_messages
  by (intro paired_text paired_calls [of _ "[_]", simplified] paired_nil)
    (simp_all add: opens_turn_def text_message_def answers_def call_example_def)

theorem truncate_correct_witness:
  "messages (truncate_messages 2 conv_example) = [text_message ''assistant'' ''done'']
    \<and> messages (truncate_messages 4 conv_example) = messages conv_example"
  using truncate_correct [OF conv_example_paired, of 2] truncate_correct [OF conv_example_paired, of 4]
  by (simp add: conv_example_messages opens_turn_def text_message_def call_example_def)

section \<open>Persistence\<close>

lemma load_saved_call: "load_call (reparse (saved_call c)) = Inr c"
  by (simp add: load_call_def saved_call_def cpp_simps)

lemma load_saved_message: "load_message (reparse (saved_message m)) = Inr m"
proof -
  have calls: "mapE load_call (map reparse (map saved_call cs)) = Inr cs" for cs
    by (induction cs) (simp_all add: load_saved_call)
  show ?thesis
    by (cases m) (simp add: load_message_def saved_message_def cpp_simps calls del: map_map)
qed

lemma load_saved_conversation: "load_conversation (reparse (conversation_json conv)) = Inr conv"
proof -
  have "mapE load_message (map reparse (map saved_message ms)) = Inr ms" for ms
    by (induction ms) (simp_all add: load_saved_message)
  then show ?thesis
    by (cases conv) (simp add: load_conversation_def conversation_json_def cpp_simps del: map_map)
qed

interpretation conversation: codec conversation_json
  "\<lambda>j. case load_conversation (reparse j) of Inl _ \<Rightarrow> None | Inr c \<Rightarrow> Some c" "\<lambda>_. True"
  by unfold_locales (simp add: load_saved_conversation)

text \<open>
  a conversation whose texts are UTF-8 is written, and reading the written text gives the same
  conversation back, with every message, tool call and result; two conversations are never
  written as the same JSON.
\<close>

theorem conversation_roundtrip:
  assumes "dump_ok (conversation_json conv)"
    and "snd tx (fst tx (conversation_json conv)) = Some (reparse (conversation_json conv))"
  shows "bindE (serialize tx conv) (deserialize tx) = Inr conv
    \<and> (conversation_json conv = conversation_json conv' \<longrightarrow> conv = conv')"
  using assms conversation.enc_inj [of conv conv']
  by (simp add: serialize_def deserialize_def dump_text_def dump_def load_saved_conversation)

theorem conversation_roundtrip_witness:
  "bindE (serialize (\<lambda>_. ''x'', \<lambda>_. Some (reparse (conversation_json conv_example))) conv_example)
     (deserialize (\<lambda>_. ''x'', \<lambda>_. Some (reparse (conversation_json conv_example)))) = Inr conv_example"
proof -
  have "dump_ok (saved_call call_example)"
    by (simp add: saved_call_def call_example_def cpp_simps utf8_ok_ascii)
  then have "dump_ok (conversation_json conv_example)"
    by (simp add: conversation_json_def conv_example_messages saved_message_def text_message_def
        conv_example_def add_assistant_message_def add_tool_result_def
        add_assistant_tool_calls_def add_user_message_def push_message_def cpp_simps utf8_ok_ascii)
  from conversation_roundtrip [OF this, of "(\<lambda>_. ''x'', \<lambda>_. Some (reparse (conversation_json conv_example)))"]
  show ?thesis by simp
qed

section \<open>Turns keep requests and results paired\<close>

text \<open>The parser of the JSON library accepts UTF-8 only.\<close>

definition parser_utf8 :: "json_text \<Rightarrow> bool" where
  "parser_utf8 tx \<longleftrightarrow> (\<forall>t j. snd tx t = Some j \<longrightarrow> dump_ok j)"

text \<open>A registry whose dispatch returns for every name: the messages of its exceptions are UTF-8.\<close>

definition tools_return :: "json_text \<Rightarrow> registry \<Rightarrow> bool" where
  "tools_return tx tools \<longleftrightarrow> (\<forall>n a. utf8_ok n \<longrightarrow> (\<exists>r. dispatch tx tools n a = Inr r))"

lemma mapE_all:
  "mapE f xs = Inr ys \<Longrightarrow> \<forall>x \<in> set xs. \<forall>y. f x = Inr y \<longrightarrow> P y \<Longrightarrow> list_all P ys"
  by (induction xs arbitrary: ys) (auto simp: bindE_Inr_iff)

lemma parsed_call_name:
  assumes "dump_ok tc" "parse_call tx tc = Inr c"
  shows "utf8_ok (call_name c)"
proof (cases "contains tc ''function'' \<and> is_object (jmember tc ''function'')")
  case True
  with assms(2) obtain n where n: "jvalue get_string (jmember tc ''function'') ''name'' [] = Inr n" "call_name c = n"
    by (auto simp: parse_call_def bindE_Inr_iff Let_def)
  have "utf8_ok []" by (simp add: utf8_ok_def)
  from dump_ok_string [OF dump_ok_member [OF assms(1)] this n(1)] n(2) show ?thesis by simp
next
  case False
  with assms(2) have "call_name c = []"
    by (auto simp: parse_call_def bindE_Inr_iff Let_def split: if_splits)
  then show ?thesis by (simp add: utf8_ok_def)
qed

lemma parsed_names:
  assumes "parser_utf8 tx" "parse_tool_calls tx resp = Inr cs"
  shows "list_all (\<lambda>c. utf8_ok (call_name c)) cs"
proof -
  consider "cs = []" | j m tcs where "snd tx resp = Some j" "first_message j = Some m"
      "jmember m ''tool_calls'' = JArray tcs" "mapE (parse_call tx) tcs = Inr cs"
    using assms(2) by (auto simp: parse_tool_calls_def split: option.splits json.splits)
  then show ?thesis
  proof cases
    case 2
    then have "dump_ok j" using assms(1) by (auto simp: parser_utf8_def)
    then have "dump_ok (jmember j ''choices'')" by (rule dump_ok_member)
    with 2(2) have "dump_ok m"
      by (auto simp: first_message_def dump_ok_member split: json.splits list.splits if_splits)
    from dump_ok_member [OF this, of "''tool_calls''"] 2(3) have "list_all dump_ok tcs" by simp
    then have "\<forall>tc \<in> set tcs. \<forall>c. parse_call tx tc = Inr c \<longrightarrow> utf8_ok (call_name c)"
      using parsed_call_name [of _ tx] by (auto simp: list_all_iff)
    then show ?thesis by (rule mapE_all [OF 2(4)])
  qed simp
qed

lemma messages_push [simp]:
  "messages (add_tool_result i n r conv) = messages conv @ [(text_message ''tool'' r)\<lparr>msg_call_id := i, msg_name := n\<rparr>]"
  "messages (add_assistant_message t conv) = messages conv @ [text_message ''assistant'' t]"
  "messages (add_user_message t conv) = messages conv @ [text_message ''user'' t]"
  "messages (add_assistant_tool_calls cs conv) = messages conv @ [(text_message ''assistant'' [])\<lparr>msg_calls := cs\<rparr>]"
  by (simp_all add: add_tool_result_def add_assistant_message_def add_user_message_def
      add_assistant_tool_calls_def push_message_def)

text \<open>The results of the calls of a round, when every dispatch returns.\<close>

definition result_message :: "json_text \<Rightarrow> registry \<Rightarrow> ToolCall \<Rightarrow> Message" where
  "result_message tx tools c =
     (text_message ''tool'' (truncate_result (case dispatch tx tools (call_name c) (call_args c) of Inr r \<Rightarrow> r | Inl _ \<Rightarrow> [])))
       \<lparr>msg_call_id := call_id c, msg_name := call_name c\<rparr>"

lemma dispatch_calls_results:
  "tools_return tx tools \<Longrightarrow> list_all (\<lambda>c. utf8_ok (call_name c)) cs \<Longrightarrow>
     dispatch_calls tx tools cs conv =
       (Inr (), conv\<lparr>messages := messages conv @ map (result_message tx tools) cs\<rparr>)"
proof (induction cs arbitrary: conv)
  case (Cons c cs)
  then have "\<exists>r. dispatch tx tools (call_name c) (call_args c) = Inr r"
    by (simp add: tools_return_def)
  then obtain r where "dispatch tx tools (call_name c) (call_args c) = Inr r" ..
  with Cons show ?case
    by (simp add: result_message_def add_tool_result_def push_message_def)
qed simp

lemma answers_results: "answers cs (map (result_message tx tools) cs)"
  by (induction cs) (simp_all add: answers_def result_message_def text_message_def)

lemma opens_text: "r \<noteq> ''tool'' \<Longrightarrow> opens_turn (text_message r t)"
  by (simp add: opens_turn_def text_message_def)

lemma agent_loop_paired:
  "parser_utf8 tx \<Longrightarrow> tools_return tx tools \<Longrightarrow> paired (messages conv) \<Longrightarrow>
     paired (messages (snd (agent_loop tx tools infer r k conv)))"
proof (induction tx tools infer r k conv rule: agent_loop.induct)
  case (2 tx tools infer r k conv)
  show ?case
  proof (cases "build_inference_request tx conv tools 2048 default_temperature")
    case (Inr q)
    note req = Inr
    show ?thesis
    proof (cases "infer r q")
      case (Inl x)
      with req 2(4) show ?thesis by (simp add: paired_append paired_single opens_text)
    next
      case (Inr resp)
      note resp = Inr
      show ?thesis
      proof (cases "parse_tool_calls tx resp")
        case (Inr cs)
        note cs = Inr
        show ?thesis
        proof (cases cs)
          case Nil
          with req resp cs 2(4) show ?thesis
            by (cases "parse_content tx resp") (simp_all add: paired_append paired_single opens_text)
        next
          case (Cons c cs')
          let ?conv = "add_assistant_tool_calls cs conv"
          let ?next = "?conv\<lparr>messages := messages ?conv @ map (result_message tx tools) cs\<rparr>"
          have d: "dispatch_calls tx tools cs ?conv = (Inr (), ?next)"
            by (rule dispatch_calls_results [OF 2(3) parsed_names [OF 2(2) cs]])
          have "paired (messages ?next)"
            using Cons paired_append [OF 2(4) paired_round [of "(text_message ''assistant'' [])\<lparr>msg_calls := cs\<rparr>"]]
            by (simp add: text_message_def answers_results [of "c # cs'", simplified])
          with 2(1) [OF req resp cs Cons] d Cons 2(2,3) have
            "paired (messages (snd (agent_loop tx tools infer (Suc r) k ?next)))" by simp
          with req resp cs Cons d show ?thesis by simp
        qed
      qed (use req resp 2(4) in simp)
    qed
  qed (use 2(4) in simp)
qed simp

datatype conversation_op = UserSays string | RunTurn registry inference int | Forget int

fun conversation_step :: "json_text \<Rightarrow> conversation_op \<Rightarrow> ConversationState \<Rightarrow> ConversationState" where
  "conversation_step tx (UserSays t) conv = add_user_message t conv"
| "conversation_step tx (RunTurn tools infer n) conv = snd (agent_turn tx tools infer n conv)"
| "conversation_step tx (Forget n) conv = truncate_messages n conv"

fun conversation_legal :: "json_text \<Rightarrow> conversation_op \<Rightarrow> bool" where
  "conversation_legal tx (RunTurn tools infer n) = (parser_utf8 tx \<and> tools_return tx tools)"
| "conversation_legal tx _ = True"

definition new_conversation :: "string \<Rightarrow> string \<Rightarrow> ConversationState" where
  "new_conversation i p = \<lparr>system_prompt = p, conversation_id = i, messages = []\<rparr>"

interpretation turns: reachable_system "conversation_step tx" "\<lambda>conv. paired (messages conv)"
  "conversation_legal tx" "new_conversation i p" for tx i p
proof (unfold_locales, goal_cases)
  case (1 conv x)
  then show ?case
    by (cases x) (simp_all add: paired_append paired_single opens_text paired_truncate
        agent_turn_def agent_loop_paired)
next
  case 2
  show ?case by (simp add: new_conversation_def paired_nil)
qed


text \<open>A parser that knows one text, a response with one call.\<close>

definition demo_response :: json where
  "demo_response = jobj [(''choices'', JArray [jobj [(''message'', jobj [(''tool_calls'', JArray [call_json call_example])])]])]"

definition demo_text :: json_text where
  "demo_text = (\<lambda>_. ''{}'', \<lambda>t. if t = ''call'' then Some demo_response else None)"

definition demo_infer :: inference where
  "demo_infer n q = (if n = 0 then Inr ''call'' else Inr ''text'')"

lemma demo_dump_ok: "dump_ok demo_response"
  by (simp add: demo_response_def call_json_def call_example_def cpp_simps utf8_ok_ascii)

lemma demo_parser: "parser_utf8 demo_text"
  by (auto simp: parser_utf8_def demo_text_def demo_dump_ok)

lemma dispatch_no_tools: "utf8_ok n \<Longrightarrow> dispatch demo_text [] n a = Inr ''{}''"
proof -
  assume "utf8_ok n"
  then have "utf8_ok (''unknown tool: '' @ n)" by (intro utf8_ok_append) (simp_all add: utf8_ok_ascii)
  then show ?thesis
    by (simp add: dispatch_def dispatch_confirmed_def dump_text_def dump_def json_error_def cpp_simps
        utf8_ok_ascii demo_text_def)
qed

lemma demo_tools: "tools_return demo_text []"
  by (simp add: tools_return_def dispatch_no_tools)

lemma demo_calls:
  "parse_tool_calls demo_text ''call'' = Inr [call_example]" "parse_tool_calls demo_text ''text'' = Inr []"
  "parse_content demo_text ''call'' = Inr []" "parse_content demo_text ''text'' = Inr []"
  by (simp_all add: parse_tool_calls_def parse_content_def demo_text_def demo_response_def first_message_def
      parse_call_def call_arguments_def call_json_def call_example_def cpp_simps)


section \<open>Every turn ends with an answer\<close>

definition call_utf8 :: "ToolCall \<Rightarrow> bool" where
  "call_utf8 c \<longleftrightarrow> utf8_ok (call_id c) \<and> utf8_ok (call_name c) \<and> utf8_ok (call_args c)"

text \<open>What the surroundings of a turn promise: the tools can be offered, every dispatch returns a
  text that is still UTF-8 when it is cut, and every response can be read.\<close>

definition tools_safe :: "json_text \<Rightarrow> registry \<Rightarrow> bool" where
  "tools_safe tx tools \<longleftrightarrow> dump_ok (openai_tools tx tools)
     \<and> (\<forall>n a. utf8_ok n \<longrightarrow> (\<exists>r. dispatch tx tools n a = Inr r \<and> utf8_ok (truncate_result r)))"

definition inference_safe :: "json_text \<Rightarrow> inference \<Rightarrow> bool" where
  "inference_safe tx infer \<longleftrightarrow>
     (\<forall>n q. case infer n q of
        Inl x \<Rightarrow> utf8_ok (inference_error x)
      | Inr t \<Rightarrow> (\<exists>cs. parse_tool_calls tx t = Inr cs \<and> list_all call_utf8 cs) \<and> (\<exists>c. parse_content tx t = Inr c))"

definition conversation_dumps :: "ConversationState \<Rightarrow> bool" where
  "conversation_dumps conv \<longleftrightarrow> utf8_ok (system_prompt conv) \<and> list_all (dump_ok \<circ> message_json) (messages conv)"

lemma call_json_dumps: "call_utf8 c \<Longrightarrow> dump_ok (call_json c)"
  by (simp add: call_utf8_def call_json_def cpp_simps utf8_ok_ascii)

lemma request_returns:
  assumes "parser_utf8 tx" "tools_safe tx tools" "conversation_dumps conv"
  shows "\<exists>q. build_inference_request tx conv tools k t = Inr q"
proof -
  obtain s where s: "to_openai_tools_json tx tools = Inr s"
    using assms(2) by (simp add: to_openai_tools_json_def dump_text_def dump_def tools_safe_def)
  have m: "dump_ok (to_messages_json conv)"
    using assms(3) by (auto simp: to_messages_json_def conversation_dumps_def cpp_simps utf8_ok_ascii list_all_iff)
  have "list_all dump_ok (map JString [''<|im_end|>'', ''<|endoftext|>'', ''<|im_start|>''])"
    by (simp add: utf8_ok_ascii)
  then have st: "dump_ok stop_tokens" by (simp add: stop_tokens_def)
  have parsed: "dump_ok t \<and> list_all dump_ok ts" if "snd tx s = Some (JArray (t # ts))" for t ts
    using assms(1) that by (fastforce simp: parser_utf8_def)
  have "list_all (\<lambda>(k, v). utf8_ok k \<and> dump_ok v) (case snd tx s of Some (JArray (t # ts)) \<Rightarrow> [(''tools'', JArray (t # ts))] | _ \<Rightarrow> [])"
    using parsed by (auto simp: utf8_ok_ascii split: option.split json.split list.split)
  then have "dump_ok (request_json tx conv s k t)"
    unfolding request_json_def by (intro dump_ok_jobj) (simp add: m st utf8_ok_ascii)
  with s show ?thesis by (simp add: build_inference_request_def dump_text_def dump_def)
qed

text \<open>A round: the request for the calls and their results.\<close>

definition round_messages :: "ToolCall list \<times> Message list \<Rightarrow> Message list" where
  "round_messages = (\<lambda>(cs, rs). (text_message ''assistant'' [])\<lparr>msg_calls := cs\<rparr> # rs)"

definition asked :: "json_text \<Rightarrow> inference \<Rightarrow> nat \<Rightarrow> ToolCall list \<Rightarrow> bool" where
  "asked tx infer n cs \<longleftrightarrow> cs \<noteq> [] \<and> (\<exists>q t. infer n q = Inr t \<and> parse_tool_calls tx t = Inr cs)"

text \<open>What a turn that starts at call \<open>n\<close> with \<open>k\<close> rounds left adds and returns.\<close>

definition turn_result ::
  "json_text \<Rightarrow> inference \<Rightarrow> nat \<Rightarrow> nat \<Rightarrow> (ToolCall list \<times> Message list) list \<Rightarrow> string \<Rightarrow> Message list \<Rightarrow> bool" where
  "turn_result tx infer n k rounds text added \<longleftrightarrow>
     text \<noteq> [] \<and> length rounds \<le> k
     \<and> (\<forall>i < length rounds. asked tx infer (n + i) (fst (rounds ! i)) \<and> answers (fst (rounds ! i)) (snd (rounds ! i)))
     \<and> added = concat (map round_messages rounds)
         @ (if length rounds = k then [] else [text_message ''assistant'' text])
     \<and> (length rounds = k \<longrightarrow> text = max_rounds_answer)"

lemma turn_result_end: "text \<noteq> [] \<Longrightarrow> turn_result tx infer n (Suc k) [] text [text_message ''assistant'' text]"
  by (simp add: turn_result_def)

lemma turn_result_round:
  assumes "turn_result tx infer (Suc n) k rounds text added" "asked tx infer n cs" "answers cs rs"
  shows "turn_result tx infer n (Suc k) ((cs, rs) # rounds) text (round_messages (cs, rs) @ added)"
  using assms by (auto simp: turn_result_def nth_Cons split: nat.split)

lemma call_results_dump:
  assumes "tools_safe tx tools" "call_utf8 c"
  shows "dump_ok (message_json (result_message tx tools c))"
proof -
  obtain r where "dispatch tx tools (call_name c) (call_args c) = Inr r" "utf8_ok (truncate_result r)"
    using assms by (auto simp: tools_safe_def call_utf8_def)
  then show ?thesis
    using assms(2) by (simp add: message_json_def result_message_def text_message_def call_utf8_def
        cpp_simps utf8_ok_ascii)
qed

lemma final_answer_ne: "final_answer t \<noteq> []"
  by (simp add: final_answer_def Let_def)

lemma agent_loop_answers:
  assumes "parser_utf8 tx" "tools_safe tx tools" "inference_safe tx infer"
  shows "conversation_dumps conv \<Longrightarrow> \<exists>rounds text added.
      agent_loop tx tools infer n k conv = (Inr text, conv\<lparr>messages := messages conv @ added\<rparr>)
      \<and> turn_result tx infer n k rounds text added"
proof (induction k arbitrary: n conv)
  case 0
  have "turn_result tx infer n 0 [] max_rounds_answer []"
    by (simp add: turn_result_def max_rounds_answer_def)
  then show ?case by (intro exI [of _ "[]"] exI [of _ max_rounds_answer]) simp
next
  case (Suc k)
  have push: "add_assistant_message t conv = conv\<lparr>messages := messages conv @ [text_message ''assistant'' t]\<rparr>" for t
    by (simp add: add_assistant_message_def push_message_def)
  have ends: ?case if "a \<noteq> []" "agent_loop tx tools infer n (Suc k) conv = (Inr a, add_assistant_message a conv)" for a
    using that turn_result_end [OF that(1), of tx infer n k] push [of a]
    by (intro exI [of _ "[]"] exI [of _ a] exI [of _ "[text_message ''assistant'' a]"]) simp
  obtain q where q: "build_inference_request tx conv tools 2048 default_temperature = Inr q"
    using request_returns [OF assms(1,2) Suc.prems] by blast
  show ?case
  proof (cases "infer n q")
    case (Inl x)
    have "inference_error x \<noteq> []" by (simp add: inference_error_def split: tool_exn.split)
    from ends [OF this] show ?thesis using q Inl by simp
  next
    case (Inr t)
    then have safe: "(\<exists>cs. parse_tool_calls tx t = Inr cs \<and> list_all call_utf8 cs) \<and> (\<exists>c. parse_content tx t = Inr c)"
      using assms(3) by (auto simp: inference_safe_def dest!: spec [of _ n] spec [of _ q])
    then obtain cs c where cs: "parse_tool_calls tx t = Inr cs" "list_all call_utf8 cs" "parse_content tx t = Inr c"
      by blast
    show ?thesis
    proof (cases cs)
      case Nil
      from ends [OF final_answer_ne] show ?thesis using q Inr cs Nil by simp
    next
      case (Cons c' cs')
      let ?rs = "map (result_message tx tools) cs"
      let ?next = "conv\<lparr>messages := messages conv @ round_messages (cs, ?rs)\<rparr>"
      have ret: "tools_return tx tools"
        unfolding tools_return_def using assms(2) unfolding tools_safe_def by blast
      have "list_all (\<lambda>c. utf8_ok (call_name c)) cs"
        using cs(2) by (auto simp: list_all_iff call_utf8_def)
      from dispatch_calls_results [OF ret this, of "add_assistant_tool_calls cs conv"]
      have d: "dispatch_calls tx tools cs (add_assistant_tool_calls cs conv) = (Inr (), ?next)"
        by (simp add: add_assistant_tool_calls_def push_message_def round_messages_def)
      have "dump_ok (message_json ((text_message ''assistant'' [])\<lparr>msg_calls := cs\<rparr>))"
        using cs(2) Cons by (simp add: message_json_def text_message_def cpp_simps utf8_ok_ascii call_json_dumps list_all_iff)
      then have "list_all (dump_ok \<circ> message_json) (round_messages (cs, ?rs))"
        using cs(2) call_results_dump [OF assms(2)] by (simp add: round_messages_def list_all_iff)
      then have "conversation_dumps ?next"
        using Suc.prems by (simp add: conversation_dumps_def)
      from Suc.IH [OF this, of "Suc n"] obtain rounds a added where
        ih: "agent_loop tx tools infer (Suc n) k ?next = (Inr a, ?next\<lparr>messages := messages ?next @ added\<rparr>)"
          "turn_result tx infer (Suc n) k rounds a added" by blast
      have "asked tx infer n cs" using Inr cs(1) Cons by (auto simp: asked_def)
      then have "turn_result tx infer n (Suc k) ((cs, ?rs) # rounds) a (round_messages (cs, ?rs) @ added)"
        by (rule turn_result_round [OF ih(2) _ answers_results])
      moreover have "agent_loop tx tools infer n (Suc k) conv = agent_loop tx tools infer (Suc n) k ?next"
        using q Inr cs(1) d by (simp add: Cons del: dispatch_calls.simps)
      with ih(1) have "agent_loop tx tools infer n (Suc k) conv
          = (Inr a, conv\<lparr>messages := messages conv @ round_messages (cs, ?rs) @ added\<rparr>)" by simp
      ultimately show ?thesis by blast
    qed
  qed
qed


lemma demo_safe: "tools_safe demo_text []" "inference_safe demo_text demo_infer"
proof -
  have "dump_ok (openai_tools demo_text [])" by (simp add: openai_tools_def tool_names_def)
  then show "tools_safe demo_text []"
    by (simp add: tools_safe_def dispatch_no_tools truncate_result_def utf8_ok_ascii)
  have "call_utf8 call_example" by (simp add: call_utf8_def call_example_def utf8_ok_ascii)
  then show "inference_safe demo_text demo_infer"
    by (simp add: inference_safe_def demo_infer_def demo_calls)
qed


section \<open>Where a turn throws: a result cut inside a character\<close>

lemma not_dump_fold: "\<not> dump_ok j \<Longrightarrow> map_of fs k = Some j \<Longrightarrow> distinct (map fst fs) \<Longrightarrow> \<not> dump_ok (jobj fs)"
proof
  assume n: "\<not> dump_ok j" and m: "map_of fs k = Some j" and d: "distinct (map fst fs)" and ok: "dump_ok (jobj fs)"
  have "map_of (rev fs) k = Some j"
    using m d by (simp add: map_of_eq_Some_iff rev_map [symmetric])
  then have "jmember (jobj fs) k = j" by (simp add: cpp_simps)
  with dump_ok_member [OF ok, of k] n show False by simp
qed

lemma request_throws:
  assumes "dump_ok (openai_tools tx tools)" "m \<in> set (messages conv)" "role m = ''tool''" "\<not> utf8_ok (msg_text m)"
  shows "build_inference_request tx conv tools k t = Inl (TypeError 316)"
proof -
  have "\<not> dump_ok (message_json m)"
    using assms(3,4) by (simp add: message_json_def) (rule not_dump_fold [of "JString (msg_text m)" _ "''content''"]; simp)
  with assms(2) have "\<not> dump_ok (to_messages_json conv)"
    by (auto simp: to_messages_json_def list_all_iff)
  then have "\<not> dump_ok (request_json tx conv s k t)" for s
    unfolding request_json_def
    by (rule not_dump_fold [of _ _ "''messages''"]) (simp_all split: option.split json.split list.split)
  with assms(1) show ?thesis
    by (simp add: build_inference_request_def to_openai_tools_json_def dump_text_def dump_def)
qed

text \<open>A result of 4001 bytes: a letter and 2000 characters of two bytes.\<close>

definition long_result :: string where
  "long_result = ''x'' @ concat (replicate 2000 e_acute)"

lemma length_e_acutes: "length (concat (replicate n e_acute)) = 2 * n"
  by (induction n) (simp_all add: e_acute_def)

lemma truncate_long_result:
  "truncate_result long_result = ''x'' @ concat (replicate 1999 e_acute) @ [CHR 0xC3] @ ''...(truncated)''"
proof -
  have r: "replicate 2000 e_acute = replicate 1999 e_acute @ [e_acute]"
    by (simp only: replicate_append_same) (simp add: numeral_eq_Suc)
  have "take 3999 (concat (replicate 2000 e_acute)) = concat (replicate 1999 e_acute) @ [CHR 0xC3]"
    unfolding r concat_append by (simp add: length_e_acutes) (simp add: e_acute_def)
  then show ?thesis
    by (simp add: truncate_result_def long_result_def length_e_acutes)
qed

text \<open>
  a tool result that is UTF-8 may be cut inside a character. Then the next request of the
  turn, and the first request of every later turn of the conversation, throws instead of asking
  the model, whatever the tools and the model are, and the conversation stays as it is.
\<close>

theorem cut_result_poisons:
  assumes "dump_ok (openai_tools tx tools)" "0 < k"
    and "(text_message ''tool'' (truncate_result long_result))\<lparr>msg_call_id := i, msg_name := n\<rparr> \<in> set (messages conv)"
  shows "utf8_ok long_result \<and> agent_turn tx tools infer k conv = (Inl (TypeError 316), conv)"
proof -
  have "utf8_ok long_result"
    using utf8_run_ascii [of "''x''" "concat (replicate 2000 e_acute)"] utf8_run_e_acutes [of 2000 "[]"]
    by (simp add: utf8_ok_def long_result_def)
  moreover have "\<not> utf8_ok (truncate_result long_result)"
    using utf8_run_ascii [of "''x''" "concat (replicate 1999 e_acute) @ [CHR 0xC3] @ ''...(truncated)''"]
      utf8_run_e_acutes [of 1999 "[CHR 0xC3] @ ''...(truncated)''"]
    unfolding truncate_long_result utf8_ok_def by (simp add: e_acute_decode)
  then have "build_inference_request tx conv tools 2048 default_temperature = Inl (TypeError 316)"
    by (intro request_throws [OF assms(1) assms(3)]) (simp_all add: text_message_def)
  moreover obtain j where "nat k = Suc j" using assms(2) by (cases "nat k") auto
  ultimately show ?thesis by (simp add: agent_turn_def)
qed

theorem cut_result_poisons_witness:
  "agent_turn demo_text [] demo_infer 5 (add_tool_result ''c1'' ''fs.read'' (truncate_result long_result) (new_conversation [] []))
    = (Inl (TypeError 316), add_tool_result ''c1'' ''fs.read'' (truncate_result long_result) (new_conversation [] []))"
  using cut_result_poisons [of demo_text "[]" 5 "''fs.read''" "''c1''"
      "add_tool_result ''c1'' ''fs.read'' (truncate_result long_result) (new_conversation [] [])"]
  by (simp add: openai_tools_def tool_names_def)

section \<open>Tools that need confirmation\<close>

lemma agent_loop_same:
  assumes "same_unconfirmed tools tools'"
  shows "agent_loop tx tools infer n k conv = agent_loop tx tools' infer n k conv"
proof -
  have d: "dispatch tx tools n a = dispatch tx tools' n a" for tx n a
    using assms unfolding same_unconfirmed_def by blast
  have o: "openai_tools tx tools = openai_tools tx tools'" for tx
    using assms unfolding same_unconfirmed_def by blast
  have c: "dispatch_calls tx tools cs conv = dispatch_calls tx tools' cs conv" for cs conv
    by (induction cs arbitrary: conv) (simp_all only: dispatch_calls.simps d split: sum.split)
  have b: "build_inference_request tx conv tools m t = build_inference_request tx conv tools' m t" for conv m t
    by (simp add: build_inference_request_def to_openai_tools_json_def o)
  show ?thesis
    by (induction k arbitrary: n conv)
      (simp_all only: agent_loop.simps b c split: sum.split list.split prod.split)
qed

text \<open>
  the agent never runs a tool that needs confirmation, whatever the model asks for: the answer
  and the conversation do not depend on what the tool does.
\<close>

theorem agent_never_runs_unconfirmed:
  assumes "registry_inv tools" "map_of tools (tool_name t) = Some t" "requires_confirmation t"
  shows "agent_turn tx (register_tool (t\<lparr>handler := h\<rparr>) tools) infer k conv = agent_turn tx tools infer k conv"
  unfolding agent_turn_def by (rule sym [OF agent_loop_same [OF same_unconfirmed_handler [OF assms]]])

definition reboot_tool :: ToolDef where
  "reboot_tool = \<lparr>tool_name = ''t'', description = [], parameters = [], handler = (\<lambda>_. Inr []),
     requires_confirmation = True\<rparr>"

theorem agent_never_runs_unconfirmed_witness:
  "agent_turn demo_text (register_tool (reboot_tool\<lparr>handler := (\<lambda>_. Inl OtherExn)\<rparr>) [(''t'', reboot_tool)]) demo_infer 5 conv_example
    = agent_turn demo_text [(''t'', reboot_tool)] demo_infer 5 conv_example"
  by (rule agent_never_runs_unconfirmed) (simp_all add: registry_inv_def smap_sorted_def reboot_tool_def)

end
