(* ===== verification/Inference.thy ===== *)
theory Inference
  imports LlPrelude JsonValue Registry Agent
begin

text \<open>
  The inference functions of \<^verbatim>\<open>child_main.cpp\<close> between the agent and the model server: the stub
  answers, the semantic cache, the prompt in the format of the model, the grammar for a retry,
  and \<open>llama_inference\<close> itself, which turns a completion into a chat response. Definitions only;
  the lemmas are in InferenceFacts. The clock, the answers of the model server and JSON texts are
  arguments.
\<close>

unbundle bit_operations_syntax

definition NL :: char where "NL = CHR 0x0A"
definition BSL :: char where "BSL = CHR 0x5C"
definition QUOT :: char where "QUOT = CHR 0x27"
definition DQ :: char where "DQ = CHR 0x22"

definition unlines :: "string list \<Rightarrow> string" where
  "unlines ls = concat (map (\<lambda>l. l @ [NL]) ls)"

section \<open>Chat responses\<close>

text \<open>A response with one choice.\<close>

definition zero_usage :: json where
  "zero_usage = jobj [(''prompt_tokens'', JInt 0), (''completion_tokens'', JInt 0), (''total_tokens'', JInt 0)]"

definition text_choice :: "string \<Rightarrow> json" where
  "text_choice t =
     jobj [(''index'', JInt 0), (''message'', jobj [(''role'', JString ''assistant''), (''content'', JString t)]),
       (''finish_reason'', JString ''stop'')]"

definition call_choice :: "json list \<Rightarrow> json" where
  "call_choice calls =
     jobj [(''index'', JInt 0),
       (''message'', jobj [(''role'', JString ''assistant''), (''content'', JNull), (''tool_calls'', JArray calls)]),
       (''finish_reason'', JString ''tool_calls'')]"

definition completion_json :: "string \<Rightarrow> string \<Rightarrow> json \<Rightarrow> json \<Rightarrow> json" where
  "completion_json i model choice usage =
     jobj [(''id'', JString i), (''object'', JString ''chat.completion''), (''model'', JString model),
       (''choices'', JArray [choice]), (''usage'', usage)]"

definition make_inference_error :: "json_text \<Rightarrow> string \<Rightarrow> string result" where
  "make_inference_error tx m =
     dump_text tx (completion_json ''chatcmpl-error'' ''llamaste-error'' (text_choice m) zero_usage)"

section \<open>The stub\<close>

definition stub_empty :: string where
  \<open>stub_empty = ''I''
    @ [QUOT]
    @ ''m Llamaste, your LLM operating system. How can I help?''\<close>

definition stub_hello :: string where
  \<open>stub_hello = ''Hello! I''
    @ [QUOT]
    @ ''m Llamaste, your AI operating system. I can help you manage files, check''
    @ '' system status, configure settings, and more. What would you like to do?''\<close>

definition stub_file :: string where
  \<open>stub_file = ''I can help you with file operations! I have tools like `fs.list_director''
    @ ''y`, `fs.read_file`, and `fs.write_file`. What path would you like me to ''
    @ ''look at? (Note: in stub mode, tool calls are simulated.)''\<close>

definition stub_system :: string where
  \<open>stub_system = ''I can check the system status for you. The dashboard in the sidebar show''
    @ ''s real-time CPU, memory, disk, and temperature data. You can also ask me''
    @ '' to run specific system tools.''\<close>

definition stub_other :: string where
  \<open>stub_other = ''I understand your request. In the current Phase 1 build, I''
    @ [QUOT]
    @ ''m running in stub mode without a real language model. Once a model is lo''
    @ ''aded, I''
    @ [QUOT]
    @ ''ll be able to give you intelligent responses and use my 25 system tools ''
    @ ''to interact with the OS. For now, the web UI, dashboard, and API endpoin''
    @ ''ts are all functional.''\<close>

text \<open>The last message of a user, from the back; the accessors may throw.\<close>

fun last_user :: "json list \<Rightarrow> string result" where
  "last_user [] = Inr []"
| "last_user (m # ms) =
     bindE (jvalue get_string m ''role'' []) (\<lambda>r.
       if r = ''user'' then jvalue get_string m ''content'' [] else last_user ms)"

definition mentions :: "string \<Rightarrow> string \<Rightarrow> bool" where
  "mentions t p \<longleftrightarrow> find_sub p t \<noteq> None"

definition stub_text :: "string \<Rightarrow> string" where
  "stub_text t =
     (if t = [] then stub_empty
      else if mentions t ''hello'' \<or> mentions t ''Hello'' \<or> mentions t ''hi'' then stub_hello
      else if mentions t ''file'' \<or> mentions t ''ls'' \<or> mentions t ''dir'' then stub_file
      else if mentions t ''system'' \<or> mentions t ''status'' \<or> mentions t ''info'' then stub_system
      else stub_other)"

definition stub_inference :: "json_text \<Rightarrow> string \<Rightarrow> string result" where
  "stub_inference tx request =
     bindE (case snd tx request of
              None \<Rightarrow> Inr []
            | Some req \<Rightarrow> (case jmember req ''messages'' of JArray ms \<Rightarrow> last_user (rev ms) | _ \<Rightarrow> Inr [])) (\<lambda>t.
       dump_text tx (completion_json ''chatcmpl-stub-001'' ''llamaste-stub'' (text_choice (stub_text t)) zero_usage))"

section \<open>The semantic cache\<close>

record CacheEntry =
  cached_response :: string
  cached_at :: int

text \<open>The global state of the inference functions: the cache, the counter of parsed calls and the
  speed shown on the dashboard.\<close>

record InferenceState =
  semantic_cache :: "(string \<times> CacheEntry) list"
  call_counter :: int
  tokens_per_sec :: rat

definition SEMANTIC_CACHE_TTL_SECONDS :: int where "SEMANTIC_CACHE_TTL_SECONDS = 600"
definition SEMANTIC_CACHE_MAX_ENTRIES :: nat where "SEMANTIC_CACHE_MAX_ENTRIES = 50"

definition fnv_step :: "char \<Rightarrow> u64 \<Rightarrow> u64" where
  "fnv_step c h = (h XOR of_char c) * 1099511628211"

definition fnv1a_hash :: "string \<Rightarrow> u64" where
  "fnv1a_hash s = fold fnv_step s 14695981039346656037"

text \<open>The scan of the messages: how many are not of the system, the last text of a user and of the
  system.\<close>

fun scan_query :: "json list \<Rightarrow> nat \<times> string \<times> string \<Rightarrow> (nat \<times> string \<times> string) result" where
  "scan_query [] acc = Inr acc"
| "scan_query (m # ms) (n, user, sys) =
     bindE (jvalue get_string m ''role'' []) (\<lambda>r.
       if r = ''system'' then bindE (jvalue get_string m ''content'' []) (\<lambda>t. scan_query ms (n, user, t))
       else if r = ''user'' then bindE (jvalue get_string m ''content'' []) (\<lambda>t. scan_query ms (n + 1, t, sys))
       else scan_query ms (n + 1, user, sys))"

text \<open>The literal between the two texts in the code is the empty C string, so nothing separates
  them in the key.\<close>

definition cache_key :: "string \<Rightarrow> string \<Rightarrow> string" where
  "cache_key sys user = show_nat (unat (fnv1a_hash (sys @ [] @ user)))"

text \<open>The key of a request that may be cached, \<open>None\<close> for any other.\<close>

definition query_key :: "json_text \<Rightarrow> string \<Rightarrow> string option result" where
  "query_key tx request =
     (case snd tx request of
        None \<Rightarrow> Inr None
      | Some req \<Rightarrow>
          (case jmember req ''messages'' of
             JArray ms \<Rightarrow>
               bindE (scan_query ms (0, [], [])) (\<lambda>(n, user, sys).
                 if n \<noteq> 1 \<or> user = [] then Inr None else Inr (Some (cache_key sys user)))
           | _ \<Rightarrow> Inr None))"

definition semantic_cache_lookup :: "json_text \<Rightarrow> int \<Rightarrow> string \<Rightarrow> (InferenceState, string) op" where
  "semantic_cache_lookup tx now request s =
     (case query_key tx request of
        Inl e \<Rightarrow> (Inl e, s)
      | Inr None \<Rightarrow> (Inr [], s)
      | Inr (Some k) \<Rightarrow>
          (case map_of (semantic_cache s) k of
             None \<Rightarrow> (Inr [], s)
           | Some e \<Rightarrow>
               if now - cached_at e > SEMANTIC_CACHE_TTL_SECONDS
               then (Inr [], s\<lparr>semantic_cache := smap_erase k (semantic_cache s)\<rparr>)
               else (Inr (cached_response e), s)))"

text \<open>The loop that looks for the oldest entry.\<close>

fun oldest_key :: "int \<Rightarrow> string \<Rightarrow> (string \<times> CacheEntry) list \<Rightarrow> string" where
  "oldest_key t k [] = k"
| "oldest_key t k ((k', e) # m) =
     (if cached_at e < t then oldest_key (cached_at e) k' m else oldest_key t k m)"

definition evict_oldest :: "(string \<times> CacheEntry) list \<Rightarrow> (string \<times> CacheEntry) list" where
  "evict_oldest m =
     (if length m \<ge> SEMANTIC_CACHE_MAX_ENTRIES then
        let k = oldest_key long_max [] m in if k \<noteq> [] then smap_erase k m else m
      else m)"

definition semantic_cache_store :: "json_text \<Rightarrow> int \<Rightarrow> string \<Rightarrow> string \<Rightarrow> (InferenceState, unit) op" where
  "semantic_cache_store tx now request response s =
     (case query_key tx request of
        Inl e \<Rightarrow> (Inl e, s)
      | Inr None \<Rightarrow> (Inr (), s)
      | Inr (Some k) \<Rightarrow>
          (Inr (), s\<lparr>semantic_cache := smap_insert k \<lparr>cached_response = response, cached_at = now\<rparr>
            (evict_oldest (semantic_cache s))\<rparr>))"

section \<open>The prompt\<close>

definition jstr :: "json_text \<Rightarrow> json \<Rightarrow> string \<Rightarrow> string \<Rightarrow> string result" where
  "jstr tx j key dflt =
     (case jmember j key of
        JNull \<Rightarrow> Inr dflt
      | JString s \<Rightarrow> Inr s
      | v \<Rightarrow> dump_text tx v)"

fun native_calls :: "json_text \<Rightarrow> json list \<Rightarrow> string result" where
  "native_calls tx [] = Inr []"
| "native_calls tx (tc # tcs) =
     bindE (if contains tc ''function'' then
              bindE (jstr tx (jmember tc ''function'') ''name'' []) (\<lambda>name.
              bindE (jstr tx (jmember tc ''function'') ''arguments'' ''{}'') (\<lambda>args.
                Inr (TOOL_START @ [NL] @ ''{'' @ [DQ] @ ''name'' @ [DQ] @ '': '' @ [DQ] @ name @ [DQ] @ '', ''
                  @ [DQ] @ ''arguments'' @ [DQ] @ '': '' @ args @ ''}'' @ [NL] @ TOOL_END @ [NL])))
            else Inr []) (\<lambda>t.
     bindE (native_calls tx tcs) (\<lambda>ts. Inr (t @ ts)))"

definition chatml_message :: "json_text \<Rightarrow> json \<Rightarrow> string result" where
  "chatml_message tx m =
     bindE (jstr tx m ''role'' ''user'') (\<lambda>role.
     bindE (jstr tx m ''content'' []) (\<lambda>content.
     bindE (case jmember m ''tool_calls'' of
              JArray tcs \<Rightarrow> if role = ''assistant'' \<and> content = [] then native_calls tx tcs else Inr content
            | _ \<Rightarrow> Inr content) (\<lambda>content.
       if role = ''tool'' then
         bindE (jstr tx m ''name'' []) (\<lambda>name.
         bindE (if name \<noteq> [] then
                  bindE (dump_text tx (JString content)) (\<lambda>c.
                    Inr (''{'' @ [DQ] @ ''name'' @ [DQ] @ '': '' @ [DQ] @ name @ [DQ] @ '', ''
                      @ [DQ] @ ''content'' @ [DQ] @ '': '' @ c @ ''}'' @ [NL]))
                else Inr (content @ [NL])) (\<lambda>t.
           Inr (''<|im_start|>tool'' @ [NL] @ t @ ''<|im_end|>'' @ [NL])))
       else Inr (''<|im_start|>'' @ role @ [NL] @ content @ ''<|im_end|>'' @ [NL]))))"

definition build_chatml_prompt :: "json_text \<Rightarrow> json list \<Rightarrow> string result" where
  "build_chatml_prompt tx ms =
     bindE (mapE (chatml_message tx) ms) (\<lambda>ts. Inr (concat ts @ ''<|im_start|>assistant'' @ [NL]))"

section \<open>The grammar for a retry\<close>

definition gbnf_head :: string where
  \<open>gbnf_head = unlines
    [''root ::= toolcall (ws toolcall)*'',
     ''toolcall ::= "<tool_call>'' @ [BSL] @ ''n" toolobj "'' @ [BSL] @ ''n</tool_call>" ws'',
     ''toolobj ::= "{" ws "'' @ [BSL] @ ''"name'' @ [BSL] @ ''"" ws ":" ws toolname ws "," ws "'' @ [BSL] @ ''"arguments'' @ [BSL] @ ''"" ws ":" ws object ws "}"'']\<close>

definition gbnf_tail :: string where
  \<open>gbnf_tail = unlines
    [''object ::= "{" ws "}" | "{" ws members ws "}"'',
     ''members ::= pair ("," ws pair)*'',
     ''pair ::= string ws ":" ws value'',
     ''array ::= "[" ws "]" | "[" ws values ws "]"'',
     ''values ::= value ("," ws value)*'',
     ''value ::= string | number | object | array | "true" | "false" | "null"'',
     ''string ::= "'' @ [BSL] @ ''"" chars "'' @ [BSL] @ ''""'',
     ''chars ::= char*'',
     ''char ::= [^"'' @ [BSL] @ [BSL] @ [BSL] @ ''x00-'' @ [BSL] @ ''x1f] | "'' @ [BSL] @ [BSL] @ ''" escape'',
     ''escape ::= ["'' @ [BSL] @ [BSL] @ [BSL] @ ''/bfnrt] | "u" hex hex hex hex'',
     ''hex ::= [0-9a-fA-F]'',
     ''number ::= "-"? int frac? exp?'',
     ''int ::= "0" | [1-9] [0-9]*'',
     ''frac ::= "." [0-9]+'',
     ''exp ::= [eE] [+-]? [0-9]+'',
     ''ws ::= [ '' @ [BSL] @ ''t'' @ [BSL] @ ''n'' @ [BSL] @ ''r]*'']\<close>

definition function_names :: "json \<Rightarrow> string list" where
  "function_names tools =
     (case tools of
        JArray ts \<Rightarrow> concat (map (\<lambda>t. case jmember (jmember t ''function'') ''name'' of JString n \<Rightarrow> [n] | _ \<Rightarrow> []) ts)
      | _ \<Rightarrow> [])"

definition name_rule :: "string \<Rightarrow> string" where
  "name_rule n = [DQ, BSL, DQ] @ n @ [BSL, DQ, DQ]"

fun join_bar :: "string list \<Rightarrow> string" where
  "join_bar [] = []"
| "join_bar [r] = r"
| "join_bar (r # rs) = r @ '' | '' @ join_bar rs"

definition build_tool_call_gbnf :: "json \<Rightarrow> string" where
  "build_tool_call_gbnf tools =
     (let names = function_names tools
      in if names = [] then []
         else gbnf_head @ ''toolname ::= '' @ join_bar (map name_rule names) @ [NL] @ gbnf_tail)"

section \<open>Inference over the model server\<close>

text \<open>Conversion to a \<^verbatim>\<open>float\<close>: the nearest number with 24 significant bits, to even on a tie (no
  overflow and no denormal numbers, which a temperature does not reach).\<close>

fun bit_length :: "nat \<Rightarrow> nat" where
  "bit_length n = (if n = 0 then 0 else Suc (bit_length (n div 2)))"

declare bit_length.simps [simp del]

definition round_even :: "rat \<Rightarrow> int" where
  "round_even r =
     (let f = \<lfloor>r\<rfloor>; d = r - of_int f
      in if d < 1 / 2 then f else if d > 1 / 2 then f + 1 else if even f then f else f + 1)"

definition two_power :: "int \<Rightarrow> rat" where
  "two_power k = (if 0 \<le> k then 2 ^ nat k else 1 / 2 ^ nat (- k))"

definition to_float :: "rat \<Rightarrow> rat" where
  "to_float r =
     (if r = 0 then 0
      else let (p, q) = quotient_of \<bar>r\<bar>;
               k = 24 - int (bit_length (nat p)) + int (bit_length (nat q));
               k = (if \<bar>r\<bar> * two_power k \<ge> 2 ^ 24 then k - 1 else k)
           in of_int (round_even (r * two_power k)) / two_power k)"

definition get_float :: "json \<Rightarrow> rat result" where
  "get_float j = bindE (get_double j) (\<lambda>r. Inr (to_float r))"

text \<open>\<open>std::max(0.1f, temperature - 0.2f)\<close>.\<close>

definition retry_temperature :: "rat \<Rightarrow> rat" where
  "retry_temperature t = max (to_float (1 / 10)) (to_float (t - to_float (2 / 10)))"

definition completion_request :: "string \<Rightarrow> int \<Rightarrow> rat \<Rightarrow> string \<Rightarrow> json" where
  "completion_request prompt n t grammar =
     jobj ([(''prompt'', JString prompt), (''n_predict'', JInt n), (''temperature'', JFloat t),
         (''stop'', stop_tokens), (''stream'', JBool False)]
       @ (if grammar \<noteq> [] then [(''grammar'', JString grammar)] else []))"

text \<open>What one call meets: whether a model is loaded, the clocks of the cache and of the response,
  and the model server, which answers a request with a status and a body or not at all.\<close>

type_synonym model_server = "string \<Rightarrow> (int \<times> string) option"

record infer_env =
  model_loaded :: bool
  lookup_now :: int
  reply_now :: int
  store_now :: int
  complete :: model_server
  retry_complete :: model_server

definition server_error :: "(int \<times> string) option \<Rightarrow> string" where
  "server_error r =
     (case r of
        None \<Rightarrow> ''[inference error: llama-server unreachable]''
      | Some (st, _) \<Rightarrow> ''[inference error: llama-server returned HTTP '' @ show_int st @ '']'')"

text \<open>The text of a completion. Of one without a text the code logs the keys, which throws for a
  value that has members but no keys.\<close>

definition has_keyless_members :: "json \<Rightarrow> bool" where
  "has_keyless_members j = (case j of JObject _ \<Rightarrow> False | JNull \<Rightarrow> False | JArray [] \<Rightarrow> False | _ \<Rightarrow> True)"

definition completion_text :: "json option \<Rightarrow> string result" where
  "completion_text cj =
     (case cj of
        None \<Rightarrow> Inr []
      | Some j \<Rightarrow>
          (case jmember j ''content'' of
             JString t \<Rightarrow> Inr t
           | _ \<Rightarrow> if has_keyless_members j then Inl (InvalidIterator 207) else Inr []))"

text \<open>The speed in the timings of a completion.\<close>

definition update_rate :: "json \<Rightarrow> (InferenceState, unit) op" where
  "update_rate j s =
     (if contains j ''timings'' then
        case jvalue get_double (jmember j ''timings'') ''predicted_per_second'' 0 of
          Inl e \<Rightarrow> (Inl e, s)
        | Inr pps \<Rightarrow> (Inr (), if pps > 0 then s\<lparr>tokens_per_sec := pps\<rparr> else s)
      else (Inr (), s))"

definition parse_calls :: "json_text \<Rightarrow> string \<Rightarrow> (InferenceState, json list) op" where
  "parse_calls tx t s =
     (case parse_qwen_tool_calls tx t (call_counter s) of (r, n) \<Rightarrow> (r, s\<lparr>call_counter := n\<rparr>))"

text \<open>The second attempt, with the grammar: the text and the calls that replace those of the first,
  when it parses.\<close>

definition retry_with_grammar ::
  "infer_env \<Rightarrow> json_text \<Rightarrow> string \<Rightarrow> string \<Rightarrow> int \<Rightarrow> rat \<Rightarrow> string \<Rightarrow> (InferenceState, string \<times> json list) op" where
  "retry_with_grammar env tx grammar prompt n t text =
     bindS (liftS (dump_text tx (completion_request prompt n (retry_temperature t) grammar))) (\<lambda>req.
       case retry_complete env req of
         None \<Rightarrow> returnS (text, [])
       | Some (st, body) \<Rightarrow>
           if st \<noteq> 200 then returnS (text, [])
           else (case snd tx body of
                   None \<Rightarrow> returnS (text, [])
                 | Some j \<Rightarrow>
                     (case jmember j ''content'' of
                        JString text2 \<Rightarrow>
                          bindS (parse_calls tx text2) (\<lambda>calls.
                            if calls = [] then returnS (text, [])
                            else bindS (update_rate j) (\<lambda>_. returnS (text2, calls)))
                      | _ \<Rightarrow> returnS (text, []))))"

definition usage_json :: "json option \<Rightarrow> json result" where
  "usage_json cj =
     bindE (case cj of None \<Rightarrow> Inr 0 | Some j \<Rightarrow> jvalue get_int j ''tokens_evaluated'' 0) (\<lambda>a.
     bindE (case cj of None \<Rightarrow> Inr 0 | Some j \<Rightarrow> jvalue get_int j ''tokens_predicted'' 0) (\<lambda>b.
       Inr (jobj [(''prompt_tokens'', JInt a), (''completion_tokens'', JInt b), (''total_tokens'', JInt (to_i32 (a + b)))])))"

text \<open>The response made of a completion, and its entry in the cache when it has no calls.\<close>

definition wrap_completion ::
  "infer_env \<Rightarrow> json_text \<Rightarrow> string \<Rightarrow> json option \<Rightarrow> string \<times> json list \<Rightarrow> (InferenceState, string) op" where
  "wrap_completion env tx request cj tc =
     bindS (liftS (usage_json cj)) (\<lambda>usage.
     bindS (case cj of None \<Rightarrow> returnS () | Some j \<Rightarrow> update_rate j) (\<lambda>_.
     bindS (liftS (dump_text tx (completion_json (''chatcmpl-'' @ show_int (reply_now env)) ''llamaste''
         (if snd tc \<noteq> [] then call_choice (snd tc) else text_choice (strip_tool_call_residue (fst tc))) usage))) (\<lambda>resp.
     bindS (if snd tc = [] then semantic_cache_store tx (store_now env) request resp else returnS ()) (\<lambda>_.
       returnS resp))))"

definition prompt_of :: "json_text \<Rightarrow> json \<Rightarrow> string result" where
  "prompt_of tx req =
     (case jmember req ''messages'' of
        JArray ms \<Rightarrow> build_chatml_prompt tx ms
      | _ \<Rightarrow> Inr (''<|im_start|>user'' @ [NL] @ ''hello<|im_end|>'' @ [NL] @ ''<|im_start|>assistant'' @ [NL]))"

definition infer_completion ::
  "infer_env \<Rightarrow> json_text \<Rightarrow> string \<Rightarrow> json \<Rightarrow> (InferenceState, string) op" where
  "infer_completion env tx request req =
     bindS (liftS (jvalue get_int req ''max_tokens'' 2048)) (\<lambda>n.
     bindS (liftS (jvalue get_float req ''temperature'' default_temperature)) (\<lambda>t.
     bindS (liftS (prompt_of tx req)) (\<lambda>prompt.
     bindS (liftS (dump_text tx (completion_request prompt n t []))) (\<lambda>body.
       case complete env body of
         None \<Rightarrow> liftS (make_inference_error tx (server_error None))
       | Some (st, answer) \<Rightarrow>
           if st \<noteq> 200 then liftS (make_inference_error tx (server_error (Some (st, answer))))
           else
             bindS (liftS (completion_text (snd tx answer))) (\<lambda>t0.
             bindS (parse_calls tx t0) (\<lambda>calls.
             bindS (if calls = [] \<and> find_sub TOOL_START t0 \<noteq> None then
                      bindS (liftS (jvalue get_json req ''tools'' (JArray []))) (\<lambda>tools.
                        let grammar = build_tool_call_gbnf tools
                        in if grammar \<noteq> [] then retry_with_grammar env tx grammar prompt n t t0
                           else returnS (t0, []))
                    else returnS (t0, calls)) (\<lambda>tc.
               wrap_completion env tx request (snd tx answer) tc)))))))"

definition llama_inference :: "infer_env \<Rightarrow> json_text \<Rightarrow> string \<Rightarrow> (InferenceState, string) op" where
  "llama_inference env tx request =
     (if \<not> model_loaded env then liftS (stub_inference tx request)
      else bindS (semantic_cache_lookup tx (lookup_now env) request) (\<lambda>cached.
             if cached \<noteq> [] then returnS cached
             else case snd tx request of
                    None \<Rightarrow> liftS (make_inference_error tx ''[inference error: failed to parse request]'')
                  | Some req \<Rightarrow> infer_completion env tx request req))"

end
