(* ===== verification/InferenceFacts.thy ===== *)
theory InferenceFacts
  imports Inference AgentFacts
begin

text \<open>
  The lemmas and properties of the inference functions: the hash and the cache, where the key of
  the cache and the prompt confuse different conversations, and the way of a tool call from the
  text of the model to the agent.
\<close>

unbundle bit_operations_syntax

section \<open>The hash\<close>

lemma fnv_prime_inverse: "(1099511628211 :: u64) * 14886173955864302971 = 1"
  by simp

lemma fnv_step_inj: "fnv_step c h = fnv_step d k \<longleftrightarrow> h XOR of_char c = k XOR of_char d"
proof
  assume "fnv_step c h = fnv_step d k"
  then have "(h XOR of_char c) * 1099511628211 * 14886173955864302971
      = (k XOR of_char d) * 1099511628211 * (14886173955864302971 :: u64)"
    by (simp add: fnv_step_def)
  then show "h XOR of_char c = k XOR of_char d"
    by (simp only: mult.assoc fnv_prime_inverse mult_1_right)
qed (simp add: fnv_step_def)

lemma fnv_fold_inj: "fold fnv_step s h = fold fnv_step s k \<longleftrightarrow> h = k"
proof (induction s arbitrary: h k)
  case (Cons c s)
  have "h XOR of_char c = k XOR of_char c \<longleftrightarrow> h = k"
    by (metis xor.assoc xor_self_eq xor.right_neutral)
  with Cons show ?case by (simp add: fnv_step_inj)
qed simp

lemma unat_of_char_u64: "unat (of_char c :: u64) = of_char c"
proof -
  have "(of_char c :: nat) \<in> range of_char" by simp
  then have "(of_char c :: nat) < 256" by (simp only: range_nat_of_char) simp
  then have "(of_char c :: nat) < 2 ^ 64" by (rule less_trans) simp
  then have "unat (of_nat (of_char c) :: u64) = of_char c" by (simp add: unat_of_nat)
  then show ?thesis by (simp only: of_nat_of_char)
qed

lemma of_char_u64_inj: "(of_char a :: u64) = of_char b \<longleftrightarrow> a = b"
proof
  assume "(of_char a :: u64) = of_char b"
  then have "unat (of_char a :: u64) = unat (of_char b :: u64)" by (rule arg_cong)
  then show "a = b" by (simp only: unat_of_char_u64 of_char_eq_iff)
qed simp

text \<open>
  two texts that differ in exactly one byte never have the same hash, and texts with a common
  rest have the same hash only when their parts before it have.
\<close>

theorem fnv1a_separates:
  assumes "c \<noteq> d"
  shows "fnv1a_hash (s @ [c] @ t) \<noteq> fnv1a_hash (s @ [d] @ t)
    \<and> (fnv1a_hash (a @ t) = fnv1a_hash (b @ t) \<longleftrightarrow> fnv1a_hash a = fnv1a_hash b)"
proof -
  have ne: "h XOR of_char c \<noteq> h XOR (of_char d :: u64)" for h
  proof
    assume "h XOR of_char c = h XOR (of_char d :: u64)"
    then have "h XOR (h XOR of_char c) = h XOR (h XOR (of_char d :: u64))" by (rule arg_cong)
    then have "(of_char c :: u64) = of_char d"
      by (simp only: xor.assoc [symmetric] xor_self_eq xor.left_neutral)
    with assms show False by (simp only: of_char_u64_inj)
  qed
  have app: "fnv1a_hash (u @ v) = fold fnv_step v (fnv1a_hash u)" for u v
    by (simp only: fnv1a_hash_def fold_append comp_apply)
  have "fold fnv_step ([c] @ t) h \<noteq> fold fnv_step ([d] @ t) h" for h
    using ne by (simp only: fold_append comp_apply fold_simps fnv_fold_inj fnv_step_inj not_False_eq_True)
  then show ?thesis by (simp only: app fnv_fold_inj) blast
qed

theorem fnv1a_separates_witness:
  "fnv1a_hash ''status a?'' \<noteq> fnv1a_hash ''status b?''"
  using fnv1a_separates [of "CHR ''a''" "CHR ''b''" "''status ''" "''?''"] by simp

section \<open>The cache\<close>

datatype cache_op = CacheStore int string string | CacheLookup int string

fun cache_step :: "json_text \<Rightarrow> cache_op \<Rightarrow> InferenceState \<Rightarrow> InferenceState" where
  "cache_step tx (CacheStore now req resp) s = snd (semantic_cache_store tx now req resp s)"
| "cache_step tx (CacheLookup now req) s = snd (semantic_cache_lookup tx now req s)"

text \<open>Stores and lookups out of a set, with a clock before the end of the epoch.\<close>

fun cache_legal :: "cache_op set \<Rightarrow> cache_op \<Rightarrow> bool" where
  "cache_legal A (CacheStore now req resp) = (CacheStore now req resp \<in> A \<and> now < long_max)"
| "cache_legal A (CacheLookup now req) = True"

definition entry_ok :: "json_text \<Rightarrow> cache_op set \<Rightarrow> string \<times> CacheEntry \<Rightarrow> bool" where
  "entry_ok tx A = (\<lambda>(k, e). k \<noteq> [] \<and> cached_at e < long_max
     \<and> (\<exists>req. CacheStore (cached_at e) req (cached_response e) \<in> A \<and> query_key tx req = Inr (Some k)))"

definition cache_inv :: "json_text \<Rightarrow> cache_op set \<Rightarrow> InferenceState \<Rightarrow> bool" where
  "cache_inv tx A s \<longleftrightarrow> smap_sorted (semantic_cache s) \<and> length (semantic_cache s) \<le> SEMANTIC_CACHE_MAX_ENTRIES
     \<and> list_all (entry_ok tx A) (semantic_cache s)"

lemma oldest_key_in:
  "oldest_key t k m = k \<and> (\<forall>(k', e) \<in> set m. t \<le> cached_at e) \<or> oldest_key t k m \<in> fst ` set m"
proof (induction t k m rule: oldest_key.induct)
  case (2 t k k' e m)
  then show ?case by (cases "cached_at e < t") auto
qed simp

lemma length_smap_erase: "k \<in> fst ` set m \<Longrightarrow> length (smap_erase k m) < length m"
  unfolding smap_erase_def by (auto intro: length_filter_less)

lemma length_smap_insert: "length (smap_insert k v m) \<le> Suc (length m)"
  by (induction k v m rule: smap_insert.induct) auto

lemma set_smap_erase: "set (smap_erase k m) \<subseteq> set m"
  by (auto simp: smap_erase_def)

lemma evict_oldest_room:
  assumes "length m \<le> SEMANTIC_CACHE_MAX_ENTRIES" "list_all (entry_ok tx A) m"
  shows "length (evict_oldest m) < SEMANTIC_CACHE_MAX_ENTRIES"
proof (cases "SEMANTIC_CACHE_MAX_ENTRIES \<le> length m")
  case True
  then have "m \<noteq> []" by (auto simp: SEMANTIC_CACHE_MAX_ENTRIES_def)
  then obtain k e where ke: "(k, e) \<in> set m" by (cases m) auto
  with assms(2) have "cached_at e < long_max" by (auto simp: list_all_iff entry_ok_def)
  with ke oldest_key_in [of long_max "[]" m] have in_m: "oldest_key long_max [] m \<in> fst ` set m" by force
  with assms(2) have "oldest_key long_max [] m \<noteq> []" by (force simp: list_all_iff entry_ok_def)
  with True length_smap_erase [OF in_m] assms(1) show ?thesis by (simp add: evict_oldest_def Let_def)
qed (simp add: evict_oldest_def)

lemma evict_oldest_part: "set (evict_oldest m) \<subseteq> set m" "smap_sorted m \<Longrightarrow> smap_sorted (evict_oldest m)"
  by (auto simp: evict_oldest_def Let_def smap_erase_def split: if_splits) (metis smap_erase_def smap_sorted_erase)

lemma query_key_nonempty: "query_key tx req = Inr (Some k) \<Longrightarrow> k \<noteq> []"
  by (auto simp: query_key_def cache_key_def bindE_Inr_iff split: option.splits json.splits prod.splits if_splits)

lemma cache_inv_store:
  assumes "cache_inv tx A s" "CacheStore now req resp \<in> A" "now < long_max"
  shows "cache_inv tx A (snd (semantic_cache_store tx now req resp s))"
proof -
  consider e where "query_key tx req = Inl e" | "query_key tx req = Inr None"
    | k where "query_key tx req = Inr (Some k)"
    by (metis not_None_eq sum.exhaust)
  then show ?thesis
  proof cases
    case 3
    let ?v = "\<lparr>cached_response = resp, cached_at = now\<rparr>" and ?m = "evict_oldest (semantic_cache s)"
    have "entry_ok tx A (k, ?v)"
      using assms(2,3) 3 query_key_nonempty [OF 3] by (auto simp: entry_ok_def)
    moreover have "list_all (entry_ok tx A) ?m"
      using assms(1) evict_oldest_part(1) [of "semantic_cache s"] by (auto simp: cache_inv_def list_all_iff)
    ultimately have "list_all (entry_ok tx A) (smap_insert k ?v ?m)"
      using set_smap_insert [of k ?v ?m] by (auto simp: list_all_iff)
    moreover have "length ?m < SEMANTIC_CACHE_MAX_ENTRIES"
      using assms(1) evict_oldest_room [of _ tx A] by (auto simp: cache_inv_def)
    with length_smap_insert [of k ?v ?m] have "length (smap_insert k ?v ?m) \<le> SEMANTIC_CACHE_MAX_ENTRIES" by simp
    ultimately show ?thesis
      using assms(1) 3 by (auto simp: semantic_cache_store_def cache_inv_def evict_oldest_part(2))
  qed (use assms(1) in \<open>simp_all add: semantic_cache_store_def\<close>)
qed

lemma cache_inv_lookup:
  assumes "cache_inv tx A s"
  shows "cache_inv tx A (snd (semantic_cache_lookup tx now req s))"
proof -
  have "cache_inv tx A (s\<lparr>semantic_cache := smap_erase k (semantic_cache s)\<rparr>)" for k
    using assms set_smap_erase [of k "semantic_cache s"]
    by (auto simp: cache_inv_def list_all_iff smap_erase_def intro: order.trans [OF length_filter_le])
      (metis smap_erase_def smap_sorted_erase)
  with assms show ?thesis
    by (simp add: semantic_cache_lookup_def split: sum.split option.split)
qed

definition empty_cache :: InferenceState where
  "empty_cache = \<lparr>semantic_cache = [], call_counter = 0, tokens_per_sec = 0\<rparr>"

interpretation cache: reachable_system "cache_step tx" "cache_inv tx A" "cache_legal A" empty_cache for tx A
proof (unfold_locales, goal_cases)
  case (1 s x)
  then show ?case by (cases x) (simp_all add: cache_inv_store cache_inv_lookup)
next
  case 2
  show ?case by (simp add: cache_inv_def empty_cache_def smap_sorted_def SEMANTIC_CACHE_MAX_ENTRIES_def)
qed

lemma lookup_hit:
  assumes "cache_inv tx A s" "fst (semantic_cache_lookup tx now req s) = Inr r" "r \<noteq> []"
  shows "\<exists>t req'. CacheStore t req' r \<in> A \<and> query_key tx req' = query_key tx req
    \<and> now - t \<le> SEMANTIC_CACHE_TTL_SECONDS"
proof -
  obtain k e where k: "query_key tx req = Inr (Some k)" "map_of (semantic_cache s) k = Some e"
      "r = cached_response e" "now - cached_at e \<le> SEMANTIC_CACHE_TTL_SECONDS"
    using assms(2,3) by (auto simp: semantic_cache_lookup_def split: sum.splits option.splits if_splits)
  then have "entry_ok tx A (k, e)"
    using assms(1) by (auto simp: cache_inv_def list_all_iff dest: map_of_SomeD)
  with k show ?thesis by (auto simp: entry_ok_def)
qed

text \<open>
  C37: after any sequence of stores and lookups the cache has at most 50 entries, and a hit is the
  response of an earlier store for a request with the same key, not older than the limit of ten
  minutes.
\<close>

theorem semantic_cache_sound:
  assumes "list_all (cache_legal (set ops)) ops"
    and "fst (semantic_cache_lookup tx now req (fold (cache_step tx) ops empty_cache)) = Inr r" "r \<noteq> []"
  shows "length (semantic_cache (fold (cache_step tx) ops empty_cache)) \<le> 50
    \<and> (\<exists>t req'. CacheStore t req' r \<in> set ops \<and> query_key tx req' = query_key tx req \<and> now - t \<le> 600)"
proof -
  have inv: "cache_inv tx (set ops) (fold (cache_step tx) ops empty_cache)"
    by (rule cache.reachable_inv [OF assms(1)])
  from lookup_hit [OF inv assms(2,3)] inv show ?thesis
    by (simp add: cache_inv_def SEMANTIC_CACHE_MAX_ENTRIES_def SEMANTIC_CACHE_TTL_SECONDS_def)
qed

text \<open>A conversation of the system and one message of a user, as the agent sends it.\<close>

definition query :: "string \<Rightarrow> string \<Rightarrow> json" where
  "query sys user = jobj [(''messages'', to_messages_json (add_user_message user (new_conversation [] sys)))]"

lemma query_key_query:
  "snd tx req = Some (query sys user) \<Longrightarrow> user \<noteq> [] \<Longrightarrow> query_key tx req = Inr (Some (cache_key sys user))"
  by (simp add: query_key_def query_def to_messages_json_def add_user_message_def push_message_def new_conversation_def
      message_json_def text_message_def cpp_simps)

lemma store_then_lookup:
  assumes "query_key tx req = Inr (Some k)" "query_key tx req' = Inr (Some k)" "now' - now \<le> 600"
  shows "fst (semantic_cache_lookup tx now' req' (snd (semantic_cache_store tx now req resp s))) = Inr resp"
  using assms by (simp add: semantic_cache_lookup_def semantic_cache_store_def SEMANTIC_CACHE_TTL_SECONDS_def)

theorem semantic_cache_sound_witness:
  "\<exists>t req'. CacheStore t req' ''yes'' \<in> {CacheStore 5 ''q'' ''yes''} \<and> query_key (\<lambda>_. [], \<lambda>_. Some (query [] ''a'')) req' = query_key (\<lambda>_. [], \<lambda>_. Some (query [] ''a'')) ''q'' \<and> 9 - t \<le> 600"
proof -
  let ?tx = "(\<lambda>_. [], \<lambda>_. Some (query [] ''a'')) :: json_text"
  have k: "query_key ?tx ''q'' = Inr (Some (cache_key [] ''a''))" by (rule query_key_query) simp_all
  have "fst (semantic_cache_lookup ?tx 9 ''q'' (fold (cache_step ?tx) [CacheStore 5 ''q'' ''yes''] empty_cache)) = Inr ''yes''"
    using store_then_lookup [OF k k, of 9 5 "''yes''"] by simp
  from semantic_cache_sound [OF _ this] show ?thesis by (simp add: long_max_def)
qed

text \<open>
  nothing separates the system prompt from the text of the user in the key of the cache: two
  different queries whose texts are the same when put together share their entry, and the second
  is answered with the response to the first.
\<close>

theorem cache_confuses_queries:
  assumes "snd tx req = Some (query (sys @ b) user)" "snd tx req' = Some (query sys (b @ user))"
    and "user \<noteq> []" "now' - now \<le> 600"
  shows "fst (semantic_cache_lookup tx now' req' (snd (semantic_cache_store tx now req resp s))) = Inr resp"
proof -
  have "query_key tx req = Inr (Some (cache_key (sys @ b) user))"
    using assms(1,3) by (rule query_key_query)
  moreover have "query_key tx req' = Inr (Some (cache_key sys (b @ user)))"
    using assms(2,3) by (intro query_key_query) simp_all
  moreover have "cache_key (sys @ b) user = cache_key sys (b @ user)" by (simp add: cache_key_def)
  ultimately show ?thesis using store_then_lookup assms(4) by metis
qed

definition two_queries :: json_text where
  "two_queries = (\<lambda>_. [], \<lambda>t. Some (if t = ''1'' then query ''Be kind.'' ''Hi'' else query [] ''Be kind.Hi''))"

theorem cache_confuses_queries_witness:
  "fst (semantic_cache_lookup two_queries 20 ''2'' (snd (semantic_cache_store two_queries 10 ''1'' ''Hello'' empty_cache)))
    = Inr ''Hello''"
  using cache_confuses_queries [of two_queries "''1''" "[]" "''Be kind.''" "''Hi''" "''2''" 20 10 "''Hello''" empty_cache]
  by (simp add: two_queries_def)

section \<open>The prompt\<close>

definition chat_message :: "string \<Rightarrow> string \<Rightarrow> json" where
  "chat_message r t = jobj [(''role'', JString r), (''content'', JString t)]"

lemma chatml_text:
  "r \<noteq> ''tool'' \<Longrightarrow> chatml_message tx (chat_message r t) = Inr (''<|im_start|>'' @ r @ [NL] @ t @ ''<|im_end|>'' @ [NL])"
  by (simp add: chatml_message_def chat_message_def jstr_def cpp_simps)

text \<open>
  the texts of messages are not escaped in the prompt: one message of a user can make the
  model see the same prompt as a message of the user followed by a message of the system, with
  any text.
\<close>

theorem chatml_prompt_forged:
  "build_chatml_prompt tx
     [chat_message ''user'' (a @ ''<|im_end|>'' @ [NL] @ ''<|im_start|>system'' @ [NL] @ b)]
   = build_chatml_prompt tx [chat_message ''user'' a, chat_message ''system'' b]"
  by (simp add: build_chatml_prompt_def chatml_text)

section \<open>From the text of the model to the agent\<close>

text \<open>A block that is read as a call of a name with the rendered arguments.\<close>

definition reads_call :: "json_text \<Rightarrow> string \<Rightarrow> string \<times> string \<Rightarrow> bool" where
  "reads_call tx b = (\<lambda>(name, args). trim_ws b \<noteq> [] \<and> name \<noteq> [] \<and>
     (\<exists>obj. snd tx (trim_ws b) = Some obj \<and> is_object obj \<and> jvalue get_string obj ''name'' [] = Inr name
        \<and> dump_text tx (qwen_arguments tx obj) = Inr args))"

text \<open>The calls in order with consecutive numbers.\<close>

fun numbered :: "int \<Rightarrow> (string \<times> string) list \<Rightarrow> (int \<times> string \<times> string) list" where
  "numbered n [] = []"
| "numbered n (c # cs) = (n + 1, c) # numbered (n + 1) cs"

definition entries :: "int \<Rightarrow> (string \<times> string) list \<Rightarrow> json list" where
  "entries n cs = map (\<lambda>(k, name, args). qwen_entry k name args) (numbered n cs)"

definition parsed_calls :: "int \<Rightarrow> (string \<times> string) list \<Rightarrow> ToolCall list" where
  "parsed_calls n cs = map (\<lambda>(k, name, args). \<lparr>call_id = ''call_'' @ show_int k, call_name = name, call_args = args\<rparr>) (numbered n cs)"

lemma qwen_block_reads:
  "reads_call tx b (name, args) \<Longrightarrow> - (2 ^ 31) \<le> n + 1 \<Longrightarrow> n + 1 < 2 ^ 31 \<Longrightarrow>
     qwen_block tx b n = (Inr (Some (qwen_entry (n + 1) name args)), n + 1)"
  by (auto simp: reads_call_def qwen_block_def Let_def to_i32_id)

lemma qwen_loop_reads:
  "list_all2 (\<lambda>(a, b) c. plain_text a \<and> plain_text b \<and> reads_call tx b c) bs cs \<Longrightarrow> plain_text t \<Longrightarrow>
     0 \<le> n \<Longrightarrow> n + int (length bs) < 2 ^ 31 \<Longrightarrow>
     qwen_loop tx (with_calls bs t) acc n = (Inr (acc @ entries n cs), n + int (length cs))"
proof (induction bs cs arbitrary: acc n rule: list_all2_induct)
  case Nil
  then show ?case by (subst qwen_loop.simps) (simp add: next_block_none entries_def)
next
  case (Cons ab bs c cs)
  obtain a b name args where abc: "ab = (a, b)" "c = (name, args)" by (cases ab; cases c)
  have nb: "next_block (with_calls (ab # bs) t) = Some (b, with_calls bs t)"
    using Cons(1) abc by (simp add: next_block_first)
  have qb: "qwen_block tx b n = (Inr (Some (qwen_entry (n + 1) name args)), n + 1)"
    using Cons(1,5,6) abc by (intro qwen_block_reads) auto
  have "qwen_loop tx (with_calls bs t) (acc @ [qwen_entry (n + 1) name args]) (n + 1)
      = (Inr ((acc @ [qwen_entry (n + 1) name args]) @ entries (n + 1) cs), n + 1 + int (length cs))"
    using Cons(4-6) by (intro Cons(3)) auto
  with nb qb abc show ?case by (subst qwen_loop.simps) (simp add: entries_def)
qed

lemma parse_entry: "parse_call tx (reparse (qwen_entry k name args)) = Inr \<lparr>call_id = ''call_'' @ show_int k, call_name = name, call_args = args\<rparr>"
  by (simp add: parse_call_def qwen_entry_def call_arguments_def cpp_simps Let_def)

lemma parse_wrapped_calls:
  assumes "snd tx resp = Some (reparse (completion_json i m (call_choice (entries n cs)) u))"
  shows "parse_tool_calls tx resp = Inr (parsed_calls n cs)"
proof -
  have "mapE (parse_call tx) (map reparse (entries n cs)) = Inr (parsed_calls n cs)"
    by (induction n cs rule: numbered.induct) (auto simp: entries_def parsed_calls_def parse_entry)
  then show ?thesis
    using assms by (simp add: parse_tool_calls_def completion_json_def call_choice_def first_message_def cpp_simps)
qed

text \<open>
  when the model writes texts and calls in turn, each call a JSON object with a name, then
  exactly these calls, in order, with consecutive numbers as identifiers, are what the agent gets
  from the response that is made of the completion.
\<close>

theorem qwen_calls_reach_agent:
  assumes "list_all2 (\<lambda>(a, b) c. plain_text a \<and> plain_text b \<and> reads_call tx b c) bs cs" "plain_text t"
    and "0 \<le> n" "n + int (length bs) < 2 ^ 31"
    and "snd tx resp = Some (reparse (completion_json i m (call_choice (entries n cs)) u))"
  shows "parse_qwen_tool_calls tx (with_calls bs t) n = (Inr (entries n cs), n + int (length cs))
    \<and> parse_tool_calls tx resp = Inr (parsed_calls n cs)
    \<and> map (\<lambda>c. (call_name c, call_args c)) (parsed_calls n cs) = cs"
proof -
  have "map (\<lambda>c. (call_name c, call_args c)) (parsed_calls n cs) = cs"
    by (induction n cs rule: numbered.induct) (auto simp: parsed_calls_def)
  with parse_wrapped_calls [OF assms(5)] qwen_loop_reads [OF assms(1-4), of "[]"]
  show ?thesis by (simp add: parse_qwen_tool_calls_def)
qed

text \<open>A text library that knows one call and one response.\<close>

definition demo_object :: json where
  "demo_object = jobj [(''name'', JString ''fs.list''), (''arguments'', JObject [])]"

definition demo_qwen :: json_text where
  "demo_qwen = (\<lambda>_. ''{}'', \<lambda>t. Some (if t = ''OBJ'' then demo_object
     else reparse (completion_json [] [] (call_choice (entries 0 [(''fs.list'', ''{}'')])) JNull)))"

theorem qwen_calls_reach_agent_witness:
  "parse_qwen_tool_calls demo_qwen ''Sure. <tool_call> OBJ </tool_call>'' 0 = (Inr (entries 0 [(''fs.list'', ''{}'')]), 1)
    \<and> parse_tool_calls demo_qwen ''resp'' = Inr [\<lparr>call_id = ''call_1'', call_name = ''fs.list'', call_args = ''{}''\<rparr>]"
proof -
  have t: "trim_ws '' OBJ '' = ''OBJ''" by (simp add: trim_ws_def is_trimmed_def)
  have "reads_call demo_qwen '' OBJ '' (''fs.list'', ''{}'')"
    by (simp add: reads_call_def t demo_qwen_def demo_object_def cpp_simps qwen_arguments_def dump_text_def dump_def)
  then have "parse_qwen_tool_calls demo_qwen (with_calls [(''Sure. '', '' OBJ '')] []) 0 = (Inr (entries 0 [(''fs.list'', ''{}'')]), 1)
      \<and> parse_tool_calls demo_qwen ''resp'' = Inr (parsed_calls 0 [(''fs.list'', ''{}'')])"
    using qwen_calls_reach_agent [of demo_qwen "[(''Sure. '', '' OBJ '')]" "[(''fs.list'', ''{}'')]" "[]" 0 "''resp''" "[]" "[]" JNull]
    by (simp add: plain_text_def) (simp add: demo_qwen_def)
  then show ?thesis
    by (simp add: TOOL_START_def TOOL_END_def parsed_calls_def show_int_def show_nat.simps digit_char_def char_of_def bit_0)
qed

end
