(* ===== verification/FsTools.thy ===== *)
theory FsTools
  imports LlPrelude JsonValue Registry
begin

text \<open>
  \<^verbatim>\<open>tools_fs.cpp\<close>: the file tools and the check that confines them to \<^verbatim>\<open>/data\<close>, over a model of
  the file system with symbolic links. Definitions only; the lemmas are in FsToolsFacts. What
  \<open>realpath\<close>, \<open>open\<close>, \<open>stat\<close> and \<open>unlink\<close> do with a path is written out as POSIX documents it; the order
  of a directory listing, the pattern matcher and the texts of system errors are arguments.
\<close>

section \<open>File systems and paths\<close>

datatype node = FileNode string | DirNode | LinkNode string

text \<open>What is found at an absolute path, given as the list of its names; the root is a directory.\<close>

type_synonym path = "string list"
type_synonym fs = "path \<Rightarrow> node option"

definition is_dir :: "fs \<Rightarrow> path \<Rightarrow> bool" where
  "is_dir fs p \<longleftrightarrow> p = [] \<or> fs p = Some DirNode"

definition slash :: char where "slash = CHR ''/''"

definition pieces :: "string \<Rightarrow> string list" where
  "pieces s = filter (\<lambda>x. x \<noteq> []) (getlines slash [] s)"

text \<open>The names on the way; a slash at the end asks for a directory.\<close>

definition path_names :: "string \<Rightarrow> string list" where
  "path_names s = pieces s @ (if s \<noteq> [] \<and> last s = slash then [''.''] else [])"

definition link_base :: "path \<Rightarrow> string \<Rightarrow> path" where
  "link_base cur t = (if t \<noteq> [] \<and> hd t = slash then [] else cur)"

text \<open>The walk of the kernel along names, with the number of symbolic links it may still follow:
  the place reached and the number left.\<close>

function walk :: "fs \<Rightarrow> nat \<Rightarrow> path \<Rightarrow> string list \<Rightarrow> (path \<times> nat) option" where
  "walk fs n cur [] = Some (cur, n)"
| "walk fs n cur (s # ss) =
     (if \<not> is_dir fs cur then None
      else if s = ''.'' then walk fs n cur ss
      else if s = ''..'' then walk fs n (butlast cur) ss
      else case fs (cur @ [s]) of
             None \<Rightarrow> None
           | Some (LinkNode t) \<Rightarrow>
               (case n of
                  0 \<Rightarrow> None
                | Suc m \<Rightarrow> if t = [] then None else walk fs m (link_base cur t) (path_names t @ ss))
           | Some _ \<Rightarrow> walk fs n (cur @ [s]) ss)"
  by pat_completeness auto
termination
  by (relation "measures [\<lambda>(fs, n, cur, ss). n, \<lambda>(fs, n, cur, ss). length ss]") auto

definition SYMLOOP_MAX :: nat where "SYMLOOP_MAX = 40"

definition render_path :: "path \<Rightarrow> string" where
  "render_path p = (if p = [] then [slash] else concat (map (\<lambda>s. slash # s) p))"

definition realpath :: "fs \<Rightarrow> string \<Rightarrow> string option" where
  "realpath fs p =
     (if p = [] then None else map_option (render_path \<circ> fst) (walk fs SYMLOOP_MAX [] (path_names p)))"

text \<open>Opening for reading: the node at the end of the walk.\<close>

definition open_existing :: "fs \<Rightarrow> string \<Rightarrow> path option" where
  "open_existing fs p = (if p = [] then None else map_option fst (walk fs SYMLOOP_MAX [] (path_names p)))"

lemma walk_budget: "walk fs n cur ss = Some (p, m) \<Longrightarrow> m \<le> n"
  by (induction fs n cur ss rule: walk.induct) (auto intro: le_SucI split: if_splits option.splits node.splits nat.splits)

text \<open>Opening for writing: a missing file is created in the directory that is reached, also where a
  symbolic link leads.\<close>

function create_at :: "fs \<Rightarrow> nat \<Rightarrow> path \<Rightarrow> string list \<Rightarrow> path option" where
  "create_at fs n cur ss =
     (if ss = [] \<or> last ss = ''.'' \<or> last ss = ''..'' then None
      else case walk fs n cur (butlast ss) of
             None \<Rightarrow> None
           | Some (d, m) \<Rightarrow>
               if \<not> is_dir fs d then None
               else (case fs (d @ [last ss]) of
                       None \<Rightarrow> Some (d @ [last ss])
                     | Some (FileNode _) \<Rightarrow> Some (d @ [last ss])
                     | Some DirNode \<Rightarrow> None
                     | Some (LinkNode t) \<Rightarrow>
                         (case m of
                            0 \<Rightarrow> None
                          | Suc k \<Rightarrow> if t = [] then None else create_at fs k (link_base d t) (path_names t))))"
  by pat_completeness auto
termination
  by (relation "measure (\<lambda>(fs, n, cur, ss). n)") (auto dest!: walk_budget)

declare create_at.simps [simp del]

definition open_create :: "fs \<Rightarrow> string \<Rightarrow> path option" where
  "open_create fs p = create_at fs SYMLOOP_MAX [] (path_names p)"

section \<open>The check\<close>

fun canonical_parts :: "string list \<Rightarrow> string list \<Rightarrow> string list" where
  "canonical_parts parts [] = parts"
| "canonical_parts parts (s # ss) =
     (if s = [] \<or> s = ''.'' then canonical_parts parts ss
      else if s = ''..'' then canonical_parts (if parts \<noteq> [] then butlast parts else parts) ss
      else canonical_parts (parts @ [s]) ss)"

definition canonicalize_path :: "string \<Rightarrow> string" where
  "canonicalize_path p = render_path (canonical_parts [] (getlines slash [] p))"

definition under_data :: "string \<Rightarrow> bool" where
  "under_data r \<longleftrightarrow> r = ''/data'' \<or> take 6 r = ''/data/''"

text \<open>\<open>find_last_of('/')\<close>.\<close>

definition last_slash :: "string \<Rightarrow> nat option" where
  "last_slash s = (if slash \<in> set s then Some (length s - 1 - length (takeWhile (\<lambda>c. c \<noteq> slash) (rev s))) else None)"

lemma last_slash_less: "last_slash s = Some i \<Longrightarrow> i < length s"
  by (cases s) (auto simp: last_slash_def split: if_splits)

function probe :: "fs \<Rightarrow> string \<Rightarrow> bool" where
  "probe fs p =
     (case realpath fs p of
        Some r \<Rightarrow> under_data r
      | None \<Rightarrow>
          (case last_slash p of
             None \<Rightarrow> False
           | Some i \<Rightarrow> if i = 0 then False else probe fs (take i p)))"
  by pat_completeness auto
termination
  by (relation "measure (\<lambda>(fs, p). length p)") (auto dest: last_slash_less)

declare probe.simps [simp del]

definition validate_data_path :: "fs \<Rightarrow> string \<Rightarrow> bool" where
  "validate_data_path fs p =
     (if p = ''/data'' then True
      else if take 6 p \<noteq> ''/data/'' then False
      else if \<not> under_data (canonicalize_path p) then False
      else if find_sub ''..'' p \<noteq> None then False
      else probe fs p)"

section \<open>The tools\<close>

definition path_error :: "string \<Rightarrow> json" where
  "path_error p = jobj [(''error'', JString ''path not allowed: must be under /data/''), (''path'', JString p)]"

definition reply :: "json_text \<Rightarrow> json \<Rightarrow> (fs, string) op" where
  "reply tx j = liftS (dump_text tx j)"

text \<open>The arguments of a tool, with the reply for a text that is not JSON.\<close>

definition with_args :: "json_text \<Rightarrow> string \<Rightarrow> (json \<Rightarrow> (fs, string) op) \<Rightarrow> (fs, string) op" where
  "with_args tx args f =
     (case snd tx args of None \<Rightarrow> reply tx (json_error ''invalid JSON arguments'') | Some j \<Rightarrow> f j)"

definition node_at :: "fs \<Rightarrow> path \<Rightarrow> node option" where
  "node_at fs p = (if p = [] then Some DirNode else fs p)"

definition node_content :: "node \<Rightarrow> string" where
  "node_content v = (case v of FileNode c \<Rightarrow> c | _ \<Rightarrow> [])"

definition fs_read_file :: "json_text \<Rightarrow> string \<Rightarrow> string \<Rightarrow> (fs, string) op" where
  "fs_read_file tx errno_text args =
     with_args tx args (\<lambda>j.
     bindS (liftS (jvalue get_string j ''path'' [])) (\<lambda>p. \<lambda>fs.
       if p = [] then reply tx (json_error ''path is required'') fs
       else if \<not> validate_data_path fs p then reply tx (path_error p) fs
       else bindS (liftS (jvalue get_int j ''max_bytes'' 65536)) (\<lambda>mb.
              let mb = (if mb > 1048576 then 1048576 else mb)
              in case open_existing fs p of
                   None \<Rightarrow> reply tx (json_error (''cannot open file: '' @ p @ '' ('' @ errno_text @ '')''))
                 | Some q \<Rightarrow>
                     if mb < 0 then liftS (Inl LengthError)
                     else let c = node_content (the (node_at fs q));
                              out = take (nat mb) c
                          in reply tx (jobj [(''path'', JString p), (''content'', JString out),
                               (''size'', JInt (int (length out))), (''truncated'', JBool (length c > nat mb))])) fs))"

text \<open>The device takes at most \<open>room\<close> bytes; neither the write nor the close is checked.\<close>

definition fs_write_file :: "json_text \<Rightarrow> string \<Rightarrow> nat \<Rightarrow> string \<Rightarrow> (fs, string) op" where
  "fs_write_file tx errno_text room args =
     with_args tx args (\<lambda>j.
     bindS (liftS (jvalue get_string j ''path'' [])) (\<lambda>p.
     bindS (liftS (jvalue get_string j ''content'' [])) (\<lambda>content. \<lambda>fs.
       if p = [] then reply tx (json_error ''path is required'') fs
       else if \<not> validate_data_path fs p then reply tx (path_error p) fs
       else bindS (liftS (jvalue get_bool j ''append'' False)) (\<lambda>append.
              case open_create fs p of
                None \<Rightarrow> reply tx (json_error (''cannot write file: '' @ p @ '' ('' @ errno_text @ '')''))
              | Some q \<Rightarrow>
                  let old = (case fs q of Some (FileNode c) \<Rightarrow> c | _ \<Rightarrow> []);
                      new = (if append then old else []) @ take room content
                  in bindS (modifyS (\<lambda>fs. fs(q \<mapsto> FileNode new))) (\<lambda>_.
                     reply tx (jobj [(''path'', JString p), (''bytes_written'', JUInt (int (length content))),
                       (''append'', JBool append)]))) fs)))"

text \<open>\<open>unlink\<close> does not follow a link in the last name.\<close>

definition unlink_at :: "fs \<Rightarrow> string \<Rightarrow> path option" where
  "unlink_at fs p =
     (let ss = path_names p
      in if ss = [] \<or> last ss = ''.'' \<or> last ss = ''..'' then None
         else case walk fs SYMLOOP_MAX [] (butlast ss) of
                None \<Rightarrow> None
              | Some (d, _) \<Rightarrow> if is_dir fs d \<and> fs (d @ [last ss]) \<noteq> None then Some (d @ [last ss]) else None)"

text \<open>\<open>may_unlink\<close> stands for the permissions and the media.\<close>

definition fs_delete_file :: "json_text \<Rightarrow> string \<Rightarrow> bool \<Rightarrow> string \<Rightarrow> (fs, string) op" where
  "fs_delete_file tx errno_text may_unlink args =
     with_args tx args (\<lambda>j.
     bindS (liftS (jvalue get_string j ''path'' [])) (\<lambda>p. \<lambda>fs.
       if p = [] then reply tx (json_error ''path is required'') fs
       else if \<not> validate_data_path fs p then reply tx (path_error p) fs
       else case open_existing fs p of
              None \<Rightarrow> reply tx (json_error (''file not found: '' @ p)) fs
            | Some q \<Rightarrow>
                if is_dir fs q then reply tx (json_error (''cannot delete directory with fs.delete_file: '' @ p)) fs
                else (case unlink_at fs p of
                        Some u \<Rightarrow>
                          if may_unlink then
                            reply tx (jobj [(''path'', JString p), (''deleted'', JBool True)]) (fs(u := None))
                          else reply tx (json_error (''delete failed: '' @ p @ '' ('' @ errno_text @ '')'')) fs
                      | None \<Rightarrow> reply tx (json_error (''delete failed: '' @ p @ '' ('' @ errno_text @ '')'')) fs)))"

text \<open>What the surroundings tell about a place: the names that \<open>readdir\<close> returns, in its order, and
  the size and modification time of \<open>stat\<close>.\<close>

record dir_env =
  listing :: "path \<Rightarrow> string list"
  size_of :: "path \<Rightarrow> int"
  modified :: "path \<Rightarrow> int"

definition open_dir :: "fs \<Rightarrow> string \<Rightarrow> path option" where
  "open_dir fs p =
     (case open_existing fs p of
        None \<Rightarrow> None
      | Some q \<Rightarrow> if is_dir fs q then Some q else None)"

definition kind_name :: "bool \<Rightarrow> json" where
  "kind_name d = JString (if d then ''directory'' else ''file'')"

definition dot_name :: "string \<Rightarrow> bool" where
  "dot_name n \<longleftrightarrow> n = ''.'' \<or> n = ''..''"

text \<open>An entry that cannot be followed is a file: of the kinds of \<open>readdir\<close> only a link fails.\<close>

definition dir_entry :: "dir_env \<Rightarrow> fs \<Rightarrow> string \<Rightarrow> string \<Rightarrow> json" where
  "dir_entry env fs p n =
     (case open_existing fs (p @ [slash] @ n) of
        Some q \<Rightarrow> jobj [(''name'', JString n), (''size'', JInt (size_of env q)),
          (''type'', kind_name (is_dir fs q)), (''modified'', JInt (modified env q))]
      | None \<Rightarrow> jobj [(''name'', JString n), (''type'', kind_name False)])"

definition fs_list_directory :: "json_text \<Rightarrow> string \<Rightarrow> dir_env \<Rightarrow> string \<Rightarrow> (fs, string) op" where
  "fs_list_directory tx errno_text env args =
     with_args tx args (\<lambda>j.
     bindS (liftS (jvalue get_string j ''path'' ''/data'')) (\<lambda>p. \<lambda>fs.
       if \<not> validate_data_path fs p then reply tx (path_error p) fs
       else case open_dir fs p of
              None \<Rightarrow> reply tx (json_error (''cannot open directory: '' @ p @ '' ('' @ errno_text @ '')'')) fs
            | Some q \<Rightarrow>
                let es = map (dir_entry env fs p) (filter (\<lambda>n. \<not> dot_name n) (listing env q))
                in reply tx (jobj [(''path'', JString p), (''entries'', JArray es),
                     (''count'', JUInt (int (length es)))]) fs))"

text \<open>\<open>statvfs\<close>: blocks, their size, the free ones and those free for users.\<close>

definition fs_disk_usage :: "json_text \<Rightarrow> string \<Rightarrow> (u64 \<times> u64 \<times> u64 \<times> u64) option \<Rightarrow> (fs, string) op" where
  "fs_disk_usage tx errno_text vfs =
     (case vfs of
        None \<Rightarrow> reply tx (json_error (''cannot stat /data: '' @ errno_text))
      | Some (blocks, frsize, bfree, bavail) \<Rightarrow>
          let total = blocks * frsize; free_bytes = bfree * frsize; avail = bavail * frsize; used = total - free_bytes
          in reply tx (jobj [(''path'', JString ''/data''), (''total_bytes'', JUInt (uint total)),
               (''used_bytes'', JUInt (uint used)), (''free_bytes'', JUInt (uint free_bytes)),
               (''available_bytes'', JUInt (uint avail)),
               (''used_percent'', JInt (if total > 0 then to_i32 (uint (used * 100 div total)) else 0))]))"

text \<open>The node of a path, without following its last name.\<close>

definition lstat_node :: "fs \<Rightarrow> string \<Rightarrow> node option" where
  "lstat_node fs p =
     (let ss = path_names p
      in if ss = [] then Some DirNode
         else case walk fs SYMLOOP_MAX [] (butlast ss) of
                None \<Rightarrow> None
              | Some (d, _) \<Rightarrow>
                  if \<not> is_dir fs d then None
                  else if dot_name (last ss) then Some DirNode
                  else fs (d @ [last ss]))"

definition search_entry :: "dir_env \<Rightarrow> fs \<Rightarrow> string \<Rightarrow> string \<Rightarrow> json" where
  "search_entry env fs full n =
     (case open_existing fs full of
        Some q \<Rightarrow> jobj [(''path'', JString full), (''name'', JString n), (''size'', JInt (size_of env q)),
          (''type'', kind_name (is_dir fs q))]
      | None \<Rightarrow> jobj [(''path'', JString full), (''name'', JString n)])"

text \<open>The recursion with the number of levels that are left (the code counts from 0 and returns
  above 20), the results and their number.\<close>

fun search_recursive ::
  "dir_env \<Rightarrow> (string \<Rightarrow> bool) \<Rightarrow> fs \<Rightarrow> int \<Rightarrow> nat \<Rightarrow> string \<Rightarrow> json list \<times> int \<Rightarrow> json list \<times> int" where
  "search_recursive env matches fs mx 0 dir acc = acc"
| "search_recursive env matches fs mx (Suc d) dir acc =
     (if snd acc \<ge> mx then acc
      else case open_dir fs dir of
             None \<Rightarrow> acc
           | Some q \<Rightarrow>
               fold (\<lambda>n acc.
                 if snd acc \<ge> mx \<or> dot_name n then acc
                 else let full = dir @ [slash] @ n;
                          acc1 = (if matches n then (fst acc @ [search_entry env fs full n], snd acc + 1) else acc)
                      in if lstat_node fs full = Some DirNode
                         then search_recursive env matches fs mx d full acc1
                         else acc1) (listing env q) acc)"

definition SEARCH_LEVELS :: nat where "SEARCH_LEVELS = 21"

text \<open>\<open>glob\<close> stands for \<open>fnmatch\<close> with case folding.\<close>

definition fs_search :: "json_text \<Rightarrow> (string \<Rightarrow> string \<Rightarrow> bool) \<Rightarrow> dir_env \<Rightarrow> string \<Rightarrow> (fs, string) op" where
  "fs_search tx glob env args =
     with_args tx args (\<lambda>j.
     bindS (liftS (jvalue get_string j ''pattern'' ''*'')) (\<lambda>pattern.
     bindS (liftS (jvalue get_string j ''path'' ''/data'')) (\<lambda>p.
     bindS (liftS (jvalue get_int j ''max_results'' 50)) (\<lambda>mr. \<lambda>fs.
       let mx = (if mr > 200 then 200 else mr)
       in if \<not> validate_data_path fs p then reply tx (path_error p) fs
          else let r = search_recursive env (glob pattern) fs mx SEARCH_LEVELS p ([], 0)
               in reply tx (jobj [(''pattern'', JString pattern), (''path'', JString p),
                    (''matches'', JArray (fst r)), (''count'', JInt (snd r)),
                    (''truncated'', JBool (snd r \<ge> mx))]) fs))))"

end
