(* ===== verification/FsToolsFacts.thy ===== *)
theory FsToolsFacts
  imports FsTools
begin

text \<open>
  The lemmas and properties of the file tools: what the check lets through stays under
  \<^verbatim>\<open>/data\<close> for every access that does not end in a symbolic link to nothing, where it does not, and the
  bounds of a search.
\<close>

section \<open>Names\<close>

lemma getlines_slash_free: "x \<in> set (getlines d acc s) \<Longrightarrow> d \<notin> set acc \<Longrightarrow> d \<notin> set x"
  by (induction d acc s rule: getlines.induct) (auto split: if_splits)

definition name_ok :: "string \<Rightarrow> bool" where
  "name_ok x \<longleftrightarrow> x \<noteq> [] \<and> slash \<notin> set x"

lemma path_names_ok: "list_all name_ok (path_names p)"
  using getlines_slash_free [of _ slash "[]" p]
  by (auto simp: path_names_def pieces_def list_all_iff name_ok_def) (simp_all add: slash_def)

lemma walk_names:
  "walk fs n cur ss = Some (q, m) \<Longrightarrow> list_all name_ok cur \<Longrightarrow> list_all name_ok ss \<Longrightarrow> list_all name_ok q"
proof (induction fs n cur ss rule: walk.induct)
  case (2 fs n cur s ss)
  have "list_all name_ok (butlast cur)" "list_all name_ok (link_base cur t)" for t
    using "2.prems"(2) by (auto simp: list_all_iff link_base_def dest: in_set_butlastD)
  with 2 path_names_ok show ?case by (auto split: if_splits option.splits node.splits nat.splits)
qed simp

definition in_data :: "path \<Rightarrow> bool" where
  "in_data q \<longleftrightarrow> q \<noteq> [] \<and> hd q = ''data''"

lemma under_data_render:
  assumes "list_all name_ok q"
  shows "under_data (render_path q) \<longleftrightarrow> in_data q"
proof (cases q)
  case Nil
  then show ?thesis by (simp add: under_data_def render_path_def in_data_def)
next
  case (Cons s ss)
  let ?rest = "concat (map (\<lambda>s. slash # s) ss)"
  have r: "render_path q = slash # s @ ?rest" using Cons by (simp add: render_path_def)
  have rest: "?rest = [] \<or> (\<exists>v. ?rest = slash # v)" by (cases ss) auto
  have "slash \<notin> set s" using assms Cons by (simp add: name_ok_def)
  then have first: "takeWhile (\<lambda>c. c \<noteq> slash) (tl (render_path q)) = s"
    using rest r by (auto simp: takeWhile_append takeWhile_eq_all_conv)
  show ?thesis
  proof
    assume "under_data (render_path q)"
    then consider "render_path q = ''/data''" | "take 6 (render_path q) = ''/data/''"
      by (auto simp: under_data_def)
    then have "s = ''data''"
    proof cases
      case 1
      with first show ?thesis by (simp add: slash_def)
    next
      case 2
      then obtain v where "render_path q = ''/data/'' @ v" by (metis append_take_drop_id)
      with first show ?thesis by (simp add: slash_def)
    qed
    with Cons show "in_data q" by (simp add: in_data_def)
  next
    assume "in_data q"
    with r rest Cons show "under_data (render_path q)" by (auto simp: under_data_def in_data_def slash_def)
  qed
qed

section \<open>Walks\<close>

lemma walk_append:
  "walk fs n cur (xs @ ys) = (case walk fs n cur xs of None \<Rightarrow> None | Some (d, m) \<Rightarrow> walk fs m d ys)"
  by (induction fs n cur xs rule: walk.induct) (auto split: option.split node.split nat.split)

lemma realpath_walk: "p \<noteq> [] \<Longrightarrow> walk fs SYMLOOP_MAX [] (path_names p) = Some (q, m) \<Longrightarrow> realpath fs p = Some (render_path q)"
  by (simp add: realpath_def)

lemma walk_in_data:
  assumes "walk fs SYMLOOP_MAX [] (path_names p) = Some (q, m)"
  shows "under_data (render_path q) \<longleftrightarrow> in_data q"
  by (rule under_data_render [OF walk_names [OF assms _ path_names_ok]]) simp

lemma probe_existing: "realpath fs p = Some r \<Longrightarrow> probe fs p = under_data r"
  by (subst probe.simps) simp

lemma validated_probe: "validate_data_path fs p \<Longrightarrow> p = ''/data'' \<or> take 6 p = ''/data/'' \<and> find_sub ''..'' p = None \<and> probe fs p"
  by (auto simp: validate_data_path_def split: if_splits)

lemma getlines_append:
  "d \<notin> set x \<Longrightarrow> getlines d acc (a @ d # x) = getlines d acc (a @ [d]) @ (if x = [] then [] else [x])"
  by (induction d acc a rule: getlines.induct) (auto simp: getlines_last)

lemma getlines_end: "filter (\<lambda>x. x \<noteq> []) (getlines d acc (a @ [d])) = filter (\<lambda>x. x \<noteq> []) (getlines d acc a)"
  by (induction d acc a rule: getlines.induct) auto

lemma pieces_name: "slash \<notin> set x \<Longrightarrow> x \<noteq> [] \<Longrightarrow> pieces (a @ slash # x) = pieces a @ [x]"
  by (simp add: pieces_def getlines_append [of slash x "[]" a] getlines_end)

text \<open>A path whose last name is \<open>x\<close>: the parent is what the probe asks for next.\<close>

lemma last_slash_name: "slash \<notin> set x \<Longrightarrow> last_slash (a @ slash # x) = Some (length a)"
  by (simp add: last_slash_def takeWhile_append takeWhile_eq_all_conv)

lemma path_names_name:
  assumes "slash \<notin> set x" "x \<noteq> []"
  shows "path_names (a @ slash # x) = pieces a @ [x]"
proof -
  have "last x \<noteq> slash" using assms by (metis last_in_set)
  with assms pieces_name show ?thesis by (simp add: path_names_def)
qed

lemma probe_parent:
  assumes "slash \<notin> set x" "a \<noteq> []" "realpath fs (a @ slash # x) = None"
  shows "probe fs (a @ slash # x) = probe fs a"
  using assms by (subst probe.simps) (simp add: last_slash_name)

lemma split_last:
  assumes "slash \<in> set p" "last p \<noteq> slash"
  shows "\<exists>a x. p = a @ slash # x \<and> slash \<notin> set x \<and> x \<noteq> []"
proof -
  obtain a x where "p = a @ slash # x" "slash \<notin> set x" using split_list_last [OF assms(1)] by blast
  moreover from this have "x \<noteq> []" using assms(2) by auto
  ultimately show ?thesis by blast
qed

section \<open>What the check lets through\<close>

lemma validate_existing:
  assumes "validate_data_path fs p" "open_existing fs p = Some q" "fs [''data''] = Some DirNode"
  shows "in_data q"
proof -
  obtain m where w: "p \<noteq> []" "walk fs SYMLOOP_MAX [] (path_names p) = Some (q, m)"
    using assms(2) by (auto simp: open_existing_def split: if_splits)
  consider "p = ''/data''" | "probe fs p"
    using validated_probe [OF assms(1)] by blast
  then show ?thesis
  proof cases
    case 1
    then have "path_names p = [''data'']" by (simp add: path_names_def pieces_def slash_def)
    moreover have "walk fs SYMLOOP_MAX [] [''data''] = Some ([''data''], SYMLOOP_MAX)"
      using assms(3) by (simp add: is_dir_def)
    ultimately have "q = [''data'']" using w(2) by simp
    then show ?thesis by (simp add: in_data_def)
  next
    case 2
    with probe_existing [OF realpath_walk [OF w]] walk_in_data [OF w(2)] show ?thesis by simp
  qed
qed

lemma create_plain_file:
  assumes "open_create fs p = Some q" "\<forall>t. lstat_node fs p \<noteq> Some (LinkNode t)"
  obtains d m where "walk fs SYMLOOP_MAX [] (butlast (path_names p)) = Some (d, m)" "is_dir fs d"
    "q = d @ [last (path_names p)]" "path_names p \<noteq> []" "\<not> dot_name (last (path_names p))"
    "fs q = None \<or> (\<exists>c. fs q = Some (FileNode c))"
proof -
  let ?ss = "path_names p"
  have ne: "?ss \<noteq> []" "\<not> dot_name (last ?ss)"
    using assms(1) by (auto simp: open_create_def create_at.simps [of fs SYMLOOP_MAX] dot_name_def split: if_splits)
  obtain d m where w: "walk fs SYMLOOP_MAX [] (butlast ?ss) = Some (d, m)" "is_dir fs d"
    using assms(1) by (auto simp: open_create_def create_at.simps [of fs SYMLOOP_MAX] split: if_splits option.splits)
  have "lstat_node fs p = fs (d @ [last ?ss])"
    using ne w by (simp add: lstat_node_def Let_def)
  with assms(2) have nl: "fs (d @ [last ?ss]) \<noteq> Some (LinkNode t)" for t by simp
  have "q = d @ [last ?ss] \<and> (fs q = None \<or> (\<exists>c. fs q = Some (FileNode c)))"
    using assms(1) ne w nl
    by (auto simp: open_create_def create_at.simps [of fs SYMLOOP_MAX] split: if_splits option.splits node.splits)
  with that ne w show thesis by blast
qed

lemma validate_create:
  assumes "validate_data_path fs p" "open_create fs p = Some q" "fs [''data''] = Some DirNode"
    and "\<forall>t. lstat_node fs p \<noteq> Some (LinkNode t)"
  shows "in_data q"
proof -
  obtain d m where w: "walk fs SYMLOOP_MAX [] (butlast (path_names p)) = Some (d, m)" "is_dir fs d"
    "q = d @ [last (path_names p)]" "path_names p \<noteq> []" "\<not> dot_name (last (path_names p))"
    "fs q = None \<or> (\<exists>c. fs q = Some (FileNode c))"
    using create_plain_file [OF assms(2,4)] by metis
  have "p \<noteq> ''/data''"
  proof
    assume p: "p = ''/data''"
    then have n: "path_names p = [''data'']" by (simp add: path_names_def pieces_def slash_def)
    with w(1,3) have "q = [''data'']" by simp
    with w(6) assms(3) show False by simp
  qed
  with validated_probe [OF assms(1)] have v: "take 6 p = ''/data/''" "probe fs p" by simp_all
  have "p \<noteq> []" using v(1) by auto
  moreover have "last p \<noteq> slash" using w(5) \<open>p \<noteq> []\<close> by (auto simp: path_names_def dot_name_def)
  moreover have "slash \<in> set p" using v(1) in_set_takeD [of slash 6 p] by (simp add: slash_def)
  ultimately obtain a x where p: "p = a @ slash # x" "slash \<notin> set x" "x \<noteq> []"
    using split_last by blast
  have names: "path_names p = pieces a @ [x]"
    using p path_names_name by simp
  have a: "a \<noteq> []"
  proof
    assume "a = []"
    with v(1) p(1) have "take 5 x = ''data/''" by simp
    then have "slash \<in> set (take 5 x)" by (simp add: slash_def)
    with p(2) show False by (auto dest: in_set_takeD)
  qed
  from w(1) names have wa: "walk fs SYMLOOP_MAX [] (pieces a) = Some (d, m)" by simp
  have "walk fs SYMLOOP_MAX [] (path_names a) = Some (d, m)"
    using wa w(2) by (simp add: path_names_def walk_append)
  note par = this
  show ?thesis
  proof (cases "fs q")
    case None
    with w(2,3,5) names have "walk fs m d [x] = None" by (simp add: dot_name_def)
    with wa names have "walk fs SYMLOOP_MAX [] (path_names p) = None" by (simp add: walk_append)
    then have "realpath fs p = None" by (simp add: realpath_def)
    with probe_parent [OF p(2) a] p(1) v(2) have "probe fs a" by simp
    with probe_existing [OF realpath_walk [OF a par]] walk_in_data [OF par] have "in_data d" by simp
    with w(3) show ?thesis by (simp add: in_data_def)
  next
    case (Some v')
    with w(2,3,5,6) names have "walk fs m d [x] = Some (q, m)" by (auto simp: dot_name_def)
    with wa names have wp: "walk fs SYMLOOP_MAX [] (path_names p) = Some (q, m)" by (simp add: walk_append)
    with probe_existing [OF realpath_walk [OF \<open>p \<noteq> []\<close> wp]] walk_in_data [OF wp] v(2) show ?thesis by simp
  qed
qed

text \<open>
  C6: for every path that the check lets through, in any file system with any symbolic links: what
  is read lies under \<^verbatim>\<open>/data\<close>; so does what is written or created, unless the last name of the path
  is itself a symbolic link; and the path has no two dots in a row.
\<close>

theorem validated_paths_stay_in_data:
  assumes "validate_data_path fs p" "fs [''data''] = Some DirNode"
  shows "(\<forall>q. open_existing fs p = Some q \<longrightarrow> in_data q)
    \<and> (\<forall>q. open_create fs p = Some q \<and> (\<forall>t. lstat_node fs p \<noteq> Some (LinkNode t)) \<longrightarrow> in_data q)
    \<and> find_sub ''..'' p = None"
  using validate_existing [OF assms(1) _ assms(2)] validate_create [OF assms(1) _ assms(2)]
    validated_probe [OF assms(1)] by (auto simp: starts_with_def)

declare walk.simps [simp del]

text \<open>A file system with a link out of \<^verbatim>\<open>/data\<close> to a file that does not exist.\<close>

definition demo_fs :: fs where
  "demo_fs = [[''data''] \<mapsto> DirNode, [''etc''] \<mapsto> DirNode, [''data'', ''a''] \<mapsto> FileNode ''hi'',
     [''data'', ''l''] \<mapsto> LinkNode ''/etc/new'']"

lemma demo_names: "path_names ''/data/a'' = [''data'', ''a'']" "path_names ''/data/l'' = [''data'', ''l'']"
  "path_names ''/etc/new'' = [''etc'', ''new'']" "path_names ''/data'' = [''data'']"
  "getlines slash [] ''/data/l'' = [[], ''data'', ''l'']" "getlines slash [] ''/data/a'' = [[], ''data'', ''a'']"
  by (simp_all add: path_names_def pieces_def slash_def)

lemma demo_walks:
  "walk demo_fs SYMLOOP_MAX [] [''data'', ''a''] = Some ([''data'', ''a''], SYMLOOP_MAX)"
  "walk demo_fs SYMLOOP_MAX [] [''data'', ''l''] = None"
  "walk demo_fs n [] [''data''] = Some ([''data''], n)"
  "walk demo_fs n [] [''etc''] = Some ([''etc''], n)"
  by (simp_all add: demo_fs_def is_dir_def SYMLOOP_MAX_def link_base_def slash_def demo_names [unfolded slash_def] eval_nat_numeral walk.simps)

lemma demo_validates: "validate_data_path demo_fs ''/data/a''" "validate_data_path demo_fs ''/data/l''"
proof -
  have r: "realpath demo_fs ''/data/a'' = Some ''/data/a''" "realpath demo_fs ''/data/l'' = None"
    "realpath demo_fs ''/data'' = Some ''/data''"
    by (simp_all add: realpath_def demo_names demo_walks render_path_def slash_def)
  have l: "last_slash ''/data/l'' = Some 5" by (simp add: last_slash_def slash_def)
  have "probe demo_fs ''/data/a''" "probe demo_fs ''/data''"
    by (simp_all add: probe_existing r under_data_def)
  moreover from this have "probe demo_fs ''/data/l''"
    by (subst probe.simps) (simp add: r l)
  ultimately show "validate_data_path demo_fs ''/data/a''" "validate_data_path demo_fs ''/data/l''"
    by (simp_all add: validate_data_path_def canonicalize_path_def demo_names render_path_def under_data_def
        starts_with_def slash_def)
qed

theorem validated_paths_stay_in_data_witness:
  "open_existing demo_fs ''/data/a'' = Some [''data'', ''a''] \<and> in_data [''data'', ''a'']"
proof -
  have d: "demo_fs [''data''] = Some DirNode" by (simp add: demo_fs_def)
  have "open_existing demo_fs ''/data/a'' = Some [''data'', ''a'']"
    by (simp add: open_existing_def demo_names demo_walks)
  with validated_paths_stay_in_data [OF demo_validates(1) d] show ?thesis by blast
qed

text \<open>
  the exception is real: a symbolic link under \<^verbatim>\<open>/data\<close> to a file that does not exist yet passes
  the check, although its target is outside, and writing through it creates the file there.
\<close>

theorem dangling_link_escapes:
  "validate_data_path demo_fs ''/data/l'' \<and> open_create demo_fs ''/data/l'' = Some [''etc'', ''new'']
    \<and> \<not> in_data [''etc'', ''new'']"
proof -
  have n: "demo_fs [''data'', ''l''] = Some (LinkNode ''/etc/new'')" "demo_fs [''etc'', ''new''] = None"
    by (simp_all add: demo_fs_def)
  have d: "is_dir demo_fs [''data'']" "is_dir demo_fs [''etc'']" by (simp_all add: is_dir_def demo_fs_def)
  have "create_at demo_fs k [] [''etc'', ''new''] = Some [''etc'', ''new'']" for k
    by (subst create_at.simps) (simp add: demo_walks n d)
  then have "create_at demo_fs SYMLOOP_MAX [] [''data'', ''l''] = Some [''etc'', ''new'']"
    by (subst create_at.simps) (simp add: demo_walks n d SYMLOOP_MAX_def link_base_def slash_def demo_names)
  then show ?thesis by (simp add: demo_validates open_create_def demo_names in_data_def)
qed

section \<open>What the tools change\<close>

lemma reply_state [simp]: "snd (reply tx j fs) = fs"
  by (simp add: reply_def)

lemma bindS_state: "snd (bindS (liftS r) f fs) = (case r of Inl _ \<Rightarrow> fs | Inr x \<Rightarrow> snd (f x fs))"
  by (cases r) simp_all

lemma with_args_state: "snd (with_args tx args f fs) = (case snd tx args of None \<Rightarrow> fs | Some j \<Rightarrow> snd (f j fs))"
  by (simp add: with_args_def split: option.split)

lemma read_state: "snd (fs_read_file tx e args fs) = fs"
  by (simp add: fs_read_file_def with_args_state bindS_state Let_def split: option.split sum.split)

lemma list_state: "snd (fs_list_directory tx e env args fs) = fs"
  by (simp add: fs_list_directory_def with_args_state bindS_state Let_def split: option.split sum.split)

lemma search_state: "snd (fs_search tx glob env args fs) = fs"
  by (simp add: fs_search_def with_args_state bindS_state Let_def split: option.split sum.split)

lemma write_state:
  "snd (fs_write_file tx e room args fs) = fs \<or>
     (\<exists>p q c. validate_data_path fs p \<and> open_create fs p = Some q \<and> snd (fs_write_file tx e room args fs) = fs(q \<mapsto> FileNode c))"
  by (auto simp: fs_write_file_def with_args_state bindS_state Let_def split: option.split sum.split)

lemma delete_state:
  "snd (fs_delete_file tx e ok args fs) = fs \<or>
     (\<exists>p q u. validate_data_path fs p \<and> open_existing fs p = Some q \<and> \<not> is_dir fs q \<and> unlink_at fs p = Some u
        \<and> snd (fs_delete_file tx e ok args fs) = fs(u := None))"
  by (auto simp: fs_delete_file_def with_args_state bindS_state Let_def split: option.split sum.split)

datatype fs_op =
    ReadFile json_text string string
  | WriteFile json_text string nat string
  | DeleteFile json_text string bool string
  | ListDir json_text string dir_env string
  | Search json_text "string \<Rightarrow> string \<Rightarrow> bool" dir_env string

fun fs_step :: "fs_op \<Rightarrow> fs \<Rightarrow> fs" where
  "fs_step (ReadFile tx e args) fs = snd (fs_read_file tx e args fs)"
| "fs_step (WriteFile tx e room args) fs = snd (fs_write_file tx e room args fs)"
| "fs_step (DeleteFile tx e ok args) fs = snd (fs_delete_file tx e ok args fs)"
| "fs_step (ListDir tx e env args) fs = snd (fs_list_directory tx e env args fs)"
| "fs_step (Search tx glob env args) fs = snd (fs_search tx glob env args fs)"

definition link_free :: "fs \<Rightarrow> bool" where
  "link_free fs \<longleftrightarrow> (\<forall>q t. fs q \<noteq> Some (LinkNode t))"

text \<open>Without links, with the data directory, and outside of it as at the start.\<close>

definition confined :: "fs \<Rightarrow> fs \<Rightarrow> bool" where
  "confined fs0 fs \<longleftrightarrow> link_free fs \<and> fs [''data''] = Some DirNode \<and> (\<forall>q. \<not> in_data q \<longrightarrow> fs q = fs0 q)"

lemma link_free_lstat: "link_free fs \<Longrightarrow> lstat_node fs p \<noteq> Some (LinkNode t)"
  by (auto simp: lstat_node_def link_free_def Let_def split: option.splits if_splits)

lemma link_free_open:
  assumes "link_free fs" "unlink_at fs p = Some u" "open_existing fs p = Some q"
  shows "u = q"
proof -
  let ?ss = "path_names p"
  obtain d m where u: "?ss \<noteq> []" "\<not> dot_name (last ?ss)" "walk fs SYMLOOP_MAX [] (butlast ?ss) = Some (d, m)"
      "is_dir fs d" "fs (d @ [last ?ss]) \<noteq> None" "u = d @ [last ?ss]"
    using assms(2) by (auto simp: unlink_at_def dot_name_def Let_def split: if_splits option.splits)
  have "walk fs m d [last ?ss] = Some (u, m)"
    using u assms(1) by (auto simp: walk.simps dot_name_def link_free_def split: node.split)
  with u(3) have "walk fs SYMLOOP_MAX [] (butlast ?ss @ [last ?ss]) = Some (u, m)"
    by (simp only: walk_append) simp
  with u(1) assms(3) show ?thesis by (simp add: open_existing_def split: if_splits)
qed

interpretation file_tools: invariant_system fs_step "confined fs0" "\<lambda>_. True" for fs0
proof (unfold_locales, goal_cases)
  case (1 fs x)
  then have lf: "link_free fs" and d: "fs [''data''] = Some DirNode" and o: "\<And>q. \<not> in_data q \<Longrightarrow> fs q = fs0 q"
    by (auto simp: confined_def)
  show ?case
  proof (cases x)
    case (WriteFile tx e room args)
    consider "fs_step x fs = fs" | p q c where "validate_data_path fs p" "open_create fs p = Some q"
        "fs_step x fs = fs(q \<mapsto> FileNode c)"
      using write_state [of tx e room args fs] WriteFile by auto
    then show ?thesis
    proof cases
      case 2
      have q: "in_data q" by (rule validate_create [OF 2(1,2) d]) (simp add: link_free_lstat [OF lf])
      obtain dd m where "q = dd @ [last (path_names p)]" "fs q = None \<or> (\<exists>c. fs q = Some (FileNode c))"
        using create_plain_file [OF 2(2)] link_free_lstat [OF lf] by metis
      with d have "q \<noteq> [''data'']" by auto
      with q 2(3) lf d o show ?thesis by (auto simp: confined_def link_free_def)
    qed (use 1 in simp)
  next
    case (DeleteFile tx e ok args)
    consider "fs_step x fs = fs" | p q u where "validate_data_path fs p" "open_existing fs p = Some q"
        "\<not> is_dir fs q" "unlink_at fs p = Some u" "fs_step x fs = fs(u := None)"
      using delete_state [of tx e ok args fs] DeleteFile by auto
    then show ?thesis
    proof cases
      case 2
      have "u = q" by (rule link_free_open [OF lf 2(4,2)])
      moreover have "in_data q" by (rule validate_existing [OF 2(1,2) d])
      moreover have "q \<noteq> [''data'']" using 2(3) d by (auto simp: is_dir_def)
      ultimately show ?thesis using 2(5) lf d o by (auto simp: confined_def link_free_def)
    qed (use 1 in simp)
  qed (use 1 in \<open>simp_all add: read_state list_state search_state\<close>)
qed

text \<open>
  on a file system without symbolic links (the tools make none) no sequence of calls of the
  file tools, with any arguments, changes anything outside \<^verbatim>\<open>/data\<close>, removes the data directory or
  makes a link.
\<close>

theorem file_tools_confined:
  assumes "link_free fs" "fs [''data''] = Some DirNode"
  shows "let fs' = fold fs_step ops fs
    in (\<forall>q. in_data q \<or> fs' q = fs q) \<and> fs' [''data''] = Some DirNode \<and> link_free fs'"
proof -
  have "confined fs fs" using assms by (simp add: confined_def)
  from file_tools.run_keeps [OF this, of ops] show ?thesis
    by (auto simp: confined_def Let_def list_all_iff)
qed

definition plain_fs :: fs where
  "plain_fs = [[''data''] \<mapsto> DirNode, [''etc''] \<mapsto> FileNode ''x'']"

lemma plain_fs_facts: "link_free plain_fs" "plain_fs [''data''] = Some DirNode"
    "plain_fs [''etc''] = Some (FileNode ''x'')" "\<not> in_data [''etc'']"
  by (simp_all add: plain_fs_def link_free_def in_data_def)

theorem file_tools_confined_witness:
  "fold fs_step [WriteFile (\<lambda>_. [], \<lambda>_. Some (jobj [(''path'', JString ''/data/a''), (''content'', JString ''hi'')])) [] 10 []]
     plain_fs [''etc''] = Some (FileNode ''x'')"
  using file_tools_confined [OF plain_fs_facts(1,2),
      of "[WriteFile (\<lambda>_. [], \<lambda>_. Some (jobj [(''path'', JString ''/data/a''), (''content'', JString ''hi'')])) [] 10 []]"]
    plain_fs_facts(3,4)
  unfolding Let_def by metis

section \<open>Searches\<close>

lemma search_recursive_count:
  "mx \<le> L \<Longrightarrow> int (length (fst acc)) = snd acc \<Longrightarrow> snd acc \<le> L \<Longrightarrow>
     int (length (fst (search_recursive env matches fs mx d dir acc))) = snd (search_recursive env matches fs mx d dir acc)
     \<and> snd (search_recursive env matches fs mx d dir acc) \<le> L"
proof (induction d arbitrary: dir acc)
  case (Suc d)
  define step where "step = (\<lambda>n acc.
     if snd acc \<ge> mx \<or> dot_name n then acc
     else let full = dir @ [slash] @ n;
              acc1 = (if matches n then (fst acc @ [search_entry env fs full n], snd acc + 1) else acc)
          in if lstat_node fs full = Some DirNode
             then search_recursive env matches fs mx d full acc1
             else acc1)"
  have "int (length (fst (step n acc))) = snd (step n acc) \<and> snd (step n acc) \<le> L"
    if "int (length (fst acc)) = snd acc \<and> snd acc \<le> L" for n acc
  proof -
    let ?full = "dir @ [slash] @ n"
    let ?acc1 = "if matches n then (fst acc @ [search_entry env fs ?full n], snd acc + 1) else acc"
    show ?thesis
    proof (cases "snd acc \<ge> mx \<or> dot_name n")
      case False
      then have "int (length (fst ?acc1)) = snd ?acc1" "snd ?acc1 \<le> L" using that Suc.prems(1) by auto
      then have "int (length (fst r)) = snd r \<and> snd r \<le> L"
        if "r = ?acc1 \<or> r = search_recursive env matches fs mx d ?full ?acc1" for r
        using that Suc.IH [of ?acc1 ?full] Suc.prems(1) by blast
      moreover have "step n acc = ?acc1 \<or> step n acc = search_recursive env matches fs mx d ?full ?acc1"
        using False unfolding step_def Let_def by presburger
      ultimately show ?thesis by blast
    qed (use that in \<open>simp add: step_def\<close>)
  qed
  then have "int (length (fst (fold step ns acc))) = snd (fold step ns acc) \<and> snd (fold step ns acc) \<le> L"
    if "int (length (fst acc)) = snd acc \<and> snd acc \<le> L" for ns acc
    using that by (induction ns arbitrary: acc) auto
  with Suc.prems show ?case
    by (simp only: search_recursive.simps step_def [symmetric]) (simp split: option.split)
qed simp

lemma bindS_liftS_value: "fst (bindS (liftS r) f fs) = Inr y \<Longrightarrow> \<exists>x. r = Inr x \<and> fst (f x fs) = Inr y"
  by (cases r) simp_all

text \<open>
  for every argument text and every file system, a search leaves the file system alone, and the
  reply that it writes either is an error or lists as many matches as it counts and at most 200 of
  them, whatever limit was asked for and however the directories are nested.
\<close>

theorem search_bounded:
  "snd (fs_search tx glob env args fs) = fs
    \<and> (case fst (fs_search tx glob env args fs) of
         Inl _ \<Rightarrow> True
       | Inr out \<Rightarrow> (\<exists>j. dump_text tx j = Inr out
           \<and> (case jmember j ''matches'' of
                JArray ms \<Rightarrow> length ms \<le> 200 \<and> jmember j ''count'' = JInt (int (length ms))
              | _ \<Rightarrow> contains j ''error'')))"
proof -
  have b: "length (fst (search_recursive env (glob p) fs mx d q ([], 0))) \<le> 200"
    "snd (search_recursive env (glob p) fs mx d q ([], 0))
       = int (length (fst (search_recursive env (glob p) fs mx d q ([], 0))))"
    if "mx \<le> 200" for p mx d q
    using search_recursive_count [of mx 200 "([], 0)" env "glob p" fs d q] that by auto
  have "fst (fs_search tx glob env args fs) = Inr out \<Longrightarrow> \<exists>j. dump_text tx j = Inr out
      \<and> (case jmember j ''matches'' of
           JArray ms \<Rightarrow> length ms \<le> 200 \<and> jmember j ''count'' = JInt (int (length ms))
         | _ \<Rightarrow> contains j ''error'')" for out
    by (auto simp: fs_search_def with_args_def reply_def path_error_def json_error_def Let_def b
        dest!: bindS_liftS_value split: option.splits if_splits)
      (rule exI, rule conjI, assumption, simp add: cpp_simps b)+
  then show ?thesis by (simp add: search_state split: sum.split)
qed

end
