(* ===== verification/Mdns.thy ===== *)
theory Mdns
  imports LlPrelude "HOL-Library.Monad_Syntax"
begin

text \<open>
  \<^verbatim>\<open>net_mdns.cpp\<close> and \<^verbatim>\<open>net_mdns.h\<close>: the responder for multicast DNS. DNS names and their
  compressed form, the packets it builds, the parser of service announcements, and the responder as
  a state with its operations. Definitions only; the lemmas are in MdnsFacts. A packet is the list
  of the received bytes; a read outside of it is undefined in C++ and \<open>None\<close> here. Sockets, threads
  and the interfaces of the machine are arguments.
\<close>

unbundle bit_operations_syntax

type_synonym packet = "byte list"

section \<open>Constants and numbers\<close>

definition MDNS_TTL :: u32 where "MDNS_TTL = 120"
definition DNS_TYPE_A :: u16 where "DNS_TYPE_A = 1"
definition DNS_TYPE_PTR :: u16 where "DNS_TYPE_PTR = 12"
definition DNS_TYPE_TXT :: u16 where "DNS_TYPE_TXT = 16"
definition DNS_TYPE_SRV :: u16 where "DNS_TYPE_SRV = 33"
definition DNS_TYPE_ANY :: u16 where "DNS_TYPE_ANY = 255"
definition DNS_CLASS_IN :: u16 where "DNS_CLASS_IN = 1"
definition DNS_FLAG_RESPONSE :: u16 where "DNS_FLAG_RESPONSE = 0x8000"
definition DNS_FLAG_AUTHORITATIVE :: u16 where "DNS_FLAG_AUTHORITATIVE = 0x0400"
definition MDNS_ADDR_TTL :: u32 where "MDNS_ADDR_TTL = 120"
definition MDNS_SVC_TTL :: u32 where "MDNS_SVC_TTL = 4500"

lemmas dns_constants =
  MDNS_TTL_def DNS_TYPE_A_def DNS_TYPE_PTR_def DNS_TYPE_TXT_def DNS_TYPE_SRV_def DNS_TYPE_ANY_def
  DNS_CLASS_IN_def DNS_FLAG_RESPONSE_def DNS_FLAG_AUTHORITATIVE_def MDNS_ADDR_TTL_def MDNS_SVC_TTL_def

definition put_u16 :: "u16 \<Rightarrow> packet" where
  "put_u16 v = [ucast (drop_bit 8 v), ucast (v AND 0xFF)]"

definition put_u32 :: "u32 \<Rightarrow> packet" where
  "put_u32 v = [ucast (drop_bit 24 v AND 0xFF), ucast (drop_bit 16 v AND 0xFF),
     ucast (drop_bit 8 v AND 0xFF), ucast (v AND 0xFF)]"

definition rd :: "packet \<Rightarrow> nat \<Rightarrow> byte option" where
  "rd p i = (if i < length p then Some (p ! i) else None)"

definition get_u16 :: "packet \<Rightarrow> nat \<Rightarrow> u16 option" where
  "get_u16 p i = do { a \<leftarrow> rd p i; b \<leftarrow> rd p (i + 1); Some (push_bit 8 (ucast a) OR ucast b) }"

definition bytes_of :: "string \<Rightarrow> packet" where
  "bytes_of s = map of_char s"

definition chars_of :: "packet \<Rightarrow> string" where
  "chars_of p = map (\<lambda>b. char_of (unat b)) p"

definition rd_chars :: "packet \<Rightarrow> nat \<Rightarrow> nat \<Rightarrow> string option" where
  "rd_chars p i n = (if i + n \<le> length p then Some (chars_of (take n (drop i p))) else None)"

section \<open>Names\<close>

definition dot :: char where "dot = CHR ''.''"

definition encode_label :: "string \<Rightarrow> packet" where
  "encode_label l = of_nat (min (length l) 63) # bytes_of (take 63 l)"

function encode_labels :: "string \<Rightarrow> packet" where
  "encode_labels s =
     (if s = [] then []
      else let l = takeWhile (\<lambda>c. c \<noteq> dot) s
           in encode_label l @ encode_labels (drop (length l + 1) s))"
  by pat_completeness auto
termination
  by (relation "measure length") auto

declare encode_labels.simps [simp del]

definition encode_dns_name :: "string \<Rightarrow> packet" where
  "encode_dns_name fqdn = encode_labels fqdn @ [0]"

text \<open>Where the offset ends: after the first pointer, once there was one.\<close>

definition resume :: "nat option \<Rightarrow> nat \<Rightarrow> nat" where
  "resume saved offset = (case saved of None \<Rightarrow> offset | Some s \<Rightarrow> s)"

function decode_loop :: "packet \<Rightarrow> nat \<Rightarrow> nat \<Rightarrow> nat option \<Rightarrow> string \<Rightarrow> (string \<times> nat) option" where
  "decode_loop p offset jumps saved name =
     (if offset \<ge> length p \<or> jumps = 0 then Some (name, resume saved offset)
      else do {
        len \<leftarrow> rd p offset;
        if len = 0 then Some (name, resume saved (offset + 1))
        else if len AND 0xC0 = 0xC0 then
          (if offset + 1 \<ge> length p then Some (name, resume saved offset)
           else do {
             b \<leftarrow> rd p (offset + 1);
             decode_loop p (unat (push_bit 8 (ucast (len AND 0x3F)) OR ucast b :: u16)) (jumps - 1)
               (Some (resume saved (offset + 2))) name })
        else if offset + 1 + unat len > length p then Some (name, resume saved (offset + 1))
        else do {
          l \<leftarrow> rd_chars p (offset + 1) (unat len);
          decode_loop p (offset + 1 + unat len) jumps saved ((if name \<noteq> [] then name @ [dot] else []) @ l) } })"
  by pat_completeness auto
termination
  by (relation "measures [\<lambda>(p, offset, jumps, saved, name). jumps,
        \<lambda>(p, offset, jumps, saved, name). length p - offset]") auto

declare decode_loop.simps [simp del]

definition decode_dns_name :: "packet \<Rightarrow> nat \<Rightarrow> (string \<times> nat) option" where
  "decode_dns_name p offset = decode_loop p offset 10 None []"

definition tolower :: "char \<Rightarrow> char" where
  "tolower c = (if 65 \<le> (of_char c :: nat) \<and> (of_char c :: nat) \<le> 90 then char_of (of_char c + 32 :: nat) else c)"

definition dns_name_eq :: "string \<Rightarrow> string \<Rightarrow> bool" where
  "dns_name_eq a b \<longleftrightarrow> length a = length b \<and> list_all2 (\<lambda>x y. tolower x = tolower y) a b"

section \<open>Addresses\<close>

text \<open>\<open>sscanf\<close> with \<open>%u.%u.%u.%u\<close>: numbers as \<open>strtoul\<close> reads them, kept in an \<^verbatim>\<open>unsigned\<close>.\<close>

definition scan_dot :: "string \<Rightarrow> (int \<times> string) option" where
  "scan_dot s =
     (case strtoul s of
        Some (a, c # r, _) \<Rightarrow> if c = dot then Some (to_u32 a, r) else None
      | _ \<Rightarrow> None)"

definition parse_ipv4 :: "string \<Rightarrow> packet option" where
  "parse_ipv4 s = do {
     (a, s) \<leftarrow> scan_dot s;
     (b, s) \<leftarrow> scan_dot s;
     (c, s) \<leftarrow> scan_dot s;
     (d, _) \<leftarrow> strtoul s;
     if a > 255 \<or> b > 255 \<or> c > 255 \<or> to_u32 d > 255 then None
     else Some (map word_of_int [a, b, c, to_u32 d]) }"

definition show_byte :: "byte \<Rightarrow> string" where
  "show_byte b = show_nat (unat b)"

definition show_ipv4 :: "byte \<Rightarrow> byte \<Rightarrow> byte \<Rightarrow> byte \<Rightarrow> string" where
  "show_ipv4 a b c d = show_byte a @ [dot] @ show_byte b @ [dot] @ show_byte c @ [dot] @ show_byte d"

text \<open>\<open>getifaddrs\<close>: whether an entry has an IPv4 address, is a loopback and is up, and the address.\<close>

type_synonym interface = "bool \<times> bool \<times> bool \<times> string"

definition get_local_ip :: "interface list option \<Rightarrow> string" where
  "get_local_ip ifs =
     (case ifs of
        None \<Rightarrow> ''0.0.0.0''
      | Some as \<Rightarrow>
          (case find (\<lambda>(inet, loopback, up, _). inet \<and> \<not> loopback \<and> up) as of
             None \<Rightarrow> ''0.0.0.0''
           | Some (_, _, _, addr) \<Rightarrow> addr))"

section \<open>Records and packets\<close>

record MdnsServiceRecord =
  browse_name :: string
  instance_name :: string
  svc_record_port :: u16
  svc_record_txt :: "string list"

text \<open>A resource record: owner, type, class, time to live and data with its length.\<close>

definition resource :: "string \<Rightarrow> u16 \<Rightarrow> u16 \<Rightarrow> u32 \<Rightarrow> packet \<Rightarrow> packet" where
  "resource owner ty cls ttl rdata =
     encode_dns_name owner @ put_u16 ty @ put_u16 cls @ put_u32 ttl @ put_u16 (of_nat (length rdata)) @ rdata"

definition append_ptr :: "string \<Rightarrow> string \<Rightarrow> packet" where
  "append_ptr browse inst = resource browse DNS_TYPE_PTR DNS_CLASS_IN MDNS_SVC_TTL (encode_dns_name inst)"

definition append_srv :: "string \<Rightarrow> string \<Rightarrow> u16 \<Rightarrow> packet" where
  "append_srv inst host port =
     resource inst DNS_TYPE_SRV (DNS_CLASS_IN OR 0x8000) MDNS_ADDR_TTL
       (put_u16 0 @ put_u16 0 @ put_u16 port @ encode_dns_name host)"

definition txt_string :: "string \<Rightarrow> packet" where
  "txt_string kv = of_nat (min (length kv) 255) # bytes_of (take 255 kv)"

definition txt_rdata :: "string list \<Rightarrow> packet" where
  "txt_rdata kvs = (if kvs = [] then [0] else concat (map txt_string kvs))"

definition append_txt :: "string \<Rightarrow> string list \<Rightarrow> packet" where
  "append_txt inst kvs = resource inst DNS_TYPE_TXT (DNS_CLASS_IN OR 0x8000) MDNS_SVC_TTL (txt_rdata kvs)"

definition append_a :: "string \<Rightarrow> packet \<Rightarrow> packet" where
  "append_a fqdn ip = resource fqdn DNS_TYPE_A (DNS_CLASS_IN OR 0x8000) MDNS_ADDR_TTL ip"

text \<open>The header: identifier, flags and the numbers of questions, answers, authorities and additional
  records.\<close>

definition header :: "u16 \<Rightarrow> u16 \<Rightarrow> u16 \<Rightarrow> u16 \<Rightarrow> u16 \<Rightarrow> u16 \<Rightarrow> packet" where
  "header i flags qd an ns ar = put_u16 i @ put_u16 flags @ put_u16 qd @ put_u16 an @ put_u16 ns @ put_u16 ar"

definition build_service_response :: "MdnsServiceRecord \<Rightarrow> string \<Rightarrow> packet \<Rightarrow> u16 \<Rightarrow> packet" where
  "build_service_response svc host ip query_id =
     header query_id (DNS_FLAG_RESPONSE OR DNS_FLAG_AUTHORITATIVE) 0 1 0 3
     @ append_ptr (browse_name svc) (instance_name svc)
     @ append_srv (instance_name svc) host (svc_record_port svc)
     @ append_txt (instance_name svc) (svc_record_txt svc)
     @ append_a host ip"

definition build_ptr_query :: "string \<Rightarrow> packet" where
  "build_ptr_query service_fqdn =
     header 0 0 1 0 0 0 @ encode_dns_name service_fqdn @ put_u16 DNS_TYPE_PTR @ put_u16 0x8001"

definition build_response :: "string \<Rightarrow> packet \<Rightarrow> u16 \<Rightarrow> packet" where
  "build_response fqdn ip query_id =
     header query_id (DNS_FLAG_RESPONSE OR DNS_FLAG_AUTHORITATIVE) 0 1 0 0
     @ resource fqdn DNS_TYPE_A (DNS_CLASS_IN OR 0x8000) MDNS_TTL ip"

section \<open>The parser of announcements\<close>

record DiscoveredService =
  svc_hostname :: string
  svc_ip :: string
  svc_port :: u16
  svc_txt :: "string list"

text \<open>The records that are collected: owner with target and port, owner with strings, owner with
  address.\<close>

record Gathered =
  srv_records :: "(string \<times> string \<times> u16) list"
  txt_records :: "(string \<times> string list) list"
  a_records :: "(string \<times> string) list"

text \<open>The questions are skipped; \<open>Some None\<close> is the early return without results.\<close>

fun skip_questions :: "packet \<Rightarrow> nat \<Rightarrow> nat \<Rightarrow> nat option option" where
  "skip_questions p 0 offset = Some (Some offset)"
| "skip_questions p (Suc k) offset =
     (if offset \<ge> length p then Some (Some offset)
      else do {
        (_, offset) \<leftarrow> decode_dns_name p offset;
        if offset + 4 > length p then Some None else skip_questions p k (offset + 4) })"

definition strip_local :: "string \<Rightarrow> string" where
  "strip_local t =
     (if length t > 6 \<and> drop (length t - 6) t = ''.local'' then take (length t - 6) t else t)"

definition of_service :: "string \<Rightarrow> string \<Rightarrow> bool" where
  "of_service service_type owner \<longleftrightarrow> service_type = [] \<or> find_sub service_type owner \<noteq> None"

function txt_strings :: "packet \<Rightarrow> nat \<Rightarrow> nat \<Rightarrow> string list \<Rightarrow> string list option" where
  "txt_strings p pos stop kvs =
     (if pos \<ge> stop then Some kvs
      else do {
        len \<leftarrow> rd p pos;
        if pos + 1 + unat len > stop then Some kvs
        else do {
          s \<leftarrow> rd_chars p (pos + 1) (unat len);
          txt_strings p (pos + 1 + unat len) stop (if len \<noteq> 0 then kvs @ [s] else kvs) } })"
  by pat_completeness auto
termination
  by (relation "measure (\<lambda>(p, pos, stop, kvs). stop - pos)") auto

declare txt_strings.simps [simp del]

definition parse_rdata :: "packet \<Rightarrow> string \<Rightarrow> string \<Rightarrow> u16 \<Rightarrow> nat \<Rightarrow> nat \<Rightarrow> Gathered \<Rightarrow> Gathered option" where
  "parse_rdata p service_type owner ty len start g =
     (if ty = DNS_TYPE_SRV \<and> len \<ge> 6 then do {
        port \<leftarrow> get_u16 p (start + 4);
        (target, _) \<leftarrow> decode_dns_name p (start + 6);
        Some (if of_service service_type owner
              then g\<lparr>srv_records := srv_records g @ [(owner, strip_local target, port)]\<rparr> else g) }
      else if ty = DNS_TYPE_TXT \<and> len > 0 then do {
        kvs \<leftarrow> txt_strings p start (start + len) [];
        Some (g\<lparr>txt_records := txt_records g @ [(owner, kvs)]\<rparr>) }
      else if ty = DNS_TYPE_A \<and> len = 4 then do {
        a \<leftarrow> rd p start; b \<leftarrow> rd p (start + 1); c \<leftarrow> rd p (start + 2); d \<leftarrow> rd p (start + 3);
        Some (g\<lparr>a_records := a_records g @ [(owner, show_ipv4 a b c d)]\<rparr>) }
      else Some g)"

fun parse_rrs :: "packet \<Rightarrow> string \<Rightarrow> nat \<Rightarrow> nat \<Rightarrow> Gathered \<Rightarrow> Gathered option" where
  "parse_rrs p service_type 0 offset g = Some g"
| "parse_rrs p service_type (Suc k) offset g =
     (if offset \<ge> length p then Some g
      else do {
        (owner, offset) \<leftarrow> decode_dns_name p offset;
        if offset + 10 > length p then Some g
        else do {
          ty \<leftarrow> get_u16 p offset;
          len \<leftarrow> get_u16 p (offset + 8);
          if offset + 10 + unat len > length p then Some g
          else do {
            g \<leftarrow> parse_rdata p service_type owner ty (unat len) (offset + 10) g;
            parse_rrs p service_type k (offset + 10 + unat len) g } } })"

definition merge_service :: "Gathered \<Rightarrow> string \<times> string \<times> u16 \<Rightarrow> DiscoveredService" where
  "merge_service g = (\<lambda>(owner, target, port).
     \<lparr>svc_hostname = target,
      svc_ip = (case find (\<lambda>(n, _). dns_name_eq n (target @ ''.local'')) (a_records g) of
                  None \<Rightarrow> [] | Some (_, ip) \<Rightarrow> ip),
      svc_port = port,
      svc_txt = (case find (\<lambda>(n, _). dns_name_eq n owner) (txt_records g) of
                   None \<Rightarrow> [] | Some (_, kvs) \<Rightarrow> kvs)\<rparr>)"

definition parse_service_responses :: "packet \<Rightarrow> string \<Rightarrow> DiscoveredService list option" where
  "parse_service_responses p service_type =
     (if length p < 12 then Some []
      else do {
        flags \<leftarrow> get_u16 p 2;
        qdcount \<leftarrow> get_u16 p 4;
        ancount \<leftarrow> get_u16 p 6;
        arcount \<leftarrow> get_u16 p 10;
        if flags AND DNS_FLAG_RESPONSE = 0 then Some []
        else do {
          after \<leftarrow> skip_questions p (unat qdcount) 12;
          case after of
            None \<Rightarrow> Some []
          | Some offset \<Rightarrow> do {
              g \<leftarrow> parse_rrs p service_type (unat (ancount + arcount)) offset
                     \<lparr>srv_records = [], txt_records = [], a_records = []\<rparr>;
              Some (map (merge_service g) (srv_records g)) } } })"

section \<open>The responder\<close>

text \<open>\<open>own_ip\<close> is the address that the thread of the responder keeps.\<close>

record MdnsResponder =
  mdns_running :: bool
  sock_open :: bool
  own_name :: string
  own_fqdn :: string
  services :: "MdnsServiceRecord list"
  own_ip :: packet

definition send_multicast :: "packet \<Rightarrow> MdnsResponder \<Rightarrow> packet list" where
  "send_multicast pkt st = (if \<not> sock_open st \<or> pkt = [] then [] else [pkt])"

text \<open>Whether the socket was created, bound and joined to the group are arguments of the start.\<close>

definition mdns_start :: "bool \<Rightarrow> bool \<Rightarrow> bool \<Rightarrow> string \<Rightarrow> string \<Rightarrow> MdnsResponder \<Rightarrow> bool \<times> MdnsResponder" where
  "mdns_start socket_ok bind_ok join_ok local_ip hostname st =
     (if mdns_running st then (False, st)
      else let st = st\<lparr>own_name := hostname, own_fqdn := hostname @ ''.local''\<rparr>
           in if \<not> socket_ok \<or> \<not> bind_ok \<or> \<not> join_ok then (False, st\<lparr>sock_open := False\<rparr>)
              else (True, st\<lparr>sock_open := True, mdns_running := True,
                own_ip := (case parse_ipv4 local_ip of None \<Rightarrow> [0, 0, 0, 0] | Some b \<Rightarrow> b)\<rparr>))"

definition mdns_stop :: "MdnsResponder \<Rightarrow> MdnsResponder" where
  "mdns_stop st = (if mdns_running st then st\<lparr>mdns_running := False, sock_open := False\<rparr> else st)"

definition advertise_service ::
  "string \<Rightarrow> string \<Rightarrow> u16 \<Rightarrow> string list \<Rightarrow> MdnsResponder \<Rightarrow> packet list \<times> MdnsResponder" where
  "advertise_service local_ip service_type port kvs st =
     (let browse = service_type @ ''.local'';
          svc = \<lparr>browse_name = browse, instance_name = own_name st @ [dot] @ browse,
                 svc_record_port = port, svc_record_txt = kvs\<rparr>;
          same = (\<lambda>s. browse_name s = browse);
          st = st\<lparr>services := (if list_ex same (services st) then upd_first same (\<lambda>_. svc) (services st)
                              else services st @ [svc])\<rparr>
      in case parse_ipv4 local_ip of
           None \<Rightarrow> ([], st)
         | Some ip \<Rightarrow> (let pkt = build_service_response svc (own_fqdn st) ip 0
                        in send_multicast pkt st @ send_multicast pkt st, st))"

text \<open>The address is looked up again while it is 0.0.0.0.\<close>

definition ensure_ip :: "string \<Rightarrow> MdnsResponder \<Rightarrow> MdnsResponder" where
  "ensure_ip local_ip st =
     (if own_ip st = [0, 0, 0, 0]
      then st\<lparr>own_ip := (case parse_ipv4 local_ip of None \<Rightarrow> own_ip st | Some b \<Rightarrow> b)\<rparr> else st)"

definition answer_a :: "string \<Rightarrow> u16 \<Rightarrow> string \<Rightarrow> u16 \<Rightarrow> u16 \<Rightarrow> MdnsResponder \<Rightarrow> packet list \<times> MdnsResponder" where
  "answer_a local_ip tx_id qname qtype qclass st =
     (if (qtype = DNS_TYPE_A \<or> qtype = DNS_TYPE_ANY) \<and> qclass = DNS_CLASS_IN \<and> dns_name_eq qname (own_fqdn st)
      then let st = ensure_ip local_ip st
           in (send_multicast (build_response (own_fqdn st) (own_ip st) tx_id) st, st)
      else ([], st))"

definition answer_ptr :: "string \<Rightarrow> u16 \<Rightarrow> string \<Rightarrow> u16 \<Rightarrow> u16 \<Rightarrow> MdnsResponder \<Rightarrow> packet list \<times> MdnsResponder" where
  "answer_ptr local_ip tx_id qname qtype qclass st =
     (if (qtype = DNS_TYPE_PTR \<or> qtype = DNS_TYPE_ANY) \<and> qclass = DNS_CLASS_IN
      then case find (\<lambda>s. dns_name_eq qname (browse_name s)) (services st) of
             None \<Rightarrow> ([], st)
           | Some svc \<Rightarrow>
               let st = ensure_ip local_ip st
               in (send_multicast (build_service_response svc (own_fqdn st) (own_ip st) tx_id) st, st)
      else ([], st))"

fun answer_questions ::
  "string \<Rightarrow> u16 \<Rightarrow> packet \<Rightarrow> nat \<Rightarrow> nat \<Rightarrow> MdnsResponder \<Rightarrow> (packet list \<times> MdnsResponder) option" where
  "answer_questions local_ip tx_id p 0 offset st = Some ([], st)"
| "answer_questions local_ip tx_id p (Suc k) offset st =
     (if offset \<ge> length p then Some ([], st)
      else do {
        (qname, offset) \<leftarrow> decode_dns_name p offset;
        if offset + 4 > length p then Some ([], st)
        else do {
          qtype \<leftarrow> get_u16 p offset;
          qc \<leftarrow> get_u16 p (offset + 2);
          let qclass = qc AND 0x7FFF;
              (out1, st) = answer_a local_ip tx_id qname qtype qclass st;
              (out2, st) = answer_ptr local_ip tx_id qname qtype qclass st
          in do {
            (out, st) \<leftarrow> answer_questions local_ip tx_id p k (offset + 4) st;
            Some (out1 @ out2 @ out, st) } } })"

text \<open>What the thread does with a received packet: the packets it sends.\<close>

definition handle_packet :: "string \<Rightarrow> packet \<Rightarrow> MdnsResponder \<Rightarrow> (packet list \<times> MdnsResponder) option" where
  "handle_packet local_ip p st =
     (if length p < 12 then Some ([], st)
      else do {
        tx_id \<leftarrow> get_u16 p 0;
        flags \<leftarrow> get_u16 p 2;
        qdcount \<leftarrow> get_u16 p 4;
        if flags AND DNS_FLAG_RESPONSE \<noteq> 0 then Some ([], st)
        else answer_questions local_ip tx_id p (unat qdcount) 12 st })"

section \<open>Discovery\<close>

definition same_address :: "DiscoveredService \<Rightarrow> DiscoveredService \<Rightarrow> bool" where
  "same_address a b \<longleftrightarrow> svc_ip a = svc_ip b \<and> svc_port a = svc_port b"

fun dedupe :: "DiscoveredService list \<Rightarrow> DiscoveredService list \<Rightarrow> DiscoveredService list" where
  "dedupe out [] = out"
| "dedupe out (s # ss) = dedupe (if list_ex (same_address s) out then out else out @ [s]) ss"

text \<open>The packets are those that arrive before the deadline.\<close>

fun collect :: "string \<Rightarrow> packet list \<Rightarrow> DiscoveredService list option" where
  "collect service_type [] = Some []"
| "collect service_type (p # ps) = do {
     found \<leftarrow> (if length p < 12 then Some [] else do {
                 flags \<leftarrow> get_u16 p 2;
                 if flags AND DNS_FLAG_RESPONSE = 0 then Some [] else parse_service_responses p service_type });
     rest \<leftarrow> collect service_type ps;
     Some (found @ rest) }"

definition discover_services ::
  "string \<Rightarrow> packet list \<Rightarrow> MdnsResponder \<Rightarrow> (packet list \<times> DiscoveredService list) option" where
  "discover_services service_type received st =
     (if \<not> sock_open st \<or> \<not> mdns_running st then Some ([], [])
      else let query = build_ptr_query (service_type @ ''.local'')
           in do {
             found \<leftarrow> collect service_type received;
             Some (send_multicast query st @ send_multicast query st, dedupe [] found) })"

end
