(* ===== verification/MdnsFacts.thy ===== *)
theory MdnsFacts
  imports Mdns
begin

text \<open>
  The lemmas and properties of the responder for multicast DNS: reads stay inside the packet, what
  is built is parsed back, and a query of one node is answered by another so that the service is
  found.
\<close>

section \<open>Reads stay inside\<close>

lemma bind_inside: "\<exists>x. m = Some x \<Longrightarrow> (\<And>x. m = Some x \<Longrightarrow> \<exists>r. f x = Some r) \<Longrightarrow> \<exists>r. m \<bind> f = Some r"
  by auto

lemma rd_inside [simp]: "i < length p \<Longrightarrow> rd p i = Some (p ! i)"
  by (simp add: rd_def)

lemma get_u16_inside: "i + 1 < length p \<Longrightarrow> \<exists>v. get_u16 p i = Some v"
  by (simp add: get_u16_def)

lemma rd_chars_inside: "i + n \<le> length p \<Longrightarrow> \<exists>s. rd_chars p i n = Some s"
  by (simp add: rd_chars_def)

lemma decode_loop_inside: "\<exists>s i. decode_loop p offset jumps saved name = Some (s, i)"
proof (induction p offset jumps saved name rule: decode_loop.induct)
  case (1 p offset jumps saved name)
  show ?case
  proof (cases "offset \<ge> length p \<or> jumps = 0")
    case False
    then have r: "rd p offset = Some (p ! offset)" by simp
    show ?thesis
    proof (cases "p ! offset AND 0xC0 = 0xC0")
      case True
      with False r show ?thesis
        using "1.IH"(1) by (subst decode_loop.simps) (auto simp: not_le)
    next
      case n: False
      show ?thesis
      proof (cases "offset + 1 + unat (p ! offset) > length p")
        case i: False
        then obtain l where "rd_chars p (offset + 1) (unat (p ! offset)) = Some l"
          using rd_chars_inside by (meson not_le)
        with False r n i show ?thesis
          using "1.IH"(2) by (subst decode_loop.simps) auto
      qed (use False r n in \<open>subst decode_loop.simps, auto\<close>)
    qed
  qed (subst decode_loop.simps, auto)
qed

lemma decode_inside: "\<exists>s i. decode_dns_name p offset = Some (s, i)"
  by (simp add: decode_dns_name_def decode_loop_inside)

lemma skip_questions_inside: "\<exists>r. skip_questions p k offset = Some r"
proof (induction k arbitrary: offset)
  case (Suc k)
  obtain s i where "decode_dns_name p offset = Some (s, i)" using decode_inside by blast
  with Suc show ?case by simp
qed simp

lemma txt_strings_inside: "stop \<le> length p \<Longrightarrow> \<exists>r. txt_strings p pos stop kvs = Some r"
proof (induction p pos stop kvs rule: txt_strings.induct)
  case (1 p pos stop kvs)
  show ?case
  proof (cases "pos \<ge> stop \<or> pos + 1 + unat (p ! pos) > stop")
    case False
    then obtain l where "rd_chars p (pos + 1) (unat (p ! pos)) = Some l"
      using rd_chars_inside [of "pos + 1" "unat (p ! pos)" p] "1.prems" by auto
    with False "1.prems" "1.IH" show ?thesis by (subst txt_strings.simps) auto
  qed (use "1.prems" in \<open>subst txt_strings.simps, auto\<close>)
qed

lemma parse_rdata_inside: "start + len \<le> length p \<Longrightarrow> \<exists>r. parse_rdata p st owner ty len start g = Some r"
  using get_u16_inside [of "start + 4" p] decode_inside [of p "start + 6"] txt_strings_inside [of "start + len" p start "[]"]
  by (auto simp: parse_rdata_def)

lemma parse_rrs_inside: "\<exists>r. parse_rrs p st k offset g = Some r"
proof (induction k arbitrary: offset g)
  case (Suc k)
  obtain s i where d: "decode_dns_name p offset = Some (s, i)" using decode_inside by blast
  show ?case
  proof (cases "offset \<ge> length p \<or> i + 10 > length p")
    case False
    then obtain ty len where "get_u16 p i = Some ty" and l: "get_u16 p (i + 8) = Some len"
      using get_u16_inside [of i p] get_u16_inside [of "i + 8" p] by auto
    with False d Suc parse_rdata_inside [of "i + 10" "unat len" p st s ty g] show ?thesis by auto
  qed (use d in auto)
qed simp

lemma parse_inside: "\<exists>r. parse_service_responses p st = Some r"
proof (cases "length p < 12")
  case False
  then obtain a b c d where "get_u16 p 2 = Some a" "get_u16 p 4 = Some b" "get_u16 p 6 = Some c" "get_u16 p 10 = Some d"
    using get_u16_inside [of 2 p] get_u16_inside [of 4 p] get_u16_inside [of 6 p] get_u16_inside [of 10 p] by auto
  moreover obtain r where "skip_questions p (unat b) 12 = Some r" using skip_questions_inside by blast
  ultimately show ?thesis
    by (cases r) (auto simp: parse_service_responses_def Let_def parse_rrs_inside intro!: bind_inside)
qed (simp add: parse_service_responses_def)

lemma answer_questions_inside: "\<exists>r. answer_questions lip i p k offset st = Some r"
proof (induction k arbitrary: offset st)
  case (Suc k)
  obtain s j where d: "decode_dns_name p offset = Some (s, j)" using decode_inside by blast
  show ?case
  proof (cases "offset \<ge> length p \<or> j + 4 > length p")
    case False
    then obtain ty c where "get_u16 p j = Some ty" "get_u16 p (j + 2) = Some c"
      using get_u16_inside [of j p] get_u16_inside [of "j + 2" p] by auto
    moreover have "\<exists>a b. answer_questions lip i p k o' st' = Some (a, b)" for o' st'
      using Suc.IH [of o' st'] by auto
    moreover from this have "\<exists>a b. answer_questions lip i p k o' st' \<bind> (\<lambda>(out, st). Some (x @ out, st)) = Some (a, b)" for o' st' x
      by (metis (no_types, lifting) bind.bind_lunit case_prod_conv)
    ultimately show ?thesis using False d by (auto simp: Let_def split: prod.split simp flip: append_assoc)
  qed (use d in auto)
qed simp

lemma handle_inside: "\<exists>r. handle_packet lip p st = Some r"
proof (cases "length p < 12")
  case False
  then obtain a b c where "get_u16 p 0 = Some a" "get_u16 p 2 = Some b" "get_u16 p 4 = Some c"
    using get_u16_inside [of 0 p] get_u16_inside [of 2 p] get_u16_inside [of 4 p] by auto
  with False answer_questions_inside show ?thesis by (auto simp: handle_packet_def)
qed (simp add: handle_packet_def)

lemma collect_inside: "\<exists>r. collect st ps = Some r"
proof (induction ps)
  case (Cons p ps)
  show ?case
  proof (cases "length p < 12")
    case False
    then obtain f where "get_u16 p 2 = Some f" using get_u16_inside [of 2 p] by auto
    with False Cons parse_inside [of p st] show ?thesis by auto
  qed (use Cons in auto)
qed simp

text \<open>
  C7: no packet, however malformed, and no sequence of packets makes the responder, the parser of
  announcements or the discovery read outside of the packet, and each of them returns: compression
  pointers that form a cycle end after ten jumps, whatever the counts in the header say.
\<close>

theorem mdns_reads_inside:
  "parse_service_responses p service_type \<noteq> None
    \<and> handle_packet local_ip p st \<noteq> None
    \<and> discover_services service_type ps st \<noteq> None"
proof -
  obtain found where "collect service_type ps = Some found" using collect_inside by blast
  with parse_inside [of p service_type] handle_inside [of local_ip p st] show ?thesis
    by (auto simp: discover_services_def Let_def)
qed

section \<open>Bytes in a packet\<close>

text \<open>The bytes stand in the packet at the offset.\<close>

definition at :: "packet \<Rightarrow> nat \<Rightarrow> packet \<Rightarrow> bool" where
  "at p i bs \<longleftrightarrow> (\<exists>r. drop i p = bs @ r)"

lemma at_append: "at p i (a @ b) \<longleftrightarrow> at p i a \<and> at p (i + length a) b"
proof -
  have "drop (i + length a) p = drop (length a) (drop i p)" by (simp add: add.commute)
  then show ?thesis unfolding at_def by (auto simp del: drop_drop)
qed

lemma at_whole: "at p 0 p"
  by (simp add: at_def)

lemma at_length: "at p i bs \<Longrightarrow> bs \<noteq> [] \<Longrightarrow> i + length bs \<le> length p"
proof -
  assume "at p i bs" "bs \<noteq> []"
  then obtain r where "drop i p = bs @ r" by (auto simp: at_def)
  then have "length (drop i p) = length bs + length r" by simp
  with \<open>bs \<noteq> []\<close> show ?thesis by (cases bs) (auto simp: not_le)
qed

lemma at_Cons: "at p i (b # bs) \<longleftrightarrow> rd p i = Some b \<and> at p (i + 1) bs"
proof (cases "i < length p")
  case True
  then have "drop i p = p ! i # drop (i + 1) p" by (simp add: Cons_nth_drop_Suc)
  with True show ?thesis by (auto simp: at_def rd_def)
qed (simp add: at_def rd_def)

lemma get_put_u16: "at p i (put_u16 v) \<Longrightarrow> get_u16 p i = Some v"
proof -
  assume "at p i (put_u16 v)"
  then have "get_u16 p i = Some (push_bit 8 (ucast (ucast (drop_bit 8 v) :: byte)) OR ucast (ucast (v AND 0xFF) :: byte))"
    by (simp add: put_u16_def at_Cons get_u16_def)
  moreover have m: "(0xFF :: u16) = mask 8" by (simp add: mask_eq_exp_minus_1)
  have "push_bit 8 (ucast (ucast (drop_bit 8 v) :: byte)) OR ucast (ucast (v AND 0xFF) :: byte) = v"
    unfolding m by (rule bit_word_eqI) (auto simp: bit_simps)
  ultimately show ?thesis by simp
qed

lemma char_byte: "char_of (unat (of_char c :: byte)) = c"
proof -
  have "unat (of_char c :: byte) = of_char c" by (cases c) (simp add: of_char_def)
  then show ?thesis by simp
qed

lemma chars_bytes [simp]: "chars_of (bytes_of s) = s"
  by (simp add: chars_of_def bytes_of_def char_byte comp_def)

lemma length_bytes_of [simp]: "length (bytes_of s) = length s"
  by (simp add: bytes_of_def)

lemma rd_chars_at: "at p i (bytes_of s) \<Longrightarrow> s \<noteq> [] \<Longrightarrow> rd_chars p i (length s) = Some s"
proof -
  assume a: "at p i (bytes_of s)" "s \<noteq> []"
  then obtain r where "drop i p = bytes_of s @ r" by (auto simp: at_def)
  moreover have "i + length s \<le> length p" using at_length [OF a(1)] a(2) by (simp add: bytes_of_def)
  ultimately show ?thesis by (simp add: rd_chars_def)
qed

section \<open>Names\<close>

definition labels :: "string \<Rightarrow> string list" where
  "labels s = getlines dot [] s"

definition legal_name :: "string \<Rightarrow> bool" where
  "legal_name s \<longleftrightarrow> s = [] \<or> last s \<noteq> dot \<and> list_all (\<lambda>l. l \<noteq> [] \<and> length l \<le> 63) (labels s)"

lemma legal_name_label:
  assumes "legal_name s" "s \<noteq> []"
  obtains l where "l \<noteq> []" "length l \<le> 63" "dot \<notin> set l" "s = l"
  | l t where "l \<noteq> []" "length l \<le> 63" "dot \<notin> set l" "s = l @ dot # t" "t \<noteq> []" "legal_name t"
proof (cases "dot \<in> set s")
  case False
  with assms that(1) [of s] show ?thesis by (auto simp: legal_name_def labels_def getlines_last)
next
  case True
  then obtain l t where s: "s = l @ dot # t" "dot \<notin> set l" by (meson split_list_first)
  then have "labels s = l # labels t" by (simp add: labels_def getlines_line)
  moreover have "t \<noteq> []" using assms s by (auto simp: legal_name_def)
  moreover from this have "last s = last t" using s by simp
  ultimately show ?thesis using assms s that(2) by (auto simp: legal_name_def)
qed

lemma encode_labels_Nil: "encode_labels [] = []"
  by (simp add: encode_labels.simps)

lemma encode_labels_last: "dot \<notin> set l \<Longrightarrow> l \<noteq> [] \<Longrightarrow> encode_labels l = encode_label l"
proof -
  assume l: "dot \<notin> set l" "l \<noteq> []"
  then have "takeWhile (\<lambda>c. c \<noteq> dot) l = l" by (auto simp: takeWhile_eq_all_conv)
  note w = this
  show ?thesis
    by (subst encode_labels.simps) (simp only: w Let_def l(2) if_False, simp add: encode_labels_Nil)
qed

lemma encode_labels_more: "dot \<notin> set l \<Longrightarrow> encode_labels (l @ dot # t) = encode_label l @ encode_labels t"
proof -
  assume "dot \<notin> set l"
  then have "takeWhile (\<lambda>c. c \<noteq> dot) (l @ dot # t) = l" by (subst takeWhile_append2) auto
  then show ?thesis by (subst encode_labels.simps) (simp add: Let_def)
qed

lemma label_byte:
  assumes "0 < n" "n \<le> 63"
  shows "(of_nat n :: byte) \<noteq> 0" "(of_nat n :: byte) AND 0xC0 \<noteq> 0xC0" "unat (of_nat n :: byte) = n"
proof -
  show u: "unat (of_nat n :: byte) = n" using assms by (simp add: unat_of_nat)
  then show "(of_nat n :: byte) \<noteq> 0" using assms by (metis less_numeral_extra(3) unat_0)
  show "(of_nat n :: byte) AND 0xC0 \<noteq> 0xC0"
  proof
    assume "(of_nat n :: byte) AND 0xC0 = 0xC0"
    then have "(0xC0 :: byte) \<le> of_nat n" by (metis word_and_le2)
    then have "unat (0xC0 :: byte) \<le> n" using u by (simp add: word_le_nat_alt)
    with assms show False by simp
  qed
qed

definition join_name :: "string \<Rightarrow> string \<Rightarrow> string" where
  "join_name a s = (if a = [] then s else if s = [] then a else a @ dot # s)"

lemma join_name_label: "l \<noteq> [] \<Longrightarrow> join_name ((if a \<noteq> [] then a @ [dot] else []) @ l) t
    = join_name a (if t = [] then l else l @ dot # t)"
  by (simp add: join_name_def)

lemma decode_label:
  assumes "at p i (encode_label l)" "l \<noteq> []" "length l \<le> 63" "0 < j"
  shows "decode_loop p i j saved a =
    decode_loop p (i + length (encode_label l)) j saved ((if a \<noteq> [] then a @ [dot] else []) @ l)"
proof -
  have r: "rd p i = Some (of_nat (length l))" "at p (i + 1) (bytes_of l)"
    using assms by (simp_all add: encode_label_def at_Cons)
  have n: "i + 1 + length l \<le> length p" using at_length [OF r(2)] assms(2) by (auto simp: bytes_of_def)
  note b = label_byte [of "length l"]
  show ?thesis
    using assms r n b rd_chars_at [OF r(2)] by (subst decode_loop.simps) (simp add: encode_label_def)
qed

lemma decode_encoded:
  "at p i (encode_dns_name s) \<Longrightarrow> legal_name s \<Longrightarrow> 0 < j \<Longrightarrow>
     decode_loop p i j None a = Some (join_name a s, i + length (encode_dns_name s))"
proof (induction "length s" arbitrary: s i a rule: less_induct)
  case less
  show ?case
  proof (cases "s = []")
    case True
    with less.prems have "rd p i = Some 0" by (simp add: encode_dns_name_def encode_labels_Nil at_Cons)
    with True less.prems show ?thesis
      by (subst decode_loop.simps)
        (auto simp: encode_dns_name_def encode_labels_Nil join_name_def resume_def rd_def split: if_splits)
  next
    case False
    from legal_name_label [OF less.prems(2) False] show ?thesis
    proof cases
      case (1 l)
      have e: "encode_dns_name s = encode_label l @ encode_dns_name []"
        using 1 by (simp add: encode_dns_name_def encode_labels_last encode_labels_Nil)
      with less.prems(1) have at: "at p i (encode_label l)" "at p (i + length (encode_label l)) (encode_dns_name [])"
        by (simp_all add: at_append)
      from less.hyps [of "[]" "i + length (encode_label l)"] at(2) False less.prems(3)
      have "decode_loop p (i + length (encode_label l)) j None b = Some (join_name b [], i + length (encode_dns_name s))" for b
        by (simp add: e legal_name_def)
      with decode_label [OF at(1) 1(1,2) less.prems(3)] join_name_label [OF 1(1), of a "[]"] 1 show ?thesis by simp
    next
      case (2 l t)
      have e: "encode_dns_name s = encode_label l @ encode_dns_name t"
        using 2 by (simp add: encode_dns_name_def encode_labels_more)
      with less.prems(1) have at: "at p i (encode_label l)" "at p (i + length (encode_label l)) (encode_dns_name t)"
        by (simp_all add: at_append)
      have "length t < length s" using 2(4) by simp
      from less.hyps [OF this at(2) 2(6) less.prems(3)]
      have "decode_loop p (i + length (encode_label l)) j None b = Some (join_name b t, i + length (encode_dns_name s))" for b
        by (simp add: e)
      with decode_label [OF at(1) 2(1,2) less.prems(3)] join_name_label [OF 2(1), of a t] 2 show ?thesis by simp
    qed
  qed
qed

lemma decode_name_at:
  "at p i (encode_dns_name s) \<Longrightarrow> legal_name s \<Longrightarrow>
     decode_dns_name p i = Some (s, i + length (encode_dns_name s))"
  using decode_encoded [of p i s 10 "[]"] by (simp add: decode_dns_name_def join_name_def)

interpretation dns_names: codec encode_dns_name "\<lambda>p. map_option fst (decode_dns_name p 0)" legal_name
  by unfold_locales (simp add: decode_name_at [OF at_whole])

section \<open>Records\<close>

lemma length_put [simp]: "length (put_u16 v) = 2" "length (put_u32 w) = 4"
  by (simp_all add: put_u16_def put_u32_def)

lemma encode_not_Nil [simp]: "encode_dns_name s \<noteq> []"
  by (simp add: encode_dns_name_def)

lemma resource_parsed:
  assumes "at p i (resource owner ty cls ttl rdata)" "legal_name owner" "length rdata < 2 ^ 16"
  shows "parse_rrs p st (Suc k) i g = do {
      g \<leftarrow> parse_rdata p st owner ty (length rdata) (i + length (encode_dns_name owner) + 10) g;
      parse_rrs p st k (i + length (resource owner ty cls ttl rdata)) g }"
    and "at p (i + length (encode_dns_name owner) + 10) rdata"
proof -
  define j where "j = i + length (encode_dns_name owner)"
  have a: "at p i (encode_dns_name owner)" "at p j (put_u16 ty)" "at p (j + 8) (put_u16 (of_nat (length rdata)))"
    "at p (j + 10) rdata"
    using assms(1) by (simp_all add: resource_def at_append add.assoc j_def eval_nat_numeral)
  show "at p (i + length (encode_dns_name owner) + 10) rdata" using a(4) by (simp add: j_def)
  have e: "i + length (resource owner ty cls ttl rdata) = j + 10 + length rdata"
    by (simp add: j_def resource_def)
  have l: "\<not> length p < j + 10 + length rdata" "\<not> length p \<le> i" "\<not> length p < j + 10"
    using at_length [OF assms(1)] e by (auto simp: resource_def j_def)
  have "unat (of_nat (length rdata) :: u16) = length rdata" using assms(3) by (simp add: unat_of_nat)
  moreover have "decode_dns_name p i = Some (owner, j)" using decode_name_at [OF a(1) assms(2)] by (simp add: j_def)
  ultimately show "parse_rrs p st (Suc k) i g = do {
      g \<leftarrow> parse_rdata p st owner ty (length rdata) (i + length (encode_dns_name owner) + 10) g;
      parse_rrs p st k (i + length (resource owner ty cls ttl rdata)) g }"
    unfolding e by (simp add: l get_put_u16 [OF a(2)] get_put_u16 [OF a(3)] flip: j_def)
qed

lemma txt_string_parsed:
  assumes "at p i (concat (map txt_string kvs))" "list_all (\<lambda>kv. kv \<noteq> [] \<and> length kv \<le> 255) kvs"
  shows "txt_strings p i (i + length (concat (map txt_string kvs))) acc = Some (acc @ kvs)"
  using assms
proof (induction kvs arbitrary: i acc)
  case Nil
  then show ?case by (subst txt_strings.simps) simp
next
  case (Cons kv kvs)
  let ?n = "length kv"
  have k: "kv \<noteq> []" "?n \<le> 255" using Cons.prems by simp_all
  then have u: "unat (of_nat ?n :: byte) = ?n" by (simp add: unat_of_nat)
  with k(1) have nz: "(of_nat ?n :: byte) \<noteq> 0" by (metis length_0_conv unat_0)
  have s: "txt_string kv = of_nat ?n # bytes_of kv" using k by (simp add: txt_string_def)
  have a: "rd p i = Some (of_nat ?n)" "at p (i + 1) (bytes_of kv)" "at p (i + 1 + ?n) (concat (map txt_string kvs))"
    using Cons.prems(1) by (simp_all add: s at_Cons at_append)
  have "txt_strings p (i + 1 + ?n) (i + 1 + ?n + length (concat (map txt_string kvs))) (acc @ [kv]) = Some ((acc @ [kv]) @ kvs)"
    using Cons.IH [OF a(3)] Cons.prems(2) by simp
  moreover have "i + length (concat (map txt_string (kv # kvs))) = i + 1 + ?n + length (concat (map txt_string kvs))"
    by (simp add: s)
  ultimately show ?case
    using a(1) rd_chars_at [OF a(2) k(1)] u nz by (subst txt_strings.simps) (simp add: add.assoc)
qed

definition legal_txt :: "string list \<Rightarrow> bool" where
  "legal_txt kvs \<longleftrightarrow> list_all (\<lambda>kv. kv \<noteq> [] \<and> length kv \<le> 255) kvs \<and> length (txt_rdata kvs) < 2 ^ 16"

lemma txt_rdata_parsed:
  assumes "at p i (txt_rdata kvs)" "legal_txt kvs"
  shows "txt_strings p i (i + length (txt_rdata kvs)) [] = Some kvs"
proof (cases "kvs = []")
  case True
  then have a: "rd p i = Some 0" using assms(1) by (simp add: txt_rdata_def at_Cons)
  moreover from a have "rd_chars p (i + 1) 0 = Some []" by (simp add: rd_chars_def chars_of_def rd_def split: if_splits)
  moreover have "txt_strings p (i + 1) (i + 1) [] = Some []" by (subst txt_strings.simps) simp
  ultimately show ?thesis using True by (subst txt_strings.simps) (simp add: txt_rdata_def)
next
  case False
  with assms txt_string_parsed [of p i kvs "[]"] show ?thesis by (simp add: txt_rdata_def legal_txt_def)
qed

lemma dns_name_eq_refl [simp]: "dns_name_eq a a"
  by (simp add: dns_name_eq_def list.rel_refl)

lemma ptr_parsed:
  assumes "at p i (append_ptr browse inst)" "legal_name browse" "length (encode_dns_name inst) < 2 ^ 16"
  shows "parse_rrs p st (Suc k) i g = parse_rrs p st k (i + length (append_ptr browse inst)) g"
  unfolding resource_parsed(1) [OF assms(1) [unfolded append_ptr_def] assms(2,3)]
  by (simp add: append_ptr_def parse_rdata_def dns_constants)

lemma srv_parsed:
  assumes "at p i (append_srv inst host port)" "legal_name inst" "legal_name host"
    "length (encode_dns_name host) + 6 < 2 ^ 16"
  shows "parse_rrs p st (Suc k) i g = parse_rrs p st k (i + length (append_srv inst host port))
    (if of_service st inst then g\<lparr>srv_records := srv_records g @ [(inst, strip_local host, port)]\<rparr> else g)"
proof -
  let ?r = "put_u16 0 @ put_u16 0 @ put_u16 port @ encode_dns_name host"
  define s where "s = i + length (encode_dns_name inst) + 10"
  have l: "length ?r < 2 ^ 16" using assms(4) by simp
  note r = resource_parsed [OF assms(1) [unfolded append_srv_def] assms(2) l]
  from r(2) have "at p (s + 4) (put_u16 port)" "at p (s + 6) (encode_dns_name host)"
    by (simp_all add: at_append s_def add.assoc eval_nat_numeral)
  then have "parse_rdata p st inst DNS_TYPE_SRV (length ?r) s g
    = Some (if of_service st inst then g\<lparr>srv_records := srv_records g @ [(inst, strip_local host, port)]\<rparr> else g)"
    by (simp add: parse_rdata_def get_put_u16 decode_name_at assms(3))
  with r(1) show ?thesis by (simp only: append_srv_def s_def bind.bind_lunit)
qed

lemma txt_parsed:
  assumes "at p i (append_txt inst kvs)" "legal_name inst" "legal_txt kvs"
  shows "parse_rrs p st (Suc k) i g = parse_rrs p st k (i + length (append_txt inst kvs))
    (g\<lparr>txt_records := txt_records g @ [(inst, kvs)]\<rparr>)"
proof -
  define s where "s = i + length (encode_dns_name inst) + 10"
  have l: "length (txt_rdata kvs) < 2 ^ 16" using assms(3) by (simp add: legal_txt_def)
  note r = resource_parsed [OF assms(1) [unfolded append_txt_def] assms(2) l]
  have "length (txt_rdata kvs) > 0" by (cases kvs) (simp_all add: txt_rdata_def txt_string_def)
  then have "parse_rdata p st inst DNS_TYPE_TXT (length (txt_rdata kvs)) s g
    = Some (g\<lparr>txt_records := txt_records g @ [(inst, kvs)]\<rparr>)"
    using txt_rdata_parsed [OF r(2) assms(3)] by (simp add: parse_rdata_def dns_constants s_def)
  with r(1) show ?thesis by (simp only: append_txt_def s_def bind.bind_lunit)
qed

lemma a_parsed:
  assumes "at p i (append_a host [a, b, c, d])" "legal_name host"
  shows "parse_rrs p st (Suc k) i g = parse_rrs p st k (i + length (append_a host [a, b, c, d]))
    (g\<lparr>a_records := a_records g @ [(host, show_ipv4 a b c d)]\<rparr>)"
proof -
  define s where "s = i + length (encode_dns_name host) + 10"
  have l: "length [a, b, c, d] < 2 ^ 16" by simp
  note r = resource_parsed [OF assms(1) [unfolded append_a_def] assms(2) l]
  from r(2) have "parse_rdata p st host DNS_TYPE_A (length [a, b, c, d]) s g
    = Some (g\<lparr>a_records := a_records g @ [(host, show_ipv4 a b c d)]\<rparr>)"
    by (simp add: parse_rdata_def dns_constants s_def at_Cons)
  with r(1) show ?thesis by (simp only: append_a_def s_def bind.bind_lunit)
qed

section \<open>Services\<close>

text \<open>A service that fits into records: legal names, texts of 1 to 255 bytes.\<close>

definition legal_service :: "MdnsServiceRecord \<Rightarrow> string \<Rightarrow> bool" where
  "legal_service svc host \<longleftrightarrow>
     legal_name (browse_name svc) \<and> legal_name (instance_name svc) \<and> legal_name (host @ ''.local'')
     \<and> length (encode_dns_name (instance_name svc)) < 2 ^ 16 \<and> length (encode_dns_name (host @ ''.local'')) + 6 < 2 ^ 16
     \<and> legal_txt (svc_record_txt svc) \<and> host \<noteq> []"

text \<open>What a client knows of it.\<close>

definition discovered :: "MdnsServiceRecord \<Rightarrow> string \<Rightarrow> byte \<Rightarrow> byte \<Rightarrow> byte \<Rightarrow> byte \<Rightarrow> DiscoveredService" where
  "discovered svc host a b c d =
     \<lparr>svc_hostname = host, svc_ip = show_ipv4 a b c d, svc_port = svc_record_port svc, svc_txt = svc_record_txt svc\<rparr>"

lemma strip_local_host: "host \<noteq> [] \<Longrightarrow> strip_local (host @ ''.local'') = host"
  by (simp add: strip_local_def)

lemma header_length [simp]: "length (header i f q an ns ar) = 12"
  by (simp add: header_def)

lemma header_fields:
  assumes "at p 0 (header i f q an ns ar)"
  shows "get_u16 p 0 = Some i" "get_u16 p 2 = Some f" "get_u16 p 4 = Some q" "get_u16 p 6 = Some an" "get_u16 p 10 = Some ar"
  using assms by (auto simp: header_def at_append eval_nat_numeral intro!: get_put_u16)

lemma service_parsed:
  assumes "legal_service svc host" "of_service st (instance_name svc)"
  shows "parse_service_responses (build_service_response svc (host @ ''.local'') [a, b, c, d] i) st
    = Some [discovered svc host a b c d]"
proof -
  let ?h = "host @ ''.local''"
  let ?p = "build_service_response svc ?h [a, b, c, d] i"
  let ?ptr = "append_ptr (browse_name svc) (instance_name svc)"
  let ?srv = "append_srv (instance_name svc) ?h (svc_record_port svc)"
  let ?txt = "append_txt (instance_name svc) (svc_record_txt svc)"
  let ?a = "append_a ?h [a, b, c, d]"
  have p: "at ?p 0 (header i (DNS_FLAG_RESPONSE OR DNS_FLAG_AUTHORITATIVE) 0 1 0 3)" "at ?p 12 ?ptr"
    "at ?p (12 + length ?ptr) ?srv" "at ?p (12 + length ?ptr + length ?srv) ?txt"
    "at ?p (12 + length ?ptr + length ?srv + length ?txt) ?a"
    using at_whole [of ?p] unfolding build_service_response_def by (simp_all add: at_append add.assoc)
  have n: "legal_name (browse_name svc)" "legal_name (instance_name svc)" "legal_name ?h"
    "length (encode_dns_name (instance_name svc)) < 2 ^ 16" "length (encode_dns_name ?h) + 6 < 2 ^ 16"
    "legal_txt (svc_record_txt svc)" "length (txt_rdata (svc_record_txt svc)) < 2 ^ 16" "host \<noteq> []"
    using assms(1) by (simp_all add: legal_service_def legal_txt_def)
  have four: "Suc (Suc (Suc (Suc 0))) = 4" by simp
  have "parse_rrs ?p st (Suc (Suc (Suc (Suc 0)))) 12 \<lparr>srv_records = [], txt_records = [], a_records = []\<rparr>
    = Some \<lparr>srv_records = [(instance_name svc, host, svc_record_port svc)],
        txt_records = [(instance_name svc, svc_record_txt svc)], a_records = [(?h, show_ipv4 a b c d)]\<rparr>"
    by (simp only: ptr_parsed [OF p(2) n(1,4)] srv_parsed [OF p(3) n(2,3,5)] txt_parsed [OF p(4) n(2,6)]
        a_parsed [OF p(5) n(3)] parse_rrs.simps(1)) (simp add: assms(2) strip_local_host n(8))
  note g = this [unfolded four]
  have "\<not> length ?p < 12" by (simp add: build_service_response_def)
  with g show ?thesis
    using header_fields [OF p(1)]
    by (simp add: parse_service_responses_def merge_service_def discovered_def dns_constants del: parse_rrs.simps)
qed

lemma scan_dot_show: "scan_dot (show_byte a @ dot # r) = Some (int (unat a), r)"
proof -
  have "unat a < 256" by (rule unat_byte)
  moreover have "\<not> is_digit dot" by (simp add: is_digit_def dot_def)
  ultimately have "strtoul (show_byte a @ dot # r) = Some (int (unat a), dot # r, False)"
    unfolding show_byte_def by (intro strtoul_show_nat) simp_all
  then show ?thesis by (simp add: scan_dot_def del: of_nat_unat)
qed

lemma parse_show_ipv4: "parse_ipv4 (show_ipv4 a b c d) = Some [a, b, c, d]"
proof -
  have u: "\<not> int (unat x) > 255" for x :: byte using unat_byte [of x] by linarith
  have d: "strtoul (show_byte d) = Some (int (unat d), [], False)"
    using strtoul_show_nat [of "unat d" "[]"] unat_byte [of d] by (simp add: show_byte_def)
  have w: "word_of_int (int (unat x)) = x" for x :: byte by simp
  show ?thesis
    unfolding parse_ipv4_def show_ipv4_def
    by (simp only: append_Cons append_Nil scan_dot_show bind.bind_lunit prod.case d to_u32_byte u simp_thms if_False list.map w)
qed

section \<open>Announcements are read back\<close>

text \<open>
  an announcement is read back: the packet that is built for a service of a host with an
  address is parsed, by anyone who looks for that type of service, as exactly this service with its
  host, address, port and texts.
\<close>

theorem service_roundtrip:
  assumes "legal_service svc host" "of_service st (instance_name svc)"
  shows "parse_service_responses (build_service_response svc (host @ ''.local'') [a, b, c, d] i) st
    = Some [\<lparr>svc_hostname = host, svc_ip = show_ipv4 a b c d, svc_port = svc_record_port svc,
        svc_txt = svc_record_txt svc\<rparr>]"
  using service_parsed [OF assms] by (simp add: discovered_def)

definition rpc_service :: MdnsServiceRecord where
  "rpc_service = \<lparr>browse_name = ''_llama-rpc._tcp.local'', instance_name = ''llamaste._llama-rpc._tcp.local'',
     svc_record_port = 50052, svc_record_txt = [''ram=8192'', ''cores=4'']\<rparr>"

lemma rpc_service_legal: "legal_service rpc_service ''llamaste''"
  by (simp add: legal_service_def rpc_service_def legal_name_def labels_def legal_txt_def txt_rdata_def txt_string_def
      encode_dns_name_def encode_labels.simps encode_label_def bytes_of_def dot_def Let_def)

theorem service_roundtrip_witness:
  "parse_service_responses (build_service_response rpc_service ''llamaste.local'' [192, 168, 0, 7] 0) ''_llama-rpc._tcp''
    = Some [\<lparr>svc_hostname = ''llamaste'', svc_ip = show_ipv4 192 168 0 7, svc_port = 50052, svc_txt = [''ram=8192'', ''cores=4'']\<rparr>]"
  using service_roundtrip [OF rpc_service_legal, of "''_llama-rpc._tcp''" 192 168 0 7 0]
  by (simp add: of_service_def rpc_service_def starts_with_def)

section \<open>Queries and answers\<close>

lemma not_dns_types: "DNS_TYPE_PTR \<noteq> DNS_TYPE_A" "DNS_TYPE_PTR \<noteq> DNS_TYPE_ANY"
  by (simp_all add: dns_constants)

lemma ptr_query_answered:
  assumes "legal_name name" "find (\<lambda>s. dns_name_eq name (browse_name s)) (services st) = Some svc"
  shows "handle_packet lip (build_ptr_query name) st =
    (let st = ensure_ip lip st
     in Some (send_multicast (build_service_response svc (own_fqdn st) (own_ip st) 0) st, st))"
proof -
  let ?p = "build_ptr_query name"
  let ?j = "12 + length (encode_dns_name name)"
  have p: "at ?p 0 (header 0 0 1 0 0 0)" "at ?p 12 (encode_dns_name name)" "at ?p ?j (put_u16 DNS_TYPE_PTR)"
    "at ?p (?j + 2) (put_u16 0x8001)"
    using at_whole [of ?p] unfolding build_ptr_query_def by (simp_all add: at_append add.assoc)
  have l: "length ?p = ?j + 4" by (simp add: build_ptr_query_def)
  have c: "(0x8001 :: u16) AND 0x7FFF = DNS_CLASS_IN" by (simp add: dns_constants)
  have "answer_questions lip 0 ?p (Suc 0) 12 st =
    (let st = ensure_ip lip st
     in Some (send_multicast (build_service_response svc (own_fqdn st) (own_ip st) 0) st, st))"
    using decode_name_at [OF p(2) assms(1)] get_put_u16 [OF p(3)] get_put_u16 [OF p(4)] l c
    by (simp add: answer_a_def answer_ptr_def not_dns_types assms(2) Let_def)
  with header_fields [OF p(1)] l show ?thesis by (simp add: handle_packet_def del: answer_questions.simps)
qed

section \<open>One node finds the service of another\<close>

lemma find_append_None: "find f xs = None \<Longrightarrow> find f (xs @ ys) = find f ys"
  by (induction xs) (auto split: if_splits)

lemma ensure_ip_same: "parse_ipv4 lip = Some (own_ip st) \<Longrightarrow> ensure_ip lip st = st"
  by (simp add: ensure_ip_def)

lemma advertise_sends:
  assumes "parse_ipv4 lip = Some ip" "sock_open st"
    and "\<not> list_ex (\<lambda>s. browse_name s = ty @ ''.local'') (services st)"
  shows "advertise_service lip ty port kvs st =
    (let svc = \<lparr>browse_name = ty @ ''.local'', instance_name = own_name st @ [dot] @ ty @ ''.local'',
                svc_record_port = port, svc_record_txt = kvs\<rparr>;
         pkt = build_service_response svc (own_fqdn st) ip 0
     in ([pkt, pkt], st\<lparr>services := services st @ [svc]\<rparr>))"
  using assms by (simp add: advertise_service_def send_multicast_def Let_def build_service_response_def header_def put_u16_def)

lemma service_response_flags:
  "get_u16 (build_service_response svc host ip i) 2 = Some (DNS_FLAG_RESPONSE OR DNS_FLAG_AUTHORITATIVE)"
proof -
  have "at (build_service_response svc host ip i) 0 (header i (DNS_FLAG_RESPONSE OR DNS_FLAG_AUTHORITATIVE) 0 1 0 3)"
    unfolding build_service_response_def by (auto simp: at_def)
  then show ?thesis by (rule header_fields(2))
qed

lemma discover_one:
  assumes "parse_service_responses p ty = Some ss" "get_u16 p 2 = Some f" "f AND DNS_FLAG_RESPONSE \<noteq> 0" "12 \<le> length p"
    "mdns_running c" "sock_open c" "distinct (map (\<lambda>s. (svc_ip s, svc_port s)) ss)" "length ss \<le> 1" "n = 0 \<or> n = (1 :: nat)"
  shows "discover_services ty (replicate (Suc n) p) c =
    Some ([build_ptr_query (ty @ ''.local''), build_ptr_query (ty @ ''.local'')], ss)"
proof -
  have q: "build_ptr_query x \<noteq> []" for x by (simp add: build_ptr_query_def header_def put_u16_def)
  have "ss = [] \<or> (\<exists>s. ss = [s])" using assms(8) by (cases ss) auto
  with assms q show ?thesis
    by (auto simp: discover_services_def send_multicast_def Let_def same_address_def)
qed


definition idle :: "string \<Rightarrow> bool \<Rightarrow> MdnsResponder" where
  "idle name up = \<lparr>mdns_running = up, sock_open = up, own_name = name, own_fqdn = name @ ''.local'',
     services = [], own_ip = [0, 0, 0, 0]\<rparr>"


section \<open>The responder over its life\<close>

datatype mdns_op =
    MStart bool bool bool string string
  | MStop
  | MAdvertise string string u16 "string list"
  | MReceive string packet

fun mdns_step :: "mdns_op \<Rightarrow> MdnsResponder \<Rightarrow> MdnsResponder" where
  "mdns_step (MStart a b c lip name) st = snd (mdns_start a b c lip name st)"
| "mdns_step MStop st = mdns_stop st"
| "mdns_step (MAdvertise lip ty port kvs) st = snd (advertise_service lip ty port kvs st)"
| "mdns_step (MReceive lip p) st = (case handle_packet lip p st of None \<Rightarrow> st | Some (_, st') \<Rightarrow> st')"

definition responder_inv :: "MdnsResponder \<Rightarrow> bool" where
  "responder_inv st \<longleftrightarrow> distinct (map browse_name (services st)) \<and> (if mdns_running st then sock_open st else True)"

text \<open>What a response may be about.\<close>

definition own_answer :: "MdnsResponder \<Rightarrow> packet \<Rightarrow> bool" where
  "own_answer st r \<longleftrightarrow> (\<exists>ip i. r = build_response (own_fqdn st) ip i)
     \<or> (\<exists>svc ip i. svc \<in> set (services st) \<and> r = build_service_response svc (own_fqdn st) ip i)"

definition same_but_ip :: "MdnsResponder \<Rightarrow> MdnsResponder \<Rightarrow> bool" where
  "same_but_ip st st' \<longleftrightarrow> (\<exists>ip. st' = st\<lparr>own_ip := ip\<rparr>)"

lemma same_but_ip_fields:
  assumes "same_but_ip st st'"
  shows "services st' = services st" "own_fqdn st' = own_fqdn st" "mdns_running st' = mdns_running st"
    "sock_open st' = sock_open st"
  using assms by (auto simp: same_but_ip_def)

lemma same_but_ip_refl [simp]: "same_but_ip st st"
  unfolding same_but_ip_def by (rule exI [of _ "own_ip st"]) simp

lemma same_but_ip_trans: "same_but_ip a b \<Longrightarrow> same_but_ip b c \<Longrightarrow> same_but_ip a c"
  by (auto simp: same_but_ip_def)

lemma ensure_ip_keeps: "same_but_ip st (ensure_ip lip st)"
  by (auto simp: ensure_ip_def same_but_ip_def intro: exI [of _ "own_ip st"])

lemma own_answer_same: "same_but_ip st st' \<Longrightarrow> own_answer st' = own_answer st"
  by (auto simp: own_answer_def same_but_ip_fields fun_eq_iff)

lemma send_own: "own_answer st r \<Longrightarrow> list_all (own_answer st) (send_multicast r st')"
  by (simp add: send_multicast_def)

lemma own_answers:
  "own_answer st (build_response (own_fqdn st) ip i)"
  "svc \<in> set (services st) \<Longrightarrow> own_answer st (build_service_response svc (own_fqdn st) ip i)"
  unfolding own_answer_def by blast+

lemma answer_a_own:
  "answer_a lip i q ty c st = (out, st') \<Longrightarrow> same_but_ip st st' \<and> list_all (own_answer st) out"
  using ensure_ip_keeps [of st lip]
  by (auto simp: answer_a_def Let_def same_but_ip_fields own_answers intro!: send_own split: if_splits)

lemma answer_ptr_own:
  "answer_ptr lip i q ty c st = (out, st') \<Longrightarrow> same_but_ip st st' \<and> list_all (own_answer st) out"
  using ensure_ip_keeps [of st lip]
  by (auto simp: answer_ptr_def Let_def same_but_ip_fields own_answers dest!: find_Some_mem intro!: send_own
      split: if_splits option.splits)

lemma answer_questions_own:
  "answer_questions lip i p k offset st = Some (out, st') \<Longrightarrow> same_but_ip st st' \<and> list_all (own_answer st) out"
proof (induction k arbitrary: offset st out st')
  case (Suc k)
  show ?case
  proof (cases "offset \<ge> length p")
    case False
    obtain q j where d: "decode_dns_name p offset = Some (q, j)" using decode_inside by blast
    show ?thesis
    proof (cases "j + 4 > length p")
      case j: False
      then obtain ty c where g: "get_u16 p j = Some ty" "get_u16 p (j + 2) = Some c"
        using get_u16_inside [of j p] get_u16_inside [of "j + 2" p] by auto
      obtain o1 s1 where a: "answer_a lip i q ty (c AND 0x7FFF) st = (o1, s1)" by force
      obtain o2 s2 where b: "answer_ptr lip i q ty (c AND 0x7FFF) s1 = (o2, s2)" by force
      from Suc.prems False d j g a b obtain o3 where r: "answer_questions lip i p k (j + 4) s2 = Some (o3, st')"
          "out = o1 @ o2 @ o3"
        by (auto simp: Let_def Option.bind_eq_Some_conv)
      note x = answer_a_own [OF a] answer_ptr_own [OF b] Suc.IH [OF r(1)]
      then have "same_but_ip st s2" "own_answer s1 = own_answer st" "own_answer s2 = own_answer st"
        using same_but_ip_trans own_answer_same by metis+
      with x r(2) show ?thesis using same_but_ip_trans by auto
    qed (use Suc.prems False d in auto)
  qed (use Suc.prems in auto)
qed auto

lemma handle_own: "handle_packet lip p st = Some (out, st') \<Longrightarrow> same_but_ip st st' \<and> list_all (own_answer st) out"
  by (auto simp: handle_packet_def Option.bind_eq_Some_conv dest!: answer_questions_own split: if_splits)

lemma upd_first_browse:
  "browse_name svc = n \<Longrightarrow> map browse_name (upd_first (\<lambda>s. browse_name s = n) (\<lambda>_. svc) ss) = map browse_name ss"
  by (induction ss) auto

interpretation responder: reachable_system mdns_step responder_inv "\<lambda>_. True" "idle [] False"
proof (unfold_locales, goal_cases)
  case (1 st x)
  show ?case
  proof (cases x)
    case (MStart a b c lip name)
    with 1 show ?thesis by (auto simp: responder_inv_def mdns_start_def Let_def)
  next
    case MStop
    with 1 show ?thesis by (auto simp: responder_inv_def mdns_stop_def)
  next
    case (MAdvertise lip ty port kvs)
    with 1 show ?thesis
      by (auto simp: responder_inv_def advertise_service_def Let_def list_ex_iff upd_first_browse split: option.split)
  next
    case (MReceive lip p)
    with 1 handle_own [of lip p st] show ?thesis
      by (auto simp: responder_inv_def same_but_ip_fields split: option.split)
  qed
qed (simp add: responder_inv_def idle_def)

text \<open>
  after any sequence of starts, stops, advertisements and received packets, with any outcomes
  of the system calls, each type of service is advertised once and a running responder has its
  socket; and whatever packet comes next, all that is sent are answers about its own name or the
  services it advertises.
\<close>

theorem responder_speaks_for_itself:
  "let st = fold mdns_step ops (idle [] False)
   in distinct (map browse_name (services st))
    \<and> (if mdns_running st then sock_open st else True)
    \<and> (case handle_packet lip p st of None \<Rightarrow> False | Some (out, _) \<Rightarrow> list_all (own_answer st) out)"
proof -
  let ?st = "fold mdns_step ops (idle [] False)"
  have "responder_inv ?st" by (rule responder.reachable_inv) (simp add: list_all_iff)
  moreover obtain out st' where "handle_packet lip p ?st = Some (out, st')" using handle_inside by fast
  moreover from this handle_own have "list_all (own_answer ?st) out" by blast
  ultimately show ?thesis by (simp add: responder_inv_def)
qed

end
