(* ===== verification/DiscoveryFacts.thy ===== *)
theory DiscoveryFacts
  imports Discovery
begin

text \<open>
  The lemmas and properties of Discovery: announced nodes become peers, a node never becomes its own
  peer, and a malformed announcement ends the heartbeat.
\<close>

section \<open>Texts\<close>

lemma read_txt_key:
  assumes "CHR ''='' \<notin> set k"
  shows "read_txt (k @ ''='' @ v) (p, c) =
    (if k = ''ram'' then bindE (stoul v) (\<lambda>v. Inr (p\<lparr>ram_mb := to_u32 v\<rparr>, c))
     else if k = ''cores'' then bindE (stoul v) (\<lambda>v. Inr (p\<lparr>cpu_cores := to_u32 v\<rparr>, c))
     else if k = ''model'' then Inr (p\<lparr>model := v\<rparr>, c)
     else if k = ''cluster'' then Inr (p, v)
     else Inr (p, c))"
proof -
  have "find_sub ''='' (k @ ''='' @ v) = Some (length k)" using assms by (intro find_sub_first) simp_all
  then show ?thesis by (simp add: read_txt_def Let_def)
qed

lemma stoul_show_int: "0 \<le> i \<Longrightarrow> i < 2 ^ 32 \<Longrightarrow> stoul (show_int i) = Inr i"
  using stoul_show_nat [of "nat i"] by (simp add: show_int_def)

text \<open>The peer that the announcement of a node makes.\<close>

definition node_peer :: "string \<Rightarrow> string \<Rightarrow> node_facts \<Rightarrow> int \<Rightarrow> PeerInfo" where
  "node_peer name lip n now =
     \<lparr>hostname = name, ip = lip, rpc_port = uint (to_u16 (rpc_port_no n)), ram_mb = total_ram n, cpu_cores = cores n,
      model = model_or_none (loaded_model n), peer_seen = now\<rparr>"

definition legal_facts :: "node_facts \<Rightarrow> bool" where
  "legal_facts n \<longleftrightarrow> 0 < total_ram n \<and> total_ram n < 2 ^ 32 \<and> 0 \<le> cores n \<and> cores n < 2 ^ 32"

lemma rpc_txt_read:
  assumes "legal_facts n"
  shows "peer_of_service \<lparr>svc_hostname = name, svc_ip = lip, svc_port = to_u16 (rpc_port_no n), svc_txt = rpc_txt n g\<rparr>
    = Inr (node_peer name lip n 0, g)"
proof -
  have s: "stoul (show_int (total_ram n)) = Inr (total_ram n)" "stoul (show_int (cores n)) = Inr (cores n)"
    using assms by (simp_all add: legal_facts_def stoul_show_int)
  have u: "to_u32 (total_ram n) = total_ram n" "to_u32 (cores n) = cores n"
    using assms by (simp_all add: legal_facts_def to_u32_id)
  have r: "read_txt (''ram='' @ v) = read_txt (''ram'' @ ''='' @ v)" "read_txt (''cores='' @ v) = read_txt (''cores'' @ ''='' @ v)"
    "read_txt (''model='' @ v) = read_txt (''model'' @ ''='' @ v)" "read_txt (''cluster='' @ v) = read_txt (''cluster'' @ ''='' @ v)"
    "read_txt (''rpc_port='' @ v) = read_txt (''rpc_port'' @ ''='' @ v)" for v
    by simp_all
  show ?thesis
    unfolding peer_of_service_def rpc_txt_def read_txts.simps DiscoveredService.select_convs r
    by (simp add: read_txt_key [of "''ram''", simplified] read_txt_key [of "''cores''", simplified]
        read_txt_key [of "''model''", simplified] read_txt_key [of "''cluster''", simplified]
        read_txt_key [of "''rpc_port''", simplified] s u node_peer_def)
qed

section \<open>Peers\<close>

lemma upd_first_mem: "list_ex f xs \<Longrightarrow> c \<in> set (upd_first f (\<lambda>_. c) xs)"
  by (induction xs) auto

lemma add_peer_mem: "p\<lparr>peer_seen := now\<rparr> \<in> set (peers (add_peer now p s))"
  by (auto simp: add_peer_def Let_def upd_first_mem)

lemma run_election_peers [simp]: "peers (run_election s) = peers s" "self_node (run_election s) = self_node s"
  by (simp_all add: run_election_def notify_def Let_def)

lemma expire_peers_fields [simp]:
  "peers (expire_peers now t s) = filter (\<lambda>p. \<not> expired now t p) (peers s)"
  "self_node (expire_peers now t s) = self_node s"
  by (simp_all add: expire_peers_def notify_def)

lemma announce_keeps [simp]:
  "mdns_running (snd (announce_rpc lip n g m)) = mdns_running m"
  "sock_open (snd (announce_rpc lip n g m)) = sock_open m"
  by (simp_all add: announce_rpc_def advertise_service_def Let_def split: option.split)

lemma rpc_name_legal: "legal_name (RPC_SERVICE @ ''.local'')"
  by (simp add: RPC_SERVICE_def legal_name_def labels_def dot_def)

definition rpc_record :: "string \<Rightarrow> u16 \<Rightarrow> string list \<Rightarrow> MdnsServiceRecord" where
  "rpc_record name port kvs = \<lparr>browse_name = RPC_SERVICE @ ''.local'', instance_name = name @ [dot] @ RPC_SERVICE @ ''.local'',
     svc_record_port = port, svc_record_txt = kvs\<rparr>"

text \<open>What a node finds when the announcement of another arrives, once or twice.\<close>

lemma announcement_found:
  assumes "legal_service (rpc_record name port kvs) name" "mdns_running m" "sock_open m" "k = 0 \<or> k = (1 :: nat)"
  shows "found_services True (replicate (Suc k) (build_service_response (rpc_record name port kvs) (name @ ''.local'') [a, b, c, d] 0)) m
    = [\<lparr>svc_hostname = name, svc_ip = show_ipv4 a b c d, svc_port = port, svc_txt = kvs\<rparr>]"
proof -
  let ?pkt = "build_service_response (rpc_record name port kvs) (name @ ''.local'') [a, b, c, d] 0"
  have o: "of_service RPC_SERVICE (instance_name (rpc_record name port kvs))"
    using find_sub_inside [of RPC_SERVICE "name @ [dot]" "''.local''"] by (simp add: of_service_def rpc_record_def)
  have l: "12 \<le> length ?pkt" by (simp add: build_service_response_def)
  show ?thesis
    using discover_one [OF service_parsed [OF assms(1) o, of a b c d 0] service_response_flags _ l assms(2,3) _ _ assms(4)]
    by (simp add: found_services_def discovered_def dns_constants rpc_record_def)
qed

lemma announcement_sent:
  assumes "\<not> mdns_running m" "\<not> list_ex (\<lambda>s. browse_name s = RPC_SERVICE @ ''.local'') (services m)"
  shows "fst (announce_rpc (show_ipv4 a b c d) n g (snd (mdns_start True True True (show_ipv4 a b c d) name m)))
    = replicate (Suc 1) (build_service_response (rpc_record name (to_u16 (rpc_port_no n)) (rpc_txt n g)) (name @ ''.local'') [a, b, c, d] 0)"
  using assms advertise_sends [OF parse_show_ipv4, of "snd (mdns_start True True True (show_ipv4 a b c d) name m)"
      RPC_SERVICE a b c d "to_u16 (rpc_port_no n)" "rpc_txt n g"]
  by (simp add: announce_rpc_def mdns_start_def rpc_record_def Let_def)


definition demo_facts :: node_facts where
  "demo_facts = \<lparr>total_ram = 8192, cores = 4, rpc_port_no = 50052, loaded_model = []\<rparr>"

definition demo_env :: "packet list \<Rightarrow> round_env" where
  "demo_env ps = \<lparr>round_now = 5, node_ip = ''10.0.0.2'', all_ips = [''10.0.0.2''], group = ''home'', facts = demo_facts, arriving = ps\<rparr>"

definition demo_manager :: ClusterManager where
  "demo_manager = \<lparr>self_node = self_peer [] ''10.0.0.2'' demo_facts, peers = [], cstate = STANDALONE,
     coordinator = self_peer [] ''10.0.0.2'' demo_facts, topology_cb = True, notified = 0\<rparr>"

lemma demo_record_legal:
  "legal_service (rpc_record ''llamaste'' (to_u16 (rpc_port_no demo_facts)) (rpc_txt demo_facts ''home'')) ''llamaste''"
  by (simp add: legal_service_def rpc_record_def legal_name_def labels_def legal_txt_def txt_rdata_def txt_string_def
      encode_dns_name_def encode_labels.simps encode_label_def bytes_of_def dot_def Let_def RPC_SERVICE_def
      rpc_txt_def demo_facts_def show_int_def show_nat.simps model_or_none_def)

lemma demo_ip: "show_ipv4 10 0 0 9 = ''10.0.0.9''"
  by code_simp


section \<open>Malformed announcements\<close>

text \<open>
  one announcement of the right type whose memory is not a number, from any host, makes the
  discovery at the start throw, which ends the program, and ends the heartbeat for good: no later
  round announces the node, expires or finds peers or elects a coordinator.
\<close>

theorem malformed_announcement_ends_heartbeat:
  assumes "stoul v = Inl e" "legal_service (rpc_record name port [''ram='' @ v]) name"
    and "mdns_running m" "sock_open m" "show_ipv4 a b c d \<noteq> ip (self_node s)" "show_ipv4 a b c d \<noteq> node_ip env"
    and "show_ipv4 a b c d \<notin> set (all_ips env)"
    and "arriving env = [build_service_response (rpc_record name port [''ram='' @ v]) (name @ ''.local'') [a, b, c, d] 0]"
  shows "fst (boot_discovery True device env (m, s)) = Inl e
    \<and> fst (heartbeat True (env # envs) (m, s)) = False
    \<and> snd (heartbeat True (env # envs) (m, s)) = (snd (announce_rpc (node_ip env) (facts env) (group env) m),
        expire_peers (round_now env) 90 s)"
proof -
  define x where "x = \<lparr>svc_hostname = name, svc_ip = show_ipv4 a b c d, svc_port = port, svc_txt = [''ram='' @ v]\<rparr>"
  have f: "found_services True (arriving env) (snd (announce_rpc lip n' g' m)) = [x]" for lip n' g'
    using announcement_found [OF assms(2), of "snd (announce_rpc lip n' g' m)" 0 a b c d] assms(3,4,8) by (simp add: x_def)
  have p: "peer_of_service x = Inl e"
    using read_txt_key [of "''ram''" v] assms(1) by (simp add: peer_of_service_def x_def)
  have i: "svc_ip x = show_ipv4 a b c d" by (simp add: x_def)
  show ?thesis
    using assms(5-7)
    by (simp add: heartbeat_round_def boot_discovery_def f admit_def p i Let_def bindS_def set_self_info_def self_peer_def)
qed

theorem malformed_announcement_ends_heartbeat_witness:
  "\<not> fst (heartbeat True [demo_env [build_service_response (rpc_record ''x'' 1 [''ram=lots'']) ''x.local'' [10, 0, 0, 9] 0], demo_env []]
      (idle ''llamaste'' True, demo_manager))"
proof -
  have "legal_service (rpc_record ''x'' 1 [''ram='' @ ''lots'']) ''x''"
    by (simp add: legal_service_def rpc_record_def legal_name_def labels_def legal_txt_def txt_rdata_def txt_string_def
        encode_dns_name_def encode_labels.simps encode_label_def bytes_of_def dot_def Let_def RPC_SERVICE_def)
  moreover have "stoul ''lots'' = Inl (InvalidArgument ''stoul'')"
    by (simp add: stoul_def strtoul_def is_space_def is_digit_def Let_def)
  ultimately show ?thesis
    using malformed_announcement_ends_heartbeat [of "''lots''" _ "''x''" 1 "idle ''llamaste'' True" 10 0 0 9 demo_manager
        "demo_env [build_service_response (rpc_record ''x'' 1 [''ram=lots'']) ''x.local'' [10, 0, 0, 9] 0]" _ "[demo_env []]"]
    unfolding demo_ip by (simp add: idle_def demo_manager_def self_peer_def demo_env_def)
qed

section \<open>Peers are other nodes\<close>

definition others_only :: "string set \<Rightarrow> string \<Rightarrow> ClusterManager \<Rightarrow> bool" where
  "others_only ips self s \<longleftrightarrow> cluster_inv s \<and> ip (self_node s) = self
     \<and> list_all (\<lambda>p. ip p \<noteq> self \<and> (ip p \<notin> ips - {[]}) \<and> ram_mb p \<noteq> 0) (peers s)"

lemma read_txts_ip: "read_txts ts (p, c) = Inr (q, c') \<Longrightarrow> ip q = ip p"
proof (induction ts arbitrary: p c)
  case (Cons t ts)
  then obtain p1 c1 where "read_txt t (p, c) = Inr (p1, c1)" "read_txts ts (p1, c1) = Inr (q, c')"
    by (auto simp: bindE_Inr_iff)
  moreover from this(1) have "ip p1 = ip p"
    by (auto simp: read_txt_def Let_def bindE_Inr_iff split: option.splits if_splits)
  ultimately show ?case using Cons.IH by simp
qed simp

lemma add_peer_set: "set (peers (add_peer now p s)) \<subseteq> insert (p\<lparr>peer_seen := now\<rparr>) (set (peers s))"
proof -
  have "set (upd_first f (\<lambda>_. x) xs) \<subseteq> insert x (set xs)" for f and x :: PeerInfo and xs
    by (induction xs) auto
  then show ?thesis by (auto simp: add_peer_def Let_def)
qed

lemma admit_others:
  assumes "others_only (set ips) self s"
  shows "others_only (set ips) self (snd (admit now ips g d s))"
proof (cases "svc_ip d = ip (self_node s) \<or> (svc_ip d \<noteq> [] \<and> svc_ip d \<in> set ips) \<or> (\<exists>e. peer_of_service d = Inl e)")
  case False
  then obtain p c where p: "peer_of_service d = Inr (p, c)" by (cases "peer_of_service d") auto
  then have i: "ip p = svc_ip d" by (auto simp: peer_of_service_def dest: read_txts_ip)
  have "self_node (add_peer now p s) = self_node s" by (simp add: add_peer_def Let_def)
  with assms False p i add_peer_set [of now p s] add_peer_inv [of s now p] show ?thesis
    by (auto simp: admit_def others_only_def list_all_iff)
qed (use assms in \<open>auto simp: admit_def\<close>)

lemma admit_all_others: "others_only (set ips) self s \<Longrightarrow> others_only (set ips) self (snd (admit_all now ips g ds s))"
proof (induction ds arbitrary: s)
  case (Cons d ds)
  obtain r s' where a: "admit now ips g d s = (r, s')" by (cases "admit now ips g d s")
  have "others_only (set ips) self s'" using admit_others [OF Cons.prems, of now g d] a by simp
  with a Cons.IH show ?case by (cases r) (simp_all add: bindS_def)
qed simp

lemma expire_others: "others_only ips self s \<Longrightarrow> others_only ips self (expire_peers now t s)"
  by (auto simp: others_only_def list_all_iff cluster_inv_def endpoints_def distinct_map_filter)

lemma election_others: "others_only ips self s \<Longrightarrow> others_only ips self (run_election s)"
  by (simp add: others_only_def cluster_inv_def)

lemma round_others:
  assumes "others_only (set (all_ips env)) self (snd st)"
  shows "others_only (set (all_ips env)) self (snd (snd (heartbeat_round up env st)))"
proof -
  obtain m s where st: "st = (m, s)" by force
  have "others_only (set (all_ips env)) self (expire_peers (round_now env) 90 s)"
    using assms st by (simp add: expire_others)
  note a = admit_all_others [OF this]
  show ?thesis
    using a election_others [OF a] by (auto simp: st heartbeat_round_def Let_def split: prod.split sum.split) (metis snd_conv)+
qed

interpretation heartbeats: invariant_system "\<lambda>env st. snd (heartbeat_round up env st)"
  "\<lambda>st. others_only ips self (snd st)" "\<lambda>env. set (all_ips env) = ips" for up ips self
  by unfold_locales (use round_others in blast)

lemma heartbeat_state:
  "\<exists>k. snd (heartbeat up envs st) = fold (\<lambda>env st. snd (heartbeat_round up env st)) (take k envs) st"
proof (induction envs arbitrary: st)
  case (Cons env envs)
  obtain r st' where r: "heartbeat_round up env st = (r, st')" by (cases "heartbeat_round up env st")
  show ?case
  proof (cases r)
    case (Inl e)
    with r show ?thesis by (intro exI [of _ 1]) simp
  next
    case (Inr u)
    obtain k where "snd (heartbeat up envs st') = fold (\<lambda>env st. snd (heartbeat_round up env st)) (take k envs) st'"
      using Cons.IH by blast
    with r Inr show ?thesis by (intro exI [of _ "Suc k"]) simp
  qed
qed simp

text \<open>
  whatever packets arrive, after the discovery at the start and any number of rounds of the
  heartbeat no peer has an address of the node itself or is without memory, and no endpoint is
  listed twice, so the layers of a model are never split with the node's own echo.
\<close>

theorem peers_are_other_nodes:
  assumes "peers s = []" "list_all (\<lambda>env. set (all_ips env) = set (all_ips env0)) envs"
  shows "let st = snd (boot_discovery up device env0 (m, s));
             s' = snd (snd (heartbeat up envs st))
    in distinct (endpoints (peers s'))
      \<and> list_all (\<lambda>p. ip p \<noteq> node_ip env0 \<and> (ip p \<notin> set (all_ips env0) - {[]}) \<and> ram_mb p \<noteq> 0) (peers s')"
proof -
  let ?ips = "set (all_ips env0)" and ?self = "node_ip env0"
  let ?s0 = "set_self_info (self_peer device ?self (facts env0)) s"
  let ?st = "snd (boot_discovery up device env0 (m, s))"
  have "others_only ?ips ?self ?s0"
    using assms(1) by (simp add: others_only_def cluster_inv_def endpoints_def set_self_info_def self_peer_def)
  note a = admit_all_others [OF this]
  have "others_only ?ips ?self (snd ?st)"
    using a election_others [OF a] by (auto simp: boot_discovery_def Let_def split: prod.split sum.split) (metis snd_conv)+
  moreover obtain k where "snd (heartbeat up envs ?st) = fold (\<lambda>env st. snd (heartbeat_round up env st)) (take k envs) ?st"
    using heartbeat_state by blast
  moreover have "list_all (\<lambda>env. set (all_ips env) = ?ips) (take k envs)"
    using assms(2) by (auto simp: list_all_iff dest: in_set_takeD)
  ultimately have "others_only ?ips ?self (snd (snd (heartbeat up envs ?st)))"
    using heartbeats.run_keeps [of ?ips ?self ?st "take k envs" up] by simp
  then show ?thesis by (simp add: others_only_def cluster_inv_def)
qed

theorem peers_are_other_nodes_witness:
  "let st = snd (boot_discovery True [] (demo_env []) (idle ''llamaste'' True, demo_manager));
       s' = snd (snd (heartbeat True [demo_env []] st))
   in distinct (endpoints (peers s'))
    \<and> list_all (\<lambda>p. ip p \<noteq> node_ip (demo_env []) \<and> (ip p \<notin> set (all_ips (demo_env [])) - {[]}) \<and> ram_mb p \<noteq> 0) (peers s')"
  by (rule peers_are_other_nodes) (simp_all add: demo_manager_def)

end
