(* ===== verification/Wifi.thy ===== *)
theory Wifi
  imports LlPrelude JsonValue Registry
begin

text \<open>
  \<^verbatim>\<open>wifi.cpp\<close>, \<^verbatim>\<open>wifi.h\<close> and \<^verbatim>\<open>tools_wifi.cpp\<close>: the manager that drives \<^verbatim>\<open>wpa_supplicant\<close> over its
  control socket, its parsers, and the tools over it. Definitions only; the lemmas are in WifiFacts.
  The daemon is an argument: what it answers to a command after those it has had before. Sockets,
  ioctls, the deadlines of the polls and the output of \<^verbatim>\<open>iw\<close> are arguments too.
\<close>

section \<open>Strings\<close>

definition QT :: char where "QT = CHR 0x22"
definition BS :: char where "BS = CHR 0x5C"
definition TAB :: char where "TAB = CHR 0x09"
definition NEWL :: char where "NEWL = CHR 0x0A"

definition stoi :: "string \<Rightarrow> int option" where
  "stoi s =
     (case strtol s of
        None \<Rightarrow> None
      | Some (v, _, big) \<Rightarrow> if big \<or> v < - (2 ^ 31) \<or> v \<ge> 2 ^ 31 then None else Some v)"

definition atoi :: "string \<Rightarrow> int" where
  "atoi s = (case strtol s of None \<Rightarrow> 0 | Some (v, _, _) \<Rightarrow> to_i32 v)"

definition mentions_text :: "string \<Rightarrow> string \<Rightarrow> bool" where
  "mentions_text s p \<longleftrightarrow> find_sub p s \<noteq> None"

text \<open>At most \<open>k\<close> parts, the last with all that is left; the parts so far, the token and the rest.\<close>

fun split_loop :: "char \<Rightarrow> nat \<Rightarrow> string list \<Rightarrow> string \<Rightarrow> string \<Rightarrow> string list" where
  "split_loop d k parts token [] = parts @ [token]"
| "split_loop d k parts token (c # cs) =
     (if c = d \<and> length parts + 1 < k then split_loop d k (parts @ [token]) [] cs
      else split_loop d k parts (token @ [c]) cs)"

definition str_split :: "string \<Rightarrow> char \<Rightarrow> nat \<Rightarrow> string list" where
  "str_split s d k = split_loop d k [] [] s"

definition classify_security :: "string \<Rightarrow> string" where
  "classify_security flags =
     (if mentions_text flags ''WPA2'' then ''WPA2-PSK''
      else if mentions_text flags ''WPA'' then ''WPA-PSK''
      else if mentions_text flags ''WEP'' then ''WEP''
      else ''OPEN'')"

text \<open>The text for the log: \<open>prev\<close> is the character before, \<open>None\<close> at the start.\<close>

definition skip_value :: "string \<Rightarrow> bool \<times> string" where
  "skip_value s =
     (let v = dropWhile (\<lambda>c. c = CHR '' '') s
      in if v \<noteq> [] \<and> hd v = QT then (True, drop 1 (dropWhile (\<lambda>c. c \<noteq> QT) (tl v)))
         else (False, dropWhile (\<lambda>c. c \<noteq> CHR '' '') v))"

lemma skip_value_shorter: "length (snd (skip_value s)) \<le> length s"
proof -
  let ?v = "dropWhile (\<lambda>c. c = CHR '' '') s"
  have v: "length ?v \<le> length s" by (rule length_dropWhile_le)
  have "length (drop 1 (dropWhile (\<lambda>c. c \<noteq> QT) (tl ?v))) \<le> length ?v"
    using length_dropWhile_le [of "\<lambda>c. c \<noteq> QT" "tl ?v"] by simp
  moreover have "length (dropWhile (\<lambda>c. c \<noteq> CHR '' '') ?v) \<le> length ?v" by (rule length_dropWhile_le)
  ultimately show ?thesis using v by (simp add: skip_value_def Let_def)
qed

text \<open>At a keyword that is skipped, the character before the next position is the last one skipped.\<close>

function mask_loop :: "char option \<Rightarrow> string \<Rightarrow> string" where
  "mask_loop prev s =
     (if s = [] then []
      else if take 3 s = ''psk'' \<and> 4 \<le> length s \<and> (prev = None \<or> prev = Some (CHR '' '') \<or> prev = Some QT) then
        (let (quoted, r) = skip_value (drop 3 s);
             skipped = take (length s - length r) s
         in ''psk '' @ (if quoted then [QT] else []) @ ''****'' @ (if quoted then [QT] else [])
            @ mask_loop (Some (last skipped)) r)
      else hd s # mask_loop (Some (hd s)) (tl s))"
  by pat_completeness auto
termination
proof (relation "measure (length \<circ> snd)", simp, goal_cases)
  case (1 prev s x quoted r skipped)
  have "length r \<le> length (drop 3 s)" using skip_value_shorter [of "drop 3 s"] 1 by (metis snd_conv)
  moreover have "4 \<le> length s" using 1(2) by simp
  ultimately show ?case by simp
next
  case (2 prev s)
  then show ?case by (cases s) simp_all
qed

declare mask_loop.simps [simp del]

definition mask_psk :: "string \<Rightarrow> string" where
  "mask_psk cmd = mask_loop None cmd"

section \<open>State\<close>

record WiFiNetwork =
  net_ssid :: string
  net_bssid :: string
  signal_dbm :: int
  freq_mhz :: int
  security :: string
  network_id :: int
  net_connected :: bool
  net_saved :: bool

definition new_network :: WiFiNetwork where
  "new_network = \<lparr>net_ssid = [], net_bssid = [], signal_dbm = 0, freq_mhz = 0, security = [],
     network_id = - 1, net_connected = False, net_saved = False\<rparr>"

record WiFiStatus =
  st_available :: bool
  st_daemon :: bool
  st_iface :: string
  st_ssid :: string
  st_bssid :: string
  st_ip :: string
  wpa_state :: string
  st_signal :: int

text \<open>\<open>sent\<close> are the commands that the daemon has had, \<open>wpa_log\<close> the commands written to the log,
  \<open>attempts\<close> the number of attempts to open the socket and \<open>link_up\<close> the flag of the interface.\<close>

record WiFiManager =
  iface :: string
  ctrl_open :: bool
  spawn_cb :: bool
  attempts :: nat
  sent :: "string list"
  wpa_log :: "string list"
  link_up :: bool

text \<open>What happens to one command: the send fails, or datagrams arrive before the deadline and then
  the receive fails or the deadline passes.\<close>

datatype wpa_outcome = SendFails | Datagrams "string list" bool

record wifi_env =
  ifaces :: "(string \<times> bool) list option"
  socket_ok :: "nat \<Rightarrow> bool"
  daemon :: "string list \<Rightarrow> string \<Rightarrow> wpa_outcome"
  polls :: nat
  scan_polls :: nat
  own_address :: string
  iw_scan_output :: "nat \<Rightarrow> string"
  iw_dump_output :: "nat \<Rightarrow> string"
  ioctl_error :: "string option"

type_synonym 'a wifi = "WiFiManager \<Rightarrow> 'a \<times> WiFiManager"

definition bindW :: "'a wifi \<Rightarrow> ('a \<Rightarrow> 'b wifi) \<Rightarrow> 'b wifi" where
  "bindW m f st = (case m st of (x, st') \<Rightarrow> f x st')"

definition retW :: "'a \<Rightarrow> 'a wifi" where
  "retW x st = (x, st)"

definition has_wifi :: "WiFiManager \<Rightarrow> bool" where
  "has_wifi st \<longleftrightarrow> iface st \<noteq> []"

definition open_ctrl :: "wifi_env \<Rightarrow> bool wifi" where
  "open_ctrl env st =
     (if ctrl_open st then (True, st)
      else let ok = socket_ok env (attempts st) in (ok, st\<lparr>attempts := attempts st + 1, ctrl_open := ok\<rparr>))"

definition close_ctrl :: "WiFiManager \<Rightarrow> WiFiManager" where
  "close_ctrl st = st\<lparr>ctrl_open := False\<rparr>"

text \<open>\<open>ifaces\<close> are the entries of \<^verbatim>\<open>/sys/class/net\<close> with whether they are wireless.\<close>

definition wifi_init :: "wifi_env \<Rightarrow> bool wifi" where
  "wifi_init env st =
     (case ifaces env of
        None \<Rightarrow> (False, st)
      | Some es \<Rightarrow>
          let st = (case find (\<lambda>(n, w). n \<noteq> ''.'' \<and> n \<noteq> ''..'' \<and> w) es of None \<Rightarrow> st | Some (n, _) \<Rightarrow> st\<lparr>iface := n\<rparr>)
          in if iface st = [] then (False, st) else (True, snd (open_ctrl env st)))"

definition is_event :: "string \<Rightarrow> bool" where
  "is_event m \<longleftrightarrow> m \<noteq> [] \<and> hd m = CHR ''<''"

definition wpa :: "wifi_env \<Rightarrow> string \<Rightarrow> string wifi" where
  "wpa env cmd =
     bindW (open_ctrl env) (\<lambda>ok st.
       if \<not> ok then ([], st)
       else case daemon env (sent st) cmd of
              SendFails \<Rightarrow> ([], close_ctrl (st\<lparr>wpa_log := wpa_log st @ [mask_psk cmd]\<rparr>))
            | Datagrams ms broken \<Rightarrow>
                let st = st\<lparr>sent := sent st @ [cmd]\<rparr>
                in case dropWhile is_event ms of
                     [] \<Rightarrow> ([], if broken then close_ctrl st else st)
                   | m # _ \<Rightarrow> if m = [] then ([], close_ctrl st) else (take 65535 m, st))"

text \<open>A command whose answer, trimmed, is compared.\<close>

definition wpa_trim :: "wifi_env \<Rightarrow> string \<Rightarrow> string wifi" where
  "wpa_trim env cmd = bindW (wpa env cmd) (\<lambda>r. retW (trim_ws r))"

section \<open>Parsers\<close>

definition reply_lines :: "string \<Rightarrow> string list" where
  "reply_lines raw = getlines NEWL [] raw"

text \<open>A line with an equals sign: key and value.\<close>

definition key_value :: "string \<Rightarrow> (string \<times> string) option" where
  "key_value l =
     (case find_sub ''='' l of
        None \<Rightarrow> None
      | Some i \<Rightarrow> Some (trim_ws (take i l), trim_ws (drop (i + 1) l)))"

definition status_line :: "string \<Rightarrow> WiFiStatus \<Rightarrow> WiFiStatus" where
  "status_line l s =
     (case key_value l of
        None \<Rightarrow> s
      | Some (key, val) \<Rightarrow>
          if key = ''wpa_state'' then s\<lparr>wpa_state := val\<rparr>
          else if key = ''ssid'' then s\<lparr>st_ssid := val\<rparr>
          else if key = ''bssid'' then s\<lparr>st_bssid := val\<rparr>
          else if key = ''ip_address'' then s\<lparr>st_ip := val\<rparr>
          else if key = ''signal_level'' then (case stoi val of None \<Rightarrow> s | Some v \<Rightarrow> s\<lparr>st_signal := v\<rparr>)
          else s)"

text \<open>The lines of a table after its header, trimmed and without the empty ones.\<close>

definition table_rows :: "string \<Rightarrow> string list" where
  "table_rows raw = drop 1 (filter (\<lambda>l. l \<noteq> []) (map trim_ws (reply_lines raw)))"

definition scan_row :: "string \<Rightarrow> WiFiNetwork list" where
  "scan_row l =
     (case str_split l TAB 5 of
        [b, f, sig, fl, ss] \<Rightarrow>
          let net = new_network\<lparr>net_bssid := trim_ws b,
                freq_mhz := (case stoi (trim_ws f) of None \<Rightarrow> 0 | Some v \<Rightarrow> v),
                signal_dbm := (case stoi (trim_ws sig) of None \<Rightarrow> 0 | Some v \<Rightarrow> v),
                security := classify_security (trim_ws fl), net_ssid := trim_ws ss\<rparr>
          in if net_ssid net \<noteq> [] then [net] else []
      | _ \<Rightarrow> [])"

definition parse_scan_results :: "string \<Rightarrow> WiFiNetwork list" where
  "parse_scan_results raw = concat (map scan_row (table_rows raw))"

definition list_row :: "string \<Rightarrow> WiFiNetwork list" where
  "list_row l =
     (case str_split l TAB 4 of
        i # ss # b # r \<Rightarrow>
          (case stoi (trim_ws i) of
             None \<Rightarrow> []
           | Some v \<Rightarrow>
               [new_network\<lparr>network_id := v, net_ssid := trim_ws ss, net_bssid := trim_ws b, net_saved := True,
                  net_connected := (case r of f # _ \<Rightarrow> mentions_text (trim_ws f) ''CURRENT'' | [] \<Rightarrow> False)\<rparr>])
      | _ \<Rightarrow> [])"

definition parse_list_networks :: "string \<Rightarrow> WiFiNetwork list" where
  "parse_list_networks raw = concat (map list_row (table_rows raw))"

section \<open>Status and lists\<close>

definition blank_status :: "WiFiManager \<Rightarrow> WiFiStatus" where
  "blank_status st = \<lparr>st_available = has_wifi st, st_daemon = False, st_iface = iface st, st_ssid = [],
     st_bssid = [], st_ip = [], wpa_state = [], st_signal = 0\<rparr>"

definition wifi_status :: "wifi_env \<Rightarrow> WiFiStatus wifi" where
  "wifi_status env st =
     (if \<not> has_wifi st then (blank_status st, st)
      else bindW (open_ctrl env) (\<lambda>ok.
             if \<not> ok then retW ((blank_status st)\<lparr>wpa_state := ''DISCONNECTED''\<rparr>)
             else bindW (wpa env ''STATUS'') (\<lambda>reply.
               let s = (blank_status st)\<lparr>st_daemon := True\<rparr>
               in if reply = [] then retW (s\<lparr>wpa_state := ''DISCONNECTED''\<rparr>)
                  else let s = fold status_line (reply_lines reply) s;
                           s = (if wpa_state s = [] then s\<lparr>wpa_state := ''UNKNOWN''\<rparr> else s)
                       in retW (if st_ip s = [] \<and> wpa_state s = ''COMPLETED'' then s\<lparr>st_ip := own_address env\<rparr> else s))) st)"

definition list_networks :: "wifi_env \<Rightarrow> WiFiNetwork list wifi" where
  "list_networks env st =
     (if \<not> has_wifi st then ([], st)
      else bindW (open_ctrl env) (\<lambda>ok.
             if \<not> ok then retW [] else bindW (wpa env ''LIST_NETWORKS'') (\<lambda>r. retW (parse_list_networks r))) st)"

section \<open>Connecting\<close>

definition ssid_hex :: "string \<Rightarrow> string" where
  "ssid_hex ssid = hex_string (map of_char ssid)"

definition psk_escape :: "string \<Rightarrow> string" where
  "psk_escape psk =
     concat (map (\<lambda>c. if of_char c < (0x20 :: nat) then [] else if c = BS \<or> c = QT then [BS, c] else [c]) psk)"

fun try_open :: "wifi_env \<Rightarrow> nat \<Rightarrow> unit wifi" where
  "try_open env 0 = retW ()"
| "try_open env (Suc n) = bindW (open_ctrl env) (\<lambda>ok. if ok then retW () else try_open env n)"

text \<open>The daemon may be started on demand; then the socket is tried eight times.\<close>

definition ensure_daemon :: "wifi_env \<Rightarrow> bool wifi" where
  "ensure_daemon env =
     bindW (open_ctrl env) (\<lambda>ok st.
       if ok then (True, st)
       else bindW (if spawn_cb st then try_open env 8 else retW ()) (\<lambda>_ st. (ctrl_open st, st)) st)"

definition saved_id :: "string \<Rightarrow> WiFiNetwork list \<Rightarrow> int" where
  "saved_id ssid nets = (case find (\<lambda>n. net_ssid n = ssid) nets of None \<Rightarrow> - 1 | Some n \<Rightarrow> network_id n)"

definition set_network :: "int \<Rightarrow> string \<Rightarrow> string" where
  "set_network i rest = ''SET_NETWORK '' @ show_int i @ '' '' @ rest"

text \<open>A new network: its number, or the message of the error.\<close>

definition add_network :: "wifi_env \<Rightarrow> string \<Rightarrow> string \<Rightarrow> (string + int) wifi" where
  "add_network env ssid psk =
     bindW (wpa_trim env ''ADD_NETWORK'') (\<lambda>r.
       if r = ''FAIL'' then retW (Inl ''ADD_NETWORK failed'')
       else case stoi r of
              None \<Rightarrow> retW (Inl (''ADD_NETWORK unexpected reply: '' @ r))
            | Some i \<Rightarrow>
                bindW (wpa_trim env (set_network i (''ssid '' @ ssid_hex ssid))) (\<lambda>r.
                  if r \<noteq> ''OK'' then retW (Inl ''SET_NETWORK ssid failed'')
                  else if psk = [] then
                    bindW (wpa_trim env (set_network i ''key_mgmt NONE'')) (\<lambda>r.
                      if r \<noteq> ''OK'' then retW (Inl ''SET_NETWORK key_mgmt failed'') else retW (Inr i))
                  else
                    bindW (wpa_trim env (set_network i (''psk '' @ [QT] @ psk_escape psk @ [QT]))) (\<lambda>r.
                      if r \<noteq> ''OK'' then retW (Inl ''SET_NETWORK psk failed'') else retW (Inr i))))"

text \<open>The state in an answer to STATUS, when it has one.\<close>

definition state_in :: "string \<Rightarrow> string \<Rightarrow> string" where
  "state_in reply prev =
     (case find (\<lambda>l. case key_value l of Some (k, _) \<Rightarrow> k = ''wpa_state'' | None \<Rightarrow> False) (reply_lines reply) of
        Some l \<Rightarrow> (case key_value l of Some (_, v) \<Rightarrow> v | None \<Rightarrow> prev)
      | None \<Rightarrow> prev)"

fun poll_completed :: "wifi_env \<Rightarrow> nat \<Rightarrow> string \<Rightarrow> string wifi" where
  "poll_completed env 0 prev = retW prev"
| "poll_completed env (Suc n) prev =
     bindW (wpa env ''STATUS'') (\<lambda>r.
       let s = state_in r prev in if s = ''COMPLETED'' then retW s else poll_completed env n s)"

definition join_network :: "wifi_env \<Rightarrow> bool \<Rightarrow> int \<Rightarrow> string wifi" where
  "join_network env created_new i =
     bindW (wpa env (set_network i ''bssid any'')) (\<lambda>_.
     bindW (wpa_trim env (''SELECT_NETWORK '' @ show_int i)) (\<lambda>r.
       if r \<noteq> ''OK'' then retW ''SELECT_NETWORK failed''
       else bindW (poll_completed env (polls env) []) (\<lambda>last_state.
              if last_state \<noteq> ''COMPLETED'' then
                bindW (if created_new then wpa env (''REMOVE_NETWORK '' @ show_int i) else retW [])
                  (\<lambda>_. retW (''Connection failed (state: '' @ last_state @ '')''))
              else bindW (wpa env ''SAVE_CONFIG'') (\<lambda>_. retW []))))"

definition wifi_connect :: "wifi_env \<Rightarrow> string \<Rightarrow> string \<Rightarrow> string wifi" where
  "wifi_connect env ssid psk st =
     (if \<not> has_wifi st then (''No WiFi interface'', st)
      else bindW (ensure_daemon env) (\<lambda>ok.
             if \<not> ok then retW ''wpa_supplicant not running''
             else bindW (list_networks env) (\<lambda>saved.
               let i = saved_id ssid saved
               in if i < 0 then
                    bindW (add_network env ssid psk) (\<lambda>r. case r of Inl e \<Rightarrow> retW e | Inr i \<Rightarrow> join_network env True i)
                  else join_network env False i)) st)"

section \<open>Other operations\<close>

definition wifi_disconnect :: "wifi_env \<Rightarrow> string wifi" where
  "wifi_disconnect env st =
     (if \<not> has_wifi st then (''No WiFi interface'', st)
      else bindW (open_ctrl env) (\<lambda>ok.
             if \<not> ok then retW ''wpa_supplicant not running''
             else bindW (wpa_trim env ''DISCONNECT'') (\<lambda>r.
               retW (if r = ''OK'' then [] else ''DISCONNECT failed: '' @ r))) st)"

definition wifi_forget :: "wifi_env \<Rightarrow> string \<Rightarrow> string wifi" where
  "wifi_forget env ssid st =
     (if \<not> has_wifi st then (''No WiFi interface'', st)
      else bindW (open_ctrl env) (\<lambda>ok.
             if \<not> ok then retW ''wpa_supplicant not running''
             else bindW (list_networks env) (\<lambda>saved.
               let i = saved_id ssid saved
               in if i < 0 then retW (''Network not found: '' @ ssid)
                  else bindW (wpa_trim env (''REMOVE_NETWORK '' @ show_int i)) (\<lambda>r.
                    if r \<noteq> ''OK'' then retW (''REMOVE_NETWORK failed: '' @ r)
                    else bindW (wpa env ''SAVE_CONFIG'') (\<lambda>_. retW [])))) st)"

fun clear_bssids :: "wifi_env \<Rightarrow> WiFiNetwork list \<Rightarrow> unit wifi" where
  "clear_bssids env [] = retW ()"
| "clear_bssids env (n # ns) =
     bindW (if network_id n \<ge> 0 then wpa env (set_network (network_id n) ''bssid any'') else retW [])
       (\<lambda>_. clear_bssids env ns)"

definition clear_all_bssids :: "wifi_env \<Rightarrow> unit wifi" where
  "clear_all_bssids env =
     bindW (open_ctrl env) (\<lambda>ok.
       if \<not> ok then retW ()
       else bindW (list_networks env) (\<lambda>saved.
         bindW (clear_bssids env saved) (\<lambda>_.
           if saved \<noteq> [] then bindW (wpa env ''SAVE_CONFIG'') (\<lambda>_. retW ()) else retW ())))"

text \<open>\<open>ioctl_error\<close> is the message of the first call that fails on the way to the flags.\<close>

definition wifi_enable :: "wifi_env \<Rightarrow> string wifi" where
  "wifi_enable env st =
     (if \<not> has_wifi st then (''No WiFi interface'', st)
      else case ioctl_error env of
             Some e \<Rightarrow> (e, st)
           | None \<Rightarrow> bindW (open_ctrl env) (\<lambda>_. retW []) (st\<lparr>link_up := True\<rparr>))"

definition wifi_disable :: "wifi_env \<Rightarrow> string wifi" where
  "wifi_disable env st =
     (if \<not> has_wifi st then (''No WiFi interface'', st)
      else bindW (if ctrl_open st then wpa env ''DISCONNECT'' else retW []) (\<lambda>_ st.
             case ioctl_error env of
               Some e \<Rightarrow> (e, st)
             | None \<Rightarrow> ([], st\<lparr>link_up := False\<rparr>)) st)"

section \<open>Scans\<close>

text \<open>The state of the parser of \<^verbatim>\<open>iw\<close>.\<close>

record iw_state =
  cur_ssid :: string
  cur_bssid :: string
  cur_signal :: int
  cur_freq :: int
  cur_privacy :: bool
  cur_is_eap :: bool
  in_bss :: bool
  iw_nets :: "WiFiNetwork list"

definition iw_start :: iw_state where
  "iw_start = \<lparr>cur_ssid = [], cur_bssid = [], cur_signal = - 100, cur_freq = 0, cur_privacy = False,
     cur_is_eap = False, in_bss = False, iw_nets = []\<rparr>"

definition flush_bss :: "iw_state \<Rightarrow> iw_state" where
  "flush_bss s =
     (if \<not> in_bss s \<or> cur_ssid s = [] then s
      else let sec = (if cur_privacy s then if cur_is_eap s then ''WPA2-EAP'' else ''WPA2-PSK'' else ''OPEN'');
               same = (\<lambda>n. net_ssid n = cur_ssid s);
               better = (\<lambda>n. if cur_signal s > signal_dbm n
                 then n\<lparr>signal_dbm := cur_signal s, security := sec, net_bssid := cur_bssid s, freq_mhz := cur_freq s\<rparr>
                 else n)
           in s\<lparr>iw_nets :=
                (if list_ex same (iw_nets s) then upd_first same better (iw_nets s)
                 else iw_nets s @ [new_network\<lparr>net_ssid := cur_ssid s, net_bssid := cur_bssid s,
                        signal_dbm := cur_signal s, freq_mhz := cur_freq s, security := sec\<rparr>])\<rparr>)"

text \<open>One line; \<open>t\<close> is the whole text from its start on, because \<open>atoi\<close> reads past its end.\<close>

definition iw_field :: "string \<Rightarrow> string \<Rightarrow> iw_state \<Rightarrow> iw_state" where
  "iw_field l t s =
     (if length l > 6 \<and> take 6 l = ''SSID: '' then
        s\<lparr>cur_ssid := rev (dropWhile (\<lambda>c. c = CHR '' '' \<or> c = CHR 0x0D) (rev (drop 6 l)))\<rparr>
      else if length l > 8 \<and> take 8 l = ''signal: '' then s\<lparr>cur_signal := atoi (drop 8 t)\<rparr>
      else if length l > 6 \<and> take 6 l = ''freq: '' then s\<lparr>cur_freq := atoi (drop 6 t)\<rparr>
      else if length l > 12 \<and> take 12 l = ''capability: '' then
        (if mentions_text (drop 12 l) ''Privacy'' then s\<lparr>cur_privacy := True\<rparr> else s)
      else if take 4 l = ''RSN:'' \<or> take 4 l = ''WPA:'' then s\<lparr>cur_privacy := True\<rparr>
      else if mentions_text l ''Authentication suites:'' \<and> (mentions_text l ''802.1X'' \<or> mentions_text l ''EAP'')
        then s\<lparr>cur_is_eap := True\<rparr>
      else s)"

definition iw_line :: "string \<Rightarrow> string \<Rightarrow> iw_state \<Rightarrow> iw_state" where
  "iw_line l t s =
     (if take 4 l = ''BSS '' then
        (flush_bss s)\<lparr>in_bss := True, cur_ssid := [],
          cur_bssid := takeWhile (\<lambda>c. c \<noteq> CHR ''('' \<and> c \<noteq> CHR '' '') (drop 4 l),
          cur_signal := - 100, cur_freq := 0, cur_privacy := False, cur_is_eap := False\<rparr>
      else if \<not> in_bss s then s
      else let blanks = length (takeWhile (\<lambda>c. c = CHR '' '' \<or> c = TAB) l)
           in if drop blanks l = [] then s else iw_field (drop blanks l) (drop blanks t) s)"

function iw_lines :: "string \<Rightarrow> iw_state \<Rightarrow> iw_state" where
  "iw_lines t s =
     (if t = [] then s
      else let l = takeWhile (\<lambda>c. c \<noteq> NEWL) t in iw_lines (drop (length l + 1) t) (iw_line l t s))"
  by pat_completeness auto
termination
  by (relation "measure (length \<circ> fst)") auto

declare iw_lines.simps [simp del]

text \<open>\<open>std::sort\<close> by falling strength; it promises no order among equals, here they keep theirs.\<close>

definition parse_iw :: "string \<Rightarrow> WiFiNetwork list" where
  "parse_iw raw =
     sort_key (\<lambda>n. - signal_dbm n)
       (iw_nets (flush_bss (iw_lines (takeWhile (\<lambda>c. c \<noteq> CHR 0x00) raw) iw_start)))"

definition has_bss :: "string \<Rightarrow> bool" where
  "has_bss raw \<longleftrightarrow> mentions_text raw ''BSS ''"

text \<open>The attempts: a scan, or the cached results when the interface is busy.\<close>

fun iw_attempts :: "wifi_env \<Rightarrow> nat list \<Rightarrow> string \<Rightarrow> string" where
  "iw_attempts env [] raw = raw"
| "iw_attempts env (a # as) raw =
     (let raw = iw_scan_output env a
      in if has_bss raw then raw
         else if mentions_text raw ''busy'' then
           (let raw = iw_dump_output env a in if has_bss raw then raw else iw_attempts env as raw)
         else iw_attempts env as raw)"

definition iw_scan :: "wifi_env \<Rightarrow> WiFiNetwork list wifi" where
  "iw_scan env st =
     (if iface st = [] then ([], st)
      else let st = st\<lparr>link_up := (link_up st \<or> ioctl_error env = None)\<rparr>;
               raw = iw_attempts env [1, 2, 3] []
           in (if has_bss raw then parse_iw raw else [], st))"

fun wait_scan :: "wifi_env \<Rightarrow> nat \<Rightarrow> unit wifi" where
  "wait_scan env 0 = retW ()"
| "wait_scan env (Suc n) =
     bindW (wpa env ''STATUS'') (\<lambda>r. if \<not> mentions_text r ''wpa_state=SCANNING'' then retW () else wait_scan env n)"

definition wifi_scan :: "wifi_env \<Rightarrow> WiFiNetwork list wifi" where
  "wifi_scan env st =
     (if \<not> has_wifi st then ([], st)
      else bindW (open_ctrl env) (\<lambda>ok.
             if ok then
               bindW (wpa env ''SCAN'') (\<lambda>_.
               bindW (wait_scan env (scan_polls env)) (\<lambda>_.
               bindW (wpa env ''SCAN_RESULTS'') (\<lambda>r.
                 let nets = parse_scan_results r
                 in if nets \<noteq> [] then retW nets else iw_scan env)))
             else iw_scan env) st)"

section \<open>The tools\<close>

text \<open>The tools over a manager that may not have been registered.\<close>

type_synonym wifi_tool = "WiFiManager option \<Rightarrow> string result \<times> WiFiManager option"

definition wifi_error :: "string \<Rightarrow> json" where
  "wifi_error msg = jobj [(''success'', JBool False), (''error'', JString msg)]"

definition say :: "json_text \<Rightarrow> json \<Rightarrow> wifi_tool" where
  "say tx j w = (dump_text tx j, w)"

definition done_json :: "string \<Rightarrow> json" where
  "done_json msg = jobj [(''success'', JBool True), (''message'', JString msg)]"

definition with_wifi :: "json_text \<Rightarrow> (WiFiManager \<Rightarrow> wifi_tool) \<Rightarrow> wifi_tool" where
  "with_wifi tx f w =
     (case w of
        None \<Rightarrow> say tx (wifi_error ''wifi not initialized'') w
      | Some st \<Rightarrow> if \<not> has_wifi st then say tx (wifi_error ''No WiFi interface detected'') w else f st w)"

definition handle_wifi_status :: "wifi_env \<Rightarrow> json_text \<Rightarrow> wifi_tool" where
  "handle_wifi_status env tx w =
     (case w of
        None \<Rightarrow> say tx (wifi_error ''wifi not initialized'') w
      | Some st \<Rightarrow>
          (case wifi_status env st of (s, st) \<Rightarrow>
             say tx (jobj [(''available'', JBool (st_available s)), (''daemon_running'', JBool (st_daemon s)),
               (''iface'', JString (st_iface s)),
               (''state'', JString (if wpa_state s = [] then ''DISCONNECTED'' else wpa_state s)),
               (''connected'', JBool (wpa_state s = ''COMPLETED'')), (''ssid'', JString (st_ssid s)),
               (''bssid'', JString (st_bssid s)), (''ip_addr'', JString (st_ip s)),
               (''signal_dbm'', JInt (st_signal s))]) (Some st)))"

definition scanned_json :: "WiFiNetwork \<Rightarrow> json" where
  "scanned_json n =
     jobj [(''ssid'', JString (net_ssid n)), (''bssid'', JString (net_bssid n)), (''signal_dbm'', JInt (signal_dbm n)),
       (''freq_mhz'', JInt (freq_mhz n)), (''security'', JString (security n)), (''saved'', JBool (net_saved n))]"

definition handle_wifi_scan :: "wifi_env \<Rightarrow> json_text \<Rightarrow> wifi_tool" where
  "handle_wifi_scan env tx =
     with_wifi tx (\<lambda>st _.
       case wifi_scan env st of (nets, st) \<Rightarrow>
         say tx (jobj [(''success'', JBool True), (''count'', JInt (int (length nets))),
           (''networks'', JArray (map scanned_json nets))]) (Some st))"

text \<open>The argument that names a network.\<close>

definition with_ssid :: "json_text \<Rightarrow> string \<Rightarrow> (json \<Rightarrow> string \<Rightarrow> wifi_tool) \<Rightarrow> wifi_tool" where
  "with_ssid tx args f w =
     (case snd tx args of
        None \<Rightarrow> say tx (wifi_error ''invalid JSON arguments'') w
      | Some j \<Rightarrow> (case jvalue get_string j ''ssid'' [] of Inl e \<Rightarrow> (Inl e, w) | Inr ssid \<Rightarrow> f j ssid w))"

definition handle_wifi_connect :: "wifi_env \<Rightarrow> json_text \<Rightarrow> string \<Rightarrow> wifi_tool" where
  "handle_wifi_connect env tx args =
     with_wifi tx (\<lambda>st. with_ssid tx args (\<lambda>j ssid w.
       case jvalue get_string j ''psk'' [] of
         Inl e \<Rightarrow> (Inl e, w)
       | Inr psk \<Rightarrow>
           if ssid = [] then say tx (wifi_error ''ssid is required'') w
           else (case wifi_connect env ssid psk st of (err, st) \<Rightarrow>
                   if err \<noteq> [] then say tx (wifi_error err) (Some st)
                   else (case wifi_status env st of (s, st) \<Rightarrow>
                           say tx (jobj [(''success'', JBool True), (''message'', JString (''Connected to '' @ ssid)),
                             (''ip_addr'', JString (st_ip s))]) (Some st)))))"

definition handle_wifi_disconnect :: "wifi_env \<Rightarrow> json_text \<Rightarrow> wifi_tool" where
  "handle_wifi_disconnect env tx =
     with_wifi tx (\<lambda>st _.
       case wifi_disconnect env st of (err, st) \<Rightarrow>
         say tx (if err \<noteq> [] then wifi_error err else done_json ''Disconnected'') (Some st))"

definition handle_wifi_list :: "wifi_env \<Rightarrow> json_text \<Rightarrow> wifi_tool" where
  "handle_wifi_list env tx =
     with_wifi tx (\<lambda>st _.
       case list_networks env st of (nets, st) \<Rightarrow>
         say tx (jobj [(''success'', JBool True), (''count'', JInt (int (length nets))),
           (''networks'', JArray (map (\<lambda>n. jobj [(''network_id'', JInt (network_id n)), (''ssid'', JString (net_ssid n)),
             (''connected'', JBool (net_connected n))]) nets))]) (Some st))"

definition handle_wifi_forget :: "wifi_env \<Rightarrow> json_text \<Rightarrow> string \<Rightarrow> wifi_tool" where
  "handle_wifi_forget env tx args =
     with_wifi tx (\<lambda>st. with_ssid tx args (\<lambda>j ssid w.
       if ssid = [] then say tx (wifi_error ''ssid is required'') w
       else (case wifi_forget env ssid st of (err, st) \<Rightarrow>
               say tx (if err \<noteq> [] then wifi_error err else done_json (''Removed saved network: '' @ ssid)) (Some st))))"

definition handle_wifi_enable :: "wifi_env \<Rightarrow> json_text \<Rightarrow> string \<Rightarrow> wifi_tool" where
  "handle_wifi_enable env tx args =
     with_wifi tx (\<lambda>st w.
       case (case snd tx args of None \<Rightarrow> Inr True | Some j \<Rightarrow> jvalue get_bool j ''enable'' True) of
         Inl e \<Rightarrow> (Inl e, w)
       | Inr on \<Rightarrow>
           (case (if on then wifi_enable env st else wifi_disable env st) of (err, st) \<Rightarrow>
              say tx (if err \<noteq> [] then wifi_error err
                      else done_json (if on then ''WiFi enabled'' else ''WiFi disabled'')) (Some st)))"

end
