(* ===== verification/WifiFacts.thy ===== *)
theory WifiFacts
  imports Wifi
begin

text \<open>
  The lemmas and properties of the WiFi manager: the commands that it sends whatever the network
  name and the password are, the outcome of a connection, the parsers and the text for the log.
\<close>

section \<open>The commands that are sent\<close>

text \<open>An operation that only adds commands of a kind to those the daemon has had.\<close>

definition emits :: "(string \<Rightarrow> bool) \<Rightarrow> 'a wifi \<Rightarrow> bool" where
  "emits ok m \<longleftrightarrow> (\<forall>st. \<exists>cs. sent (snd (m st)) = sent st @ cs \<and> list_all ok cs)"

named_theorems emits_intros \<open>rules for the commands that an operation sends\<close>

lemma emits_ret [emits_intros]: "emits ok (retW x)"
  by (simp add: emits_def retW_def)

lemma emits_same: "(\<And>st. sent (snd (m st)) = sent st) \<Longrightarrow> emits ok m"
  by (simp add: emits_def)

lemma emits_bind [emits_intros]: "emits ok m \<Longrightarrow> (\<And>x. emits ok (f x)) \<Longrightarrow> emits ok (bindW m f)"
  unfolding emits_def
proof
  fix st
  assume m: "\<forall>st. \<exists>cs. sent (snd (m st)) = sent st @ cs \<and> list_all ok cs"
    and f: "\<And>x. \<forall>st. \<exists>cs. sent (snd (f x st)) = sent st @ cs \<and> list_all ok cs"
  obtain x st' where e: "m st = (x, st')" by force
  with m obtain cs where "sent st' = sent st @ cs" "list_all ok cs" by (metis snd_conv)
  moreover obtain ds where "sent (snd (f x st')) = sent st' @ ds" "list_all ok ds" using f by blast
  ultimately have "sent (snd (bindW m f st)) = sent st @ (cs @ ds) \<and> list_all ok (cs @ ds)"
    using e by (simp add: bindW_def)
  then show "\<exists>cs. sent (snd (bindW m f st)) = sent st @ cs \<and> list_all ok cs" by blast
qed

lemma emits_if [emits_intros]: "emits ok m \<Longrightarrow> emits ok n \<Longrightarrow> emits ok (if b then m else n)"
  by simp

lemma emits_state_if [emits_intros]:
  "(\<And>st. sent (snd (m st)) = sent st) \<Longrightarrow> emits ok n \<Longrightarrow> emits ok (\<lambda>st. if b st then m st else n st)"
  by (auto simp: emits_def)

lemma emits_open [emits_intros]: "emits ok (open_ctrl env)"
  by (rule emits_same) (simp add: open_ctrl_def Let_def)

lemma emits_wpa [emits_intros]: "ok cmd \<Longrightarrow> emits ok (wpa env cmd)"
  unfolding wpa_def
proof (rule emits_bind [OF emits_open])
  fix x
  assume "ok cmd"
  then show "emits ok (\<lambda>st. if \<not> x then ([], st)
       else case daemon env (sent st) cmd of
              SendFails \<Rightarrow> ([], close_ctrl (st\<lparr>wpa_log := wpa_log st @ [mask_psk cmd]\<rparr>))
            | Datagrams ms broken \<Rightarrow>
                let st = st\<lparr>sent := sent st @ [cmd]\<rparr>
                in case dropWhile is_event ms of
                     [] \<Rightarrow> ([], if broken then close_ctrl st else st)
                   | m # _ \<Rightarrow> if m = [] then ([], close_ctrl st) else (take 65535 m, st))"
    by (auto simp: emits_def close_ctrl_def Let_def split: wpa_outcome.split list.split)
qed

lemma emits_wpa_trim [emits_intros]: "ok cmd \<Longrightarrow> emits ok (wpa_trim env cmd)"
  unfolding wpa_trim_def by (intro emits_intros) auto

lemma emits_list [emits_intros]: "ok ''LIST_NETWORKS'' \<Longrightarrow> emits ok (list_networks env)"
  unfolding list_networks_def [abs_def] by (intro emits_intros) auto

lemma emits_try_open [emits_intros]: "emits ok (try_open env n)"
  by (induction n) (auto intro!: emits_intros)

lemma emits_ensure [emits_intros]: "emits ok (ensure_daemon env)"
proof -
  have "emits ok (\<lambda>st. bindW (if spawn_cb st then try_open env 8 else retW ()) (\<lambda>_ st. (ctrl_open st, st)) st)"
  proof -
    have "emits ok (bindW (if b then try_open env 8 else retW ()) (\<lambda>_ st. (ctrl_open st, st)))" for b
      by (intro emits_intros emits_same) auto
    then show ?thesis unfolding emits_def by blast
  qed
  then show ?thesis unfolding ensure_daemon_def
    by (intro emits_bind emits_open) (auto intro!: emits_state_if simp: emits_def)
qed

text \<open>The commands of a connection to a network with a password.\<close>

definition connect_command :: "string \<Rightarrow> string \<Rightarrow> string \<Rightarrow> bool" where
  "connect_command ssid psk c \<longleftrightarrow>
     c \<in> {''LIST_NETWORKS'', ''ADD_NETWORK'', ''STATUS'', ''SAVE_CONFIG''}
     \<or> (\<exists>i. c \<in> {set_network i (''ssid '' @ ssid_hex ssid), set_network i ''key_mgmt NONE'',
           set_network i (''psk '' @ [QT] @ psk_escape psk @ [QT]), set_network i ''bssid any'',
           ''SELECT_NETWORK '' @ show_int i, ''REMOVE_NETWORK '' @ show_int i})"

lemma emits_add: "emits (connect_command ssid psk) (add_network env ssid psk)"
  unfolding add_network_def
  by (intro emits_bind emits_wpa_trim) (auto simp: connect_command_def intro!: emits_intros split: option.split)

lemma emits_poll: "emits (connect_command ssid psk) (poll_completed env n prev)"
  by (induction n arbitrary: prev) (auto simp: Let_def connect_command_def intro!: emits_intros)

lemma emits_join: "emits (connect_command ssid psk) (join_network env new i)"
  unfolding join_network_def
  by (intro emits_intros emits_poll) (auto simp: connect_command_def)

lemma emits_connect: "emits (connect_command ssid psk) (wifi_connect env ssid psk)"
proof -
  have "emits (connect_command ssid psk) (case r of Inl e \<Rightarrow> retW e | Inr i \<Rightarrow> join_network env True i)" for r
    by (cases r) (auto intro: emits_ret emits_join)
  then show ?thesis
    unfolding wifi_connect_def [abs_def] Let_def
    by (intro emits_intros emits_add emits_join) (auto simp: connect_command_def)
qed

section \<open>What a command carries\<close>

fun unhex :: "string \<Rightarrow> byte list" where
  "unhex (a # b # r) = of_nat (16 * hex_value a + hex_value b) # unhex r"
| "unhex _ = []"

lemma unhex_hex_string: "unhex (hex_string bs) = bs"
proof (induction bs)
  case (Cons b bs)
  have "unat b div 16 < 16" "unat b mod 16 < 16" using unat_byte [of b] by auto
  then have "16 * hex_value (hex_digit (unat b div 16)) + hex_value (hex_digit (unat b mod 16)) = unat b"
    using hex_digit_ok by simp
  with Cons show ?case by (simp add: hex_string_def hex_byte_def)
qed (simp add: hex_string_def)

text \<open>A quoted text with escapes, read up to the closing quote.\<close>

fun read_quoted :: "string \<Rightarrow> (string \<times> string) option" where
  "read_quoted [] = None"
| "read_quoted (c # cs) =
     (if c = QT then Some ([], cs)
      else if c = BS then (case cs of [] \<Rightarrow> None | d # ds \<Rightarrow> map_option (\<lambda>(a, r). (d # a, r)) (read_quoted ds))
      else map_option (\<lambda>(a, r). (c # a, r)) (read_quoted cs))"

definition printable :: "char \<Rightarrow> bool" where
  "printable c \<longleftrightarrow> (0x20 :: nat) \<le> of_char c"

lemma read_psk: "read_quoted (psk_escape psk @ QT # r) = Some (filter printable psk, r)"
proof (induction psk)
  case (Cons c psk)
  then show ?case
    by (cases "c = QT \<or> c = BS") (auto simp: psk_escape_def printable_def not_le QT_def BS_def)
qed (simp add: psk_escape_def)

lemma psk_escape_printable: "list_all printable (psk_escape psk)"
  by (induction psk) (auto simp: psk_escape_def printable_def QT_def BS_def not_less)

lemma show_int_printable: "list_all printable (show_int i)"
proof -
  have "list_all printable s" if "list_all is_digit s" for s
    using that by (auto simp: list_all_iff printable_def is_digit_def)
  then show ?thesis using show_nat_digits by (simp add: show_int_def printable_def)
qed

lemma hex_printable: "list_all printable (hex_string bs)"
proof -
  have "is_hex_lower c \<Longrightarrow> printable c" for c by (auto simp: printable_def is_hex_lower_def is_digit_def)
  then show ?thesis using hex_string_chars [of bs] by (auto simp: list_all_iff)
qed

lemma connect_command_printable: "connect_command ssid psk c \<Longrightarrow> list_all printable c"
  by (auto simp: connect_command_def set_network_def ssid_hex_def show_int_printable hex_printable psk_escape_printable)
    (auto simp: printable_def QT_def)

text \<open>
  C26: whatever the name and the password of the network are and whatever the daemon answers, a
  connection sends only the fixed commands and the settings of the name and the password, no
  command contains a control character, the name arrives byte for byte, and the quoted password ends
  at its closing quote and nowhere before, with only control characters dropped: neither can inject
  a command.
\<close>

theorem wifi_connect_injects_nothing:
  "(\<exists>cs. sent (snd (wifi_connect env ssid psk st)) = sent st @ cs
      \<and> list_all (connect_command ssid psk) cs \<and> list_all (list_all printable) cs)
    \<and> unhex (ssid_hex ssid) = map of_char ssid
    \<and> read_quoted (psk_escape psk @ QT # r) = Some (filter printable psk, r)"
proof -
  obtain cs where "sent (snd (wifi_connect env ssid psk st)) = sent st @ cs" "list_all (connect_command ssid psk) cs"
    using emits_connect [of ssid psk env] unfolding emits_def by blast
  moreover from this(2) have "list_all (list_all printable) cs"
    using connect_command_printable by (auto simp: list_all_iff)
  ultimately show ?thesis by (auto simp: ssid_hex_def unhex_hex_string read_psk)
qed

section \<open>Saved networks\<close>

text \<open>
  the password is ignored for a network that is saved already: with any two passwords the
  connection sends the same commands and has the same outcome, so a changed password cannot be
  entered without forgetting the network first.
\<close>

theorem saved_network_ignores_password:
  assumes "0 \<le> saved_id ssid (fst (list_networks env (snd (ensure_daemon env st))))"
  shows "wifi_connect env ssid psk st = wifi_connect env ssid psk' st"
  using assms by (auto simp: wifi_connect_def bindW_def Let_def split: prod.split)

text \<open>A daemon that has saved the network Home and completes every connection.\<close>

definition demo_daemon :: "string \<Rightarrow> string" where
  "demo_daemon c =
     (if c = ''LIST_NETWORKS'' then ''network id'' @ [NEWL] @ ''3'' @ [TAB] @ ''Home'' @ [TAB] @ ''any''
      else if c = ''STATUS'' then ''wpa_state=COMPLETED''
      else ''OK'')"

definition demo_wifi :: wifi_env where
  "demo_wifi = \<lparr>ifaces = None, socket_ok = (\<lambda>_. True), daemon = (\<lambda>_ c. Datagrams [demo_daemon c] False), polls = 2,
     scan_polls = 1, own_address = [], iw_scan_output = (\<lambda>_. []), iw_dump_output = (\<lambda>_. []), ioctl_error = None\<rparr>"

definition demo_radio :: WiFiManager where
  "demo_radio = \<lparr>iface = ''wlan0'', ctrl_open = True, spawn_cb = False, attempts = 0, sent = [], wpa_log = [], link_up = True\<rparr>"

lemma demo_saved: "parse_list_networks (demo_daemon ''LIST_NETWORKS'')
    = [new_network\<lparr>network_id := 3, net_ssid := ''Home'', net_bssid := ''any'', net_saved := True\<rparr>]"
proof -
  let ?row = "''3'' @ [TAB] @ ''Home'' @ [TAB] @ ''any''"
  have "trim_ws ?row = ?row" "trim_ws ''network id'' = ''network id''"
    by (rule trim_ws_id; simp add: is_trimmed_def)+
  then have "table_rows (demo_daemon ''LIST_NETWORKS'') = [?row]"
    by (simp add: table_rows_def reply_lines_def demo_daemon_def NEWL_def TAB_def)
  moreover have "str_split ?row TAB 4 = [''3'', ''Home'', ''any'']" by (simp add: str_split_def TAB_def)
  moreover have "stoi ''3'' = Some 3"
    by (simp add: stoi_def strtol_def is_space_def is_digit_def digit_val_def Let_def long_max_def long_min_def)
  moreover have "trim_ws ''3'' = ''3''" "trim_ws ''Home'' = ''Home''" "trim_ws ''any'' = ''any''"
    by (rule trim_ws_id; simp add: is_trimmed_def)+
  ultimately show ?thesis by (simp add: parse_list_networks_def list_row_def new_network_def)
qed

lemma demo_list: "fst (list_networks demo_wifi (snd (ensure_daemon demo_wifi demo_radio))) = parse_list_networks (demo_daemon ''LIST_NETWORKS'')"
proof -
  have "take 65535 (demo_daemon ''LIST_NETWORKS'') = demo_daemon ''LIST_NETWORKS''"
    by (rule take_all) (simp add: demo_daemon_def)
  moreover have "\<not> is_event (demo_daemon ''LIST_NETWORKS'')" "demo_daemon ''LIST_NETWORKS'' \<noteq> []"
    by (simp_all add: demo_daemon_def is_event_def)
  ultimately show ?thesis
    by (simp add: list_networks_def ensure_daemon_def open_ctrl_def wpa_def demo_wifi_def demo_radio_def bindW_def retW_def
        has_wifi_def Let_def)
qed

theorem saved_network_ignores_password_witness:
  "wifi_connect demo_wifi ''Home'' ''right'' demo_radio = wifi_connect demo_wifi ''Home'' ''wrong'' demo_radio"
  by (rule saved_network_ignores_password) (simp add: demo_list demo_saved saved_id_def)

section \<open>Tables\<close>

lemma split_loop_more:
  "d \<notin> set l \<Longrightarrow> length parts + 1 < k \<Longrightarrow>
     split_loop d k parts token (l @ d # s) = split_loop d k (parts @ [token @ l]) [] s"
  by (induction l arbitrary: token) auto

lemma split_loop_end: "k \<le> length parts + 1 \<or> d \<notin> set l \<Longrightarrow> split_loop d k parts token l = parts @ [token @ l]"
  by (induction l arbitrary: token) auto

text \<open>A text as it stands in a column: trimmed, not empty, in one line.\<close>

definition column :: "string \<Rightarrow> bool" where
  "column s \<longleftrightarrow> s \<noteq> [] \<and> \<not> is_trimmed (hd s) \<and> \<not> is_trimmed (last s) \<and> NEWL \<notin> set s"

lemma column_trim [simp]: "column s \<Longrightarrow> trim_ws s = s"
  by (simp add: column_def trim_ws_id)

text \<open>The row of a network in the table of the daemon.\<close>

definition scan_text :: "WiFiNetwork \<Rightarrow> string \<Rightarrow> string" where
  "scan_text n flags = net_bssid n @ TAB # show_int (freq_mhz n) @ TAB # show_int (signal_dbm n) @ TAB # flags @ TAB # net_ssid n"

definition scan_table :: "string \<Rightarrow> (WiFiNetwork \<times> string) list \<Rightarrow> string" where
  "scan_table head rows = concat (map (\<lambda>l. l @ [NEWL]) (head # map (\<lambda>(n, f). scan_text n f) rows))"

text \<open>A network as a scan reports it: the only fields are those of the table.\<close>

definition seen :: "WiFiNetwork \<times> string \<Rightarrow> bool" where
  "seen = (\<lambda>(n, f). column (net_bssid n) \<and> TAB \<notin> set (net_bssid n) \<and> column (net_ssid n) \<and> column f \<and> TAB \<notin> set f
     \<and> - (2 ^ 31) \<le> freq_mhz n \<and> freq_mhz n < 2 ^ 31 \<and> - (2 ^ 31) \<le> signal_dbm n \<and> signal_dbm n < 2 ^ 31
     \<and> security n = classify_security f \<and> network_id n = - 1 \<and> \<not> net_connected n \<and> \<not> net_saved n)"

lemma show_int_plain: "c \<in> set (show_int i) \<Longrightarrow> is_digit c \<or> c = CHR ''-''"
  using show_nat_digits by (auto simp: show_int_def list_all_iff split: if_splits)

lemma show_int_column: "column (show_int i)" "TAB \<notin> set (show_int i)"
proof -
  have p: "\<not> is_trimmed c \<and> c \<noteq> NEWL \<and> c \<noteq> TAB" if "c \<in> set (show_int i)" for c
    using show_int_plain [OF that] by (auto simp: is_trimmed_def is_digit_def NEWL_def TAB_def)
  have "show_int i \<noteq> []" by (simp add: show_int_def)
  with p show "column (show_int i)" unfolding column_def by (metis hd_in_set last_in_set)
  from p show "TAB \<notin> set (show_int i)" by blast
qed

lemma strtol_minus:
  assumes "ds \<noteq> []" "list_all is_digit ds" "int (digits_val 0 ds) \<le> long_max"
  shows "strtol (CHR ''-'' # ds) = Some (- int (digits_val 0 ds), [], False)"
proof -
  have "takeWhile is_digit ds = ds" "dropWhile is_digit ds = []" using assms(2) by (simp_all add: list_all_iff)
  with assms(1, 3) show ?thesis
    by (simp add: strtol_def is_space_def Let_def long_max_def long_min_def
        del: takeWhile_eq_all_conv dropWhile_eq_Nil_conv)
qed

lemma stoi_show_int: "- (2 ^ 31) \<le> i \<Longrightarrow> i < 2 ^ 31 \<Longrightarrow> stoi (show_int i) = Some i"
  using strtol_digits [of "show_nat (nat i)"] strtol_minus [of "show_nat (nat (- i))"]
    show_nat_digits show_nat_nonempty
  by (simp add: stoi_def show_int_def long_max_def)

lemma scan_text_column:
  assumes "seen (n, f)"
  shows "column (scan_text n f)"
proof -
  have "column (net_bssid n)" "column f" "column (net_ssid n)" using assms by (simp_all add: seen_def)
  then show ?thesis using show_int_column(1) [of "freq_mhz n"] show_int_column(1) [of "signal_dbm n"]
    by (simp add: scan_text_def column_def) (simp add: NEWL_def TAB_def)
qed

lemma split_scan_text:
  assumes "seen (n, f)"
  shows "str_split (scan_text n f) TAB 5 = [net_bssid n, show_int (freq_mhz n), show_int (signal_dbm n), f, net_ssid n]"
  using assms show_int_column(2)
  by (simp add: seen_def str_split_def scan_text_def split_loop_more split_loop_end)

lemma scan_row_text:
  assumes "seen (n, f)"
  shows "scan_row (scan_text n f) = [n]"
proof -
  have c: "column (net_bssid n)" "column f" "column (net_ssid n)" using assms by (simp_all add: seen_def)
  then have "net_ssid n \<noteq> []" by (simp add: column_def)
  with c assms show ?thesis
    by (simp add: scan_row_def split_scan_text [OF assms] show_int_column(1) stoi_show_int seen_def new_network_def Let_def)
qed

lemma lines_of_table:
  "list_all column ls \<Longrightarrow> reply_lines (concat (map (\<lambda>l. l @ [NEWL]) ls)) = ls"
proof (induction ls)
  case (Cons l ls)
  then show ?case
    by (simp add: reply_lines_def getlines_line column_def)
qed (simp add: reply_lines_def)

text \<open>
  the results of a scan are read back exactly: a table that the daemon prints, a heading and a
  row per network with tabs between its fields, is parsed into the same networks in the same order,
  tabs in a network name included.
\<close>

theorem scan_results_roundtrip:
  assumes "column head" "list_all seen rows"
  shows "parse_scan_results (scan_table head rows) = map fst rows"
proof -
  have "list_all column (map (\<lambda>(n, f). scan_text n f) rows)"
    using assms(2) scan_text_column by (auto simp: list_all_iff)
  with assms(1) have "list_all column (head # map (\<lambda>(n, f). scan_text n f) rows)" by simp
  moreover from this have "map trim_ws (head # map (\<lambda>(n, f). scan_text n f) rows) = head # map (\<lambda>(n, f). scan_text n f) rows"
    "filter (\<lambda>l. l \<noteq> []) (head # map (\<lambda>(n, f). scan_text n f) rows) = head # map (\<lambda>(n, f). scan_text n f) rows"
    by (auto simp: list_all_iff column_def intro!: map_idI filter_True column_trim)
  ultimately have "table_rows (scan_table head rows) = map (\<lambda>(n, f). scan_text n f) rows"
    unfolding table_rows_def scan_table_def lines_of_table [OF \<open>list_all column (head # _)\<close>] by (simp only: drop_Suc_Cons One_nat_def drop_0)
  moreover have "concat (map scan_row (map (\<lambda>(n, f). scan_text n f) rows)) = map fst rows"
    using assms(2) scan_row_text by (induction rows) auto
  ultimately show ?thesis by (simp add: parse_scan_results_def)
qed

definition demo_scan :: "(WiFiNetwork \<times> string) list" where
  "demo_scan =
     [(new_network\<lparr>net_ssid := ''Home'', net_bssid := ''aa:bb'', freq_mhz := 2412, signal_dbm := - 60, security := ''WPA2-PSK''\<rparr>,
       ''[WPA2][ESS]''),
      (new_network\<lparr>net_ssid := ''A'' @ [TAB] @ ''B'', net_bssid := ''cc:dd'', security := ''OPEN''\<rparr>, ''[ESS]'')]"

lemma demo_flags:
  "classify_security ''[WPA2][ESS]'' = ''WPA2-PSK''" "classify_security ''[ESS]'' = ''OPEN''"
  by code_simp+

lemma demo_scan_seen: "list_all seen demo_scan"
proof -
  have "column ''aa:bb''" "column ''cc:dd''" "column ''Home''" "column ''[WPA2][ESS]''" "column ''[ESS]''"
    "column (''A'' @ [TAB] @ ''B'')"
    by (simp_all add: column_def is_trimmed_def NEWL_def TAB_def)
  moreover have "TAB \<notin> set ''aa:bb''" "TAB \<notin> set ''cc:dd''" "TAB \<notin> set ''[WPA2][ESS]''" "TAB \<notin> set ''[ESS]''"
    by (simp_all add: TAB_def)
  ultimately show ?thesis 
    unfolding demo_scan_def seen_def new_network_def
    by (simp add: demo_flags del: set_append)
qed

theorem scan_results_roundtrip_witness:
  "parse_scan_results (scan_table ''bssid'' demo_scan) = map fst demo_scan \<and> length (map fst demo_scan) = 2"
proof
  show "parse_scan_results (scan_table ''bssid'' demo_scan) = map fst demo_scan"
    by (rule scan_results_roundtrip) (simp_all add: column_def is_trimmed_def NEWL_def demo_scan_seen)
  show "length (map fst demo_scan) = 2" by (simp add: demo_scan_def)
qed

section \<open>The networks that iw reports\<close>

text \<open>The names are set and occur once each.\<close>

definition named_once :: "WiFiNetwork list \<Rightarrow> bool" where
  "named_once ns \<longleftrightarrow> distinct (map net_ssid ns) \<and> list_all (\<lambda>n. net_ssid n \<noteq> []) ns"

lemma named_once_flush: "named_once (iw_nets s) \<Longrightarrow> named_once (iw_nets (flush_bss s))"
proof -
  assume n: "named_once (iw_nets s)"
  have u: "named_once (upd_first p f (iw_nets s))" if "\<And>x. net_ssid (f x) = net_ssid x" for p f
  proof -
    have m: "map net_ssid (upd_first p f (iw_nets s)) = map net_ssid (iw_nets s)" by (rule map_upd_first) (rule that)
    then have "net_ssid ` set (upd_first p f (iw_nets s)) = net_ssid ` set (iw_nets s)" by (metis list.set_map)
    with n m show ?thesis by (simp add: named_once_def list_all_iff) (metis imageE imageI)
  qed
  have a: "named_once (iw_nets s @ [x])" if "\<not> list_ex (\<lambda>n. net_ssid n = net_ssid x) (iw_nets s)" "net_ssid x \<noteq> []" for x
    using n that by (auto simp: named_once_def list_ex_iff)
  show ?thesis
    using n by (auto simp: flush_bss_def Let_def new_network_def intro!: u a)
qed

lemma iw_nets_field: "iw_nets (iw_field l t s) = iw_nets s"
  by (simp add: iw_field_def)

lemma named_once_line: "named_once (iw_nets s) \<Longrightarrow> named_once (iw_nets (iw_line l t s))"
  by (simp add: iw_line_def Let_def iw_nets_field named_once_flush)

lemma named_once_lines: "named_once (iw_nets s) \<Longrightarrow> named_once (iw_nets (iw_lines t s))"
proof (induction t s rule: iw_lines.induct)
  case (1 t s)
  then show ?case
    by (subst iw_lines.simps) (simp add: Let_def named_once_line)
qed

lemma named_once_sort: "named_once ns \<Longrightarrow> named_once (sort_key f ns)"
  by (simp add: named_once_def distinct_map list_all_iff)

text \<open>
  whatever \<^verbatim>\<open>iw\<close> prints, the networks that come out of its output have a name, every name occurs
  once, and they are ordered by falling signal strength.
\<close>

theorem iw_scan_distinct_sorted:
  "distinct (map net_ssid (parse_iw raw)) \<and> list_all (\<lambda>n. net_ssid n \<noteq> []) (parse_iw raw)
    \<and> sorted (map (\<lambda>n. - signal_dbm n) (parse_iw raw))"
proof -
  let ?s = "flush_bss (iw_lines (takeWhile (\<lambda>c. c \<noteq> CHR 0x00) raw) iw_start)"
  have "named_once (iw_nets ?s)"
    by (intro named_once_flush named_once_lines) (simp add: iw_start_def named_once_def)
  then have "named_once (parse_iw raw)" unfolding parse_iw_def by (rule named_once_sort)
  then show ?thesis by (simp add: named_once_def) (simp add: parse_iw_def)
qed

section \<open>The text for the log\<close>

lemma mask_quiet:
  "CHR ''p'' \<notin> set a \<Longrightarrow> mask_loop prev (a @ s) = a @ mask_loop (if a = [] then prev else Some (last a)) s"
proof (induction a arbitrary: prev)
  case (Cons c a)
  then have "c \<noteq> CHR ''p''" by auto
  with Cons show ?case by (subst mask_loop.simps) simp
qed simp

lemma escape_before_quote:
  "dropWhile (\<lambda>c. c \<noteq> QT) (psk_escape psk @ [QT]) =
     QT # (if QT \<in> set psk then psk_escape (tl (dropWhile (\<lambda>c. c \<noteq> QT) psk)) @ [QT] else [])"
  by (induction psk) (auto simp: psk_escape_def QT_def BS_def)

lemma mask_quoted:
  assumes "take 3 s = ''psk''" "4 \<le> length s" "skip_value (drop 3 s) = (True, r)" "s = w @ r"
  shows "mask_loop (Some (CHR '' '')) s = ''psk '' @ [QT] @ ''****'' @ [QT] @ mask_loop (Some (last w)) r"
proof -
  from assms(4) have "last (take (length s - length r) s) = last w" by simp
  moreover have "s \<noteq> []" using assms(1) by auto
  ultimately show ?thesis using assms(1-3) by (subst mask_loop.simps) simp
qed

lemma show_int_no_p: "CHR ''p'' \<notin> set (show_int i)"
  using show_int_plain [of "CHR ''p''" i] by (auto simp: is_digit_def)

text \<open>
  the log never shows what a password has before its first double quote, and nothing of it when
  it has none: the command is logged with stars in place of the quoted text. What follows the first
  double quote of a password is logged as it stands, as masking stops at the escaped quote.
\<close>

theorem log_masks_up_to_quote:
  "mask_psk (set_network i (''psk '' @ [QT] @ psk_escape psk @ [QT]))
    = set_network i (''psk '' @ [QT] @ ''****'' @ [QT])
      @ (if QT \<in> set psk then mask_loop (Some QT) (psk_escape (tl (dropWhile (\<lambda>c. c \<noteq> QT) psk)) @ [QT]) else [])"
proof -
  let ?a = "''SET_NETWORK '' @ show_int i @ '' ''"
  let ?q = "[QT] @ psk_escape psk @ [QT]"
  let ?r = "if QT \<in> set psk then psk_escape (tl (dropWhile (\<lambda>c. c \<noteq> QT) psk)) @ [QT] else []"
  have v: "skip_value ('' '' @ ?q) = (True, ?r)"
    using escape_before_quote [of psk] by (simp add: skip_value_def QT_def)
  let ?w = "''psk '' @ [QT] @ takeWhile (\<lambda>c. c \<noteq> QT) (psk_escape psk @ [QT]) @ [QT]"
  have "psk_escape psk @ [QT] = takeWhile (\<lambda>c. c \<noteq> QT) (psk_escape psk @ [QT]) @ QT # ?r"
    using takeWhile_dropWhile_id [of "\<lambda>c. c \<noteq> QT" "psk_escape psk @ [QT]"] unfolding escape_before_quote by (rule sym)
  then have w: "''psk '' @ ?q = ?w @ ?r" by simp
  have "mask_loop (Some (CHR '' '')) (''psk '' @ ?q) = ''psk '' @ [QT] @ ''****'' @ [QT] @ mask_loop (Some (last ?w)) ?r"
    by (rule mask_quoted [OF _ _ _ w]) (use v in simp_all)
  then have "mask_loop (Some (CHR '' '')) (''psk '' @ ?q) = ''psk '' @ [QT] @ ''****'' @ [QT] @ mask_loop (Some QT) ?r"
    by simp
  moreover have "mask_loop None (?a @ ''psk '' @ ?q) = ?a @ mask_loop (Some (CHR '' '')) (''psk '' @ ?q)"
    using mask_quiet [of ?a None] show_int_no_p by simp
  ultimately show ?thesis
    by (simp add: mask_psk_def set_network_def mask_loop.simps [of _ "[]"])
qed

end
