(* ===== verification/Supervisor.thy ===== *)
theory Supervisor
  imports Wifi
begin

text \<open>
  \<^verbatim>\<open>supervisor.cpp\<close> and \<^verbatim>\<open>supervisor.h\<close>, the process that runs as PID 1: the texts of the console,
  the metrics, the log buffer, the keys of the console, the setup of the wireless network at the
  first boot, the restart of the inference process and of its daemons, and the wait for a child as
  a step relation. Definitions only; the lemmas are in SupervisorFacts. What is read from the
  kernel, the keys and the answer of the local server are arguments.
\<close>

section \<open>Texts\<close>

definition format_uptime :: "int \<Rightarrow> string" where
  "format_uptime seconds =
     (let s = (if seconds < 0 then 0 else seconds);
          days = tdiv s 86400; hours = tdiv (s mod 86400) 3600; mins = tdiv (s mod 3600) 60
      in if days > 0 then show_int days @ ''d '' @ show_int hours @ ''h '' @ show_int mins @ ''m''
         else if hours > 0 then show_int hours @ ''h '' @ show_int mins @ ''m''
         else show_int mins @ ''m '' @ show_int (s mod 60) @ ''s'')"

definition FULL_BLOCK :: string where "FULL_BLOCK = [CHR 0xE2, CHR 0x96, CHR 0x88]"
definition LIGHT_BLOCK :: string where "LIGHT_BLOCK = [CHR 0xE2, CHR 0x96, CHR 0x91]"

definition format_bar :: "int \<Rightarrow> int \<Rightarrow> string" where
  "format_bar percent width =
     (let percent = (if percent < 0 then 0 else percent);
          percent = (if percent > 100 then 100 else percent);
          width = (if width < 4 then 4 else width);
          filled = tdiv (to_i32 (percent * width + 50)) 100
      in concat (map (\<lambda>i. if int i < filled then FULL_BLOCK else LIGHT_BLOCK) [0..<nat width]))"

text \<open>\<^verbatim>\<open>printf\<close> rounds to the nearest, a tie to the even digit. The quotients are exact as \<^verbatim>\<open>double\<close> up
  to 2\<open>\<^sup>53\<close>, because the divisors are powers of two.\<close>

definition round_even :: "int \<Rightarrow> int \<Rightarrow> int" where
  "round_even a b =
     (let q = a div b; r = 2 * (a mod b) in if r > b \<or> (r = b \<and> odd q) then q + 1 else q)"

definition show_tenths :: "int \<Rightarrow> string" where
  "show_tenths t = show_int (t div 10) @ ''.'' @ show_int (t mod 10)"

definition format_bytes :: "int \<Rightarrow> string" where
  "format_bytes kb =
     (if kb \<ge> 1048576 then show_tenths (round_even (kb * 10) 1048576) @ '' GB''
      else if kb \<ge> 1024 then show_int (round_even kb 1024) @ '' MB''
      else show_int kb @ '' KB'')"

definition model_name :: "string \<Rightarrow> string" where
  "model_name path =
     (if path = [] then ''none''
      else let n = (if CHR ''/'' \<in> set path then rev (takeWhile (\<lambda>c. c \<noteq> CHR ''/'') (rev path)) else path)
           in if length n > 5 \<and> drop (length n - 5) n = ''.gguf'' then take (length n - 5) n else n)"

unbundle bit_operations_syntax

section \<open>Metrics\<close>

text \<open>One sample of \<^verbatim>\<open>/proc/stat\<close>, \<open>None\<close> when it cannot be read: the busy and the total jiffies in
  the two halves of a \<^verbatim>\<open>long long\<close>.\<close>

definition cpu_sample :: "int list option \<Rightarrow> int" where
  "cpu_sample stat_line =
     (case stat_line of
        Some [user, nice, system, idle, iowait, irq, softirq] \<Rightarrow>
          let total_jiffies = to_i64 (user + nice + system + idle + iowait + irq + softirq);
              busy_jiffies = to_i64 (total_jiffies - idle - iowait)
          in sint (push_bit 32 (word_of_int busy_jiffies :: u64) OR (word_of_int total_jiffies AND 0xFFFFFFFF))
      | _ \<Rightarrow> - 1)"

definition cpu_percent :: "int \<Rightarrow> int \<Rightarrow> int" where
  "cpu_percent s1 s2 =
     (if s1 < 0 \<or> s2 < 0 then 0
      else let busy1 = s1 div 2 ^ 32; total1 = s1 mod 2 ^ 32; busy2 = s2 div 2 ^ 32; total2 = s2 mod 2 ^ 32;
               dt = total2 - total1
           in if dt = 0 then 0 else to_i32 (tdiv (100 * (busy2 - busy1)) dt))"

text \<open>The amounts used and in all, from the numbers of \<^verbatim>\<open>/proc/meminfo\<close>, - 1 where there is none.\<close>

definition read_memory :: "int \<Rightarrow> int \<Rightarrow> int \<times> int" where
  "read_memory mem_total_kb mem_available =
     (if mem_total_kb > 0 \<and> mem_available > 0 then (mem_total_kb - mem_available, mem_total_kb) else (0, mem_total_kb))"

text \<open>The blocks in all, the free blocks and the size of a block, of \<^verbatim>\<open>/data\<close> and of \<^verbatim>\<open>/\<close>.\<close>

definition read_disk :: "(u64 \<times> u64 \<times> u64) option \<Rightarrow> (u64 \<times> u64 \<times> u64) option \<Rightarrow> int \<times> int" where
  "read_disk data_fs root_fs =
     (case (case data_fs of Some d \<Rightarrow> Some d | None \<Rightarrow> root_fs) of
        None \<Rightarrow> (0, 0)
      | Some (blocks, bfree, frsize) \<Rightarrow>
          let total_kb = sint (blocks * frsize div 1024); free_kb = sint (bfree * frsize div 1024)
          in (to_i64 (total_kb - free_kb), total_kb))"

text \<open>The share shown in a bar.\<close>

definition used_percent :: "int \<Rightarrow> int \<Rightarrow> int" where
  "used_percent used_kb total_kb = (if total_kb > 0 then to_i32 (tdiv (to_i64 (100 * used_kb)) total_kb) else 0)"

text \<open>An IPv4 address of an interface.\<close>

record interface =
  if_name :: string
  if_addr :: string
  is_up :: bool
  is_loopback :: bool

definition usable :: "interface \<Rightarrow> bool" where
  "usable i \<longleftrightarrow> is_up i \<and> \<not> is_loopback i \<and> take 8 (if_addr i) \<noteq> ''169.254.'' \<and> if_name i \<noteq> ''lo''"

definition is_wifi_name :: "interface \<Rightarrow> bool" where
  "is_wifi_name i \<longleftrightarrow> take 2 (if_name i) = ''wl''"

fun pick_ips :: "interface list \<Rightarrow> string \<times> string \<Rightarrow> string \<times> string" where
  "pick_ips [] ips = ips"
| "pick_ips (i # is) (wired_ip, wifi_ip) =
     pick_ips is
       (if \<not> usable i then (wired_ip, wifi_ip)
        else if is_wifi_name i then (wired_ip, if wifi_ip = [] then if_addr i else wifi_ip)
        else (if wired_ip = [] then if_addr i else wired_ip, wifi_ip))"

definition read_ip_address :: "interface list option \<Rightarrow> string" where
  "read_ip_address ifa =
     (case ifa of
        None \<Rightarrow> ''unknown''
      | Some is \<Rightarrow>
          (case pick_ips is ([], []) of (wired_ip, wifi_ip) \<Rightarrow>
             if wired_ip \<noteq> [] \<and> wifi_ip \<noteq> [] then wired_ip @ '' / '' @ wifi_ip
             else if wired_ip \<noteq> [] then wired_ip
             else if wifi_ip \<noteq> [] then wifi_ip
             else ''no network''))"

text \<open>The state on the display: the latch, whether the child is up, and the answer of the server.\<close>

definition display_status :: "bool \<Rightarrow> bool \<Rightarrow> bool \<Rightarrow> string \<times> bool" where
  "display_status child_up answers web_ready =
     (if \<not> child_up then (''DOWN'', False)
      else let web_ready = (web_ready \<or> answers) in (if web_ready then ''RUNNING'' else ''BOOTING'', web_ready))"

section \<open>The log buffer\<close>

record log_buffer =
  log_partial :: string
  log_lines :: "string list"

definition LOG_KEEP :: nat where "LOG_KEEP = 60"
definition MAX_PARTIAL :: nat where "MAX_PARTIAL = 65536"
definition TRUNCATED :: string where "TRUNCATED = [CHR 0xE2, CHR 0x80, CHR 0xA6] @ ''[line truncated]''"

definition log_append :: "string \<Rightarrow> string list \<Rightarrow> string list" where
  "log_append l ls = (let ls = ls @ [l] in if length ls > LOG_KEEP then tl ls else ls)"

function drain :: "string \<Rightarrow> string list \<Rightarrow> string \<times> string list" where
  "drain s ls =
     (if NEWL \<in> set s
      then drain (tl (dropWhile (\<lambda>c. c \<noteq> NEWL) s)) (log_append (takeWhile (\<lambda>c. c \<noteq> NEWL) s) ls)
      else (s, ls))"
  by pat_completeness auto
termination
proof (relation "measure (length \<circ> fst)", simp, goal_cases)
  case (1 s ls)
  then have "0 < length s" by auto
  then have "length (dropWhile (\<lambda>c. c \<noteq> NEWL) s) - 1 < length s"
    using length_dropWhile_le [of "\<lambda>c. c \<noteq> NEWL" s] by linarith
  with 1 show ?case by simp
qed

declare drain.simps [simp del]

text \<open>One chunk from the pipe. It is added as a C string, up to its first zero byte.\<close>

definition tee_chunk :: "string \<Rightarrow> log_buffer \<Rightarrow> log_buffer" where
  "tee_chunk chunk b =
     (let p = log_partial b @ takeWhile (\<lambda>c. c \<noteq> CHR 0x00) chunk;
          (p, ls) = (if length p > MAX_PARTIAL then ([], log_append (p @ TRUNCATED) (log_lines b)) else (p, log_lines b));
          (p, ls) = drain p ls
      in \<lparr>log_partial = p, log_lines = ls\<rparr>)"

section \<open>The keys of the console\<close>

datatype ConsolePrompt = PROMPT_NONE | PROMPT_SHUTDOWN | PROMPT_REBOOT | PROMPT_DEBUG | PROMPT_PASSWD

text \<open>\<open>shown\<close> is what has been written to the screen, \<open>setups\<close> the bodies sent to the local server.\<close>

record console =
  console_prompt :: ConsolePrompt
  shutdown_requested :: bool
  reboot_requested :: bool
  passwd_entry_active :: bool
  shown :: string
  setups :: "string list"

definition quiet_console :: console where
  "quiet_console = \<lparr>console_prompt = PROMPT_NONE, shutdown_requested = False, reboot_requested = False,
     passwd_entry_active = False, shown = [], setups = []\<rparr>"

definition ESC :: char where "ESC = CHR 0x1B"
definition CRLF :: string where "CRLF = [CHR 0x0D, CHR 0x0A]"
definition is_return :: "char \<Rightarrow> bool" where "is_return c \<longleftrightarrow> c = CHR 0x0A \<or> c = CHR 0x0D"
definition is_backspace :: "char \<Rightarrow> bool" where "is_backspace c \<longleftrightarrow> c = CHR 0x7F \<or> c = CHR 0x08"
definition is_typed :: "char \<Rightarrow> bool" where "is_typed c \<longleftrightarrow> (32 :: nat) \<le> of_char c \<and> (of_char c :: nat) < 127"

text \<open>A password: what was typed, \<open>None\<close> while the entry goes on, the keys that are left and what
  was echoed.\<close>

fun read_password :: "string \<Rightarrow> string \<Rightarrow> string option \<times> string \<times> string" where
  "read_password pw [] = (None, [], [])"
| "read_password pw (ch # keys) =
     (if is_return ch then (Some pw, keys, CRLF)
      else if is_backspace ch then
        (if pw \<noteq> [] then (case read_password (butlast pw) keys of (r, ks, e) \<Rightarrow> (r, ks, [CHR 0x08, CHR '' '', CHR 0x08] @ e))
         else read_password pw keys)
      else if ch = ESC then (Some [], keys, '' [cancelled]'' @ CRLF)
      else if is_typed ch then (case read_password (pw @ [ch]) keys of (r, ks, e) \<Rightarrow> (r, ks, ''*'' @ e))
      else read_password pw keys)"

definition console_read_password :: "string \<Rightarrow> string \<Rightarrow> console \<Rightarrow> string option \<times> string \<times> console" where
  "console_read_password prompt keys c =
     (case read_password [] keys of (r, ks, e) \<Rightarrow> (r, ks, c\<lparr>shown := shown c @ prompt @ e\<rparr>))"

definition say_console :: "string \<Rightarrow> console \<Rightarrow> console" where
  "say_console s c = c\<lparr>shown := shown c @ s\<rparr>"

definition setup_body :: "string \<Rightarrow> string" where
  "setup_body pw = ''{'' @ [QT] @ ''password'' @ [QT] @ '':'' @ [QT] @ pw @ [QT] @ ''}''"

definition setup_done :: "string \<Rightarrow> bool" where
  "setup_done resp \<longleftrightarrow> mentions_text resp ([QT] @ ''success'' @ [QT]) \<or> mentions_text resp ''true''"

definition SETUP_HEADER :: string where
  "SETUP_HEADER = CRLF @ [ESC] @ ''[1m=== Llamaste Password Setup ==='' @ [ESC] @ ''[0m'' @ CRLF
     @ ''(Keyboard not working in browser? Set password here)'' @ CRLF @ CRLF"

text \<open>The dialogue; \<open>post\<close> is the answer of the local server to a body. Its result are the keys left.\<close>

definition passwd_setup :: "(string \<Rightarrow> string) \<Rightarrow> string \<Rightarrow> console \<Rightarrow> string \<times> console" where
  "passwd_setup post keys c =
     (let c = say_console SETUP_HEADER (c\<lparr>passwd_entry_active := True\<rparr>)
      in case console_read_password ''New password (min 4 chars): '' keys c of
           (None, ks, c) \<Rightarrow> (ks, c)
         | (Some pw, ks, c) \<Rightarrow>
             if pw = [] then (ks, c\<lparr>passwd_entry_active := False\<rparr>)
             else if length pw < 4 then
               (ks, (say_console (''Password too short (min 4).'' @ CRLF) c)\<lparr>passwd_entry_active := False\<rparr>)
             else (case console_read_password ''Confirm password:           '' ks c of
                     (None, ks, c) \<Rightarrow> (ks, c)
                   | (Some pw2, ks, c) \<Rightarrow>
                       if pw \<noteq> pw2 then
                         (ks, (say_console (''Passwords don'' @ [CHR 0x27] @ ''t match. Try again (press P).'' @ CRLF) c)
                                \<lparr>passwd_entry_active := False\<rparr>)
                       else let c = say_console ''Setting password... '' (c\<lparr>setups := setups c @ [setup_body pw]\<rparr>);
                                resp = post (setup_body pw);
                                c = say_console (if setup_done resp
                                      then ''OK!'' @ CRLF @ ''Password set. Refresh the browser or press Enter in the web UI.'' @ CRLF
                                      else ''Response: '' @ take 120 resp @ CRLF) c
                            in (ks, c\<lparr>passwd_entry_active := False, console_prompt := PROMPT_NONE\<rparr>)))"

text \<open>One key and what the password dialogue reads after it.\<close>

definition console_key :: "(string \<Rightarrow> string) \<Rightarrow> char \<Rightarrow> string \<Rightarrow> console \<Rightarrow> string \<times> console" where
  "console_key post ch keys c =
     (case console_prompt c of
        PROMPT_NONE \<Rightarrow>
          if ch = CHR ''S'' \<or> ch = CHR ''s'' then (keys, c\<lparr>console_prompt := PROMPT_SHUTDOWN\<rparr>)
          else if ch = CHR ''R'' \<or> ch = CHR ''r'' then (keys, c\<lparr>console_prompt := PROMPT_REBOOT\<rparr>)
          else if ch = CHR ''D'' \<or> ch = CHR ''d'' then (keys, c\<lparr>console_prompt := PROMPT_DEBUG\<rparr>)
          else if ch = CHR ''P'' \<or> ch = CHR ''p'' then passwd_setup post keys (c\<lparr>console_prompt := PROMPT_PASSWD\<rparr>)
          else (keys, c)
      | PROMPT_DEBUG \<Rightarrow> (keys, c\<lparr>console_prompt := PROMPT_NONE\<rparr>)
      | _ \<Rightarrow>
          if ch = CHR ''Y'' \<or> ch = CHR ''y'' then
            (keys, c\<lparr>reboot_requested := (reboot_requested c \<or> console_prompt c = PROMPT_REBOOT), shutdown_requested := True\<rparr>)
          else (keys, c\<lparr>console_prompt := PROMPT_NONE\<rparr>))"

lemma read_password_rest: "read_password pw keys = (r, ks, e) \<Longrightarrow> length ks \<le> length keys"
  by (induction pw keys arbitrary: r ks e rule: read_password.induct) (auto split: if_splits prod.splits intro: le_SucI)

lemma passwd_setup_rest: "length (fst (passwd_setup post keys c)) \<le> length keys"
  by (auto simp: passwd_setup_def console_read_password_def Let_def split: prod.splits option.splits
      dest!: read_password_rest)

lemma console_key_rest: "length (fst (console_key post ch keys c)) \<le> length keys"
  by (simp add: console_key_def passwd_setup_rest split: ConsolePrompt.split)

lemma console_key_left: "(ks', c') = console_key post ch ks c \<Longrightarrow> length ks' \<le> length ks"
  using console_key_rest [of post ch ks c] by (metis fst_conv)

text \<open>The loop over the keys that arrive, until a shutdown is requested.\<close>

function console_keys :: "(string \<Rightarrow> string) \<Rightarrow> string \<Rightarrow> console \<Rightarrow> console" where
  "console_keys post keys c =
     (if shutdown_requested c then c
      else case keys of [] \<Rightarrow> c | ch # ks \<Rightarrow> (case console_key post ch ks c of (ks', c') \<Rightarrow> console_keys post ks' c'))"
  by pat_completeness auto
termination
proof (relation "measure (\<lambda>(post, keys, c). length keys)", goal_cases)
  case (2 post keys c)
  from console_key_left [OF 2(3)] 2(2) show ?case by (simp add: less_Suc_eq_le)
qed simp

declare console_keys.simps [simp del]

section \<open>The wireless network at the first boot\<close>

record WifiEntry =
  e_ssid :: string
  e_flags :: string
  signal_db :: int

text \<open>The parser of \<^verbatim>\<open>iw\<close>: the fields of the network being read and the networks so far.\<close>

record scan_state =
  s_ssid :: string
  s_signal :: int
  s_privacy :: bool
  s_is_eap :: bool
  s_in_bss :: bool
  s_nets :: "WifiEntry list"

definition scan_start :: scan_state where
  "scan_start = \<lparr>s_ssid = [], s_signal = - 100, s_privacy = False, s_is_eap = False, s_in_bss = False, s_nets = []\<rparr>"

definition flush_entry :: "scan_state \<Rightarrow> scan_state" where
  "flush_entry s =
     (if \<not> s_in_bss s \<or> s_ssid s = [] then s
      else let flags = (if \<not> s_privacy s then ''[Open]'' else if s_is_eap s then ''[WPA-EAP]'' else ''[WPA-PSK]'');
               same = (\<lambda>e. e_ssid e = s_ssid s);
               better = (\<lambda>e. if s_signal s > signal_db e then e\<lparr>signal_db := s_signal s, e_flags := flags\<rparr> else e)
           in s\<lparr>s_nets :=
                (if list_ex same (s_nets s) then upd_first same better (s_nets s)
                 else s_nets s @ [\<lparr>e_ssid = s_ssid s, e_flags = flags, signal_db = s_signal s\<rparr>])\<rparr>)"

definition scan_field :: "string \<Rightarrow> string \<Rightarrow> scan_state \<Rightarrow> scan_state" where
  "scan_field l t s =
     (if length l > 6 \<and> take 6 l = ''SSID: '' then
        s\<lparr>s_ssid := rev (dropWhile (\<lambda>c. c = CHR '' '' \<or> c = CHR 0x0D) (rev (drop 6 l)))\<rparr>
      else if length l > 8 \<and> take 8 l = ''signal: '' then s\<lparr>s_signal := atoi (drop 8 t)\<rparr>
      else if length l > 12 \<and> take 12 l = ''capability: '' then
        (if mentions_text (drop 12 l) ''Privacy'' then s\<lparr>s_privacy := True\<rparr> else s)
      else if take 4 l = ''RSN:'' \<or> take 4 l = ''WPA:'' then s\<lparr>s_privacy := True\<rparr>
      else if mentions_text l ''Authentication suites:'' \<and> (mentions_text l ''802.1X'' \<or> mentions_text l ''EAP'')
        then s\<lparr>s_is_eap := True\<rparr>
      else s)"

definition scan_line :: "string \<Rightarrow> string \<Rightarrow> scan_state \<Rightarrow> scan_state" where
  "scan_line l t s =
     (if take 4 l = ''BSS '' then
        (flush_entry s)\<lparr>s_in_bss := True, s_ssid := [], s_signal := - 100, s_privacy := False, s_is_eap := False\<rparr>
      else if \<not> s_in_bss s then s
      else let blanks = length (takeWhile (\<lambda>c. c = CHR '' '' \<or> c = TAB) l)
           in if drop blanks l = [] then s else scan_field (drop blanks l) (drop blanks t) s)"

function scan_lines :: "string \<Rightarrow> scan_state \<Rightarrow> scan_state" where
  "scan_lines t s =
     (if t = [] then s
      else let l = takeWhile (\<lambda>c. c \<noteq> NEWL) t in scan_lines (drop (length l + 1) t) (scan_line l t s))"
  by pat_completeness auto
termination
  by (relation "measure (length \<circ> fst)") auto

declare scan_lines.simps [simp del]

definition parse_scan :: "string \<Rightarrow> WifiEntry list" where
  "parse_scan raw =
     sort_key (\<lambda>e. - signal_db e) (s_nets (flush_entry (scan_lines (takeWhile (\<lambda>c. c \<noteq> CHR 0x00) raw) scan_start)))"

text \<open>At most five attempts; the output of the last one is parsed.\<close>

fun scan_attempts :: "(nat \<Rightarrow> string) \<Rightarrow> nat list \<Rightarrow> string \<Rightarrow> string" where
  "scan_attempts out [] raw = raw"
| "scan_attempts out (a # as) raw = (if has_bss (out a) then out a else scan_attempts out as (out a))"

definition supervisor_scan_wifi :: "(nat \<Rightarrow> string) \<Rightarrow> WifiEntry list" where
  "supervisor_scan_wifi out = parse_scan (scan_attempts out [1, 2, 3, 4, 5] [])"

text \<open>A line from the keys: \<open>c\<close> 3 and 4 are control C and D.\<close>

fun read_line :: "nat \<Rightarrow> string \<Rightarrow> string \<Rightarrow> string" where
  "read_line max_len s [] = s"
| "read_line max_len s (c # keys) =
     (if is_return c then s
      else if c = CHR 0x03 \<or> c = CHR 0x04 then []
      else if is_backspace c \<and> s \<noteq> [] then read_line max_len (butlast s) keys
      else if is_typed c \<and> length s < max_len then read_line max_len (s @ [c]) keys
      else read_line max_len s keys)"

text \<open>What the user does: the key for the list, \<open>None\<close> when the time passes, and the keys of the two
  lines, for the name \<open>None\<close> when nothing is typed in time.\<close>

record wifi_keys =
  pick_key :: "char option"
  ssid_keys :: "string option"
  psk_keys :: string

definition typed_ssid :: "wifi_keys \<Rightarrow> string" where
  "typed_ssid k = (case ssid_keys k of None \<Rightarrow> [] | Some ks \<Rightarrow> read_line 63 [] ks)"

text \<open>The chosen name and whether the network is open, \<open>None\<close> when the setup is skipped.\<close>

definition pick_network :: "WifiEntry list \<Rightarrow> wifi_keys \<Rightarrow> (string \<times> bool) option" where
  "pick_network nets k =
     (if nets = [] then Some (typed_ssid k, False)
      else case pick_key k of
             None \<Rightarrow> None
           | Some c \<Rightarrow>
               let n_show = min 9 (length nets); i = of_char c
               in if (49 :: nat) \<le> i \<and> i \<le> 48 + n_show then
                    let chosen = nets ! (i - 49)
                    in if e_ssid chosen = [] then Some (typed_ssid k, e_flags chosen = ''[Open]'')
                       else Some (e_ssid chosen, e_flags chosen = ''[Open]'')
                  else Some (typed_ssid k, False))"

definition wpa_escape :: "string \<Rightarrow> string" where
  "wpa_escape s =
     concat (map (\<lambda>c. if of_char c < (0x20 :: nat) then [] else if c = BS \<or> c = QT then [BS, c] else [c]) s)"

definition wpa_conf_lines :: "string \<Rightarrow> bool \<Rightarrow> string \<Rightarrow> string list" where
  "wpa_conf_lines ssid is_open psk =
     [''ctrl_interface=/run/wpa_supplicant'', ''ctrl_interface_group=0'', ''update_config=1'', ''country=US'', [],
      ''network={'', ''    ssid='' @ [QT] @ wpa_escape ssid @ [QT]]
     @ (if is_open \<or> psk = [] then [''    key_mgmt=NONE'']
        else [''    psk='' @ [QT] @ wpa_escape psk @ [QT], ''    key_mgmt=WPA-PSK''])
     @ [''}'']"

definition wpa_conf :: "string \<Rightarrow> bool \<Rightarrow> string \<Rightarrow> string" where
  "wpa_conf ssid is_open psk = concat (map (\<lambda>l. l @ [NEWL]) (wpa_conf_lines ssid is_open psk))"

text \<open>The configuration that is written, \<open>None\<close> when the setup is skipped.\<close>

definition console_wifi_setup :: "WifiEntry list \<Rightarrow> wifi_keys \<Rightarrow> string option" where
  "console_wifi_setup nets k =
     (case pick_network nets k of
        None \<Rightarrow> None
      | Some (ssid, is_open) \<Rightarrow>
          if ssid = [] then None
          else let psk = (if is_open then [] else read_line 63 [] (psk_keys k))
               in Some (wpa_conf ssid (is_open \<or> psk = []) psk))"

text \<open>The names in \<^verbatim>\<open>/sys/class/net\<close> with their type, \<open>None\<close> without one, and whether they are wireless.\<close>

definition detect_wifi_iface :: "(string \<times> bool) list \<Rightarrow> string" where
  "detect_wifi_iface es =
     (case find (\<lambda>(n, w). take 1 n \<noteq> ''.'' \<and> w) es of None \<Rightarrow> [] | Some (n, _) \<Rightarrow> n)"

definition TUNNELS :: "string list" where
  "TUNNELS = [''sit0'', ''tunl0'', ''ip6tnl0'', ''gre0'', ''ip_vti0'', ''ip6_vti0'']"

text \<open>The interfaces that are brought up and given to \<^verbatim>\<open>dhcpcd\<close>.\<close>

definition preflight_ethernet :: "(string \<times> int option \<times> bool) list \<Rightarrow> string list" where
  "preflight_ethernet es =
     map fst (filter (\<lambda>(n, ty, wireless). take 1 n \<noteq> ''.'' \<and> n \<noteq> ''lo'' \<and> n \<notin> set TUNNELS
       \<and> (case ty of None \<Rightarrow> True | Some i \<Rightarrow> i = 1) \<and> \<not> wireless) es)"

text \<open>A line of the saved configuration opens a network; lines are read in pieces of 255 bytes.\<close>

function fgets_pieces :: "string \<Rightarrow> string list" where
  "fgets_pieces s =
     (if s = [] then []
      else let l = takeWhile (\<lambda>c. c \<noteq> NEWL) s; n = (if length l < 255 then length l + 1 else 255)
           in take n s # fgets_pieces (drop n s))"
  by pat_completeness auto
termination
  by (relation "measure length") (auto split: if_splits)

declare fgets_pieces.simps [simp del]

definition wifi_has_saved_networks :: "string option \<Rightarrow> bool" where
  "wifi_has_saved_networks conf =
     (case conf of
        None \<Rightarrow> False
      | Some s \<Rightarrow> list_ex (\<lambda>p. mentions_text (takeWhile (\<lambda>c. c \<noteq> CHR 0x00) p) ''network={'') (fgets_pieces s))"

text \<open>The pass before the first start: the tries to find an interface, the saved configuration, the
  scan and the keys give the configuration that is written.\<close>

definition preflight_wifi ::
  "string \<Rightarrow> (string \<times> bool) list list \<Rightarrow> string option \<Rightarrow> (nat \<Rightarrow> string) \<Rightarrow> wifi_keys \<Rightarrow> string option" where
  "preflight_wifi boot_mode tries conf out k =
     (if boot_mode = ''desktop'' then None
      else case find (\<lambda>n. n \<noteq> []) (map detect_wifi_iface (take 6 tries)) of
             None \<Rightarrow> None
           | Some _ \<Rightarrow>
               if wifi_has_saved_networks conf then None else console_wifi_setup (supervisor_scan_wifi out) k)"

section \<open>Restarts\<close>

text \<open>The inference process has exited at time \<open>now\<close>: the seconds before it is started again.\<close>

record restart_state =
  crash_count :: nat
  last_crash :: int

definition after_exit :: "int \<Rightarrow> restart_state \<Rightarrow> nat \<times> restart_state" where
  "after_exit now s =
     (let s = s\<lparr>crash_count := (if now - last_crash s < 60 then crash_count s + 1 else 1), last_crash := now\<rparr>
      in if crash_count s > 3 then (30, s\<lparr>crash_count := 0\<rparr>) else (2, s))"

text \<open>The daemons that are children of PID 1. A call to start one forks, with the number of the new
  process or - 1, and bluetoothd is started only when the socket of the bus is there. \<open>starts\<close> are the
  calls to start a daemon again, with their time, the latest first, \<open>termed\<close> the processes that got a
  SIGTERM.\<close>

datatype daemon_kind = DBus | Bluetooth

record daemon_state =
  dbus_pid :: int
  bluetoothd_pid :: int
  dbus_restarts :: nat
  dbus_restart_window :: int
  bt_restarts :: nat
  bt_restart_window :: int
  starts :: "(daemon_kind \<times> int) list"
  termed :: "int list"

record daemon_env =
  dbus_fork :: int
  bt_fork :: int
  bus_socket :: bool

definition boot_daemons :: "int \<Rightarrow> int \<Rightarrow> daemon_state" where
  "boot_daemons dbus bt = \<lparr>dbus_pid = dbus, bluetoothd_pid = bt, dbus_restarts = 0, dbus_restart_window = 0,
     bt_restarts = 0, bt_restart_window = 0, starts = [], termed = []\<rparr>"

definition start_dbus :: "daemon_env \<Rightarrow> int \<Rightarrow> daemon_state \<Rightarrow> daemon_state" where
  "start_dbus e now s =
     s\<lparr>starts := (DBus, now) # starts s, dbus_pid := (if dbus_fork e > 0 then dbus_fork e else dbus_pid s)\<rparr>"

definition start_bluetoothd :: "daemon_env \<Rightarrow> int \<Rightarrow> daemon_state \<Rightarrow> daemon_state" where
  "start_bluetoothd e now s =
     s\<lparr>starts := (Bluetooth, now) # starts s,
       bluetoothd_pid := (if bus_socket e \<and> bt_fork e > 0 then bt_fork e else bluetoothd_pid s)\<rparr>"

text \<open>A child other than the inference process has exited.\<close>

definition daemon_exit :: "daemon_env \<Rightarrow> int \<Rightarrow> int \<Rightarrow> daemon_state \<Rightarrow> daemon_state" where
  "daemon_exit e now pid s =
     (if pid = dbus_pid s then
        let s = (if now - dbus_restart_window s > 300 then s\<lparr>dbus_restarts := 0, dbus_restart_window := now\<rparr> else s)
        in if dbus_restarts s < 3
           then let s = start_dbus e now s;
                    s = s\<lparr>dbus_restarts := dbus_restarts s + 1\<rparr>;
                    s = (if bluetoothd_pid s > 0 then s\<lparr>termed := termed s @ [bluetoothd_pid s]\<rparr> else s)
                in start_bluetoothd e now s
           else s
      else if pid = bluetoothd_pid s then
        let s = (if now - bt_restart_window s > 300 then s\<lparr>bt_restarts := 0, bt_restart_window := now\<rparr> else s)
        in if bt_restarts s < 3
           then let s = start_bluetoothd e now s in s\<lparr>bt_restarts := bt_restarts s + 1\<rparr>
           else s
      else s)"

section \<open>Waiting for the inference process\<close>

text \<open>The main thread between two looks at the flag, the handler of SIGCHLD, which any thread but the
  kicker may run, and the kernel. \<open>others\<close> counts the other children that run, \<open>zombies\<close> those that
  have exited and that no one has waited for.\<close>

datatype child_phase = Running | Zombie | Reaped
datatype main_phase = Looking | Blocked | Left

record wait_state =
  child :: child_phase
  main :: main_phase
  child_exited :: bool
  others :: nat
  zombies :: nat

inductive wait_step :: "wait_state \<Rightarrow> wait_state \<Rightarrow> bool" where
  child_exits: "child s = Running \<Longrightarrow> wait_step s (s\<lparr>child := Zombie\<rparr>)"
| other_exits: "others s = Suc n \<Longrightarrow> wait_step s (s\<lparr>others := n, zombies := zombies s + 1\<rparr>)"
| handler_reaps: "child s = Zombie \<Longrightarrow> wait_step s (s\<lparr>child := Reaped, child_exited := True\<rparr>)"
| look_leaves: "main s = Looking \<Longrightarrow> child_exited s \<Longrightarrow> wait_step s (s\<lparr>main := Left\<rparr>)"
| look_waits: "main s = Looking \<Longrightarrow> \<not> child_exited s \<Longrightarrow> wait_step s (s\<lparr>main := Blocked\<rparr>)"
| wait_child: "main s = Blocked \<Longrightarrow> child s = Zombie \<Longrightarrow>
    wait_step s (s\<lparr>main := Left, child := Reaped, child_exited := True\<rparr>)"
| wait_other: "main s = Blocked \<Longrightarrow> zombies s = Suc n \<Longrightarrow> k \<in> {0, 1, 2} \<Longrightarrow>
    wait_step s (s\<lparr>main := Looking, zombies := n, others := others s + k\<rparr>)"
| wait_none: "main s = Blocked \<Longrightarrow> child s = Reaped \<Longrightarrow> others s = 0 \<Longrightarrow> zombies s = 0 \<Longrightarrow>
    wait_step s (s\<lparr>main := Left\<rparr>)"

definition wait_start :: "nat \<Rightarrow> wait_state" where
  "wait_start n = \<lparr>child = Running, main = Looking, child_exited = False, others = n, zombies = 0\<rparr>"

end
