(* ===== verification/SupervisorFacts.thy ===== *)
theory SupervisorFacts
  imports Supervisor WifiFacts "HOL-Library.Sublist"
begin

text \<open>
  The lemmas and properties of the supervisor: what the keys of the console can do, the log buffer,
  the configuration written at the first boot, the CPU load, the pace of restarts, and the wait for
  the inference process with the races between the handler of SIGCHLD and the main thread.
\<close>

section \<open>The keys of the console\<close>

named_theorems console_simps \<open>what a part of the password dialogue leaves of the console\<close>

lemma read_password_suffix: "read_password pw keys = (r, ks, e) \<Longrightarrow> suffix ks keys"
  by (induction pw keys arbitrary: r ks e rule: read_password.induct)
    (auto split: if_splits prod.splits intro: suffix_ConsI)

lemma console_read_fields [console_simps]:
  "console_read_password prompt keys c = (r, ks, c') \<Longrightarrow>
     console_prompt c' = console_prompt c \<and> shutdown_requested c' = shutdown_requested c
     \<and> reboot_requested c' = reboot_requested c \<and> suffix ks keys"
  by (auto simp: console_read_password_def dest: read_password_suffix split: prod.splits)

lemma passwd_setup_fields:
  "passwd_setup post keys c = (ks, c') \<Longrightarrow>
     shutdown_requested c' = shutdown_requested c \<and> reboot_requested c' = reboot_requested c \<and> suffix ks keys
     \<and> (console_prompt c' = console_prompt c \<or> console_prompt c' = PROMPT_NONE)"
  by (auto simp: passwd_setup_def say_console_def Let_def split: prod.splits option.splits if_splits
      dest!: console_read_fields intro: suffix_order.trans)

text \<open>A key of a set and a confirmation in a row.\<close>

definition is_yes :: "char \<Rightarrow> bool" where "is_yes c \<longleftrightarrow> c = CHR ''Y'' \<or> c = CHR ''y''"
definition is_reboot :: "char \<Rightarrow> bool" where "is_reboot c \<longleftrightarrow> c = CHR ''R'' \<or> c = CHR ''r''"

definition confirmed_in :: "string \<Rightarrow> bool" where
  "confirmed_in keys \<longleftrightarrow> (\<exists>a r y b. keys = a @ [r, y] @ b \<and> is_reboot r \<and> is_yes y)"

lemma confirmed_suffix: "confirmed_in t \<Longrightarrow> suffix t keys \<Longrightarrow> confirmed_in keys"
proof -
  assume "confirmed_in t" "suffix t keys"
  then obtain a r y b z where "t = a @ [r, y] @ b" "is_reboot r" "is_yes y" "keys = z @ t"
    unfolding confirmed_in_def suffix_def by blast
  then have "keys = (z @ a) @ [r, y] @ b \<and> is_reboot r \<and> is_yes y" by simp
  then show "confirmed_in keys" unfolding confirmed_in_def by blast
qed

lemma confirmed_first: "is_reboot r \<Longrightarrow> is_yes y \<Longrightarrow> confirmed_in (r # y # b)"
  unfolding confirmed_in_def by (metis append_Cons append_Nil)

definition begins_confirm :: "string \<Rightarrow> bool" where
  "begins_confirm keys \<longleftrightarrow> (case keys of y # _ \<Rightarrow> is_yes y | [] \<Rightarrow> False)"

lemma console_keys_stop [simp]: "shutdown_requested c \<Longrightarrow> console_keys post keys c = c"
  by (subst console_keys.simps) simp

lemma console_keys_Nil [simp]: "console_keys post [] c = c"
  by (subst console_keys.simps) simp

lemma console_keys_Cons:
  "\<not> shutdown_requested c \<Longrightarrow>
     console_keys post (k # ks) c = (case console_key post k ks c of (ks', c') \<Rightarrow> console_keys post ks' c')"
  by (subst console_keys.simps) simp

lemma key_suffix: "console_key post k ks c = (ks', c') \<Longrightarrow> suffix ks' ks"
  by (auto simp: console_key_def split: ConsolePrompt.splits if_splits dest: passwd_setup_fields)

lemma setup_keeps:
  "shutdown_requested (snd (passwd_setup post ks c)) = shutdown_requested c"
  "reboot_requested (snd (passwd_setup post ks c)) = reboot_requested c"
  "console_prompt c \<noteq> PROMPT_REBOOT \<Longrightarrow> console_prompt (snd (passwd_setup post ks c)) \<noteq> PROMPT_REBOOT"
  using passwd_setup_fields [of post ks c] by (metis prod.collapse ConsolePrompt.distinct(3))+

lemma key_reboots_aux:
  "reboot_requested (snd (console_key post k ks c)) \<Longrightarrow> \<not> reboot_requested c \<Longrightarrow>
     console_prompt c = PROMPT_REBOOT \<and> is_yes k"
  unfolding console_key_def is_yes_def
  by (cases "console_prompt c"; simp add: setup_keeps split: if_splits)

lemma key_asks_reboot_aux:
  "console_prompt (snd (console_key post k ks c)) = PROMPT_REBOOT \<Longrightarrow> \<not> shutdown_requested (snd (console_key post k ks c)) \<Longrightarrow>
     is_reboot k \<and> fst (console_key post k ks c) = ks"
  unfolding console_key_def is_reboot_def
  by (cases "console_prompt c"; simp add: setup_keeps split: if_splits)

lemma key_reboots:
  "console_key post k ks c = (ks', c') \<Longrightarrow> reboot_requested c' \<Longrightarrow> \<not> reboot_requested c \<Longrightarrow>
     console_prompt c = PROMPT_REBOOT \<and> is_yes k"
  using key_reboots_aux [of post k ks c] by simp

lemma key_asks_reboot:
  "console_key post k ks c = (ks', c') \<Longrightarrow> console_prompt c' = PROMPT_REBOOT \<Longrightarrow> \<not> shutdown_requested c' \<Longrightarrow>
     is_reboot k \<and> ks' = ks"
  using key_asks_reboot_aux [of post k ks c] by simp

lemma reboot_keys:
  "reboot_requested (console_keys post keys c) \<Longrightarrow> \<not> shutdown_requested c \<Longrightarrow> \<not> reboot_requested c \<Longrightarrow>
     confirmed_in keys \<or> console_prompt c = PROMPT_REBOOT \<and> begins_confirm keys"
proof (induction post keys c rule: console_keys.induct)
  case (1 post keys c)
  show ?case
  proof (cases keys)
    case Nil
    with 1(2-) show ?thesis by simp
  next
    case (Cons k ks)
    obtain ks' c' where e: "console_key post k ks c = (ks', c')" by force
    have r: "reboot_requested (console_keys post ks' c')"
      using 1(2-3) Cons e by (simp add: console_keys_Cons)
    show ?thesis
    proof (cases "reboot_requested c'")
      case True
      then show ?thesis using key_reboots [OF e _ 1(4)] by (simp add: begins_confirm_def Cons)
    next
      case False
      have sh: "\<not> shutdown_requested c'" using r False by auto
      have "confirmed_in ks' \<or> console_prompt c' = PROMPT_REBOOT \<and> begins_confirm ks'"
        using 1(1) [OF 1(3) Cons e [symmetric]] r sh False by blast
      then show ?thesis
      proof
        assume "confirmed_in ks'"
        then show ?thesis using confirmed_suffix key_suffix [OF e] by (auto simp: Cons intro: suffix_ConsI)
      next
        assume b: "console_prompt c' = PROMPT_REBOOT \<and> begins_confirm ks'"
        then have "is_reboot k \<and> ks' = ks" using key_asks_reboot [OF e] sh by blast
        with b show ?thesis by (auto simp: Cons begins_confirm_def confirmed_first split: list.splits)
      qed
    qed
  qed
qed

text \<open>
  C21: whatever is typed at the console and whatever the local server answers, the machine is
  rebooted only when somewhere a reboot key was followed directly by a confirmation.
\<close>

theorem reboot_is_confirmed:
  "if reboot_requested (console_keys post keys quiet_console)
   then \<exists>a r y b. keys = a @ [r, y] @ b \<and> is_reboot r \<and> is_yes y
   else True"
  using reboot_keys [of post keys quiet_console] by (auto simp: quiet_console_def confirmed_in_def)

lemma typed_chars [simp]: "\<not> is_typed ESC" "is_typed c \<Longrightarrow> \<not> is_return c" "is_typed c \<Longrightarrow> \<not> is_backspace c"
    "is_typed c \<Longrightarrow> c \<noteq> ESC"
  by (auto simp: is_typed_def ESC_def is_return_def is_backspace_def)

lemma esc_chars [simp]: "\<not> is_return ESC" "\<not> is_backspace ESC"
  by (auto simp: ESC_def is_return_def is_backspace_def)

lemma read_cancelled:
  "list_all is_typed w \<Longrightarrow> read_password pw (w @ ESC # ks) = (Some [], ks, replicate (length w) CHR ''*'' @ '' [cancelled]'' @ CRLF)"
  by (induction w arbitrary: pw) auto

text \<open>
  when the entry of a password is cancelled, the console is left in the state of a confirmation:
  the next key Y shuts the machine down, although no shutdown was asked for.
\<close>

theorem cancelled_password_powers_off:
  assumes "list_all is_typed w" "is_yes y"
  shows "shutdown_requested (console_keys post (CHR ''P'' # w @ [ESC, y] @ ks) quiet_console)"
proof -
  let ?c = "quiet_console\<lparr>console_prompt := PROMPT_PASSWD\<rparr>"
  obtain c' where k: "console_key post (CHR ''P'') (w @ [ESC, y] @ ks) quiet_console = (y # ks, c')"
      "console_prompt c' = PROMPT_PASSWD" "\<not> shutdown_requested c'"
    using assms(1)
    by (auto simp: console_key_def quiet_console_def passwd_setup_def console_read_password_def say_console_def read_cancelled)
  have "console_keys post (CHR ''P'' # w @ [ESC, y] @ ks) quiet_console = console_keys post (y # ks) c'"
    using k(1) by (subst console_keys_Cons) (auto simp: quiet_console_def)
  with k(2, 3) assms(2) show ?thesis by (auto simp: console_keys_Cons console_key_def is_yes_def)
qed

theorem cancelled_password_powers_off_witness:
  "shutdown_requested (console_keys (\<lambda>_. []) (CHR ''P'' # ''abc'' @ [ESC, CHR ''y''] @ []) quiet_console)"
  by (rule cancelled_password_powers_off) (simp_all add: is_typed_def is_yes_def)

section \<open>The configuration of the first boot\<close>

lemma wpa_escape_psk: "wpa_escape = psk_escape"
  by (rule ext) (simp add: wpa_escape_def psk_escape_def)

lemma conf_lines_printable: "list_all (list_all printable) (wpa_conf_lines ssid is_open psk)"
  by (auto simp: wpa_conf_lines_def wpa_escape_psk psk_escape_printable) (simp_all add: printable_def QT_def)

lemma lines_back: "list_all (\<lambda>l. NEWL \<notin> set l) ls \<Longrightarrow> getlines NEWL [] (concat (map (\<lambda>l. l @ [NEWL]) ls)) = ls"
  by (induction ls) (simp_all add: getlines_line)

text \<open>
  the configuration written at the first boot has exactly its own lines, whatever the name and
  the password are: no character of them can start another line or end a quoted text early, and both
  are read back from their quotes with only control characters dropped.
\<close>

theorem first_boot_conf_injects_nothing:
  "getlines NEWL [] (wpa_conf ssid is_open psk) = wpa_conf_lines ssid is_open psk
    \<and> list_all (list_all printable) (wpa_conf_lines ssid is_open psk)
    \<and> wpa_conf_lines ssid is_open psk ! 6 = ''    ssid='' @ [QT] @ wpa_escape ssid @ [QT]
    \<and> read_quoted (wpa_escape ssid @ [QT]) = Some (filter printable ssid, [])
    \<and> read_quoted (wpa_escape psk @ [QT]) = Some (filter printable psk, [])"
proof -
  have "\<not> printable NEWL" by (simp add: printable_def NEWL_def)
  then have "list_all (\<lambda>l. NEWL \<notin> set l) (wpa_conf_lines ssid is_open psk)"
    using conf_lines_printable [of ssid is_open psk] by (auto simp: list_all_iff)
  then have "getlines NEWL [] (wpa_conf ssid is_open psk) = wpa_conf_lines ssid is_open psk"
    unfolding wpa_conf_def by (rule lines_back)
  moreover have "wpa_conf_lines ssid is_open psk ! 6 = ''    ssid='' @ [QT] @ wpa_escape ssid @ [QT]"
    by (simp add: wpa_conf_lines_def)
  ultimately show ?thesis by (simp add: conf_lines_printable wpa_escape_psk read_psk)
qed

section \<open>The log buffer\<close>

text \<open>The specification: the complete lines of a text and what follows the last of them.\<close>

fun whole_lines :: "string \<Rightarrow> string \<Rightarrow> string list \<times> string" where
  "whole_lines acc [] = ([], acc)"
| "whole_lines acc (c # s) =
     (if c = NEWL then (case whole_lines [] s of (ls, r) \<Rightarrow> (acc # ls, r)) else whole_lines (acc @ [c]) s)"

definition keep_last :: "nat \<Rightarrow> 'a list \<Rightarrow> 'a list" where
  "keep_last n xs = drop (length xs - n) xs"

lemma keep_last_length: "length (keep_last n xs) \<le> n"
  by (simp add: keep_last_def)

lemma log_append_keep: "log_append l (keep_last LOG_KEEP ls) = keep_last LOG_KEEP (ls @ [l])"
proof (cases "length ls < 60")
  case False
  then have "length ls - 59 = Suc (length ls - 60)" by simp
  with False show ?thesis
    by (simp add: log_append_def keep_last_def LOG_KEEP_def drop_Suc tl_drop)
qed (simp add: log_append_def keep_last_def LOG_KEEP_def)

lemma whole_lines_append:
  "whole_lines acc (s @ t) =
     (case whole_lines acc s of (ls, r) \<Rightarrow> case whole_lines r t of (ls', r') \<Rightarrow> (ls @ ls', r'))"
  by (induction acc s rule: whole_lines.induct) (auto split: prod.splits)

lemma whole_lines_plain: "NEWL \<notin> set s \<Longrightarrow> whole_lines acc s = ([], acc @ s)"
  by (induction s arbitrary: acc) auto

lemma drain_lines:
  "drain s (keep_last LOG_KEEP ls) =
     (snd (whole_lines [] s), keep_last LOG_KEEP (ls @ fst (whole_lines [] s)))"
proof (induction s "keep_last LOG_KEEP ls" arbitrary: ls rule: drain.induct)
  case (1 s)
  show ?case
  proof (cases "NEWL \<in> set s")
    case True
    let ?a = "takeWhile (\<lambda>c. c \<noteq> NEWL) s" and ?d = "dropWhile (\<lambda>c. c \<noteq> NEWL) s"
    have "?d \<noteq> []" using True by auto
    then have d: "?d = NEWL # tl ?d" using hd_dropWhile [of "\<lambda>c. c \<noteq> NEWL" s] by (cases ?d) auto
    have "s = ?a @ NEWL # tl ?d" using d takeWhile_dropWhile_id by metis
    moreover have "NEWL \<notin> set ?a" by (auto dest: set_takeWhileD)
    ultimately have w: "whole_lines [] s = (case whole_lines [] (tl ?d) of (xs, r) \<Rightarrow> (?a # xs, r))"
      using whole_lines_append [of "[]" ?a "NEWL # tl ?d"] by (simp add: whole_lines_plain)
    have "drain s (keep_last LOG_KEEP ls) = drain (tl ?d) (keep_last LOG_KEEP (ls @ [?a]))"
      using True by (subst drain.simps) (simp add: log_append_keep)
    also have "\<dots> = (snd (whole_lines [] (tl ?d)), keep_last LOG_KEEP ((ls @ [?a]) @ fst (whole_lines [] (tl ?d))))"
      by (rule 1) (simp_all add: True log_append_keep)
    finally show ?thesis using w by (simp add: case_prod_unfold)
  next
    case False
    then show ?thesis by (subst drain.simps) (simp add: whole_lines_plain)
  qed
qed

lemma whole_lines_rest: "NEWL \<notin> set acc \<Longrightarrow> NEWL \<notin> set (snd (whole_lines acc s))"
  by (induction acc s rule: whole_lines.induct) (auto split: prod.splits)

text \<open>Nowhere does a line grow beyond the limit less one chunk.\<close>

definition no_long_line :: "string \<Rightarrow> bool" where
  "no_long_line s \<longleftrightarrow> list_all (\<lambda>n. length (snd (whole_lines [] (take n s))) \<le> 65025) [0..<Suc (length s)]"

lemma no_long_lineD: "no_long_line (s @ t) \<Longrightarrow> length (snd (whole_lines [] s)) \<le> 65025"
proof -
  assume "no_long_line (s @ t)"
  moreover have "length s \<in> set [0..<Suc (length (s @ t))]" by simp
  ultimately have "length (snd (whole_lines [] (take (length s) (s @ t)))) \<le> 65025"
    unfolding no_long_line_def list_all_iff by blast
  then show ?thesis by simp
qed

definition empty_log :: log_buffer where "empty_log = \<lparr>log_partial = [], log_lines = []\<rparr>"

definition legal_chunk :: "string \<Rightarrow> bool" where
  "legal_chunk c \<longleftrightarrow> length c \<le> 511 \<and> CHR 0x00 \<notin> set c"

lemma tee_step:
  assumes "legal_chunk c" "NEWL \<notin> set r" "length r \<le> 65025"
  shows "tee_chunk c \<lparr>log_partial = r, log_lines = keep_last LOG_KEEP ls\<rparr> =
    \<lparr>log_partial = snd (whole_lines r c), log_lines = keep_last LOG_KEEP (ls @ fst (whole_lines r c))\<rparr>"
proof -
  have t: "takeWhile (\<lambda>c. c \<noteq> CHR 0x00) c = c" using assms(1) by (auto simp: legal_chunk_def)
  have "\<not> length (r @ c) > MAX_PARTIAL" using assms(1, 3) by (simp add: legal_chunk_def MAX_PARTIAL_def)
  moreover have "whole_lines [] (r @ c) = whole_lines r c"
    using whole_lines_append [of "[]" r c] assms(2) by (simp add: whole_lines_plain)
  ultimately show ?thesis
    using drain_lines [of "r @ c" ls] by (simp add: tee_chunk_def t Let_def)
qed

text \<open>
  however the output is cut into chunks, the log holds the last 60 complete lines of all of it, in
  order, and what follows the last of them, for output without zero bytes and without overlong lines.
\<close>

theorem log_keeps_last_lines:
  assumes "list_all legal_chunk chunks" "no_long_line (concat chunks)"
  shows "fold tee_chunk chunks empty_log =
    \<lparr>log_partial = snd (whole_lines [] (concat chunks)), log_lines = keep_last LOG_KEEP (fst (whole_lines [] (concat chunks)))\<rparr>"
  using assms
proof (induction chunks rule: rev_induct)
  case Nil
  show ?case by (simp add: empty_log_def keep_last_def)
next
  case (snoc c cs)
  let ?s = "concat cs"
  have n: "no_long_line (?s @ c)" using snoc.prems(2) by simp
  have "no_long_line ?s"
    unfolding no_long_line_def list_all_iff
  proof
    fix k
    assume "k \<in> set [0..<Suc (length ?s)]"
    then have "take k ?s @ (drop k ?s @ c) = ?s @ c" "k \<le> length ?s" by (auto simp flip: append_assoc)
    with n show "length (snd (whole_lines [] (take k ?s))) \<le> 65025" by (metis no_long_lineD)
  qed
  with snoc have IH: "fold tee_chunk cs empty_log =
      \<lparr>log_partial = snd (whole_lines [] ?s), log_lines = keep_last LOG_KEEP (fst (whole_lines [] ?s))\<rparr>" by simp
  have "tee_chunk c \<lparr>log_partial = snd (whole_lines [] ?s), log_lines = keep_last LOG_KEEP (fst (whole_lines [] ?s))\<rparr>
      = \<lparr>log_partial = snd (whole_lines (snd (whole_lines [] ?s)) c),
         log_lines = keep_last LOG_KEEP (fst (whole_lines [] ?s) @ fst (whole_lines (snd (whole_lines [] ?s)) c))\<rparr>"
    using snoc.prems(1) no_long_lineD [OF n] by (intro tee_step whole_lines_rest) simp_all
  then show ?case using whole_lines_append [of "[]" ?s c] by (simp add: IH case_prod_unfold)
qed

theorem log_keeps_last_lines_witness:
  "fold tee_chunk [''ab'', ''c'' @ [NEWL] @ ''d''] empty_log = \<lparr>log_partial = ''d'', log_lines = [''abc'']\<rparr>"
proof -
  let ?cs = "[''ab'', ''c'' @ [NEWL] @ ''d'']"
  have w: "whole_lines [] (concat ?cs) = ([''abc''], ''d'')" by (simp add: NEWL_def)
  have "list_all legal_chunk ?cs" by (simp add: legal_chunk_def NEWL_def)
  moreover have "no_long_line (concat ?cs)" by (simp add: no_long_line_def NEWL_def upt_rec)
  ultimately have "fold tee_chunk ?cs empty_log =
    \<lparr>log_partial = snd (whole_lines [] (concat ?cs)), log_lines = keep_last LOG_KEEP (fst (whole_lines [] (concat ?cs)))\<rparr>"
    by (rule log_keeps_last_lines)
  then show ?thesis by (simp only: w) (simp add: keep_last_def LOG_KEEP_def)
qed

section \<open>The CPU load\<close>

definition busy_of :: "int list \<Rightarrow> int" where
  "busy_of f = f ! 0 + f ! 1 + f ! 2 + f ! 5 + f ! 6"

lemma cpu_sample_fields:
  assumes "length f = 7" "list_all (\<lambda>x. 0 \<le> x) f" "sum_list f < 2 ^ 63"
  shows "cpu_sample (Some f) = sint (push_bit 32 (word_of_int (busy_of f) :: u64) OR (word_of_int (sum_list f) AND 0xFFFFFFFF))"
proof -
  obtain a b c d e g h where f: "f = [a, b, c, d, e, g, h]"
    using assms(1) by (auto simp: length_Suc_conv numeral_eq_Suc)
  have "to_i64 (a + b + c + d + e + g + h) = a + b + c + d + e + g + h"
    "to_i64 (a + b + c + d + e + g + h - d - e) = a + b + c + g + h"
    using assms(2, 3) by (simp_all add: f to_i64_id)
  then show ?thesis by (simp add: cpu_sample_def f busy_of_def Let_def ac_simps)
qed

lemma sample_word:
  "push_bit 32 (word_of_int b :: u64) OR (word_of_int t AND 0xFFFFFFFF) = word_of_int (b * 2 ^ 32 + t mod 2 ^ 32)"
proof -
  have m: "(word_of_int t :: u64) AND 0xFFFFFFFF = take_bit 32 (word_of_int t)"
    by (simp add: take_bit_eq_mask mask_numeral)
  have z: "push_bit 32 (word_of_int b :: u64) AND take_bit 32 (word_of_int t) = 0"
    by (rule bit_eqI) (auto simp: bit_simps)
  have p: "push_bit 32 (word_of_int b :: u64) = word_of_int (b * 2 ^ 32)"
    by (simp add: push_bit_eq_mult)
  have r: "take_bit 32 (word_of_int t :: u64) = word_of_int (t mod 2 ^ 32)"
    unfolding take_bit_eq_mod [symmetric] by (rule bit_word_eqI) (auto simp: bit_simps)
  show ?thesis unfolding m unfolding disjunctive_add_eq_or [OF z, symmetric] unfolding p r by simp
qed

lemma to_i64_minus: "to_i64 (v - 2 ^ 64) = to_i64 v"
proof -
  have "(2 :: u64) ^ 64 = 0" by simp
  then show ?thesis by (simp only: to_i64_def of_int_diff of_int_power of_int_numeral diff_zero)
qed

lemma sint_sample:
  assumes "0 \<le> b" "b < 2 ^ 32" "0 \<le> t" "t < 2 ^ 32"
  shows "b < 2 ^ 31 \<Longrightarrow> to_i64 (b * 2 ^ 32 + t) = b * 2 ^ 32 + t" "2 ^ 31 \<le> b \<Longrightarrow> to_i64 (b * 2 ^ 32 + t) < 0"
proof -
  show "b < 2 ^ 31 \<Longrightarrow> to_i64 (b * 2 ^ 32 + t) = b * 2 ^ 32 + t"
    using assms by (intro to_i64_id) simp_all
next
  assume "2 ^ 31 \<le> b"
  let ?v = "b * 2 ^ 32 + t"
  have "to_i64 ?v = to_i64 (?v - 2 ^ 64)" by (rule to_i64_minus [symmetric])
  also have "\<dots> = ?v - 2 ^ 64" using assms \<open>2 ^ 31 \<le> b\<close> by (intro to_i64_id) simp_all
  finally show "to_i64 ?v < 0" using assms by simp
qed

text \<open>Two readings of the counters, each at least as large in the second.\<close>

definition readings :: "int list \<Rightarrow> int list \<Rightarrow> bool" where
  "readings f g \<longleftrightarrow> length f = 7 \<and> list_all2 (\<le>) f g \<and> list_all (\<lambda>x. 0 \<le> x) f \<and> sum_list f < sum_list g \<and> sum_list g < 2 ^ 32"

lemma readings_cases:
  assumes "readings f g"
  obtains a b c d e u v a' b' c' d' e' u' v' where
    "f = [a, b, c, d, e, u, v]" "g = [a', b', c', d', e', u', v']"
    "0 \<le> a" "0 \<le> b" "0 \<le> c" "0 \<le> d" "0 \<le> e" "0 \<le> u" "0 \<le> v"
    "a \<le> a'" "b \<le> b'" "c \<le> c'" "d \<le> d'" "e \<le> e'" "u \<le> u'" "v \<le> v'"
proof -
  from assms have "length f = 7" "length g = 7" by (auto simp: readings_def dest: list_all2_lengthD)
  then obtain a b c d e u v a' b' c' d' e' u' v' where
    fg: "f = [a, b, c, d, e, u, v]" "g = [a', b', c', d', e', u', v']"
    by (auto simp: length_Suc_conv numeral_eq_Suc)
  show ?thesis by (rule that [OF fg]) (use assms in \<open>simp_all add: fg readings_def\<close>)
qed

lemma readings_bounds:
  assumes "readings f g"
  shows "0 \<le> busy_of f" "busy_of f \<le> busy_of g" "busy_of g \<le> sum_list g" "0 \<le> sum_list f"
    "busy_of g - busy_of f \<le> sum_list g - sum_list f"
    "length g = 7" "list_all (\<lambda>x. 0 \<le> x) g" "busy_of f \<le> sum_list f"
  using assms by (auto elim!: readings_cases simp: busy_of_def)

lemma cpu_sample_value:
  assumes "length f = 7" "list_all (\<lambda>x. 0 \<le> x) f" "0 \<le> sum_list f" "sum_list f < 2 ^ 32"
  shows "cpu_sample (Some f) = to_i64 (busy_of f * 2 ^ 32 + sum_list f)"
proof -
  have "sum_list f < 2 ^ 63" using assms(4) by simp
  from cpu_sample_fields [OF assms(1, 2) this] assms(3, 4) show ?thesis by (simp only: sample_word to_i64_def mod_pos_pos_trivial)
qed

text \<open>
  while the counters of all processors fit 32 bits, the load shown is the busy share of the time
  between the two readings as long as the busy time is below 2\<open>\<^sup>31\<close> ticks; from there on it is 0 for
  ever, however busy the machine is.
\<close>

theorem cpu_percent_shown:
  assumes "readings f g"
  shows "cpu_percent (cpu_sample (Some f)) (cpu_sample (Some g)) =
    (if busy_of g < 2 ^ 31 then 100 * (busy_of g - busy_of f) div (sum_list g - sum_list f) else 0)"
proof -
  note r = readings_bounds [OF assms]
  have s: "sum_list f < sum_list g" "sum_list g < 2 ^ 32" "length f = 7" "list_all (\<lambda>x. 0 \<le> x) f"
    using assms by (simp_all add: readings_def)
  have f: "cpu_sample (Some f) = to_i64 (busy_of f * 2 ^ 32 + sum_list f)"
    and g: "cpu_sample (Some g) = to_i64 (busy_of g * 2 ^ 32 + sum_list g)"
    by (rule cpu_sample_value; use r s in linarith)+
  show ?thesis
  proof (cases "busy_of g < 2 ^ 31")
    case True
    have v: "cpu_sample (Some f) = busy_of f * 2 ^ 32 + sum_list f" "cpu_sample (Some g) = busy_of g * 2 ^ 32 + sum_list g"
      unfolding f g by (rule sint_sample(1); use r s True in linarith)+
    let ?q = "100 * (busy_of g - busy_of f) div (sum_list g - sum_list f)"
    have "?q \<le> 100 * (sum_list g - sum_list f) div (sum_list g - sum_list f)"
      using r(5) s(1) by (intro zdiv_mono1) simp_all
    also have "\<dots> = 100" using s(1) by (intro nonzero_mult_div_cancel_right) simp
    finally have "?q \<le> 100" .
    moreover have "0 \<le> ?q" using r s by (simp add: pos_imp_zdiv_nonneg_iff)
    moreover have "tdiv (100 * (busy_of g - busy_of f)) (sum_list g - sum_list f) = ?q"
    proof (rule tdiv_nonneg)
      show "0 \<le> 100 * (busy_of g - busy_of f)" using r(2) by simp
      show "0 < sum_list g - sum_list f" using s(1) by simp
    qed
    ultimately have "to_i32 (tdiv (100 * (busy_of g - busy_of f)) (sum_list g - sum_list f)) = ?q"
      by (simp add: to_i32_id)
    with True r s show ?thesis by (simp add: cpu_percent_def v Let_def)
  next
    case False
    then have "to_i64 (busy_of g * 2 ^ 32 + sum_list g) < 0" by (intro sint_sample(2); use r s False in linarith)
    with False show ?thesis by (simp add: cpu_percent_def g)
  qed
qed

theorem cpu_percent_shown_witness:
  "cpu_percent (cpu_sample (Some [10, 0, 0, 90, 0, 0, 0])) (cpu_sample (Some [30, 0, 0, 150, 0, 0, 0])) = 25"
  using cpu_percent_shown [of "[10, 0, 0, 90, 0, 0, 0]" "[30, 0, 0, 150, 0, 0, 0]"] by (simp add: readings_def busy_of_def)

section \<open>The pace of restarts\<close>

fun restart_delays :: "int list \<Rightarrow> restart_state \<Rightarrow> nat list \<times> restart_state" where
  "restart_delays [] s = ([], s)"
| "restart_delays (t # ts) s =
     (case after_exit t s of (d, s') \<Rightarrow> case restart_delays ts s' of (ds, s'') \<Rightarrow> (d # ds, s''))"

lemma restart_count: "crash_count s \<le> 3 \<Longrightarrow> crash_count (snd (after_exit t s)) \<le> 3"
  by (simp add: after_exit_def Let_def)

lemma restart_count_run: "crash_count s \<le> 3 \<Longrightarrow> crash_count (snd (restart_delays ts s)) \<le> 3"
proof (induction ts arbitrary: s)
  case (Cons t ts)
  then show ?case using restart_count [of s t] by (simp add: case_prod_unfold)
qed simp

definition boot_restarts :: restart_state where "boot_restarts = \<lparr>crash_count = 0, last_crash = 0\<rparr>"

text \<open>
  the inference process cannot crash in a tight loop: whatever happened before, of four exits
  that follow one another within less than a minute each, one is followed by a pause of 30 seconds,
  and every other restart waits 2 seconds.
\<close>

theorem crash_loop_is_slowed:
  assumes "t2 - t1 < 60" "t3 - t2 < 60" "t4 - t3 < 60"
  shows "30 \<in> set (fst (restart_delays [t1, t2, t3, t4] (snd (restart_delays history boot_restarts))))
    \<and> set (fst (restart_delays [t1, t2, t3, t4] (snd (restart_delays history boot_restarts)))) \<subseteq> {2, 30}"
proof -
  obtain c l where s: "snd (restart_delays history boot_restarts) = \<lparr>crash_count = c, last_crash = l\<rparr>"
    by (cases "snd (restart_delays history boot_restarts)") auto
  have "c \<le> 3" using restart_count_run [of boot_restarts history] s by (simp add: boot_restarts_def)
  then consider "c = 0" | "c = 1" | "c = 2" | "c = 3" by linarith
  then show ?thesis
    by cases (use assms in \<open>simp_all add: s after_exit_def Let_def\<close>)
qed

theorem crash_loop_is_slowed_witness:
  "30 \<in> set (fst (restart_delays [10, 20, 30, 40] (snd (restart_delays [5] boot_restarts))))"
  using crash_loop_is_slowed [of 20 10 30 40 "[5]"] by simp

text \<open>The exits of children with their time and the outcome of the forks, one after the other.\<close>

definition run_exits :: "(daemon_env \<times> int \<times> int) list \<Rightarrow> daemon_state \<Rightarrow> daemon_state" where
  "run_exits es s = fold (\<lambda>(e, now, pid). daemon_exit e now pid) es s"

definition bus_starts :: "daemon_state \<Rightarrow> int list" where
  "bus_starts s = map snd (filter (\<lambda>(k, _). k = DBus) (starts s))"

text \<open>Of the starts of a limiter, latest first: those of the window and those before it.\<close>

definition paced :: "nat \<Rightarrow> int \<Rightarrow> int \<Rightarrow> int list \<Rightarrow> bool" where
  "paced r w now ts \<longleftrightarrow> r \<le> 3 \<and> (r = 0 \<longrightarrow> ts = [] \<and> w = 0) \<and> (0 < r \<longrightarrow> w \<le> now)
     \<and> list_all (\<lambda>x. x \<le> now) ts \<and> list_all (\<lambda>x. x \<le> w) (drop (r - 1) ts) \<and> list_all (\<lambda>x. x + 300 < w) (drop (r + 2) ts)
     \<and> list_all (\<lambda>(new, old). old + 300 < new) (zip ts (drop 5 ts))"

lemma list_all_drop: "list_all p xs \<Longrightarrow> list_all p (drop n xs)"
  by (auto simp: list_all_iff dest: in_set_dropD)

lemma list_all_drop_le: "list_all p (drop m xs) \<Longrightarrow> m \<le> n \<Longrightarrow> list_all p (drop n xs)"
  using list_all_drop [of p "drop m xs" "n - m"] by simp

lemma zip_far:
  assumes "list_all (\<lambda>(new, old). old + 300 < new) (zip ts (drop 5 ts))" "list_all (\<lambda>x. x + 300 < n) (drop 4 ts)"
  shows "list_all (\<lambda>(new, old). old + (300 :: int) < new) (zip (n # ts) (drop 5 (n # ts)))"
proof (cases "drop 4 ts")
  case (Cons y ys)
  have "drop (Suc 4) ts = tl (drop 4 ts)" by (simp only: drop_Suc tl_drop)
  then have "drop 5 ts = ys" by (simp add: Cons)
  with assms Cons show ?thesis by simp
qed simp

lemma paced_start:
  assumes "paced r w now ts" "now \<le> n" "300 < n"
  shows "n - w > 300 \<Longrightarrow> paced 1 n n (n # ts)"
    and "\<not> n - w > 300 \<Longrightarrow> r < 3 \<Longrightarrow> paced (Suc r) w n (n # ts)"
proof -
  have le: "list_all (\<lambda>x. x \<le> n) ts" using assms by (auto simp: paced_def list_all_iff)
  {
    assume far: "n - w > 300"
    have "list_all (\<lambda>x. x \<le> w) (drop 2 ts)"
      using assms(1) by (intro list_all_drop_le [of _ "r - 1" ts 2]) (auto simp: paced_def)
    then have d: "list_all (\<lambda>x. x + 300 < n) (drop 2 ts)" using far by (auto simp: list_all_iff)
    from zip_far [OF _ list_all_drop_le [OF d]] assms(1)
    have "list_all (\<lambda>(new, old). old + 300 < new) (zip (n # ts) (drop 5 (n # ts)))" by (simp add: paced_def)
    with le d assms(3) show "paced 1 n n (n # ts)" by (simp add: paced_def eval_nat_numeral)
  next
    assume near: "\<not> n - w > 300" and r: "r < 3"
    then have "r \<noteq> 0" using assms by (auto simp: paced_def)
    then have w: "w \<le> n" "drop r (n # ts) = drop (r - 1) ts" using assms by (auto simp: paced_def drop_Cons')
    have d: "list_all (\<lambda>x. x + 300 < n) (drop 4 ts)"
      using assms(1) r w(1) list_all_drop_le [of "\<lambda>x. x + 300 < w" "r + 2" ts 4] by (auto simp: paced_def list_all_iff)
    from zip_far [OF _ d] assms(1)
    have "list_all (\<lambda>(new, old). old + 300 < new) (zip (n # ts) (drop 5 (n # ts)))" by (simp add: paced_def)
    with le w r assms(1) show "paced (Suc r) w n (n # ts)" by (simp add: paced_def)
  }
qed

lemma paced_later: "paced r w now ts \<Longrightarrow> now \<le> n \<Longrightarrow> paced r w n ts"
  by (auto simp: paced_def list_all_iff)

definition bus_paced :: "int \<Rightarrow> daemon_state \<Rightarrow> bool" where
  "bus_paced now s \<longleftrightarrow> paced (dbus_restarts s) (dbus_restart_window s) now (bus_starts s)"

lemma bus_paced_exit:
  assumes "bus_paced now s" "now \<le> n" "300 < n"
  shows "bus_paced n (daemon_exit e n pid s)"
proof -
  note p = paced_start [OF assms(1) [unfolded bus_paced_def] assms(2, 3)] paced_later [OF assms(1) [unfolded bus_paced_def] assms(2)]
  show ?thesis
    using p by (simp add: bus_paced_def daemon_exit_def start_dbus_def start_bluetoothd_def bus_starts_def Let_def)
qed

lemma bus_paced_run:
  "bus_paced now s \<Longrightarrow> 300 < now \<Longrightarrow> sorted (now # map (\<lambda>(e, n, pid). n) es) \<Longrightarrow> \<exists>n. bus_paced n (run_exits es s)"
proof (induction es arbitrary: now s)
  case Nil
  then show ?case by (auto simp: run_exits_def)
next
  case (Cons x es)
  obtain e n pid where x: "x = (e, n, pid)" by (cases x)
  with Cons.prems have "bus_paced n (daemon_exit e n pid s)" "300 < n" "sorted (n # map (\<lambda>(e, n, pid). n) es)"
    by (auto intro!: bus_paced_exit)
  from Cons.IH [OF this] show ?case by (simp add: run_exits_def x)
qed

text \<open>
  whatever exits and however the forks turn out, of six starts of the message bus in a row the
  first and the last are more than 300 seconds apart, so at most five fall into any five minutes.
\<close>

theorem bus_restarts_bounded:
  assumes "sorted (301 # map (\<lambda>(e, n, pid). n) es)"
  shows "list_all (\<lambda>(new, old). old + 300 < new)
    (zip (bus_starts (run_exits es (boot_daemons dbus bt))) (drop 5 (bus_starts (run_exits es (boot_daemons dbus bt)))))"
proof -
  have "bus_paced 301 (boot_daemons dbus bt)"
    by (simp add: bus_paced_def paced_def boot_daemons_def bus_starts_def)
  from bus_paced_run [OF this _ assms] show ?thesis by (auto simp: bus_paced_def paced_def)
qed

definition demo_exits :: "(daemon_env \<times> int \<times> int) list" where
  "demo_exits = map (\<lambda>n. (\<lparr>dbus_fork = 10, bt_fork = 0, bus_socket = True\<rparr>, n, 10)) [400, 699, 700, 701, 701, 702]"

lemma demo_bus_starts: "bus_starts (run_exits demo_exits (boot_daemons 10 0)) = [702, 701, 701, 700, 699, 400]"
  by (simp add: demo_exits_def run_exits_def boot_daemons_def daemon_exit_def start_dbus_def start_bluetoothd_def
      bus_starts_def Let_def)

theorem bus_restarts_bounded_witness:
  "list_all (\<lambda>(new, old). old + 300 < new)
     (zip (bus_starts (run_exits demo_exits (boot_daemons 10 0))) (drop 5 (bus_starts (run_exits demo_exits (boot_daemons 10 0)))))
    \<and> bus_starts (run_exits demo_exits (boot_daemons 10 0)) = [702, 701, 701, 700, 699, 400]"
proof
  show "list_all (\<lambda>(new, old). old + 300 < new)
     (zip (bus_starts (run_exits demo_exits (boot_daemons 10 0))) (drop 5 (bus_starts (run_exits demo_exits (boot_daemons 10 0)))))"
    by (rule bus_restarts_bounded) (simp add: demo_exits_def)
qed (rule demo_bus_starts)

section \<open>Waiting for the inference process\<close>

inductive_cases wait_stepE: "wait_step s t"

lemma wait_field_simps [simp]:
  "child (s\<lparr>main := m\<rparr>) = child s" "child (s\<lparr>others := n\<rparr>) = child s" "child (s\<lparr>zombies := n\<rparr>) = child s"
  "main (s\<lparr>child := c\<rparr>) = main s"
  by simp_all

text \<open>The steps as a function: what can happen next.\<close>

definition wait_steps :: "wait_state \<Rightarrow> wait_state list" where
  "wait_steps s =
     (if child s = Running then [s\<lparr>child := Zombie\<rparr>] else [])
     @ (case others s of Suc n \<Rightarrow> [s\<lparr>others := n, zombies := zombies s + 1\<rparr>] | 0 \<Rightarrow> [])
     @ (if child s = Zombie then [s\<lparr>child := Reaped, child_exited := True\<rparr>] else [])
     @ (if main s = Looking then [s\<lparr>main := if child_exited s then Left else Blocked\<rparr>] else [])
     @ (if main s = Blocked then
          (if child s = Zombie then [s\<lparr>main := Left, child := Reaped, child_exited := True\<rparr>] else [])
          @ (case zombies s of Suc n \<Rightarrow> map (\<lambda>k. s\<lparr>main := Looking, zombies := n, others := others s + k\<rparr>) [0, 1, 2] | 0 \<Rightarrow> [])
          @ (if child s = Reaped \<and> others s = 0 \<and> zombies s = 0 then [s\<lparr>main := Left\<rparr>] else [])
        else [])"

lemma wait_steps_complete: "wait_step s t \<Longrightarrow> t \<in> set (wait_steps s)"
  by (induction rule: wait_step.induct) (auto simp: wait_steps_def)

lemma wait_intros:
  "Suc n = others s \<Longrightarrow> wait_step s (s\<lparr>others := n, zombies := Suc (zombies s)\<rparr>)"
  "main s = Blocked \<Longrightarrow> Suc n = zombies s \<Longrightarrow> wait_step s (s\<lparr>main := Looking, zombies := n\<rparr>)"
  "main s = Blocked \<Longrightarrow> Suc n = zombies s \<Longrightarrow> wait_step s (s\<lparr>main := Looking, zombies := n, others := Suc (others s)\<rparr>)"
  "main s = Blocked \<Longrightarrow> Suc n = zombies s \<Longrightarrow> wait_step s (s\<lparr>main := Looking, zombies := n, others := Suc (Suc (others s))\<rparr>)"
  using other_exits [of s n] wait_other [of s n 0] wait_other [of s n 1] wait_other [of s n 2] by simp_all

lemma wait_steps_sound: "t \<in> set (wait_steps s) \<Longrightarrow> wait_step s t"
  by (auto simp: wait_steps_def intro: wait_step.intros wait_intros split: if_splits nat.splits)

lemma wait_step_iff: "wait_step s t \<longleftrightarrow> t \<in> set (wait_steps s)"
  using wait_steps_complete wait_steps_sound by blast

text \<open>
  a child that has exited can be missed. When the handler of SIGCHLD reaps the inference process
  before the main thread waits, and another child still runs, the main thread waits for any child and
  sees the flag only after one of the others exits: the only steps that are left are exits of others.
\<close>

theorem exit_can_be_missed:
  "\<exists>s. wait_step\<^sup>*\<^sup>* (wait_start (Suc n)) s \<and> child s = Reaped \<and> child_exited s \<and> main s = Blocked
     \<and> set (wait_steps s) = {s\<lparr>others := n, zombies := 1\<rparr>}"
proof -
  let ?s0 = "wait_start (Suc n)"
  let ?s1 = "?s0\<lparr>main := Blocked\<rparr>"
  let ?s2 = "?s1\<lparr>child := Zombie\<rparr>"
  let ?s3 = "?s2\<lparr>child := Reaped, child_exited := True\<rparr>"
  have "wait_step ?s0 ?s1" by (rule look_waits) (simp_all add: wait_start_def)
  moreover have "wait_step ?s1 ?s2" by (rule child_exits) (simp add: wait_start_def)
  moreover have "wait_step ?s2 ?s3" by (rule handler_reaps) (simp add: wait_start_def)
  ultimately have "wait_step\<^sup>*\<^sup>* ?s0 ?s3" by (meson converse_rtranclp_into_rtranclp rtranclp.rtrancl_refl)
  moreover have "set (wait_steps ?s3) = {?s3\<lparr>others := n, zombies := 1\<rparr>}"
    by (simp add: wait_steps_def wait_start_def)
  ultimately show ?thesis by (intro exI [of _ ?s3]) (simp add: wait_start_def)
qed

text \<open>With no other child no state is lost: the invariant and the number of steps that are left.\<close>

definition alone :: "wait_state \<Rightarrow> bool" where
  "alone s \<longleftrightarrow> others s = 0 \<and> zombies s = 0 \<and> (child_exited s \<longleftrightarrow> child s = Reaped) \<and> (main s = Left \<longrightarrow> child s = Reaped)"

definition steps_left :: "wait_state \<Rightarrow> nat" where
  "steps_left s =
     (case child s of Running \<Rightarrow> 2 | Zombie \<Rightarrow> 1 | Reaped \<Rightarrow> 0) + (case main s of Looking \<Rightarrow> 2 | Blocked \<Rightarrow> 1 | Left \<Rightarrow> 0)"

lemma alone_step: "wait_step s t \<Longrightarrow> alone s \<Longrightarrow> alone t \<and> steps_left t < steps_left s"
  by (induction rule: wait_step.induct) (auto simp: alone_def steps_left_def)

lemma alone_reachable: "wait_step\<^sup>*\<^sup>* (wait_start 0) s \<Longrightarrow> alone s"
proof (induction rule: rtranclp_induct)
  case base
  show ?case by (simp add: alone_def wait_start_def)
next
  case (step s t)
  then show ?case using alone_step by blast
qed

lemma alone_steps: "(wait_step ^^ k) s t \<Longrightarrow> alone s \<Longrightarrow> k + steps_left t \<le> steps_left s"
proof (induction k arbitrary: t)
  case (Suc k)
  then obtain u where u: "(wait_step ^^ k) s u" "wait_step u t" by auto
  have "alone u" using u(1) Suc.prems(2) by (induction k arbitrary: u) (auto dest: alone_step)
  with Suc.IH [OF u(1) Suc.prems(2)] alone_step [OF u(2)] show ?case by simp
qed simp

text \<open>
  with no other child the exit of the inference process is never missed: no run has more than
  four steps, and a run that cannot go on has reaped the process and left the wait.
\<close>

theorem lone_exit_is_seen:
  assumes "(wait_step ^^ k) (wait_start 0) s"
  shows "k \<le> 4 \<and> (wait_steps s \<noteq> [] \<or> main s = Left \<and> child s = Reaped)"
proof
  have "alone (wait_start 0)" "steps_left (wait_start 0) = 4" by (simp_all add: alone_def wait_start_def steps_left_def)
  with alone_steps [OF assms] show "k \<le> 4" by simp
  have "alone s" using assms by (intro alone_reachable) (rule relpowp_imp_rtranclp)
  then show "wait_steps s \<noteq> [] \<or> main s = Left \<and> child s = Reaped"
    by (cases "child s"; cases "main s") (auto simp: alone_def wait_steps_def)
qed

theorem lone_exit_is_seen_witness:
  "main ((wait_start 0)\<lparr>main := Blocked, child := Zombie\<rparr>) = Blocked
    \<and> wait_steps ((wait_start 0)\<lparr>main := Blocked, child := Zombie\<rparr>) \<noteq> []"
proof -
  let ?s = "(wait_start 0)\<lparr>main := Blocked, child := Zombie\<rparr>"
  have "wait_step (wait_start 0) ((wait_start 0)\<lparr>main := Blocked\<rparr>)" by (rule look_waits) (simp_all add: wait_start_def)
  moreover have "wait_step ((wait_start 0)\<lparr>main := Blocked\<rparr>) ?s" by (rule child_exits) (simp add: wait_start_def)
  ultimately have "(wait_step ^^ 2) (wait_start 0) ?s" by (auto simp: numeral_2_eq_2)
  from lone_exit_is_seen [OF this] show ?thesis by simp
qed

end
