(* ===== verification/Installer.thy ===== *)
theory Installer
  imports LlPrelude JsonValue Registry
begin

text \<open>
  \<^verbatim>\<open>tools_install.cpp\<close>, the installer of the live system: the search for the boot disk, the copy of
  the image, the CRC and the rewriting of the partition table, and the tools over them. Definitions
  only; the lemmas are in InstallerFacts. A disk is a function from offsets to bytes with its size;
  how many bytes a system call writes before it fails is an argument, as are the files of \<^verbatim>\<open>/sys\<close>
  and \<^verbatim>\<open>/proc\<close>, and the result of the decompression.
\<close>

unbundle bit_operations_syntax

section \<open>Bytes of integers\<close>

primrec le_bytes :: "nat \<Rightarrow> 'a::len word \<Rightarrow> byte list" where
  "le_bytes 0 w = []"
| "le_bytes (Suc n) w = ucast w # le_bytes n (drop_bit 8 w)"

primrec le_word :: "byte list \<Rightarrow> 'a::len word" where
  "le_word [] = 0"
| "le_word (b # bs) = ucast b OR push_bit 8 (le_word bs)"

definition put_bytes :: "nat \<Rightarrow> byte list \<Rightarrow> byte list \<Rightarrow> byte list" where
  "put_bytes off bs xs = take off xs @ bs @ drop (off + length bs) xs"

section \<open>The checksum\<close>

definition crc_bit :: "u32 \<Rightarrow> u32" where
  "crc_bit crc = drop_bit 1 crc XOR (0xEDB88320 AND (- (crc AND 1)))"

definition crc_byte :: "byte \<Rightarrow> u32 \<Rightarrow> u32" where
  "crc_byte b crc = (crc_bit ^^ 8) (crc XOR ucast b)"

definition crc32_gpt :: "byte list \<Rightarrow> u32" where
  "crc32_gpt bs = NOT (fold crc_byte bs 0xFFFFFFFF)"

section \<open>The partition table\<close>

record GPTHeader =
  signature :: "byte list"
  revision :: u32
  header_size :: u32
  header_crc32 :: u32
  reserved :: u32
  my_lba :: u64
  alternate_lba :: u64
  first_usable_lba :: u64
  last_usable_lba :: u64
  disk_guid :: "byte list"
  partition_entry_lba :: u64
  num_partition_entries :: u32
  partition_entry_size :: u32
  partition_array_crc32 :: u32

definition HEADER_BYTES :: nat where "HEADER_BYTES = 92"

definition header_bytes :: "GPTHeader \<Rightarrow> byte list" where
  "header_bytes h =
     signature h @ le_bytes 4 (revision h) @ le_bytes 4 (header_size h) @ le_bytes 4 (header_crc32 h)
     @ le_bytes 4 (reserved h) @ le_bytes 8 (my_lba h) @ le_bytes 8 (alternate_lba h)
     @ le_bytes 8 (first_usable_lba h) @ le_bytes 8 (last_usable_lba h) @ disk_guid h
     @ le_bytes 8 (partition_entry_lba h) @ le_bytes 4 (num_partition_entries h)
     @ le_bytes 4 (partition_entry_size h) @ le_bytes 4 (partition_array_crc32 h)"

definition bytes_at :: "nat \<Rightarrow> nat \<Rightarrow> byte list \<Rightarrow> byte list" where
  "bytes_at off n bs = take n (drop off bs)"

definition parse_header :: "byte list \<Rightarrow> GPTHeader" where
  "parse_header bs = \<lparr>signature = bytes_at 0 8 bs, revision = le_word (bytes_at 8 4 bs),
     header_size = le_word (bytes_at 12 4 bs), header_crc32 = le_word (bytes_at 16 4 bs),
     reserved = le_word (bytes_at 20 4 bs), my_lba = le_word (bytes_at 24 8 bs),
     alternate_lba = le_word (bytes_at 32 8 bs), first_usable_lba = le_word (bytes_at 40 8 bs),
     last_usable_lba = le_word (bytes_at 48 8 bs), disk_guid = bytes_at 56 16 bs,
     partition_entry_lba = le_word (bytes_at 72 8 bs), num_partition_entries = le_word (bytes_at 80 4 bs),
     partition_entry_size = le_word (bytes_at 84 4 bs), partition_array_crc32 = le_word (bytes_at 88 4 bs)\<rparr>"

definition EFI_PART :: "byte list" where "EFI_PART = map of_char ''EFI PART''"

text \<open>The fields of an entry: the type, the first and the last sector.\<close>

definition starting_lba :: "byte list \<Rightarrow> u64" where "starting_lba e = le_word (bytes_at 32 8 e)"
definition ending_lba :: "byte list \<Rightarrow> u64" where "ending_lba e = le_word (bytes_at 40 8 e)"
definition has_type :: "byte list \<Rightarrow> bool" where "has_type e \<longleftrightarrow> list_ex (\<lambda>b. b \<noteq> 0) (bytes_at 0 16 e)"

record disk =
  bytes_of :: "nat \<Rightarrow> byte"
  disk_size :: nat

definition disk_read :: "nat \<Rightarrow> nat \<Rightarrow> disk \<Rightarrow> byte list" where
  "disk_read off n d = map (bytes_of d) [off..<off + n]"

definition disk_write :: "nat \<Rightarrow> byte list \<Rightarrow> disk \<Rightarrow> disk" where
  "disk_write off bs d =
     d\<lparr>bytes_of := (\<lambda>i. if off \<le> i \<and> i < off + length bs then bs ! (i - off) else bytes_of d i)\<rparr>"

text \<open>\<open>stops e k\<close> is the number of bytes after which the k-th call fails, \<open>None\<close> when it does not.\<close>

type_synonym disk_faults = "nat \<Rightarrow> nat option"

definition pread :: "disk_faults \<Rightarrow> nat \<Rightarrow> nat \<Rightarrow> nat \<Rightarrow> disk \<Rightarrow> byte list option" where
  "pread stops k off n d =
     (if stops k = None \<and> off + n \<le> disk_size d then Some (disk_read off n d) else None)"

text \<open>What is written and whether it is all.\<close>

definition pwrite :: "disk_faults \<Rightarrow> nat \<Rightarrow> nat \<Rightarrow> byte list \<Rightarrow> disk \<Rightarrow> bool \<times> disk" where
  "pwrite stops k off bs d =
     (let room = disk_size d - off;
          n = min room (case stops k of None \<Rightarrow> length bs | Some m \<Rightarrow> min m (length bs))
      in (n = length bs, disk_write off (take n bs) d))"

text \<open>The checksum of the header is taken over as many bytes as it says itself; more than the
  structure has are read past its end, which is no value of the model.\<close>

definition seal_header :: "GPTHeader \<Rightarrow> GPTHeader option" where
  "seal_header h =
     (let h0 = h\<lparr>header_crc32 := 0\<rparr>; n = unat (header_size h0)
      in if n > HEADER_BYTES then None
         else Some (h0\<lparr>header_crc32 := crc32_gpt (take n (header_bytes h0))\<rparr>))"

text \<open>The size in the protective MBR, and the MBR with it.\<close>

definition pmbr_size :: "u64 \<Rightarrow> u32" where
  "pmbr_size sectors = (if sectors - 1 > 0xFFFFFFFF then 0xFFFFFFFF else ucast (sectors - 1))"

definition update_mbr :: "u64 \<Rightarrow> byte list \<Rightarrow> byte list" where
  "update_mbr sectors mbr = put_bytes 451 [0xFE, 0xFF, 0xFF] (put_bytes 458 (le_bytes 4 (pmbr_size sectors)) mbr)"

definition write_mbr :: "disk_faults \<Rightarrow> u64 \<Rightarrow> disk \<Rightarrow> disk" where
  "write_mbr stops sectors d =
     (case pread stops 8 0 512 d of
        None \<Rightarrow> d
      | Some mbr \<Rightarrow> snd (pwrite stops 9 0 (update_mbr sectors mbr) d))"

definition write_backup :: "disk_faults \<Rightarrow> u64 \<Rightarrow> GPTHeader \<Rightarrow> byte list \<Rightarrow> disk \<Rightarrow> disk option" where
  "write_backup stops sectors h entries d =
     (let d = snd (pwrite stops 6 (unat ((sectors - 33) * 512)) entries d)
      in map_option (\<lambda>b. snd (pwrite stops 7 (unat ((sectors - 1) * 512)) (header_bytes b) d))
           (seal_header (h\<lparr>my_lba := sectors - 1, alternate_lba := 1, partition_entry_lba := sectors - 33\<rparr>)))"

text \<open>The entries and the header are changed and written, then the copies at the end of the disk.\<close>

definition write_tables ::
  "disk_faults \<Rightarrow> u64 \<Rightarrow> GPTHeader \<Rightarrow> byte list \<Rightarrow> disk \<Rightarrow> (int \<times> disk) option" where
  "write_tables stops sectors h entries d =
     (let new_last = sectors - 34;
          entries = put_bytes (unat (4 * partition_entry_size h) + 40) (le_bytes 8 new_last) entries
      in case seal_header (h\<lparr>last_usable_lba := new_last, alternate_lba := sectors - 1,
                             partition_array_crc32 := crc32_gpt entries\<rparr>) of
           None \<Rightarrow> None
         | Some h \<Rightarrow>
             (case pwrite stops 4 (unat (partition_entry_lba h * 512)) entries d of
                (False, d) \<Rightarrow> Some (- 1, d)
              | (True, d) \<Rightarrow>
                  (case pwrite stops 5 512 (header_bytes h) d of
                     (False, d) \<Rightarrow> Some (- 1, d)
                   | (True, d) \<Rightarrow>
                       map_option (\<lambda>d. (0, write_mbr stops sectors d)) (write_backup stops sectors h entries d))))"

definition resize_gpt_data_partition :: "disk_faults \<Rightarrow> disk \<Rightarrow> (int \<times> disk) option" where
  "resize_gpt_data_partition stops d =
     (if stops 0 \<noteq> None \<or> stops 1 \<noteq> None then Some (- 1, d)
      else let sectors = (of_nat (disk_size d) div 512 :: u64)
           in case pread stops 2 512 HEADER_BYTES d of
                None \<Rightarrow> Some (- 1, d)
              | Some hb \<Rightarrow>
                  let h = parse_header hb; n = num_partition_entries h; sz = partition_entry_size h
                  in if signature h \<noteq> EFI_PART then Some (- 1, d)
                     else if n = 0 \<or> n > 256 \<or> sz < 128 \<or> sz > 4096 then Some (- 1, d)
                     else case pread stops 3 (unat (partition_entry_lba h * 512)) (unat (n * sz)) d of
                            None \<Rightarrow> Some (- 1, d)
                          | Some entries \<Rightarrow>
                              if n < 5 then Some (- 1, d)
                              else let part5 = drop (unat (4 * sz)) entries
                                   in if \<not> has_type part5 then Some (- 1, d)
                                      else if sectors - 34 \<le> starting_lba part5 then Some (- 1, d)
                                      else if sectors - 34 \<le> ending_lba part5 then Some (0, d)
                                      else write_tables stops sectors h entries d)"

section \<open>The boot disk\<close>

text \<open>A device without its partition: trailing digits, then one \<^verbatim>\<open>p\<close>.\<close>

definition strip_partition :: "string \<Rightarrow> string" where
  "strip_partition dev =
     (let s = rev (dropWhile is_digit (rev dev)) in if s \<noteq> [] \<and> last s = CHR ''p'' then butlast s else s)"

definition strip_dev :: "string \<Rightarrow> string" where
  "strip_dev s = (if starts_with ''/dev/'' s then drop 5 s else s)"

text \<open>The device of the \<^verbatim>\<open>root=\<close> argument of the kernel, when it is a path.\<close>

definition cmdline_root :: "string \<Rightarrow> string option" where
  "cmdline_root cmdline =
     (case find_sub ''root='' cmdline of
        None \<Rightarrow> None
      | Some i \<Rightarrow>
          let root_spec = takeWhile (\<lambda>c. c \<noteq> CHR '' '') (drop (i + 5) cmdline)
          in if starts_with ''/dev/'' root_spec then Some (strip_partition (drop 5 root_spec)) else None)"

definition mount_root :: "string \<Rightarrow> string option" where
  "mount_root l =
     (if find_sub '' / '' l = None then None
      else case find_sub '' '' l of
             None \<Rightarrow> None
           | Some i \<Rightarrow> if starts_with ''/dev/'' (take i l) then Some (strip_partition (drop 5 (take i l))) else None)"

fun first_some :: "('a \<Rightarrow> 'b option) \<Rightarrow> 'a list \<Rightarrow> 'b option" where
  "first_some f [] = None"
| "first_some f (x # xs) = (case f x of Some y \<Rightarrow> Some y | None \<Rightarrow> first_some f xs)"

text \<open>From the first line of \<^verbatim>\<open>/proc/cmdline\<close>, if there is one, and the lines of \<^verbatim>\<open>/proc/mounts\<close>.\<close>

definition find_boot_device :: "string option \<Rightarrow> string list \<Rightarrow> string" where
  "find_boot_device cmdline mounts =
     (case (case cmdline of None \<Rightarrow> None | Some l \<Rightarrow> cmdline_root l) of
        Some d \<Rightarrow> d
      | None \<Rightarrow> (case first_some mount_root mounts of Some d \<Rightarrow> d | None \<Rightarrow> ''sr0''))"

section \<open>Target disks\<close>

text \<open>The first line of an attribute without blanks and line ends behind it.\<close>

definition read_sysfs :: "string option \<Rightarrow> string" where
  "read_sysfs content =
     (case content of
        None \<Rightarrow> []
      | Some s \<Rightarrow> rev (dropWhile (\<lambda>c. c = CHR 0x0A \<or> c = CHR 0x0D \<or> c = CHR '' '')
          (rev (takeWhile (\<lambda>c. c \<noteq> CHR 0x0A) s))))"

text \<open>An entry of \<^verbatim>\<open>/sys/block\<close>: its attributes and the names in its directory.\<close>

record block_entry =
  b_name :: string
  b_size :: "string option"
  b_model :: "string option"
  b_device_name :: "string option"
  b_children :: "string list option"
  b_removable :: "string option"

definition stoll :: "string \<Rightarrow> int option" where
  "stoll s = (case strtol s of None \<Rightarrow> None | Some (v, _, big) \<Rightarrow> if big then None else Some v)"

definition skipped_name :: "string \<Rightarrow> bool" where
  "skipped_name n \<longleftrightarrow> n = ''.'' \<or> n = ''..'' \<or> starts_with ''loop'' n \<or> starts_with ''ram'' n \<or> starts_with ''dm-'' n
     \<or> starts_with ''sr'' n \<or> starts_with ''fd'' n"

definition model_of :: "block_entry \<Rightarrow> string" where
  "model_of b =
     (if read_sysfs (b_model b) \<noteq> [] then read_sysfs (b_model b)
      else if read_sysfs (b_device_name b) \<noteq> [] then read_sysfs (b_device_name b)
      else ''Unknown'')"

text \<open>The size in GB is exact in a \<^verbatim>\<open>double\<close>, because a sector is a power of two of it.\<close>

definition target_disk :: "string \<Rightarrow> block_entry \<Rightarrow> json option" where
  "target_disk boot_dev b =
     (if skipped_name (b_name b) \<or> b_name b = boot_dev then None
      else case stoll (read_sysfs (b_size b)) of
             None \<Rightarrow> None
           | Some sectors \<Rightarrow>
               if sectors * 512 < 2 * 1024 ^ 3 then None
               else Some (jobj [(''device'', JString (''/dev/'' @ b_name b)), (''name'', JString (b_name b)),
                 (''size_gb'', JFloat (of_int (sectors * 10 div 2 ^ 21) / 10)), (''size_sectors'', JInt sectors),
                 (''model'', JString (model_of b)),
                 (''partitions'', JInt (int (length (filter (\<lambda>p. starts_with (b_name b) p \<and> length p > length (b_name b))
                    (case b_children b of None \<Rightarrow> [] | Some ps \<Rightarrow> ps))))),
                 (''removable'', JBool (read_sysfs (b_removable b) = ''1''))]))"

definition handle_detect_disks :: "json_text \<Rightarrow> string \<Rightarrow> block_entry list option \<Rightarrow> string result" where
  "handle_detect_disks tx boot_dev entries =
     (case entries of
        None \<Rightarrow> dump_text tx (jobj [(''error'', JString ''Cannot read /sys/block'')])
      | Some bs \<Rightarrow> dump_text tx (JArray (List.map_filter (target_disk boot_dev) bs)))"

section \<open>The copy of the image\<close>

text \<open>Writing a buffer: \<open>w k n\<close> is the result of the k-th call of \<^verbatim>\<open>write\<close> with \<open>n\<close> bytes, at most \<open>n\<close>.
  The result is the number of calls so far and whether all was written, with the bytes on the device.\<close>

function write_all :: "(nat \<Rightarrow> nat \<Rightarrow> int) \<Rightarrow> nat \<Rightarrow> byte list \<Rightarrow> byte list \<Rightarrow> (nat \<times> bool) \<times> byte list" where
  "write_all w k buf dev =
     (if buf = [] then ((k, True), dev)
      else if w k (length buf) \<le> 0 then ((k + 1, False), dev)
      else let n = min (nat (w k (length buf))) (length buf) in write_all w (k + 1) (drop n buf) (dev @ take n buf))"
  by pat_completeness auto
termination
  by (relation "measure (\<lambda>(w, k, buf, dev). length buf)") auto

declare write_all.simps [simp del]

datatype read_end = EndOfFile | ReadFails

text \<open>The percentage after a chunk; \<^verbatim>\<open>fraction\<close> is taken as exact.\<close>

definition copy_percent :: "int \<Rightarrow> int \<Rightarrow> nat \<Rightarrow> nat \<Rightarrow> int \<Rightarrow> int" where
  "copy_percent pct_start pct_end written src_size old =
     (if src_size > 0 then min (pct_start + tdiv ((pct_end - pct_start) * int written) (int src_size)) pct_end else old)"

text \<open>The chunks that the reads give and how they end; the error, \<open>None\<close> on success, the bytes on the
  device and the percentage.\<close>

fun copy_loop ::
  "(nat \<Rightarrow> nat \<Rightarrow> int) \<Rightarrow> int \<Rightarrow> int \<Rightarrow> nat \<Rightarrow> read_end \<Rightarrow> nat \<Rightarrow> nat \<Rightarrow> byte list list \<Rightarrow> byte list \<Rightarrow> int
     \<Rightarrow> string option \<times> byte list \<times> int" where
  "copy_loop w ps pe src_size fin k written [] dev pct =
     ((case fin of EndOfFile \<Rightarrow> None | ReadFails \<Rightarrow> Some ''Read error: ''), dev, pct)"
| "copy_loop w ps pe src_size fin k written (c # cs) dev pct =
     (case write_all w k c dev of
        ((k', False), dev') \<Rightarrow> (Some (''Write error at offset '' @ show_nat written @ '': ''), dev', pct)
      | ((k', True), dev') \<Rightarrow>
          let written' = written + length c
          in copy_loop w ps pe src_size fin k' written' cs dev' (copy_percent ps pe written' src_size pct))"

definition copy_file_to_device ::
  "(nat \<Rightarrow> nat \<Rightarrow> int) \<Rightarrow> nat \<Rightarrow> read_end \<Rightarrow> byte list list \<Rightarrow> string option \<times> byte list \<times> int" where
  "copy_file_to_device w src_size fin chunks = copy_loop w 10 60 src_size fin 0 0 chunks [] 10"

section \<open>The installation\<close>

record InstallProgress =
  percent :: int
  running :: bool
  finished :: bool
  success :: bool
  status :: string
  error :: string

definition idle_progress :: InstallProgress where
  "idle_progress = \<lparr>percent = 0, running = False, finished = False, success = False, status = [], error = []\<rparr>"

definition set_status :: "string \<Rightarrow> InstallProgress \<Rightarrow> InstallProgress" where "set_status s p = p\<lparr>status := s\<rparr>"
definition fail_with :: "string \<Rightarrow> InstallProgress \<Rightarrow> InstallProgress" where
  "fail_with e p = p\<lparr>error := e, finished := True\<rparr>"

text \<open>What the worker does to the machine, in order.\<close>

datatype install_action = WriteImage string string | RereadTable string | ResizeData string | FormatData string | InitData string

text \<open>What it meets: the boot device, the device, the sizes of the files, whether the decompression is
  built in, and the error of the copy, if any, with the percentage that it reached.\<close>

record install_env =
  boot_device :: string
  device_exists :: bool
  device_opens :: "string option"
  device_size :: nat
  file_size :: "string \<Rightarrow> nat option"
  have_lzma :: bool
  copy_error :: "string option"
  copied_percent :: int
  data_mounts :: bool

definition XZ_PATHS :: "string list" where
  "XZ_PATHS = [''/install/llamaste.img.xz'', ''/media/cdrom/install/llamaste.img.xz'', ''/cdrom/install/llamaste.img.xz'']"

definition RAW_PATHS :: "string list" where
  "RAW_PATHS = [''/install/llamaste.img'', ''/media/cdrom/install/llamaste.img'', ''/cdrom/install/llamaste.img'']"

text \<open>The image: its path, whether it is compressed, and its size.\<close>

definition find_image :: "install_env \<Rightarrow> (string \<times> bool \<times> nat) option" where
  "find_image e =
     (let present = (\<lambda>xz p. map_option (\<lambda>n. (p, xz, n)) (file_size e p))
      in case (if have_lzma e then first_some (present True) XZ_PATHS else None) of
           Some i \<Rightarrow> Some i
         | None \<Rightarrow> (case first_some (present False) RAW_PATHS of
                      Some i \<Rightarrow> Some i
                    | None \<Rightarrow> first_some (present True) XZ_PATHS))"

definition data_partition :: "string \<Rightarrow> string" where
  "data_partition device =
     (let n = strip_dev device
      in (if starts_with ''nvme'' n \<or> starts_with ''mmcblk'' n then device @ ''p'' else device) @ ''5'')"

definition install_worker :: "install_env \<Rightarrow> string \<Rightarrow> InstallProgress \<Rightarrow> InstallProgress \<times> install_action list" where
  "install_worker e device p =
     (let p = (set_status (''Starting installation to '' @ device) p)\<lparr>percent := 0\<rparr>
      in if strip_partition (strip_dev device) = boot_device e then (fail_with (''Refusing to write to boot device: '' @ device) p, [])
         else if \<not> device_exists e then (fail_with (''Device not found: '' @ device) p, [])
         else case device_opens e of
           Some err \<Rightarrow> (fail_with (''Cannot open device: '' @ device @ '' ('' @ err @ '')'') p, [])
         | None \<Rightarrow>
             if device_size e < 512 * 1024 * 1024
             then (fail_with (''Disk too small: '' @ show_nat (device_size e div (1024 * 1024)) @ '' MB (need 512 MB+)'') p, [])
             else let p = (set_status ''Looking for installation image...'' p)\<lparr>percent := 5\<rparr>
                  in case find_image e of
                       None \<Rightarrow> (fail_with ''Installation image not found. Checked /install/ for llamaste.img and llamaste.img.xz'' p, [])
                     | Some (path, xz, sz) \<Rightarrow>
                         if xz \<and> \<not> have_lzma e
                         then (fail_with (''Found '' @ path @ '' but XZ decompression not available (liblzma not linked)'') p, [])
                         else let p = (set_status (''Writing image to '' @ device @ ''...'') p)\<lparr>percent := 10\<rparr>
                              in case copy_error e of
                                   Some err \<Rightarrow> (fail_with err (p\<lparr>percent := copied_percent e\<rparr>), [WriteImage path device])
                                 | None \<Rightarrow>
                                     ((set_status ''Installation complete! Remove the installation media and reboot.'' p)
                                        \<lparr>percent := 100, success := True, finished := True\<rparr>,
                                      [WriteImage path device, RereadTable device, ResizeData device,
                                       FormatData (data_partition device)]
                                      @ (if data_mounts e then [InitData (data_partition device)] else [])))"

text \<open>The tool: its reply, and whether the worker is started.\<close>

definition install_error :: "string \<Rightarrow> json" where
  "install_error m = jobj [(''error'', JString m)]"

definition handle_install_to_disk :: "json_text \<Rightarrow> string \<Rightarrow> InstallProgress \<Rightarrow> (string result \<times> string option) \<times> InstallProgress" where
  "handle_install_to_disk tx args p =
     (case snd tx args of
        None \<Rightarrow> ((dump_text tx (install_error ''Missing required parameter: device''), None), p)
      | Some j \<Rightarrow>
          if \<not> contains j ''device'' then ((dump_text tx (install_error ''Missing required parameter: device''), None), p)
          else case bindE (get_string (jmember j ''device'')) (\<lambda>d. bindE (jvalue get_bool j ''confirm'' False) (\<lambda>c. Inr (d, c))) of
                 Inl e \<Rightarrow> ((Inl e, None), p)
               | Inr (device, confirm) \<Rightarrow>
                   if \<not> confirm then
                     ((dump_text tx (install_error (''Installation requires confirm: true. WARNING: This will erase ALL data on '' @ device)), None), p)
                   else if running p then ((dump_text tx (install_error ''Installation already in progress''), None), p)
                   else ((dump_text tx (jobj [(''started'', JBool True), (''device'', JString device),
                            (''message'', JString ''Installation started. Monitor progress via /install/progress'')]), Some device),
                         idle_progress\<lparr>running := True\<rparr>))"

definition handle_install_progress :: "json_text \<Rightarrow> InstallProgress \<Rightarrow> string result" where
  "handle_install_progress tx p =
     dump_text tx (jobj ([(''percent'', JInt (percent p)), (''running'', JBool (running p)), (''finished'', JBool (finished p)),
       (''success'', JBool (success p)), (''status'', JString (status p))]
       @ (if error p \<noteq> [] then [(''error'', JString (error p))] else [])))"

end
