(* ===== verification/InstallerFacts.thy ===== *)
theory InstallerFacts
  imports Installer
begin

text \<open>
  The lemmas and properties of the installer: the partition table that it leaves on a disk, the
  checksum, the copy of the image, and which disks it refuses.
\<close>

unbundle bit_operations_syntax

section \<open>Bytes\<close>

lemma length_le_bytes [simp]: "length (le_bytes n w) = n"
  by (induction n arbitrary: w) auto

lemma le_word_bytes: "le_word (le_bytes n (w :: 'a::len word)) = take_bit (8 * n) w"
proof (induction n arbitrary: w)
  case (Suc n)
  have "ucast (ucast w :: byte) OR push_bit 8 (take_bit (8 * n) (drop_bit 8 w)) = take_bit (8 * Suc n) w"
  proof (rule bit_word_eqI)
    fix i
    assume "i < LENGTH('a)"
    then show "bit (ucast (ucast w :: byte) OR push_bit 8 (take_bit (8 * n) (drop_bit 8 w)) :: 'a word) i
        = bit (take_bit (8 * Suc n) w) i"
      by (cases "i < 8") (auto simp: bit_simps)
  qed
  with Suc show ?case by simp
qed simp

lemma le_word_16 [simp]: "le_word (le_bytes 2 (w :: u16)) = w"
  by (simp add: le_word_bytes take_bit_word_eq_self)

lemma le_word_32 [simp]: "le_word (le_bytes 4 (w :: u32)) = w"
  by (simp add: le_word_bytes take_bit_word_eq_self)

lemma le_word_64 [simp]: "le_word (le_bytes 8 (w :: u64)) = w"
  by (simp add: le_word_bytes take_bit_word_eq_self)

lemma length_put_bytes [simp]: "off + length bs \<le> length xs \<Longrightarrow> length (put_bytes off bs xs) = length xs"
  by (simp add: put_bytes_def)

lemma bytes_at_put_same: "off + length bs \<le> length xs \<Longrightarrow> n = length bs \<Longrightarrow> bytes_at off n (put_bytes off bs xs) = bs"
  by (simp add: bytes_at_def put_bytes_def)

lemma bytes_at_nth:
  "off + n \<le> length xs \<Longrightarrow> bytes_at off n xs = map (\<lambda>i. xs ! (off + i)) [0..<n]"
  by (rule nth_equalityI) (auto simp: bytes_at_def)

lemma put_bytes_nth:
  "off + length bs \<le> length xs \<Longrightarrow> i < length xs \<Longrightarrow>
     put_bytes off bs xs ! i = (if off \<le> i \<and> i < off + length bs then bs ! (i - off) else xs ! i)"
  by (auto simp: put_bytes_def nth_append)

lemma bytes_at_put_other:
  "off + length bs \<le> length xs \<Longrightarrow> i + n \<le> length xs \<Longrightarrow> i + n \<le> off \<or> off + length bs \<le> i \<Longrightarrow>
     bytes_at i n (put_bytes off bs xs) = bytes_at i n xs"
  by (auto simp: bytes_at_nth put_bytes_nth)

lemma bytes_at_drop: "bytes_at off n (drop k xs) = bytes_at (k + off) n xs"
  by (simp add: bytes_at_def add.commute)

lemma bit_le_word: "bit (le_word bs :: 'a::len word) i \<Longrightarrow> i < 8 * length bs"
proof (induction bs arbitrary: i)
  case (Cons b bs)
  show ?case
  proof (cases "i < 8")
    case False
    then have "bit (le_word bs :: 'a word) (i - 8)" using Cons.prems by (auto simp: bit_simps dest: bit_imp_le_length)
    from Cons.IH [OF this] show ?thesis by simp
  qed simp
qed simp

lemma le_bytes_le_word:
  "8 * length bs \<le> LENGTH('a) \<Longrightarrow> le_bytes (length bs) (le_word bs :: 'a::len word) = bs"
proof (induction bs)
  case (Cons b bs)
  let ?w = "le_word bs :: 'a word"
  have "ucast (ucast b OR push_bit 8 ?w) = b"
    by (rule bit_word_eqI) (use Cons.prems in \<open>auto simp: bit_simps\<close>)
  moreover have "drop_bit 8 (ucast b OR push_bit 8 ?w) = ?w"
  proof (rule bit_word_eqI)
    fix i
    show "bit (drop_bit 8 (ucast b OR push_bit 8 ?w)) i = bit ?w i"
      using bit_le_word [of bs i, where 'a = 'a] Cons.prems by (auto simp: bit_simps dest: bit_imp_le_length)
  qed
  ultimately show ?case using Cons by simp
qed simp

section \<open>Headers\<close>

definition framed :: "GPTHeader \<Rightarrow> bool" where
  "framed h \<longleftrightarrow> length (signature h) = 8 \<and> length (disk_guid h) = 16"

lemma length_header_bytes: "framed h \<Longrightarrow> length (header_bytes h) = HEADER_BYTES"
  by (simp add: header_bytes_def framed_def HEADER_BYTES_def)

lemma parse_header_bytes: "framed h \<Longrightarrow> parse_header (header_bytes h) = h"
  by (cases h) (simp add: parse_header_def header_bytes_def bytes_at_def framed_def)

lemma header_bytes_parse:
  assumes "length bs = HEADER_BYTES" shows "header_bytes (parse_header bs) = bs"
proof -
  have l: "length (bytes_at i n bs) = n" if "i + n \<le> 92" for i n
    using that assms by (simp add: bytes_at_def HEADER_BYTES_def)
  have w: "le_bytes 4 (le_word (bytes_at i 4 bs) :: u32) = bytes_at i 4 bs" if "i \<le> 88" for i
    using that l [of i 4] le_bytes_le_word [of "bytes_at i 4 bs", where 'a = 32] by simp
  have q: "le_bytes 8 (le_word (bytes_at i 8 bs) :: u64) = bytes_at i 8 bs" if "i \<le> 84" for i
    using that l [of i 8] le_bytes_le_word [of "bytes_at i 8 bs", where 'a = 64] by simp
  have j: "bytes_at 0 m bs @ bytes_at m k bs = bytes_at 0 (m + k) bs" for m k
    using take_add [of m k bs] by (simp add: bytes_at_def)
  have j': "bytes_at 0 m bs @ bytes_at m k bs @ xs = bytes_at 0 (m + k) bs @ xs" for m k xs
    using j [of m k] by (metis append.assoc)
  have "bytes_at 0 92 bs = bs" using assms by (simp add: bytes_at_def HEADER_BYTES_def)
  then show ?thesis by (simp add: header_bytes_def parse_header_def w q j j')
qed

lemma framed_parse: "length bs = HEADER_BYTES \<Longrightarrow> framed (parse_header bs)"
  by (simp add: framed_def parse_header_def bytes_at_def HEADER_BYTES_def)

lemma framed_update [simp]:
  "framed (h\<lparr>header_crc32 := c\<rparr>) = framed h" "framed (h\<lparr>my_lba := a\<rparr>) = framed h"
  "framed (h\<lparr>alternate_lba := a\<rparr>) = framed h" "framed (h\<lparr>last_usable_lba := a\<rparr>) = framed h"
  "framed (h\<lparr>partition_entry_lba := a\<rparr>) = framed h" "framed (h\<lparr>partition_array_crc32 := c\<rparr>) = framed h"
  by (simp_all add: framed_def)

section \<open>Disks\<close>

lemma length_disk_read [simp]: "length (disk_read off n d) = n"
  by (simp add: disk_read_def)

lemma read_other: "i + n \<le> off \<or> off + length bs \<le> i \<Longrightarrow> disk_read i n (disk_write off bs d) = disk_read i n d"
  by (auto simp: disk_read_def disk_write_def)

lemma read_same: "n = length bs \<Longrightarrow> disk_read off n (disk_write off bs d) = bs"
  by (rule nth_equalityI) (auto simp: disk_read_def disk_write_def)

lemma size_write [simp]: "disk_size (disk_write off bs d) = disk_size d"
  by (simp add: disk_write_def)

lemma byte_other: "i < off \<or> off + length bs \<le> i \<Longrightarrow> bytes_of (disk_write off bs d) i = bytes_of d i"
  by (auto simp: disk_write_def)

lemma bytes_at_read: "i + n \<le> m \<Longrightarrow> bytes_at i n (disk_read off m d) = disk_read (off + i) n d"
  by (rule nth_equalityI) (auto simp: bytes_at_def disk_read_def add.assoc)

text \<open>A disk without faults.\<close>

abbreviation no_faults :: disk_faults where "no_faults \<equiv> \<lambda>_. None"

lemma pread_ok: "off + n \<le> disk_size d \<Longrightarrow> pread no_faults k off n d = Some (disk_read off n d)"
  by (simp add: pread_def)

lemma pwrite_ok: "off + length bs \<le> disk_size d \<Longrightarrow> pwrite no_faults k off bs d = (True, disk_write off bs d)"
  by (simp add: pwrite_def Let_def)

section \<open>The table that is left\<close>

definition sealed :: "GPTHeader \<Rightarrow> bool" where
  "sealed h \<longleftrightarrow> header_crc32 h = crc32_gpt (header_bytes (h\<lparr>header_crc32 := 0\<rparr>))"

text \<open>What firmware checks of a header at a sector and of its entries.\<close>

definition gpt_at :: "disk \<Rightarrow> nat \<Rightarrow> GPTHeader \<Rightarrow> byte list \<Rightarrow> bool" where
  "gpt_at d lba h entries \<longleftrightarrow>
     h = parse_header (disk_read (lba * 512) HEADER_BYTES d) \<and> signature h = EFI_PART \<and> header_size h = 92
     \<and> unat (my_lba h) = lba \<and> sealed h
     \<and> entries = disk_read (unat (partition_entry_lba h) * 512) (unat (num_partition_entries h) * unat (partition_entry_size h)) d
     \<and> partition_array_crc32 h = crc32_gpt entries"

text \<open>An image as the build makes it, on a disk of \<open>n\<close> sectors: the entries in sector 2, of at most 32
  sectors, with a fifth partition that ends before the place of its new end.\<close>

definition image_on :: "disk \<Rightarrow> nat \<Rightarrow> GPTHeader \<Rightarrow> byte list \<Rightarrow> bool" where
  "image_on d n h entries \<longleftrightarrow>
     h = parse_header (disk_read 512 HEADER_BYTES d) \<and> signature h = EFI_PART \<and> header_size h = 92 \<and> my_lba h = 1
     \<and> partition_entry_lba h = 2 \<and> 5 \<le> num_partition_entries h \<and> num_partition_entries h \<le> 256
     \<and> 128 \<le> partition_entry_size h \<and> partition_entry_size h \<le> 4096
     \<and> unat (num_partition_entries h) * unat (partition_entry_size h) \<le> 32 * 512
     \<and> entries = disk_read 1024 (unat (num_partition_entries h) * unat (partition_entry_size h)) d
     \<and> has_type (drop (4 * unat (partition_entry_size h)) entries)
     \<and> n = disk_size d div 512 \<and> 1048576 \<le> n \<and> disk_size d < 2 ^ 63
     \<and> unat (starting_lba (drop (4 * unat (partition_entry_size h)) entries)) < n - 34
     \<and> unat (ending_lba (drop (4 * unat (partition_entry_size h)) entries)) < n - 34"

lemma seal_header_ok:
  "framed h \<Longrightarrow> header_size h = 92 \<Longrightarrow>
     seal_header h = Some (h\<lparr>header_crc32 := crc32_gpt (header_bytes (h\<lparr>header_crc32 := 0\<rparr>))\<rparr>)"
  using length_header_bytes [of "h\<lparr>header_crc32 := 0\<rparr>"] by (simp add: seal_header_def HEADER_BYTES_def Let_def)

definition seal :: "GPTHeader \<Rightarrow> GPTHeader" where
  "seal h = h\<lparr>header_crc32 := crc32_gpt (header_bytes (h\<lparr>header_crc32 := 0\<rparr>))\<rparr>"

lemma seal_simps [simp]:
  "signature (seal h) = signature h" "header_size (seal h) = header_size h" "my_lba (seal h) = my_lba h"
  "partition_entry_lba (seal h) = partition_entry_lba h" "num_partition_entries (seal h) = num_partition_entries h"
  "partition_entry_size (seal h) = partition_entry_size h" "partition_array_crc32 (seal h) = partition_array_crc32 h"
  "alternate_lba (seal h) = alternate_lba h" "last_usable_lba (seal h) = last_usable_lba h"
  "framed (seal h) = framed h" "sealed (seal h)"
  by (simp_all add: seal_def sealed_def)

definition grown :: "nat \<Rightarrow> GPTHeader \<Rightarrow> byte list \<Rightarrow> byte list" where
  "grown n h entries = put_bytes (4 * unat (partition_entry_size h) + 40) (le_bytes 8 (of_nat (n - 34) :: u64)) entries"

definition new_primary :: "nat \<Rightarrow> GPTHeader \<Rightarrow> byte list \<Rightarrow> GPTHeader" where
  "new_primary n h entries =
     seal (h\<lparr>last_usable_lba := of_nat (n - 34), alternate_lba := of_nat (n - 1), partition_array_crc32 := crc32_gpt entries\<rparr>)"

definition new_backup :: "nat \<Rightarrow> GPTHeader \<Rightarrow> byte list \<Rightarrow> GPTHeader" where
  "new_backup n h entries =
     seal ((new_primary n h entries)\<lparr>my_lba := of_nat (n - 1), alternate_lba := 1, partition_entry_lba := of_nat (n - 33)\<rparr>)"

lemma sector_numbers:
  fixes sz :: nat
  assumes "n = sz div 512" "2048 \<le> n" "sz < 2 ^ 63"
  shows "unat (of_nat sz div 512 :: u64) = n" "(of_nat sz div 512 :: u64) = of_nat n"
    "k \<le> 34 \<Longrightarrow> (of_nat n :: u64) - of_nat k = of_nat (n - k)"
    "k \<le> 34 \<Longrightarrow> unat ((of_nat (n - k) :: u64) * 512) = (n - k) * 512" "k \<le> 34 \<Longrightarrow> unat (of_nat (n - k) :: u64) = n - k"
proof -
  have n: "n * 512 < 2 ^ 63" using assms by (metis div_mult_mod_eq le_add1 order_le_less_trans)
  show u: "unat (of_nat sz div 512 :: u64) = n"
    using assms by (simp add: unat_div unat_of_nat take_bit_nat_eq_self_iff)
  then show "(of_nat sz div 512 :: u64) = of_nat n" by (metis of_nat_unat ucast_id)
  show "k \<le> 34 \<Longrightarrow> (of_nat n :: u64) - of_nat k = of_nat (n - k)" using assms by (simp add: of_nat_diff)
  show k: "k \<le> 34 \<Longrightarrow> unat (of_nat (n - k) :: u64) = n - k"
    using n by (simp add: unat_of_nat take_bit_nat_eq_self_iff)
  show "k \<le> 34 \<Longrightarrow> unat ((of_nat (n - k) :: u64) * 512) = (n - k) * 512"
    using n k by (simp add: unat_mult_lem [THEN iffD1] unat_of_nat take_bit_nat_eq_self_iff)
qed

lemma image_bounds:
  assumes "image_on d n h entries"
  shows "framed h" "unat (num_partition_entries h * partition_entry_size h) = unat (num_partition_entries h) * unat (partition_entry_size h)"
    "unat (4 * partition_entry_size h) = 4 * unat (partition_entry_size h)"
    "4 * unat (partition_entry_size h) + 128 \<le> length entries" "length entries \<le> 16384" "n * 512 \<le> disk_size d" "1048576 \<le> n" "2048 \<le> n"
proof -
  let ?n = "unat (num_partition_entries h)" and ?s = "unat (partition_entry_size h)"
  show "framed h" using assms framed_parse [of "disk_read 512 HEADER_BYTES d"] by (simp add: image_on_def)
  have b: "?n * ?s \<le> 16384" "5 \<le> ?n" "128 \<le> ?s" "?s \<le> 4096"
    using assms by (auto simp: image_on_def word_le_nat_alt)
  then show "unat (num_partition_entries h * partition_entry_size h) = ?n * ?s"
    by (intro unat_mult_lem [THEN iffD1]) simp
  show "unat (4 * partition_entry_size h) = 4 * ?s"
    using b unat_mult_lem [of "4 :: u32" "partition_entry_size h"] by simp
  have l: "length entries = ?n * ?s" using assms by (simp add: image_on_def)
  have "5 * ?s \<le> ?n * ?s" using b(2) by (rule mult_right_mono) simp
  with l b(1, 3) show "4 * ?s + 128 \<le> length entries" "length entries \<le> 16384" by linarith+
  show "n * 512 \<le> disk_size d" "1048576 \<le> n" "2048 \<le> n" using assms by (auto simp: image_on_def)
qed

definition rewritten :: "disk \<Rightarrow> nat \<Rightarrow> GPTHeader \<Rightarrow> byte list \<Rightarrow> disk" where
  "rewritten d n h e =
     (let p = new_primary n h e; b = new_backup n h e;
          d4 = disk_write ((n - 1) * 512) (header_bytes b) (disk_write ((n - 33) * 512) e
                 (disk_write 512 (header_bytes p) (disk_write 1024 e d)))
      in disk_write 0 (update_mbr (of_nat n) (disk_read 0 512 d4)) d4)"

definition resized :: "disk \<Rightarrow> nat \<Rightarrow> GPTHeader \<Rightarrow> byte list \<Rightarrow> disk" where
  "resized d n h entries = rewritten d n h (grown n h entries)"

lemma length_update_mbr [simp]: "length mbr = 512 \<Longrightarrow> length (update_mbr s mbr) = 512"
  by (simp add: update_mbr_def)

text \<open>The writes of both copies of a table, with new entries, on a disk that is large enough.\<close>

definition tables_fit :: "disk \<Rightarrow> nat \<Rightarrow> GPTHeader \<Rightarrow> byte list \<Rightarrow> bool" where
  "tables_fit d n h e \<longleftrightarrow> framed h \<and> header_size h = 92 \<and> partition_entry_lba h = 2 \<and> length e \<le> 16384
     \<and> n = disk_size d div 512 \<and> 2048 \<le> n \<and> disk_size d < 2 ^ 63"

lemma tables_fitD:
  assumes "tables_fit d n h e"
  shows "framed h" "header_size h = 92" "partition_entry_lba h = 2" "length e \<le> 16384"
    "n = disk_size d div 512" "2048 \<le> n" "disk_size d < 2 ^ 63" "n * 512 \<le> disk_size d"
  using assms by (auto simp: tables_fit_def)

lemma new_headers [simp]:
  "framed (new_primary n h e) = framed h" "header_size (new_primary n h e) = header_size h"
  "partition_entry_lba (new_primary n h e) = partition_entry_lba h" "framed (new_backup n h e) = framed h"
  "header_size (new_backup n h e) = header_size h" "num_partition_entries (new_primary n h e) = num_partition_entries h"
  "partition_entry_size (new_primary n h e) = partition_entry_size h" "signature (new_primary n h e) = signature h"
  "num_partition_entries (new_backup n h e) = num_partition_entries h" "signature (new_backup n h e) = signature h"
  "partition_entry_size (new_backup n h e) = partition_entry_size h" "my_lba (new_primary n h e) = my_lba h"
  "my_lba (new_backup n h e) = of_nat (n - 1)" "partition_entry_lba (new_backup n h e) = of_nat (n - 33)"
  "last_usable_lba (new_primary n h e) = of_nat (n - 34)" "last_usable_lba (new_backup n h e) = of_nat (n - 34)"
  "alternate_lba (new_primary n h e) = of_nat (n - 1)" "alternate_lba (new_backup n h e) = 1"
  "partition_array_crc32 (new_primary n h e) = crc32_gpt e" "partition_array_crc32 (new_backup n h e) = crc32_gpt e"
  "sealed (new_primary n h e)" "sealed (new_backup n h e)"
  by (simp_all add: new_primary_def new_backup_def)

lemma sealed_primary:
  "tables_fit d n h e \<Longrightarrow>
   seal_header (h\<lparr>last_usable_lba := of_nat (n - 34), alternate_lba := of_nat (n - 1), partition_array_crc32 := crc32_gpt e\<rparr>)
     = Some (new_primary n h e)"
  by (simp add: tables_fit_def seal_header_ok new_primary_def seal_def)

lemma rewritten_result:
  assumes fit: "tables_fit d n h e"
  defines "p \<equiv> new_primary n h e"
  defines "d1 \<equiv> disk_write 1024 e d"
  defines "d2 \<equiv> disk_write 512 (header_bytes p) d1"
  shows "pwrite no_faults 4 (unat (partition_entry_lba h * 512)) e d = (True, d1)"
    "pwrite no_faults 5 512 (header_bytes p) d1 = (True, d2)"
    "\<exists>d4. write_backup no_faults (of_nat n) p e d2 = Some d4 \<and> write_mbr no_faults (of_nat n) d4 = rewritten d n h e"
proof -
  note b = tables_fitD [OF fit]
  note s = sector_numbers [OF b(5, 6, 7)]
  let ?b = "new_backup n h e"
  let ?d3 = "disk_write ((n - 33) * 512) e d2"
  let ?d4 = "disk_write ((n - 1) * 512) (header_bytes ?b) ?d3"
  have f: "framed p" "framed ?b" using b(1) by (simp_all add: p_def)
  show "pwrite no_faults 4 (unat (partition_entry_lba h * 512)) e d = (True, d1)"
    using b by (simp add: pwrite_ok d1_def)
  show "pwrite no_faults 5 512 (header_bytes p) d1 = (True, d2)"
    using b by (simp add: pwrite_ok d1_def d2_def length_header_bytes [OF f(1)] HEADER_BYTES_def)
  have w6: "pwrite no_faults 6 (unat ((of_nat (n - 33) :: u64) * 512)) e d2 = (True, ?d3)"
    using b(4, 6, 8) s(4) [of 33] by (subst pwrite_ok) (simp_all add: d1_def d2_def)
  have w7: "pwrite no_faults 7 (unat ((of_nat (n - 1) :: u64) * 512)) (header_bytes ?b) ?d3 = (True, ?d4)"
    using b(6, 8) s(4) [of 1] by (subst pwrite_ok) (simp_all add: d1_def d2_def length_header_bytes [OF f(2)] HEADER_BYTES_def)
  have sb: "seal_header (p\<lparr>my_lba := of_nat (n - 1), alternate_lba := 1, partition_entry_lba := of_nat (n - 33)\<rparr>) = Some ?b"
    using b by (simp add: p_def seal_header_ok new_backup_def seal_def)
  have "write_backup no_faults (of_nat n) p e d2 = Some ?d4"
    using s(3) [of 1] s(3) [of 33] by (simp add: write_backup_def Let_def w6 w7 sb del: One_nat_def)
  moreover have "write_mbr no_faults (of_nat n) ?d4 = rewritten d n h e"
    using b by (simp add: write_mbr_def pread_ok pwrite_ok rewritten_def Let_def d1_def d2_def p_def del: One_nat_def)
  ultimately show "\<exists>d4. write_backup no_faults (of_nat n) p e d2 = Some d4 \<and> write_mbr no_faults (of_nat n) d4 = rewritten d n h e"
    by blast
qed

lemma rewritten_size [simp]: "disk_size (rewritten d n h e) = disk_size d"
  by (simp add: rewritten_def Let_def)

lemma rewritten_reads:
  assumes "tables_fit d n h e"
  shows "disk_read 512 HEADER_BYTES (rewritten d n h e) = header_bytes (new_primary n h e)"
    "disk_read 1024 (length e) (rewritten d n h e) = e"
    "disk_read ((n - 33) * 512) (length e) (rewritten d n h e) = e"
    "disk_read ((n - 1) * 512) HEADER_BYTES (rewritten d n h e) = header_bytes (new_backup n h e)"
    "34 * 512 \<le> i \<Longrightarrow> i < (n - 33) * 512 \<Longrightarrow> bytes_of (rewritten d n h e) i = bytes_of d i"
proof -
  note b = tables_fitD [OF assms]
  have f: "framed (new_primary n h e)" "framed (new_backup n h e)" using b(1) by simp_all
  note l = length_header_bytes [OF f(1)] length_header_bytes [OF f(2)]
  have le: "length e \<le> 16384" by (rule b(4))
  have n: "n - 33 = Suc (n - 34)" "(n - 33) * 512 + 16384 = (n - 1) * 512" "(n - 34) * 512 \<ge> 1000000" using b(6) by simp_all
  note r = rewritten_def Let_def HEADER_BYTES_def l [unfolded HEADER_BYTES_def]
  show "disk_read 512 HEADER_BYTES (rewritten d n h e) = header_bytes (new_primary n h e)"
    using le n by (simp add: r read_other read_same)
  show "disk_read 1024 (length e) (rewritten d n h e) = e"
    using le n by (simp add: r read_other read_same)
  show "disk_read ((n - 33) * 512) (length e) (rewritten d n h e) = e"
    using le n by (simp add: r read_other read_same)
  show "disk_read ((n - 1) * 512) HEADER_BYTES (rewritten d n h e) = header_bytes (new_backup n h e)"
    using le n by (simp add: r read_other read_same)
  show "34 * 512 \<le> i \<Longrightarrow> i < (n - 33) * 512 \<Longrightarrow> bytes_of (rewritten d n h e) i = bytes_of d i"
    using le n by (simp add: r byte_other)
qed

lemma rewritten_gpt:
  assumes "tables_fit d n h e" "signature h = EFI_PART" "my_lba h = 1"
    "length e = unat (num_partition_entries h) * unat (partition_entry_size h)"
  shows "gpt_at (rewritten d n h e) 1 (new_primary n h e) e" "gpt_at (rewritten d n h e) (n - 1) (new_backup n h e) e"
proof -
  note b = tables_fitD [OF assms(1)] and r = rewritten_reads [OF assms(1)]
  note s = sector_numbers [OF b(5, 6, 7)]
  have f: "framed (new_primary n h e)" "framed (new_backup n h e)" using b(1) by simp_all
  show "gpt_at (rewritten d n h e) 1 (new_primary n h e) e"
    using r(1, 2) assms(2-4) b(2, 3) by (simp add: gpt_at_def parse_header_bytes [OF f(1)])
  show "gpt_at (rewritten d n h e) (n - 1) (new_backup n h e) e"
    using r(3, 4) assms(2-4) b(2, 3) s(5) [of 1] s(5) [of 33]
    by (simp add: gpt_at_def parse_header_bytes [OF f(2)] del: One_nat_def)
qed

lemma image_fits:
  assumes "image_on d n h entries" shows "tables_fit d n h (grown n h entries)"
  using image_bounds [OF assms] assms by (auto simp: tables_fit_def image_on_def grown_def)

lemma resize_result:
  assumes "image_on d n h entries"
  shows "resize_gpt_data_partition no_faults d = Some (0, resized d n h entries)"
proof -
  note b = image_bounds [OF assms]
  have i: "h = parse_header (disk_read 512 HEADER_BYTES d)" "signature h = EFI_PART" "header_size h = 92"
    "my_lba h = 1" "partition_entry_lba h = 2" "n = disk_size d div 512" "disk_size d < 2 ^ 63"
    "entries = disk_read 1024 (unat (num_partition_entries h) * unat (partition_entry_size h)) d"
    "has_type (drop (4 * unat (partition_entry_size h)) entries)"
    "unat (starting_lba (drop (4 * unat (partition_entry_size h)) entries)) < n - 34"
    "unat (ending_lba (drop (4 * unat (partition_entry_size h)) entries)) < n - 34"
    "\<not> num_partition_entries h < 5" "\<not> num_partition_entries h > 256" "\<not> partition_entry_size h < 128"
    "\<not> partition_entry_size h > 4096" "num_partition_entries h \<noteq> 0"
    using assms by (auto simp: image_on_def)
  note s = sector_numbers [OF i(6) b(8) i(7)]
  have last: "(of_nat (disk_size d) div 512 :: u64) - 34 = of_nat (n - 34)"
    using s(2) s(3) [of 34] by simp
  have far: "\<not> (of_nat (n - 34) :: u64) \<le> starting_lba (drop (4 * unat (partition_entry_size h)) entries)"
    "\<not> (of_nat (n - 34) :: u64) \<le> ending_lba (drop (4 * unat (partition_entry_size h)) entries)"
    using i(10, 11) s(5) [of 34] by (simp_all add: word_le_nat_alt)
  have hdr: "pread no_faults 2 512 HEADER_BYTES d = Some (disk_read 512 HEADER_BYTES d)"
    using b(6, 7) by (intro pread_ok) (simp add: HEADER_BYTES_def)
  have ent: "pread no_faults 3 (unat (partition_entry_lba h * 512)) (unat (num_partition_entries h * partition_entry_size h)) d = Some entries"
    using b(5, 6, 7) i(8) by (subst pread_ok) (simp_all add: i(5) b(2))
  have "resize_gpt_data_partition no_faults d = write_tables no_faults (of_nat (disk_size d) div 512) h entries d"
    by (simp add: resize_gpt_data_partition_def hdr Let_def i(1) [symmetric] i(2) i(9) i(12-16) ent b(3) last far del: not_less)
  also have "\<dots> = Some (0, resized d n h entries)"
  proof -
    note fit = image_fits [OF assms]
    obtain d4 where d4: "write_backup no_faults (of_nat n) (new_primary n h (grown n h entries)) (grown n h entries)
        (disk_write 512 (header_bytes (new_primary n h (grown n h entries))) (disk_write 1024 (grown n h entries) d)) = Some d4"
      "write_mbr no_faults (of_nat n) d4 = rewritten d n h (grown n h entries)"
      using rewritten_result(3) [OF fit] by blast
    show ?thesis
      using s(3) [of 1] last d4 rewritten_result(1, 2) [OF fit] sealed_primary [OF fit]
      by (simp add: write_tables_def Let_def s(2) b(3) grown_def [symmetric] resized_def del: One_nat_def)
  qed
  finally show ?thesis .
qed

text \<open>
  C19: after an installation the partition table of the disk is valid at both ends: the header in
  sector 1 and its copy in the last sector have the right checksums over themselves and over their
  entries, point at each other and name the same last usable sector; only the end of the fifth
  partition has changed, to that sector, and no byte between the tables is touched.
\<close>

theorem resized_table_is_valid:
  assumes "image_on d n h entries"
  shows "\<exists>d' p b e. resize_gpt_data_partition no_faults d = Some (0, d') \<and> gpt_at d' 1 p e \<and> gpt_at d' (n - 1) b e
    \<and> alternate_lba p = my_lba b \<and> alternate_lba b = my_lba p
    \<and> last_usable_lba p = of_nat (n - 34) \<and> last_usable_lba b = of_nat (n - 34)
    \<and> e = put_bytes (4 * unat (partition_entry_size h) + 40) (le_bytes 8 (of_nat (n - 34) :: u64)) entries
    \<and> ending_lba (drop (4 * unat (partition_entry_size h)) e) = of_nat (n - 34)
    \<and> (\<forall>i \<in> {34 * 512..<(n - 33) * 512}. bytes_of d' i = bytes_of d i)"
proof -
  note b = image_bounds [OF assms] and fit = image_fits [OF assms]
  let ?e = "grown n h entries"
  let ?d = "rewritten d n h ?e"
  have i: "signature h = EFI_PART" "my_lba h = 1" "length ?e = unat (num_partition_entries h) * unat (partition_entry_size h)"
    using assms b(4) by (auto simp: image_on_def grown_def)
  have ending: "ending_lba (drop (4 * unat (partition_entry_size h)) ?e) = of_nat (n - 34)"
    using b(4) by (simp add: ending_lba_def bytes_at_drop grown_def bytes_at_put_same)
  have far: "\<forall>i \<in> {34 * 512..<(n - 33) * 512}. bytes_of ?d i = bytes_of d i"
    using rewritten_reads(5) [OF fit] by simp
  show ?thesis
    using resize_result [OF assms] rewritten_gpt [OF fit i] i(2) ending far
    by - (rule exI [of _ ?d], rule exI [of _ "new_primary n h ?e"], rule exI [of _ "new_backup n h ?e"], rule exI [of _ ?e],
      simp add: resized_def grown_def)
qed

definition demo_header :: GPTHeader where
  "demo_header = \<lparr>signature = EFI_PART, revision = 0x10000, header_size = 92, header_crc32 = 0, reserved = 0, my_lba = 1,
     alternate_lba = 0, first_usable_lba = 34, last_usable_lba = 0, disk_guid = replicate 16 0, partition_entry_lba = 2,
     num_partition_entries = 5, partition_entry_size = 128, partition_array_crc32 = 0\<rparr>"

definition demo_disk :: disk where
  "demo_disk = disk_write 1536 [1] (disk_write 512 (header_bytes demo_header) \<lparr>bytes_of = (\<lambda>_. 0), disk_size = 2 ^ 29\<rparr>)"

lemma demo_framed: "framed demo_header"
  by (simp add: framed_def demo_header_def EFI_PART_def)

lemma demo_zeros: "1537 \<le> k \<Longrightarrow> disk_read k m demo_disk = replicate m 0"
  using length_header_bytes [OF demo_framed]
  by (intro nth_equalityI) (simp_all add: demo_disk_def disk_read_def disk_write_def HEADER_BYTES_def)

lemma demo_image: "image_on demo_disk 1048576 demo_header (disk_read 1024 640 demo_disk)"
proof -
  have l: "length (header_bytes demo_header) = 92" using length_header_bytes [OF demo_framed] by (simp add: HEADER_BYTES_def)
  have h: "disk_read 512 HEADER_BYTES demo_disk = header_bytes demo_header"
    by (simp add: demo_disk_def HEADER_BYTES_def read_other read_same l)
  have z: "le_word (replicate 8 0) = (0 :: u64)" by (simp add: eval_nat_numeral)
  have st: "starting_lba (drop 512 (disk_read 1024 640 demo_disk)) = 0" "ending_lba (drop 512 (disk_read 1024 640 demo_disk)) = 0"
    by (simp_all add: starting_lba_def ending_lba_def bytes_at_drop bytes_at_read demo_zeros z)
  have "bytes_of demo_disk 1536 = 1" by (simp add: demo_disk_def disk_write_def)
  then have "has_type (drop 512 (disk_read 1024 640 demo_disk))"
    by (simp add: has_type_def bytes_at_drop bytes_at_read) (simp add: disk_read_def upt_rec)
  with st show ?thesis
    unfolding image_on_def h parse_header_bytes [OF demo_framed]
    by (simp add: demo_header_def demo_disk_def)
qed

theorem resized_table_is_valid_witness:
  "map_option fst (resize_gpt_data_partition no_faults demo_disk) = Some 0"
  using resized_table_is_valid [OF demo_image] by auto

section \<open>The checksum\<close>

lemma crc_bit_inj [simp]: "crc_bit a = crc_bit b \<longleftrightarrow> a = b"
proof
  assume e: "crc_bit a = crc_bit b"
  have c: "crc_bit x = drop_bit 1 x XOR (if bit x 0 then 0xEDB88320 else 0)" for x :: u32
    by (simp add: crc_bit_def and_one_eq mod_2_eq_odd bit_0)
  have top: "bit (crc_bit x) 31 = bit x 0" for x :: u32
    by (simp add: c bit_simps) (auto simp: bit_numeral_rec dest: bit_imp_le_length)
  have low: "bit a 0 = bit b 0" using arg_cong [OF e, of "\<lambda>x. bit x 31"] by (simp only: top)
  have "drop_bit 1 a = drop_bit 1 b"
  proof -
    have "crc_bit a XOR (if bit a 0 then 0xEDB88320 else 0) = crc_bit b XOR (if bit a 0 then 0xEDB88320 else 0)"
      by (simp only: e)
    then show ?thesis by (simp only: c low xor.assoc xor_self_eq xor.right_neutral)
  qed
  then have "bit (drop_bit 1 a) i = bit (drop_bit 1 b) i" for i by (simp only:)
  then have "bit a (Suc i) = bit b (Suc i)" for i by (simp add: bit_drop_bit_eq)
  with low show "a = b" by (intro bit_eqI) (metis not0_implies_Suc)
qed simp

lemma crc_byte_inj [simp]: "crc_byte b x = crc_byte b y \<longleftrightarrow> x = y" "crc_byte b x = crc_byte c x \<longleftrightarrow> b = c"
proof -
  have p: "(crc_bit ^^ n) x = (crc_bit ^^ n) y \<longleftrightarrow> x = y" for n x y
    by (induction n) auto
  have x: "x XOR w = y XOR w \<longleftrightarrow> x = y" for x y w :: u32
    by (metis xor.assoc xor_self_eq xor.right_neutral)
  have u: "(ucast b :: u32) = ucast c \<longleftrightarrow> b = c"
  proof
    assume "(ucast b :: u32) = ucast c"
    then have "(ucast (ucast b :: u32) :: byte) = ucast (ucast c :: u32)" by simp
    then show "b = c" by (simp add: ucast_up_ucast_id is_up)
  qed simp
  show "crc_byte b x = crc_byte b y \<longleftrightarrow> x = y" by (simp add: crc_byte_def p x)
  show "crc_byte b x = crc_byte c x \<longleftrightarrow> b = c" using x by (simp add: crc_byte_def p xor.commute [of x] u)
qed

lemma crc_fold_inj: "fold crc_byte bs x = fold crc_byte bs y \<longleftrightarrow> x = y"
  by (induction bs arbitrary: x y) simp_all

text \<open>
  the checksum of the partition table detects every change of a single byte of the data it covers.
\<close>

theorem crc_detects_byte:
  assumes "b \<noteq> c"
  shows "crc32_gpt (xs @ [b] @ ys) \<noteq> crc32_gpt (xs @ [c] @ ys)"
  using assms by (simp add: crc32_gpt_def crc_fold_inj)

theorem crc_detects_byte_witness: "crc32_gpt ([1] @ [2] @ [3]) \<noteq> crc32_gpt ([1] @ [4] @ [3])"
  using crc_detects_byte [of 2 4 "[1]" "[3]"] by simp

section \<open>The copy\<close>

lemma write_all_writes:
  "write_all w k buf dev = ((k', ok), dev') \<Longrightarrow> \<exists>p q. buf = p @ q \<and> dev' = dev @ p \<and> (ok \<longleftrightarrow> q = [])"
proof (induction w k buf dev arbitrary: k' ok dev' rule: write_all.induct)
  case (1 w k buf dev)
  show ?case
  proof (cases "buf = [] \<or> w k (length buf) \<le> 0")
    case True
    with 1(2) show ?thesis by (subst (asm) write_all.simps) (auto split: if_splits)
  next
    case False
    let ?n = "min (nat (w k (length buf))) (length buf)"
    from False 1(2) have "write_all w (k + 1) (drop ?n buf) (dev @ take ?n buf) = ((k', ok), dev')"
      by (subst (asm) write_all.simps) (simp add: Let_def)
    with 1(1) [OF _ _ refl] False obtain p q
      where "drop ?n buf = p @ q" "dev' = (dev @ take ?n buf) @ p" "ok \<longleftrightarrow> q = []" by blast
    then have "buf = (take ?n buf @ p) @ q \<and> dev' = dev @ (take ?n buf @ p) \<and> (ok \<longleftrightarrow> q = [])"
      using append_take_drop_id [of ?n buf] by simp
    then show ?thesis by blast
  qed
qed

lemma copy_loop_writes:
  "copy_loop w ps pe sz fin k n cs dev pct = (err, dev', pct') \<Longrightarrow>
     \<exists>p q. concat cs = p @ q \<and> dev' = dev @ p \<and> (err = None \<longrightarrow> q = [] \<and> fin = EndOfFile)"
proof (induction cs arbitrary: k n dev pct)
  case Nil
  then show ?case by (cases fin) auto
next
  case (Cons c cs)
  obtain k' ok d where w: "write_all w k c dev = ((k', ok), d)" by (metis prod.exhaust)
  obtain p q where pq: "c = p @ q" "d = dev @ p" "ok \<longleftrightarrow> q = []" using write_all_writes [OF w] by blast
  show ?case
  proof (cases ok)
    case True
    with Cons.prems w have "copy_loop w ps pe sz fin k' (n + length c) cs d (copy_percent ps pe (n + length c) sz pct) = (err, dev', pct')"
      by (simp add: Let_def)
    from Cons.IH [OF this] obtain r s where "concat cs = r @ s" "dev' = d @ r" "err = None \<longrightarrow> s = [] \<and> fin = EndOfFile" by blast
    with pq True have "concat (c # cs) = (c @ r) @ s \<and> dev' = dev @ (c @ r) \<and> (err = None \<longrightarrow> s = [] \<and> fin = EndOfFile)" by simp
    then show ?thesis by blast
  next
    case False
    with Cons.prems w have "err \<noteq> None" "dev' = d" by auto
    with pq have "concat (c # cs) = p @ (q @ concat cs) \<and> dev' = dev @ p \<and> (err = None \<longrightarrow> q @ concat cs = [] \<and> fin = EndOfFile)" by auto
    then show ?thesis by blast
  qed
qed

text \<open>
  however the kernel splits the writes of the image, the device holds a prefix of the image when the
  copy ends, and the whole image when it reports success, which it only does at the end of the file.
\<close>

theorem copy_is_exact:
  "case copy_file_to_device w sz fin chunks of (err, dev, pct) \<Rightarrow>
     \<exists>rest. concat chunks = dev @ rest \<and> (if err = None then rest = [] \<and> fin = EndOfFile else True)"
proof -
  obtain err dev pct where c: "copy_loop w 10 60 sz fin 0 0 chunks [] 10 = (err, dev, pct)" by (metis prod.exhaust)
  then show ?thesis using copy_loop_writes [OF c] by (auto simp: copy_file_to_device_def)
qed

section \<open>The boot disk\<close>

abbreviation digits :: "string \<Rightarrow> bool" where "digits \<equiv> list_all is_digit"

lemma dropWhile_digits: "digits n \<Longrightarrow> dropWhile is_digit (n @ s) = dropWhile is_digit s"
  by (induction n) auto

lemma strip_digits: "digits n \<Longrightarrow> s \<noteq> [] \<Longrightarrow> \<not> is_digit (last s) \<Longrightarrow>
    strip_partition (s @ n) = (if last s = CHR ''p'' then butlast s else s)"
  using dropWhile_digits [of "rev n" "rev s"]
  by (cases s rule: rev_cases) (auto simp: strip_partition_def Let_def)

lemma cmdline_root_device:
  assumes "CHR '' '' \<notin> set d"
  shows "cmdline_root (''root=/dev/'' @ d @ '' '' @ rest) = Some (strip_partition d)"
proof -
  have "find_sub ''root='' (''root=/dev/'' @ d @ '' '' @ rest) = Some 0"
    by (simp add: starts_with_def)
  moreover have "takeWhile (\<lambda>c. c \<noteq> CHR '' '') (d @ '' '' @ rest) = d"
    using assms by (subst takeWhile_append2) auto
  ultimately show ?thesis by (simp add: cmdline_root_def Let_def starts_with_def)
qed

lemma digits_no_space: "digits n \<Longrightarrow> CHR '' '' \<notin> set n"
  by (induction n) (auto simp: is_digit_def)

lemma strip_dev_simp [simp]: "strip_dev (''/dev/'' @ s) = s"
  by (simp add: strip_dev_def starts_with_def)

text \<open>
  when the live system runs from a disk whose name has no digit at its end, as the SCSI and
  virtio names, the installer writes to that disk under no name: neither to the disk nor to a
  partition of it.
\<close>

theorem boot_disk_is_spared:
  assumes "d \<noteq> []" "\<not> is_digit (last d)" "last d \<noteq> CHR ''p''" "CHR '' '' \<notin> set d" "digits n" "digits m"
    and "boot_device e = find_boot_device (Some (''root=/dev/'' @ d @ n @ '' '' @ rest)) mounts"
  shows "install_worker e (''/dev/'' @ d @ m) p
     = (fail_with (''Refusing to write to boot device: '' @ ''/dev/'' @ d @ m)
          ((set_status (''Starting installation to '' @ ''/dev/'' @ d @ m) p)\<lparr>percent := 0\<rparr>), [])"
proof -
  have "boot_device e = d"
    using assms cmdline_root_device [of "d @ n" rest] strip_digits [OF assms(5) assms(1, 2)] digits_no_space
    by (simp add: find_boot_device_def)
  moreover have "strip_partition (strip_dev (''/dev/'' @ d @ m)) = d"
    using assms strip_digits [OF assms(6) assms(1, 2)] by (simp only: strip_dev_simp) simp
  ultimately show ?thesis by (simp add: install_worker_def Let_def)
qed

definition demo_env :: "string \<Rightarrow> install_env" where
  "demo_env dev =
     \<lparr>boot_device = find_boot_device (Some (''root=/dev/'' @ dev @ '' '' @ ''quiet'')) [], device_exists = True,
      device_opens = None, device_size = 2 ^ 30,
      file_size = (\<lambda>p. if p = ''/install/llamaste.img'' then Some 500000000 else None),
      have_lzma = False, copy_error = None, copied_percent = 60, data_mounts = True\<rparr>"

theorem boot_disk_is_spared_witness:
  "snd (install_worker (demo_env ''sda2'') ''/dev/sda'' idle_progress) = []"
proof -
  have "boot_device (demo_env ''sda2'') = find_boot_device (Some (''root=/dev/'' @ ''sda'' @ ''2'' @ '' '' @ ''quiet'')) []"
    by (simp add: demo_env_def)
  from boot_disk_is_spared [of "''sda''" "''2''" "[]", OF _ _ _ _ _ _ this, of idle_progress]
  show ?thesis by (simp add: is_digit_def)
qed

text \<open>
  when it runs from a disk with a number at its end, as the NVMe and MMC names, and is told to
  install to that disk, it overwrites it: the number is taken for that of a partition.
\<close>

theorem numbered_boot_disk_is_overwritten:
  assumes "d \<noteq> []" "\<not> is_digit (last d)" "CHR '' '' \<notin> set d" "digits k" "k \<noteq> []" "digits n"
    and "boot_device e = find_boot_device (Some (''root=/dev/'' @ (d @ k @ ''p'' @ n) @ '' '' @ rest)) mounts"
    and "device_exists e" "device_opens e = None" "512 * 1024 * 1024 \<le> device_size e"
    and "find_image e = Some (path, False, sz)"
  shows "boot_device e = d @ k \<and> WriteImage path (''/dev/'' @ d @ k) \<in> set (snd (install_worker e (''/dev/'' @ d @ k) p))"
proof -
  have b: "boot_device e = d @ k"
    using assms(7) cmdline_root_device [of "d @ k @ ''p'' @ n" rest] strip_digits [OF assms(6), of "d @ k @ ''p''"]
      digits_no_space [OF assms(4)] digits_no_space [OF assms(6)] assms(3)
    by (simp add: find_boot_device_def butlast_append is_digit_def)
  have "strip_partition (strip_dev (''/dev/'' @ d @ k)) = (if last d = CHR ''p'' then butlast d else d)"
    using strip_digits [OF assms(4) assms(1, 2)] by (simp only: strip_dev_simp)
  then have "strip_partition (strip_dev (''/dev/'' @ d @ k)) \<noteq> d @ k"
    using assms(5) by (metis append_butlast_last_id append_is_Nil_conv append_self_conv assms(1) butlast_append not_Cons_self2 self_append_conv same_append_eq append.assoc)
  with b assms(8-) show ?thesis
    by (auto simp: install_worker_def Let_def split: option.splits)
qed

theorem numbered_boot_disk_is_overwritten_witness:
  "boot_device (demo_env ''nvme0n1p2'') = ''nvme0n1''
   \<and> WriteImage ''/install/llamaste.img'' ''/dev/nvme0n1''
       \<in> set (snd (install_worker (demo_env ''nvme0n1p2'') ''/dev/nvme0n1'' idle_progress))"
proof -
  have "boot_device (demo_env ''nvme0n1p2'')
      = find_boot_device (Some (''root=/dev/'' @ (''nvme0n'' @ ''1'' @ ''p'' @ ''2'') @ '' '' @ ''quiet'')) []"
    by (simp add: demo_env_def)
  moreover have "find_image (demo_env ''nvme0n1p2'') = Some (''/install/llamaste.img'', False, 500000000)"
    by (simp add: find_image_def demo_env_def Let_def RAW_PATHS_def)
  moreover have "device_exists (demo_env ''nvme0n1p2'')" "device_opens (demo_env ''nvme0n1p2'') = None"
    "512 * 1024 * 1024 \<le> device_size (demo_env ''nvme0n1p2'')"
    by (simp_all add: demo_env_def)
  ultimately show ?thesis
    using numbered_boot_disk_is_overwritten [of "''nvme0n''" "''1''" "''2''" "demo_env ''nvme0n1p2''" "''quiet''" "[]"
        "''/install/llamaste.img''" 500000000 idle_progress]
    by (simp add: is_digit_def)
qed

section \<open>One installation for each start of the process\<close>

text \<open>What happens to the progress: a call of the tool, with the arguments, or the run of the worker.\<close>

datatype install_event = Call string | Work install_env string

fun install_step :: "json_text \<Rightarrow> install_event \<Rightarrow> InstallProgress \<Rightarrow> InstallProgress" where
  "install_step tx (Call args) p = snd (handle_install_to_disk tx args p)"
| "install_step tx (Work e device) p = fst (install_worker e device p)"

lemma running_stays: "running p \<Longrightarrow> running (install_step tx ev p)"
  by (cases ev)
    (auto simp: handle_install_to_disk_def install_worker_def fail_with_def set_status_def Let_def
       split: option.splits sum.splits prod.splits)

lemma running_for_ever: "running p \<Longrightarrow> running (fold (install_step tx) evs p)"
  by (induction evs arbitrary: p) (auto intro: running_stays)

text \<open>
  after a first installation has been started, however it ends, no further one can be: the flag that
  marks it as running is never cleared, so every later confirmed call is told that one is in progress.
\<close>

theorem second_installation_is_refused:
  assumes "running p" "snd tx args = Some j" "contains j ''device''" "get_string (jmember j ''device'') = Inr device"
    and "jvalue get_bool j ''confirm'' False = Inr True"
  shows "handle_install_to_disk tx args (fold (install_step tx) evs p)
     = ((dump_text tx (install_error ''Installation already in progress''), None), fold (install_step tx) evs p)"
  using assms running_for_ever [of p tx evs] by (simp add: handle_install_to_disk_def bindE_def)

definition demo_text :: json_text where
  "demo_text = (\<lambda>_. ''failed'', \<lambda>_. Some (jobj [(''confirm'', JBool True), (''device'', JString ''/dev/sda'')]))"

theorem second_installation_is_refused_witness:
  "(let p = fst (install_worker (demo_env ''sdb2'') ''/dev/sdb'' (idle_progress\<lparr>running := True\<rparr>))
    in finished p \<and> handle_install_to_disk demo_text ''x'' p
        = ((dump_text demo_text (install_error ''Installation already in progress''), None), p))"
proof -
  have j: "jobj [(''confirm'', JBool True), (''device'', JString ''/dev/sda'')]
      = JObject [(''confirm'', JBool True), (''device'', JString ''/dev/sda'')]"
    by (simp add: jobj_def)
  have b: "boot_device (demo_env ''sdb2'') = ''sdb''"
    using strip_digits [of "''2''" "''sdb''"] cmdline_root_device [of "''sdb2''" "''quiet''"]
    by (simp add: demo_env_def find_boot_device_def is_digit_def)
  have "strip_partition (strip_dev ''/dev/sdb'') = ''sdb''"
    using strip_digits [of "[]" "''sdb''"] by (simp add: strip_dev_def starts_with_def is_digit_def)
  with b have f: "finished (fst (install_worker (demo_env ''sdb2'') ''/dev/sdb'' (idle_progress\<lparr>running := True\<rparr>)))"
    by (simp add: install_worker_def fail_with_def set_status_def Let_def)
  show ?thesis
    using f second_installation_is_refused [of "idle_progress\<lparr>running := True\<rparr>" demo_text "''x''"
        "JObject [(''confirm'', JBool True), (''device'', JString ''/dev/sda'')]" "''/dev/sda''"
        "[Work (demo_env ''sdb2'') ''/dev/sdb'']"]
    by (simp add: Let_def demo_text_def j)
qed

end
