(* ===== verification/ModelDownload.thy ===== *)
theory ModelDownload
  imports Supervisor FsTools Http
begin

text \<open>
  \<^verbatim>\<open>tools_model_download.cpp\<close> and the model routes of \<^verbatim>\<open>child_main.cpp\<close>: the table of models, the names
  of files in several parts, the download of a file with its partial file, the download of all parts
  of a model, in the foreground and in the background, and the import from a USB drive. Definitions
  only; the lemmas are in ModelDownloadFacts. The files of the machine are a map from paths to
  contents. What a transfer of libcurl brings and how it ends, the answers of the kernel and the
  contents of the drives are arguments. The reply of a tool is the value that its text denotes.
\<close>

section \<open>Models\<close>

record ModelInfo =
  m_name :: string
  m_filename :: string
  m_repo_id :: string
  required_mb :: int
  approx_size_mb :: int

definition MODEL_TABLE :: "ModelInfo list" where
  "MODEL_TABLE =
     [\<lparr>m_name = ''Qwen2.5-32B-Instruct'', m_filename = ''qwen2.5-32b-instruct-q4_k_m-00001-of-00005.gguf'',
        m_repo_id = ''Qwen/Qwen2.5-32B-Instruct-GGUF'', required_mb = 22000, approx_size_mb = 19000\<rparr>,
      \<lparr>m_name = ''Qwen2.5-14B-Instruct'', m_filename = ''qwen2.5-14b-instruct-q4_k_m-00001-of-00003.gguf'',
        m_repo_id = ''Qwen/Qwen2.5-14B-Instruct-GGUF'', required_mb = 11000, approx_size_mb = 8700\<rparr>,
      \<lparr>m_name = ''Qwen2.5-7B-Instruct'', m_filename = ''qwen2.5-7b-instruct-q4_k_m-00001-of-00002.gguf'',
        m_repo_id = ''Qwen/Qwen2.5-7B-Instruct-GGUF'', required_mb = 6500, approx_size_mb = 4700\<rparr>,
      \<lparr>m_name = ''Qwen2.5-3B-Instruct'', m_filename = ''qwen2.5-3b-instruct-q4_k_m.gguf'',
        m_repo_id = ''Qwen/Qwen2.5-3B-Instruct-GGUF'', required_mb = 4000, approx_size_mb = 2000\<rparr>,
      \<lparr>m_name = ''Qwen2.5-1.5B-Instruct'', m_filename = ''qwen2.5-1.5b-instruct-q4_k_m.gguf'',
        m_repo_id = ''Qwen/Qwen2.5-1.5B-Instruct-GGUF'', required_mb = 2500, approx_size_mb = 1000\<rparr>,
      \<lparr>m_name = ''Qwen2.5-0.5B-Instruct'', m_filename = ''qwen2.5-0.5b-instruct-q4_k_m.gguf'',
        m_repo_id = ''Qwen/Qwen2.5-0.5B-Instruct-GGUF'', required_mb = 1500, approx_size_mb = 400\<rparr>]"

definition recommend_model :: "int \<Rightarrow> ModelInfo option" where
  "recommend_model available_mb = find (\<lambda>m. available_mb \<ge> required_mb m) MODEL_TABLE"

section \<open>Names\<close>

definition build_hf_download_url :: "string \<Rightarrow> string \<Rightarrow> string" where
  "build_hf_download_url repo_id name = ''https://huggingface.co/'' @ repo_id @ ''/resolve/main/'' @ name"

definition build_hf_search_url :: "string \<Rightarrow> int \<Rightarrow> string" where
  "build_hf_search_url query limit =
     ''https://huggingface.co/api/models?search='' @ map (\<lambda>c. if c = CHR '' '' then CHR ''+'' else c) query
       @ ''+gguf&sort=downloads&direction=-1&limit='' @ show_int limit"

definition build_hf_tree_url :: "string \<Rightarrow> string" where
  "build_hf_tree_url repo_id = ''https://huggingface.co/api/models/'' @ repo_id @ ''/tree/main''"

definition has_suffix :: "string \<Rightarrow> string \<Rightarrow> bool" where
  "has_suffix x s \<longleftrightarrow> drop (length s - length x) s = x"

definition validate_gguf_filename :: "string \<Rightarrow> bool" where
  "validate_gguf_filename name \<longleftrightarrow>
     \<not> length name < 6 \<and> has_suffix ''.gguf'' name \<and> CHR ''/'' \<notin> set name \<and> find_sub ''..'' name = None"

definition validate_repo_id :: "string \<Rightarrow> bool" where
  "validate_repo_id repo_id =
     (case find_sub ''/'' repo_id of
        None \<Rightarrow> False
      | Some sl \<Rightarrow> find_sub ''..'' repo_id = None \<and> sl \<noteq> 0 \<and> sl \<noteq> length repo_id - 1)"

text \<open>\<open>rfind\<close>: the last place where a text begins.\<close>

fun rfind :: "string \<Rightarrow> string \<Rightarrow> nat option" where
  "rfind p [] = (if p = [] then Some 0 else None)"
| "rfind p (c # cs) =
     (case rfind p cs of Some i \<Rightarrow> Some (Suc i) | None \<Rightarrow> if starts_with p (c # cs) then Some 0 else None)"

record ShardInfo =
  base :: string
  shard_num :: int
  total_shards :: int

definition stoi_result :: "string \<Rightarrow> int result" where
  "stoi_result s =
     (case strtol s of
        None \<Rightarrow> Inl (InvalidArgument ''stoi'')
      | Some _ \<Rightarrow> (case stoi s of None \<Rightarrow> Inl OutOfRange | Some v \<Rightarrow> Inr v))"

definition whole_file :: "string \<Rightarrow> ShardInfo" where
  "whole_file name = \<lparr>base = name, shard_num = 0, total_shards = 0\<rparr>"

definition parse_shard_filename :: "string \<Rightarrow> ShardInfo result" where
  "parse_shard_filename name =
     (case rfind ''-of-'' name of
        None \<Rightarrow> Inr (whole_file name)
      | Some of_pos \<Rightarrow>
          if of_pos < 6 then Inr (whole_file name)
          else case rfind ''.gguf'' name of
            None \<Rightarrow> Inr (whole_file name)
          | Some dot_pos \<Rightarrow>
              if dot_pos \<le> of_pos + 4 then Inr (whole_file name)
              else case rfind ''-'' (take of_pos name) of
                None \<Rightarrow> Inr (whole_file name)
              | Some dash_pos \<Rightarrow>
                  let total_str = take (dot_pos - (of_pos + 4)) (drop (of_pos + 4) name);
                      shard_str = take (of_pos - dash_pos - 1) (drop (dash_pos + 1) name)
                  in if \<not> list_all is_digit shard_str \<or> \<not> list_all is_digit total_str then Inr (whole_file name)
                     else bindE (stoi_result shard_str) (\<lambda>n. bindE (stoi_result total_str) (\<lambda>k.
                            Inr \<lparr>base = take dash_pos name, shard_num = n, total_shards = k\<rparr>)))"

text \<open>\<^verbatim>\<open>%05d\<close> of a number that is not negative.\<close>

definition pad5 :: "int \<Rightarrow> string" where
  "pad5 n = replicate (5 - length (show_int n)) (CHR ''0'') @ show_int n"

definition build_shard_filename :: "string \<Rightarrow> int \<Rightarrow> int \<Rightarrow> string" where
  "build_shard_filename b shard k = b @ ''-'' @ pad5 shard @ ''-of-'' @ pad5 k @ ''.gguf''"

definition format_download_bytes :: "int \<Rightarrow> string" where
  "format_download_bytes n =
     (if n \<ge> 2 ^ 30 then show_tenths (round_even (n * 10) (2 ^ 30)) @ '' GB''
      else if n \<ge> 2 ^ 20 then show_tenths (round_even (n * 10) (2 ^ 20)) @ '' MB''
      else if n \<ge> 1024 then show_tenths (round_even (n * 10) 1024) @ '' KB''
      else show_int n @ '' B'')"

section \<open>The state\<close>

record GlobalDownloadState =
  active :: bool
  finished_dl :: bool
  current_file_downloaded :: int
  current_file_total :: int
  current_shard :: int
  dl_shards :: int
  completed_bytes :: int
  dl_model_name :: string
  dl_filename :: string
  result_json :: "json option"
  dl_error :: string

definition idle_download :: GlobalDownloadState where
  "idle_download = \<lparr>active = False, finished_dl = False, current_file_downloaded = 0, current_file_total = 0,
     current_shard = 0, dl_shards = 0, completed_bytes = 0, dl_model_name = [], dl_filename = [], result_json = None,
     dl_error = []\<rparr>"

record dl_world =
  files :: "string \<Rightarrow> byte list option"
  g_dl :: GlobalDownloadState

text \<open>How a transfer ends, with the code of an error and its text; the bytes that it appends to the
  file; the calls of the callback, each with the total and the amount so far; and the speed.\<close>

datatype curl_end = CurlOk | CurlError int string

record transfer =
  t_end :: curl_end
  http_code :: int
  t_body :: "byte list"
  t_progress :: "(int \<times> int) list"
  t_speed :: int

text \<open>A transfer of a URL from an offset. What else is met: whether a path can be opened, whether
  libcurl starts, whether the file can be renamed, and the text of the error otherwise.\<close>

type_synonym net = "string \<Rightarrow> nat \<Rightarrow> transfer"

record dl_env =
  opens :: "string \<Rightarrow> bool"
  curl_starts :: bool
  renames :: bool
  errno_text :: string

definition curl_progress_cb :: "int \<times> int \<Rightarrow> dl_world \<Rightarrow> dl_world" where
  "curl_progress_cb p w =
     w\<lparr>g_dl := (g_dl w)\<lparr>current_file_downloaded := snd p, current_file_total := fst p\<rparr>\<rparr>"

definition MODELS_DIR :: string where "MODELS_DIR = ''/data/models/''"

definition dl_error_json :: "string \<Rightarrow> json" where
  "dl_error_json m = jobj [(''status'', JString ''error''), (''error'', JString m)]"

text \<open>The amount that the callback last told; 0 when it was never called.\<close>

definition told :: "transfer \<Rightarrow> int" where
  "told t = (if t_progress t = [] then 0 else snd (last (t_progress t)))"

definition http_error :: "bool \<Rightarrow> int \<Rightarrow> json" where
  "http_error hf code =
     jobj ([(''status'', JString ''error''), (''http_code'', JInt code),
            (''error'', JString (''HTTP error '' @ show_int code))]
           @ (if hf \<and> code = 404 then [(''message'', JString ''File not found in repository'')] else []))"

definition download_done :: "string \<Rightarrow> string \<Rightarrow> int \<Rightarrow> int \<Rightarrow> json" where
  "download_done dest name n speed =
     jobj [(''status'', JString ''success''), (''path'', JString dest), (''filename'', JString name),
       (''size_bytes'', JUInt n), (''size_human'', JString (format_download_bytes n)),
       (''speed_human'', JString (format_download_bytes speed @ ''/s''))]"

text \<open>The transfer into the partial file, and what is made of it.\<close>

definition fetch :: "bool \<Rightarrow> net \<Rightarrow> dl_env \<Rightarrow> string \<Rightarrow> string \<Rightarrow> (dl_world, json) op" where
  "fetch hf net e url name w =
     (let dest = MODELS_DIR @ name; part = dest @ ''.part'';
          old = (case files w part of None \<Rightarrow> [] | Some c \<Rightarrow> c);
          t = net url (length old); new = old @ t_body t;
          w = fold curl_progress_cb (t_progress t) (w\<lparr>files := (files w)(part \<mapsto> new)\<rparr>)
      in case t_end t of
           CurlError code msg \<Rightarrow>
             (dump (jobj [(''status'', JString ''error''), (''curl_code'', JInt code), (''error'', JString msg),
                (''partial_file'', JString part), (''downloaded_bytes'', JUInt (to_u64 (told t + int (length old)))),
                (''message'', JString (''Download failed. The partial file is saved '' @ [CHR 0xE2, CHR 0x80, CHR 0x94]
                   @ '' retry will resume.''))]), w)
         | CurlOk \<Rightarrow>
             if http_code t \<ge> 400 then (dump (http_error hf (http_code t)), w\<lparr>files := (files w)(part := None)\<rparr>)
             else if \<not> renames e
             then (dump (dl_error_json (''Failed to rename downloaded file: '' @ errno_text e)), w)
             else (dump (download_done dest name (int (length new)) (t_speed t)),
                   w\<lparr>files := (files w)(part := None, dest \<mapsto> new)\<rparr>))"

definition download_file :: "bool \<Rightarrow> net \<Rightarrow> dl_env \<Rightarrow> string \<Rightarrow> string \<Rightarrow> (dl_world, json) op" where
  "download_file hf net e url name w =
     (let dest = MODELS_DIR @ name; part = dest @ ''.part''
      in if files w dest \<noteq> None
         then (dump (jobj [(''status'', JString ''already_exists''), (''path'', JString dest)]), w)
         else if \<not> opens e part then (Inr (dl_error_json ''Cannot write to /data/models/''), w)
         else if \<not> curl_starts e
         then (Inr (dl_error_json ''Failed to initialize download''),
               w\<lparr>files := (files w)(part \<mapsto> (case files w part of None \<Rightarrow> [] | Some c \<Rightarrow> c))\<rparr>)
         else fetch hf net e url name w)"

definition download_single_file :: "net \<Rightarrow> dl_env \<Rightarrow> string \<Rightarrow> string \<Rightarrow> (dl_world, json) op" where
  "download_single_file net e repo_id name = download_file True net e (build_hf_download_url repo_id name) name"

definition download_single_file_direct :: "net \<Rightarrow> dl_env \<Rightarrow> string \<Rightarrow> string \<Rightarrow> (dl_world, json) op" where
  "download_single_file_direct net e url name = download_file False net e url name"

section \<open>The download of a model\<close>

definition set_member :: "json \<Rightarrow> string \<Rightarrow> json \<Rightarrow> json" where
  "set_member j k v = (case j of JObject ms \<Rightarrow> JObject (obj_insert k v ms) | _ \<Rightarrow> j)"

text \<open>The names of the parts of a model, in order; a model in one part has its own name.\<close>

definition shard_names :: "ShardInfo \<Rightarrow> string list" where
  "shard_names si = map (\<lambda>i. build_shard_filename (base si) i (total_shards si)) [1..total_shards si]"

definition present :: "dl_world \<Rightarrow> string \<Rightarrow> bool" where
  "present w name \<longleftrightarrow> files w (MODELS_DIR @ name) \<noteq> None"

definition all_downloaded :: "dl_world \<Rightarrow> ShardInfo \<Rightarrow> string \<Rightarrow> bool" where
  "all_downloaded w si name =
     (if total_shards si > 1 then list_all (present w) (shard_names si) else present w name)"

text \<open>The parts from number \<open>i\<close> on; \<open>net i\<close> is the network during the i-th transfer.\<close>

fun download_shards ::
  "(int \<Rightarrow> net) \<Rightarrow> dl_env \<Rightarrow> string \<Rightarrow> int \<Rightarrow> string \<Rightarrow> int \<Rightarrow> string list \<Rightarrow> int \<Rightarrow> (dl_world, json) op" where
  "download_shards net e repo_id k name i [] bytes w =
     (dump (jobj [(''status'', JString ''success''), (''path'', JString (MODELS_DIR @ name)), (''filename'', JString name),
        (''shards'', JInt k), (''total_size_bytes'', JUInt bytes), (''total_size_human'', JString (format_download_bytes bytes)),
        (''message'', JString (''All '' @ show_int k @ '' shards downloaded. Restart to load model.''))]), w)"
| "download_shards net e repo_id k name i (s # ss) bytes w =
     bindS (download_single_file (net i) e repo_id s) (\<lambda>r.
       let r = reparse r
       in bindS (liftS (jvalue get_string r ''status'' ''error'')) (\<lambda>status.
            if status = ''error'' then
              liftS (dump (set_member (set_member (set_member r ''shard'' (JInt i)) ''total_shards'' (JInt k)) ''message''
                (JString (''Failed on shard '' @ show_int i @ ''/'' @ show_int k @ ''. Retry will resume.''))))
            else bindS (liftS (jvalue get_u64 r ''size_bytes'' 0)) (\<lambda>n.
                   download_shards net e repo_id k name (i + 1) ss (to_u64 (bytes + n))))) w"

text \<open>With a message on success.\<close>

definition with_message :: "string \<Rightarrow> json \<Rightarrow> (dl_world, json) op" where
  "with_message m r =
     (let r = reparse r
      in bindS (liftS (jvalue get_string r ''status'' [])) (\<lambda>status.
           liftS (dump (if status = ''success'' then set_member r ''message'' (JString m) else r))))"

definition url_name :: "string \<Rightarrow> string" where
  "url_name url = (case rfind ''/'' url of None \<Rightarrow> [] | Some i \<Rightarrow> drop (i + 1) url)"

definition download_from_repo ::
  "(int \<Rightarrow> net) \<Rightarrow> dl_env \<Rightarrow> string \<Rightarrow> string \<Rightarrow> (dl_world, json) op" where
  "download_from_repo net e repo_id name =
     bindS (liftS (parse_shard_filename name)) (\<lambda>si w.
       if all_downloaded w si name then
         (dump (jobj [(''status'', JString ''already_exists''), (''path'', JString (MODELS_DIR @ name)),
            (''message'', JString ''Model already downloaded'')]), w)
       else if total_shards si > 1 then download_shards net e repo_id (total_shards si) name 1 (shard_names si) 0 w
       else bindS (download_single_file (net 1) e repo_id name)
              (with_message ''Model downloaded successfully. Restart to load it.'') w)"

definition handle_model_download ::
  "(int \<Rightarrow> net) \<Rightarrow> dl_env \<Rightarrow> json option \<Rightarrow> (dl_world, json) op" where
  "handle_model_download net e args =
     (case args of
        None \<Rightarrow> returnS (json_error ''Invalid JSON arguments'')
      | Some args \<Rightarrow>
          bindS (liftS (jvalue get_string args ''url'' [])) (\<lambda>url.
          bindS (liftS (jvalue get_string args ''filename'' [])) (\<lambda>given.
            if url \<noteq> [] then
              let name = (if given = [] then url_name url else given)
              in if name = [] \<or> \<not> validate_gguf_filename name
                 then returnS (json_error ''Cannot determine filename from URL. Provide 'filename' parameter.'')
                 else bindS (download_single_file_direct (net 1) e url name)
                        (with_message ''Model downloaded from direct URL. Restart to load it.'')
            else
              bindS (liftS (jvalue get_string args ''repo_id'' [])) (\<lambda>repo_id.
                if repo_id = [] \<or> given = []
                then returnS (json_error ''Required parameters: repo_id and filename, OR url'')
                else if \<not> validate_repo_id repo_id then returnS (json_error ''Invalid repo_id format'')
                else if \<not> validate_gguf_filename given
                then returnS (json_error ''Invalid filename. Must end with .gguf, no path components.'')
                else download_from_repo net e repo_id given))))"

section \<open>Recommendation and search\<close>

text \<open>The available memory in MB, from the lines of \<^verbatim>\<open>/proc/meminfo\<close>.\<close>

definition available_mb :: "string list \<Rightarrow> int" where
  "available_mb meminfo =
     (case find (starts_with ''MemAvailable:'') meminfo of
        None \<Rightarrow> 0
      | Some l \<Rightarrow> (case strtol (drop 13 l) of None \<Rightarrow> 0 | Some (kb, _, _) \<Rightarrow> to_i32 (tdiv kb 1024)))"

definition handle_model_recommended :: "string list \<Rightarrow> int \<Rightarrow> dl_world \<Rightarrow> json result" where
  "handle_model_recommended meminfo free_disk_mb w =
     (let a = available_mb meminfo;
          head = [(''ram_available_mb'', JInt a), (''free_disk_mb'', JUInt free_disk_mb)]
      in case recommend_model a of
           None \<Rightarrow> dump (jobj (head @ [(''recommended'', JBool False),
             (''message'', JString ''Not enough RAM for any supported model (need at least 1500 MB)'')]))
         | Some m \<Rightarrow>
             bindE (parse_shard_filename (m_filename m)) (\<lambda>si.
               dump (jobj (head @ [(''recommended'', JBool True), (''model_name'', JString (m_name m)),
                 (''filename'', JString (m_filename m)), (''repo_id'', JString (m_repo_id m)),
                 (''ram_required_mb'', JInt (required_mb m)), (''approx_download_mb'', JInt (approx_size_mb m)),
                 (''download_url'', JString (build_hf_download_url (m_repo_id m) (m_filename m))),
                 (''already_downloaded'', JBool (all_downloaded w si (m_filename m)))]))))"

text \<open>\<open>get\<close> is the body of an answer, empty when the transfer failed, and \<open>parse\<close> the parser.\<close>

definition search_entry_json :: "json \<Rightarrow> json result" where
  "search_entry_json m =
     bindE (jvalue get_string m ''modelId'' []) (\<lambda>i. bindE (jvalue get_string m ''author'' []) (\<lambda>a.
     bindE (jvalue get_int m ''downloads'' 0) (\<lambda>d. bindE (jvalue get_int m ''likes'' 0) (\<lambda>l.
     bindE (jvalue get_string m ''lastModified'' []) (\<lambda>t.
       Inr (jobj ([(''repo_id'', JString i), (''author'', JString a), (''downloads'', JInt d), (''likes'', JInt l),
         (''last_modified'', JString t)]
         @ (if contains m ''pipeline_tag'' then [(''pipeline_tag'', jmember m ''pipeline_tag'')] else []))))))))"

definition handle_model_search :: "(string \<Rightarrow> string) \<Rightarrow> (string \<Rightarrow> json option) \<Rightarrow> json option \<Rightarrow> json result" where
  "handle_model_search get parse args =
     (case args of
        None \<Rightarrow> Inr (json_error ''Required parameter: query'')
      | Some args \<Rightarrow>
          if \<not> contains args ''query'' then Inr (json_error ''Required parameter: query'')
          else bindE (get_string (jmember args ''query'')) (\<lambda>query.
            bindE (jvalue get_int args ''limit'' 10) (\<lambda>limit.
              let response = get (build_hf_search_url query (if limit > 20 then 20 else limit))
              in if response = []
                 then Inr (json_error ''Failed to connect to Hugging Face API. Check network connection.'')
                 else case parse response of
                        Some (JArray ms) \<Rightarrow>
                          bindE (mapE search_entry_json ms) (\<lambda>es.
                            dump (jobj [(''query'', JString query), (''count'', JUInt (int (length es))), (''models'', JArray es)]))
                      | _ \<Rightarrow> Inr (json_error ''Invalid response from Hugging Face API''))))"

definition gguf_entry :: "json \<Rightarrow> json list result" where
  "gguf_entry item =
     bindE (jvalue get_string item ''path'' []) (\<lambda>p.
       if length p > 5 \<and> has_suffix ''.gguf'' p then
         bindE (jvalue get_u64 item ''size'' 0) (\<lambda>n.
           Inr [jobj [(''filename'', JString p), (''size_bytes'', JUInt n), (''size_human'', JString (format_download_bytes n))]])
       else Inr [])"

definition handle_model_files :: "(string \<Rightarrow> string) \<Rightarrow> (string \<Rightarrow> json option) \<Rightarrow> json option \<Rightarrow> json result" where
  "handle_model_files get parse args =
     (case args of
        None \<Rightarrow> Inr (json_error ''Required parameter: repo_id'')
      | Some args \<Rightarrow>
          if \<not> contains args ''repo_id'' then Inr (json_error ''Required parameter: repo_id'')
          else bindE (get_string (jmember args ''repo_id'')) (\<lambda>repo_id.
            if \<not> validate_repo_id repo_id
            then Inr (json_error ''Invalid repo_id format. Use 'owner/repo' format.'')
            else let response = get (build_hf_tree_url repo_id)
                 in if response = []
                    then Inr (json_error ''Failed to fetch file list. Check repo_id and network.'')
                    else case parse response of
                           Some (JArray items) \<Rightarrow>
                             bindE (mapE gguf_entry items) (\<lambda>fs.
                               dump (jobj [(''repo_id'', JString repo_id), (''count'', JUInt (int (length (concat fs)))),
                                 (''files'', JArray (concat fs))]))
                         | _ \<Rightarrow> Inr (json_error ''Repository not found or invalid response'')))"

section \<open>The download in the background\<close>

text \<open>What the caller does: the outcome, and the parts that the thread is started with.\<close>

definition start_async_download ::
  "string \<Rightarrow> string \<Rightarrow> GlobalDownloadState \<Rightarrow> ShardInfo option result \<times> GlobalDownloadState" where
  "start_async_download name mname s =
     (if active s then (Inr None, s)
      else let s = idle_download\<lparr>active := True, dl_model_name := mname, dl_filename := name\<rparr>
           in case parse_shard_filename name of
                Inl x \<Rightarrow> (Inl x, s)
              | Inr si \<Rightarrow> (Inr (Some si), s\<lparr>dl_shards := (if total_shards si > 1 then total_shards si else 1)\<rparr>))"

definition on_dl :: "(GlobalDownloadState \<Rightarrow> GlobalDownloadState) \<Rightarrow> (dl_world, unit) op" where
  "on_dl f = modifyS (\<lambda>w. w\<lparr>g_dl := f (g_dl w)\<rparr>)"

definition begin_shard :: "int \<Rightarrow> GlobalDownloadState \<Rightarrow> GlobalDownloadState" where
  "begin_shard i s = s\<lparr>current_shard := i, current_file_downloaded := 0, current_file_total := 0\<rparr>"

definition end_download :: "json \<Rightarrow> GlobalDownloadState \<Rightarrow> GlobalDownloadState" where
  "end_download r s = s\<lparr>result_json := Some r, finished_dl := True, active := False\<rparr>"

text \<open>The thread; an exception in it ends the process.\<close>

fun async_shards ::
  "(int \<Rightarrow> net) \<Rightarrow> dl_env \<Rightarrow> string \<Rightarrow> int \<Rightarrow> int \<Rightarrow> string list \<Rightarrow> int \<Rightarrow> (dl_world, unit) op" where
  "async_shards net e repo_id k i [] bytes =
     bindS (liftS (dump (jobj [(''status'', JString ''success''), (''shards'', JInt k), (''total_size_bytes'', JUInt bytes),
       (''total_size_human'', JString (format_download_bytes bytes)),
       (''message'', JString ''All shards downloaded. Restart to load model.'')]))) (\<lambda>j. on_dl (end_download j))"
| "async_shards net e repo_id k i (s # ss) bytes =
     bindS (on_dl (begin_shard i)) (\<lambda>_.
     bindS (download_single_file (net i) e repo_id s) (\<lambda>result.
       let r = reparse result
       in bindS (liftS (jvalue get_string r ''status'' [])) (\<lambda>status.
            if status = ''error'' then
              bindS (liftS (jvalue get_string r ''error'' ''download failed'')) (\<lambda>m.
                on_dl (\<lambda>s. (end_download result s)\<lparr>dl_error := m\<rparr>))
            else bindS (liftS (jvalue get_u64 r ''size_bytes'' 0)) (\<lambda>n.
              let bytes = to_u64 (bytes + n)
              in bindS (on_dl (\<lambda>s. s\<lparr>completed_bytes := bytes\<rparr>)) (\<lambda>_. async_shards net e repo_id k (i + 1) ss bytes)))))"

definition async_worker ::
  "(int \<Rightarrow> net) \<Rightarrow> dl_env \<Rightarrow> string \<Rightarrow> string \<Rightarrow> ShardInfo \<Rightarrow> (dl_world, unit) op" where
  "async_worker net e repo_id name si =
     (if total_shards si > 1 then async_shards net e repo_id (total_shards si) 1 (shard_names si) 0
      else bindS (on_dl (\<lambda>s. s\<lparr>current_shard := 1, dl_shards := 1\<rparr>)) (\<lambda>_.
           bindS (download_single_file (net 1) e repo_id name) (\<lambda>r. on_dl (end_download r))))"

definition total_downloaded :: "GlobalDownloadState \<Rightarrow> int" where
  "total_downloaded s = to_u64 (completed_bytes s + current_file_downloaded s)"

definition get_download_progress :: "GlobalDownloadState \<Rightarrow> json result" where
  "get_download_progress s =
     dump (jobj ([(''active'', JBool (active s)), (''finished'', JBool (finished_dl s)),
       (''current_shard'', JInt (current_shard s)), (''total_shards'', JInt (dl_shards s)),
       (''current_file_bytes'', JUInt (current_file_downloaded s)), (''current_file_total'', JUInt (current_file_total s)),
       (''completed_bytes'', JUInt (completed_bytes s)), (''total_downloaded_bytes'', JUInt (total_downloaded s)),
       (''total_downloaded_human'', JString (format_download_bytes (total_downloaded s))),
       (''model_name'', JString (dl_model_name s)), (''filename'', JString (dl_filename s))]
       @ (if finished_dl s then [(''result'', case result_json s of None \<Rightarrow> JNull | Some r \<Rightarrow> reparse r)] else [])
       @ (if dl_error s \<noteq> [] then [(''error'', JString (dl_error s))] else [])))"

section \<open>Routes\<close>

text \<open>The reply and what the thread is started with: the repository, the file and its parts. A throw
  out of a route is an answer 500 of the library.\<close>

type_synonym started = "(string \<times> string \<times> ShardInfo) option"

definition start_reply :: "string \<Rightarrow> (string \<times> json) list \<Rightarrow> ShardInfo option \<Rightarrow> json" where
  "start_reply mname extra r =
     (case r of
        Some _ \<Rightarrow> jobj ([(''status'', JString ''started''), (''model_name'', JString mname)] @ extra)
      | None \<Rightarrow> jobj [(''status'', JString ''busy''), (''message'', JString ''A download is already in progress.'')])"

definition start_route ::
  "string \<Rightarrow> string \<Rightarrow> string \<Rightarrow> (string \<times> json) list \<Rightarrow> (GlobalDownloadState, json \<times> started) op" where
  "start_route repo_id name mname extra s =
     (case start_async_download name mname s of
        (Inl x, s) \<Rightarrow> (Inl x, s)
      | (Inr r, s) \<Rightarrow>
          (map_sum id (\<lambda>j. (j, map_option (\<lambda>si. (repo_id, name, si)) r)) (dump (start_reply mname extra r)), s))"

definition route_download_recommended :: "json \<Rightarrow> json option \<Rightarrow> (GlobalDownloadState, json \<times> started) op" where
  "route_download_recommended rec_result parsed =
     (case parsed of
        None \<Rightarrow> returnS (rec_result, None)
      | Some r \<Rightarrow>
          bindS (liftS (jvalue get_bool r ''recommended'' False)) (\<lambda>ok.
            if \<not> ok then returnS (rec_result, None)
            else bindS (liftS (jvalue get_bool r ''already_downloaded'' False)) (\<lambda>done.
                 bindS (liftS (jvalue get_string r ''model_name'' [])) (\<lambda>m.
                 bindS (liftS (jvalue get_string r ''filename'' [])) (\<lambda>f.
                   if done then
                     liftS (map_sum id (\<lambda>j. (j, None)) (dump (jobj [(''status'', JString ''already_exists''),
                       (''model_name'', JString m), (''filename'', JString f),
                       (''message'', JString ''Recommended model is already downloaded.'')])))
                   else bindS (liftS (jvalue get_string r ''repo_id'' [])) (\<lambda>repo.
                     start_route repo f m
                       [(''message'', JString ''Download started. Poll /llamaste/model/download/progress for status.'')]))))))"

definition route_tiers :: "string list \<Rightarrow> dl_world \<Rightarrow> json result" where
  "route_tiers meminfo w =
     (let a = available_mb meminfo; r = recommend_model a
      in dump (jobj [(''tiers'', JArray (map (\<lambda>m.
             jobj [(''name'', JString (m_name m)), (''filename'', JString (m_filename m)), (''repo_id'', JString (m_repo_id m)),
               (''required_mb'', JInt (required_mb m)), (''approx_size_mb'', JInt (approx_size_mb m)),
               (''fits_ram'', JBool (a \<ge> required_mb m)),
               (''recommended'', JBool (case r of None \<Rightarrow> False | Some x \<Rightarrow> m_name x = m_name m)),
               (''downloaded'', JBool (present w (m_filename m)))]) MODEL_TABLE)),
           (''ram_available_mb'', JInt a)]))"

definition route_download_tier :: "json option \<Rightarrow> (GlobalDownloadState, json \<times> started) op" where
  "route_download_tier body =
     (case body of
        None \<Rightarrow> returnS (json_error ''invalid JSON'', None)
      | Some j \<Rightarrow>
          bindS (liftS (jvalue get_string j ''repo_id'' [])) (\<lambda>repo_id.
          bindS (liftS (jvalue get_string j ''filename'' [])) (\<lambda>name.
          bindS (liftS (jvalue get_string j ''name'' [])) (\<lambda>mname.
            if repo_id = [] \<or> name = [] then returnS (json_error ''repo_id and filename required'', None)
            else start_route repo_id name mname []))))"

text \<open>The choice of a model: the reply and the value that is stored as \<^verbatim>\<open>model.path\<close>.\<close>

definition route_select :: "json option \<Rightarrow> (http_resp \<times> string option) result" where
  "route_select body =
     (case body of
        None \<Rightarrow> Inr (Http.fail_with 400 ''JSON body with 'path' required'' new_resp, None)
      | Some j \<Rightarrow>
          if \<not> contains j ''path'' then Inr (Http.fail_with 400 ''JSON body with 'path' required'' new_resp, None)
          else bindE (jvalue get_string j ''path'' []) (\<lambda>p.
            if p \<noteq> [] \<and> \<not> starts_with MODELS_DIR p
            then Inr (Http.fail_with 400 ''Model path must be under /data/models/'' new_resp, None)
            else bindE (dump (jobj [(''status'', JString ''ok''), (''model_path'', JString p),
                   (''message'', JString (if p = [] then ''Model override cleared. Auto-select will be used on next boot.''
                      else ''Model selected. Reboot to load: '' @ p))]))
                 (\<lambda>r. Inr (set_content r new_resp, Some p))))"

section \<open>USB drives\<close>

text \<open>\<^verbatim>\<open>sscanf (line, " %*d %*d %*d %63s")\<close>.\<close>

definition scan_int :: "string \<Rightarrow> string option" where
  "scan_int s = (case strtol s of None \<Rightarrow> None | Some (_, r, _) \<Rightarrow> Some r)"

definition scan_name :: "string \<Rightarrow> string option" where
  "scan_name l =
     (case Option.bind (Option.bind (scan_int l) scan_int) scan_int of
        None \<Rightarrow> None
      | Some r \<Rightarrow>
          let n = take 63 (takeWhile (\<lambda>c. \<not> is_space c) (dropWhile is_space r)) in if n = [] then None else Some n)"

definition usb_partition :: "string \<Rightarrow> string option" where
  "usb_partition l =
     (if find_sub ''major'' l \<noteq> None \<or> l = [] then None
      else case scan_name l of
             None \<Rightarrow> None
           | Some dev \<Rightarrow>
               if starts_with ''loop'' dev \<or> starts_with ''ram'' dev \<or> starts_with ''nvme'' dev then None
               else if length dev \<ge> 4 \<and> last dev \<ge> CHR ''1'' \<and> last dev \<le> CHR ''9'' then Some (''/dev/'' @ dev)
               else None)"

definition find_usb_partitions :: "string list \<Rightarrow> string list" where
  "find_usb_partitions ls = List.map_filter usb_partition ls"

text \<open>What \<^verbatim>\<open>stat\<close> tells of the entries of a directory, in the order of \<^verbatim>\<open>readdir\<close>.\<close>

datatype usb_node = UFile string "byte list" | UDir string "usb_node list" | UOther string

definition FS_TYPES :: "string list" where "FS_TYPES = [''vfat'', ''ext4'', ''ntfs3'', ''exfat'']"

text \<open>The contents of a device under the first type with which it can be mounted.\<close>

type_synonym usb = "string \<Rightarrow> string \<Rightarrow> usb_node list option"

fun try_types :: "usb \<Rightarrow> string \<Rightarrow> string list \<Rightarrow> usb_node list option" where
  "try_types usb dev [] = None"
| "try_types usb dev (t # ts) = (case usb dev t of Some ns \<Rightarrow> Some ns | None \<Rightarrow> try_types usb dev ts)"

definition try_mount :: "usb \<Rightarrow> string \<Rightarrow> usb_node list option" where
  "try_mount usb dev = try_types usb dev FS_TYPES"

definition hidden :: "string \<Rightarrow> bool" where "hidden n \<longleftrightarrow> n = [] \<or> hd n = CHR ''.''"

function scan_gguf_files :: "string \<Rightarrow> nat \<Rightarrow> usb_node list \<Rightarrow> (string \<times> byte list) list" where
  "scan_gguf_files dir depth [] = []"
| "scan_gguf_files dir depth (n # ns) =
     (if depth > 3 then []
      else (case n of
              UDir name sub \<Rightarrow> if hidden name then [] else scan_gguf_files (dir @ ''/'' @ name) (depth + 1) sub
            | UFile name c \<Rightarrow>
                if \<not> hidden name \<and> length name > 5 \<and> has_suffix ''.gguf'' name then [(dir @ ''/'' @ name, c)] else []
            | UOther name \<Rightarrow> [])
           @ scan_gguf_files dir depth ns)"
  by pat_completeness auto
termination
  by (relation "measure (\<lambda>(dir, depth, ns). size_list size ns)") auto

definition MOUNTPOINT :: string where "MOUNTPOINT = ''/mnt/usb''"

definition usb_file_json :: "string \<Rightarrow> string \<times> byte list \<Rightarrow> json" where
  "usb_file_json dev f =
     (let n = int (length (snd f))
      in jobj [(''device'', JString dev), (''usb_path'', JString (drop (length MOUNTPOINT) (fst f))),
           (''filename'', JString (url_name (fst f))), (''size_bytes'', JUInt n),
           (''size_human'', JString (format_download_bytes n))])"

definition usb_scan :: "usb \<Rightarrow> string list \<Rightarrow> json result" where
  "usb_scan usb lines =
     (let parts = find_usb_partitions lines;
          found = concat (map (\<lambda>dev. case try_mount usb dev of
            None \<Rightarrow> [] | Some ns \<Rightarrow> map (usb_file_json dev) (scan_gguf_files MOUNTPOINT 0 ns)) parts)
      in if parts = [] then Inr (json_error ''No USB drives detected. Insert a USB drive and try again.'')
         else dump (jobj [(''devices_found'', JUInt (int (length parts))), (''gguf_files'', JArray found),
                (''count'', JUInt (int (length found))),
                (''message'', JString (if found = [] then ''No GGUF files found on USB drives.''
                   else ''Found '' @ show_nat (length found)
                     @ '' GGUF file(s). Use action='import' with device and filename to copy.''))]))"

text \<open>The free space in MB, whether the files can be opened, and the number of bytes that the
  destination takes; neither the writes nor the close is checked.\<close>

definition usb_import ::
  "usb \<Rightarrow> nat \<Rightarrow> bool \<Rightarrow> nat \<Rightarrow> string \<Rightarrow> string \<Rightarrow> (dl_world, json) op" where
  "usb_import usb free_mb can_open room device name w =
     (if device = [] \<or> name = [] then (Inr (json_error ''Import requires 'device' and 'filename' parameters''), w)
      else if \<not> validate_gguf_filename name then (Inr (json_error ''Invalid GGUF filename''), w)
      else case try_mount usb device of
        None \<Rightarrow> (Inr (json_error ''Failed to mount USB device''), w)
      | Some ns \<Rightarrow>
          (case find (\<lambda>f. find_sub name (fst f) \<noteq> None) (scan_gguf_files MOUNTPOINT 0 ns) of
             None \<Rightarrow> (dump (json_error (''File '' @ [CHR 0x27] @ name @ [CHR 0x27] @ '' not found on '' @ device)), w)
           | Some (p, c) \<Rightarrow>
               let need_mb = length c div (1024 * 1024) + 100
               in if free_mb < need_mb then
                    (dump (json_error (''Not enough disk space. Need '' @ show_nat need_mb @ '' MB, have '' @ show_nat free_mb
                       @ '' MB'')), w)
                  else if \<not> can_open then (Inr (json_error ''Failed to open source or destination file''), w)
                  else (dump (jobj [(''status'', JString ''success''), (''path'', JString (MODELS_DIR @ name)),
                          (''filename'', JString name), (''size_bytes'', JUInt (int (length c))),
                          (''size_human'', JString (format_download_bytes (int (length c)))),
                          (''message'', JString ''Model imported from USB. Restart to load it.'')]),
                        w\<lparr>files := (files w)(MODELS_DIR @ name \<mapsto> take room c)\<rparr>)))"

definition handle_model_usb_import ::
  "usb \<Rightarrow> string list \<Rightarrow> nat \<Rightarrow> bool \<Rightarrow> nat \<Rightarrow> json option \<Rightarrow> (dl_world, json) op" where
  "handle_model_usb_import usb lines free_mb can_open room args =
     (let j = (case args of Some j \<Rightarrow> j | None \<Rightarrow> JNull)
      in bindS (liftS (if is_object j then jvalue get_string j ''action'' ''scan'' else Inr ''scan'')) (\<lambda>action.
           if action = ''scan'' then liftS (usb_scan usb lines)
           else if action = ''import'' then
             bindS (liftS (jvalue get_string j ''device'' [])) (\<lambda>device.
             bindS (liftS (jvalue get_string j ''filename'' [])) (\<lambda>name.
               usb_import usb free_mb can_open room device name))
           else returnS (json_error ''Unknown action. Use 'scan' or 'import'.'')))"

end
