(* ===== verification/ModelDownloadFacts.thy ===== *)
theory ModelDownloadFacts
  imports ModelDownload
begin

text \<open>
  The lemmas and properties of the downloads: the names of the parts of a model, the recommendation,
  what a sequence of interrupted downloads leaves, where files can be written, the progress, and the
  import from a drive.
\<close>

section \<open>The names of parts\<close>

lemma rfind_None_iff: "rfind p s = None \<longleftrightarrow> find_sub p s = None"
  by (induction p s rule: rfind.induct) (auto split: option.splits)

lemma rfind_append: "rfind p s = Some i \<Longrightarrow> rfind p (a @ s) = Some (length a + i)"
  by (induction a) simp_all

lemma rfind_last:
  assumes "find_sub (c # p) (p @ b) = None"
  shows "rfind (c # p) (a @ (c # p) @ b) = Some (length a)"
proof -
  have "starts_with (c # p) (c # p @ b)" using starts_with_append [of "c # p" b] by simp
  moreover have "rfind (c # p) (p @ b) = None" using assms by (simp only: rfind_None_iff)
  ultimately have "rfind (c # p) ((c # p) @ b) = Some 0" by simp
  then show ?thesis using rfind_append by fastforce
qed

lemma show_int_digits: "0 \<le> n \<Longrightarrow> list_all is_digit (show_int n)"
  by (simp add: show_int_def show_nat_digits)

lemma pad5_digits: "0 \<le> n \<Longrightarrow> list_all is_digit (pad5 n)"
  using show_int_digits [of n] by (auto simp: pad5_def list_all_iff is_digit_def)

lemma digits_val_zeros: "digits_val 0 (replicate n (CHR ''0'') @ s) = digits_val 0 s"
  by (induction n) (simp_all add: digit_val_def)

lemma pad5_value: "0 \<le> n \<Longrightarrow> digits_val 0 (pad5 n) = nat n"
  by (simp add: pad5_def digits_val_zeros show_int_def)

lemma pad5_length: "5 \<le> length (pad5 n)"
  by (simp add: pad5_def)

lemma pad5_nonempty: "pad5 n \<noteq> []"
  using pad5_length [of n] by auto

lemma stoi_pad5: "0 \<le> n \<Longrightarrow> n < 2 ^ 31 \<Longrightarrow> stoi_result (pad5 n) = Inr n"
  using strtol_digits [OF pad5_nonempty pad5_digits, of n]
  by (simp add: stoi_result_def stoi_def pad5_value long_max_def)

lemma digits_no_char: "list_all is_digit s \<Longrightarrow> \<not> is_digit c \<Longrightarrow> c \<notin> set s"
  by (auto simp: list_all_iff)

definition shard_text :: "string \<Rightarrow> string \<Rightarrow> string \<Rightarrow> string" where
  "shard_text b x y = b @ ''-'' @ x @ ''-of-'' @ y @ ''.gguf''"

lemma parse_shard_text:
  assumes x: "list_all is_digit x" "5 \<le> length x" and y: "list_all is_digit y" "y \<noteq> []"
  shows "parse_shard_filename (shard_text b x y)
     = bindE (stoi_result x) (\<lambda>n. bindE (stoi_result y) (\<lambda>k. Inr \<lparr>base = b, shard_num = n, total_shards = k\<rparr>))"
proof -
  let ?a = "b @ ''-'' @ x" and ?z = "y @ ''.gguf''"
  have nd: "CHR ''-'' \<notin> set x" "CHR ''-'' \<notin> set y"
    using digits_no_char [OF x(1)] digits_no_char [OF y(1)] by (simp_all add: is_digit_def)
  obtain d ys where d: "y = d # ys" "is_digit d" using y by (cases y) auto
  then have do: "d \<noteq> CHR ''o''" by (auto simp: is_digit_def)
  have "CHR ''-'' \<notin> set ?z" using nd by auto
  then have "find_sub ''-of-'' ?z = None" by (intro find_sub_absent) auto
  with do d(1) have "find_sub ''-of-'' (''of-'' @ ?z) = None" by (simp add: starts_with_def)
  then have of_pos: "rfind ''-of-'' (shard_text b x y) = Some (length ?a)"
    using rfind_last [of "CHR ''-''" "''of-''" ?z ?a] by (simp add: shard_text_def)
  have dot_pos: "rfind ''.gguf'' (shard_text b x y) = Some (length (?a @ ''-of-'' @ y))"
    using rfind_last [of "CHR ''.''" "''gguf''" "[]" "?a @ ''-of-'' @ y"]
    by (simp add: shard_text_def starts_with_def)
  have "find_sub ''-'' x = None" using nd by (intro find_sub_absent) auto
  then have dash_pos: "rfind ''-'' (take (length ?a) (shard_text b x y)) = Some (length b)"
    using rfind_last [of "CHR ''-''" "[]" x b] by (simp add: shard_text_def)
  have k: "drop (length u) (u @ v) = v" for u v :: string by simp
  have "shard_text b x y = (?a @ ''-of-'') @ y @ ''.gguf''" by (simp add: shard_text_def)
  then have "drop (length (?a @ ''-of-'')) (shard_text b x y) = y @ ''.gguf''" by (simp only: k)
  moreover have "length (?a @ ''-of-'') = length ?a + 4" by simp
  ultimately have "drop (length ?a + 4) (shard_text b x y) = y @ ''.gguf''" by (simp only:)
  then have total: "take (length (?a @ ''-of-'' @ y) - (length ?a + 4)) (drop (length ?a + 4) (shard_text b x y)) = y"
    by simp
  have parts: "take (length ?a - length b - 1) (drop (length b + 1) (shard_text b x y)) = x"
    "take (length b) (shard_text b x y) = b"
    by (simp_all add: shard_text_def)
  show ?thesis
    unfolding parse_shard_filename_def of_pos dot_pos option.case
    using x y dash_pos total parts by (simp add: Let_def)
qed

text \<open>
  the name that is built for a part of a model is read back as the same base, number and count, so
  all parts that a name stands for have different names and each of them stands for the same model.
\<close>

theorem shard_names_roundtrip:
  assumes "0 \<le> i" "i < 2 ^ 31" "0 \<le> k" "k < 2 ^ 31"
  shows "parse_shard_filename (build_shard_filename b i k) = Inr \<lparr>base = b, shard_num = i, total_shards = k\<rparr>"
proof -
  have "build_shard_filename b i k = shard_text b (pad5 i) (pad5 k)"
    by (simp add: build_shard_filename_def shard_text_def)
  with parse_shard_text [of "pad5 i" "pad5 k" b] show ?thesis
    using assms by (simp add: pad5_digits pad5_length pad5_nonempty stoi_pad5)
qed

theorem shard_names_roundtrip_witness:
  "parse_shard_filename (build_shard_filename ''m-q4'' 2 5) = Inr \<lparr>base = ''m-q4'', shard_num = 2, total_shards = 5\<rparr>"
  by (rule shard_names_roundtrip) simp_all

section \<open>The recommendation\<close>

text \<open>
  the recommended model is the one of the table that needs the most memory among those that fit,
  and there is none exactly below 1500 MB.
\<close>

theorem recommend_model_best:
  "case recommend_model mb of
     None \<Rightarrow> mb < 1500
   | Some m \<Rightarrow> m \<in> set MODEL_TABLE \<and> required_mb m \<le> mb
       \<and> list_all (\<lambda>m'. mb < required_mb m' \<or> required_mb m' \<le> required_mb m) MODEL_TABLE"
  by (simp add: recommend_model_def MODEL_TABLE_def)

section \<open>Interrupted downloads\<close>

text \<open>A network that serves the content \<open>C\<close> under a URL: what a transfer that is cut off brings is
  the beginning of what is missing, and what one that ends well brings is all of it. The answer to a
  request that fails may hold anything.\<close>

definition serves :: "byte list \<Rightarrow> string \<Rightarrow> net \<Rightarrow> bool" where
  "serves C url net \<longleftrightarrow> (\<forall>off \<le> length C.
     case t_end (net url off) of
       CurlError _ _ \<Rightarrow> \<exists>r. drop off C = t_body (net url off) @ r
     | CurlOk \<Rightarrow> http_code (net url off) < 400 \<longrightarrow> t_body (net url off) = drop off C)"

lemma files_fold_progress [simp]: "files (fold curl_progress_cb ps w) = files w"
  by (induction ps arbitrary: w) (simp_all add: curl_progress_cb_def)

lemma files_g_dl [simp]: "files (w\<lparr>g_dl := d\<rparr>) = files w" "g_dl (w\<lparr>files := f\<rparr>) = g_dl w"
  by simp_all

lemma part_not_dest [simp]: "MODELS_DIR @ name @ ''.part'' \<noteq> MODELS_DIR @ name" by simp

lemma fetch_files:
  "files (snd (fetch hf net e url name w)) =
     (let part = MODELS_DIR @ name @ ''.part'';
          old = (case files w part of None \<Rightarrow> [] | Some c \<Rightarrow> c);
          t = net url (length old); fs = (files w)(part \<mapsto> old @ t_body t)
      in case t_end t of
           CurlError _ _ \<Rightarrow> fs
         | CurlOk \<Rightarrow> if http_code t \<ge> 400 then fs(part := None)
             else if \<not> renames e then fs
             else fs(part := None, (MODELS_DIR @ name) \<mapsto> old @ t_body t))"
  by (simp add: fetch_def Let_def split: curl_end.split)

definition partial_of :: "byte list \<Rightarrow> string \<Rightarrow> dl_world \<Rightarrow> bool" where
  "partial_of C name w \<longleftrightarrow>
     (case files w (MODELS_DIR @ name @ ''.part'') of None \<Rightarrow> True | Some c \<Rightarrow> \<exists>r. C = c @ r)
     \<and> files w (MODELS_DIR @ name) \<in> {None, Some C}"

fun try_download :: "string \<Rightarrow> string \<Rightarrow> net \<times> dl_env \<Rightarrow> dl_world \<Rightarrow> dl_world" where
  "try_download repo name (net, e) w = snd (download_single_file net e repo name w)"

lemma fetch_partial:
  assumes "serves C url net" "partial_of C name w" "files w (MODELS_DIR @ name) = None"
  shows "partial_of C name (snd (fetch hf net e url name w))"
proof -
  let ?old = "case files w (MODELS_DIR @ name @ ''.part'') of None \<Rightarrow> [] | Some c \<Rightarrow> c"
  let ?t = "net url (length ?old)"
  obtain r where r: "C = ?old @ r" using assms(2) by (auto simp: partial_of_def split: option.splits)
  then have le: "length ?old \<le> length C" and d: "drop (length ?old) C = r" by (metis le_add1 length_append, metis append_eq_conv_conj)
  show ?thesis
  proof (cases "t_end ?t")
    case CurlOk
    then have "http_code ?t < 400 \<Longrightarrow> ?old @ t_body ?t = C"
      using assms(1) le d r by (fastforce simp: serves_def)
    with CurlOk assms(3) show ?thesis
      by (simp add: partial_of_def fetch_files Let_def not_le)
  next
    case (CurlError c m)
    then obtain x where "r = t_body ?t @ x" using assms(1) le d by (fastforce simp: serves_def)
    with r have "C = (?old @ t_body ?t) @ x" by simp
    with CurlError assms(3) show ?thesis by (auto simp: partial_of_def fetch_files Let_def)
  qed
qed

lemma try_download_partial:
  assumes "partial_of C name w" "serves C (build_hf_download_url repo name) (fst a)"
  shows "partial_of C name (try_download repo name a w)"
proof (cases a)
  case (Pair net e)
  with assms fetch_partial [of C "build_hf_download_url repo name" net name w] show ?thesis
    by (auto simp: download_single_file_def download_file_def Let_def partial_of_def split: option.splits)
qed

interpretation downloads:
  invariant_system "try_download repo name" "partial_of C name" "\<lambda>a. serves C (build_hf_download_url repo name) (fst a)"
  for repo name C
  by unfold_locales (rule try_download_partial)


definition demo_content :: "byte list" where "demo_content = [1, 2, 3]"

definition demo_env :: dl_env where
  "demo_env = \<lparr>opens = (\<lambda>_. True), curl_starts = True, renames = True, errno_text = []\<rparr>"

definition cut_net :: "byte list \<Rightarrow> net" where
  "cut_net body = (\<lambda>url off. \<lparr>t_end = CurlError 28 ''Timeout was reached'', http_code = 206, t_body = body, t_progress = [],
     t_speed = 0\<rparr>)"

definition good_net :: net where
  "good_net = (\<lambda>url off. \<lparr>t_end = CurlOk, http_code = 206, t_body = drop off demo_content,
     t_progress = [(3 - int off, 3 - int off)], t_speed = 100\<rparr>)"

definition no_files :: dl_world where "no_files = \<lparr>files = (\<lambda>_. None), g_dl = idle_download\<rparr>"

definition one_byte_net :: net where
  "one_byte_net = (\<lambda>url off. cut_net (take 1 (drop off demo_content)) url off)"

lemma demo_serves: "serves demo_content url good_net" "serves demo_content url one_byte_net"
  by (auto simp: serves_def good_net_def one_byte_net_def cut_net_def intro: append_take_drop_id [symmetric])


text \<open>
  a transfer of the rest of the file that ends well completes the download, whatever was kept before:
  the file is there under its name, the partial file is gone and success is reported.
\<close>

theorem last_transfer_completes:
  assumes "partial_of C name w" "files w (MODELS_DIR @ name) = None" "serves C (build_hf_download_url repo name) net"
    and "opens e (MODELS_DIR @ name @ ''.part'')" "curl_starts e" "renames e"
    and "t_end (net (build_hf_download_url repo name) n) = CurlOk" "http_code (net (build_hf_download_url repo name) n) < 400"
    and "n = length (case files w (MODELS_DIR @ name @ ''.part'') of None \<Rightarrow> [] | Some c \<Rightarrow> c)"
  shows "files (try_download repo name (net, e) w) (MODELS_DIR @ name) = Some C
     \<and> files (try_download repo name (net, e) w) (MODELS_DIR @ name @ ''.part'') = None
     \<and> fst (download_single_file net e repo name w)
        = dump (download_done (MODELS_DIR @ name) name (int (length C)) (t_speed (net (build_hf_download_url repo name) n)))"
proof -
  let ?old = "case files w (MODELS_DIR @ name @ ''.part'') of None \<Rightarrow> [] | Some c \<Rightarrow> c"
  let ?t = "net (build_hf_download_url repo name) n"
  obtain r where r: "C = ?old @ r" using assms(1) by (auto simp: partial_of_def split: option.splits)
  then have "n \<le> length C" "drop n C = r" using assms(9) by (metis le_add1 length_append, metis append_eq_conv_conj)
  then have "t_body ?t = r" using assms(3, 7, 8) by (fastforce simp: serves_def)
  with r have c: "?old @ t_body ?t = C" by simp
  have run: "download_single_file net e repo name w = fetch True net e (build_hf_download_url repo name) name w"
    using assms(2, 4, 5) by (simp add: download_single_file_def download_file_def Let_def)
  show ?thesis
    using assms(6-8) c
    by (simp add: run fetch_files Let_def assms(9) [symmetric]) (simp add: fetch_def Let_def assms(9) [symmetric])
qed

theorem last_transfer_completes_witness:
  "files (try_download ''a/b'' ''m.gguf'' (good_net, demo_env)
     (try_download ''a/b'' ''m.gguf'' (one_byte_net, demo_env) no_files)) (MODELS_DIR @ ''m.gguf'') = Some [1, 2, 3]"
proof -
  let ?w = "try_download ''a/b'' ''m.gguf'' (one_byte_net, demo_env) no_files"
  have p: "partial_of demo_content ''m.gguf'' ?w"
    by (rule try_download_partial) (simp_all add: demo_serves partial_of_def no_files_def)
  have f: "files ?w (MODELS_DIR @ ''m.gguf'') = None"
    by (simp add: download_single_file_def download_file_def fetch_files Let_def no_files_def demo_env_def one_byte_net_def cut_net_def)
  show ?thesis
    using last_transfer_completes [OF p f demo_serves(1) _ _ _ _ _ refl, of demo_env]
    by (simp add: demo_env_def good_net_def demo_content_def)
qed

text \<open>
  the answer to a failed request is appended to the partial file. When its transfer is cut off, the
  bytes stay, the next download resumes behind them, and a file that begins with them is reported
  as a success.
\<close>

theorem interrupted_error_page_is_kept:
  assumes "files w (MODELS_DIR @ name) = None" "files w (MODELS_DIR @ name @ ''.part'') = None"
    and "\<And>p. opens e p" "curl_starts e" "renames e" "utf8_ok name"
    and "t_end (net1 (build_hf_download_url repo name) 0) = CurlError c m"
    and "serves C (build_hf_download_url repo name) net2"
    and "n = length (t_body (net1 (build_hf_download_url repo name) 0))" "n \<le> length C"
    and "t_end (net2 (build_hf_download_url repo name) n) = CurlOk" "http_code (net2 (build_hf_download_url repo name) n) < 400"
  shows "files (try_download repo name (net2, e) (try_download repo name (net1, e) w)) (MODELS_DIR @ name)
     = Some (t_body (net1 (build_hf_download_url repo name) 0) @ drop n C)"
proof -
  let ?w = "try_download repo name (net1, e) w"
  have "files ?w = (files w)(MODELS_DIR @ name @ ''.part'' \<mapsto> t_body (net1 (build_hf_download_url repo name) 0))"
    using assms(1-4, 7) by (simp add: download_single_file_def download_file_def fetch_files Let_def)
  moreover have "t_body (net2 (build_hf_download_url repo name) n) = drop n C"
    using assms(8, 10-12) by (fastforce simp: serves_def)
  ultimately show ?thesis
    using assms(1, 3-5, 9, 11, 12)
    by (simp add: download_single_file_def [of net2] download_file_def fetch_files Let_def del: try_download.simps(1) [of _ _ net1])
qed

theorem interrupted_error_page_is_kept_witness:
  "files (try_download ''a/b'' ''m.gguf'' (good_net, demo_env)
     (try_download ''a/b'' ''m.gguf'' (cut_net [9], demo_env) no_files)) (MODELS_DIR @ ''m.gguf'') = Some [9, 2, 3]"
proof -
  have "utf8_ok ''m.gguf''" by (rule utf8_ok_ascii) simp
  then show ?thesis
    using interrupted_error_page_is_kept [of no_files "''m.gguf''" demo_env "cut_net [9]" "''a/b''" 28 "''Timeout was reached''"
        demo_content good_net 1]
    by (simp add: no_files_def demo_env_def cut_net_def demo_serves) (simp add: good_net_def demo_content_def)
qed

section \<open>A name that blocks all downloads\<close>

text \<open>
  a file name with a count of parts that is too large for an integer makes the start of a download
  in the background throw after it has marked a download as active; no thread was started that would
  clear the mark, so every later start is told that a download is in progress.
\<close>

theorem huge_count_blocks_downloads:
  "case start_async_download (b @ ''-00001-of-99999999999.gguf'') model idle_download of
     (r, s) \<Rightarrow> r = Inl OutOfRange \<and> start_async_download name model' s = (Inr None, s)"
proof -
  have t: "b @ ''-00001-of-99999999999.gguf'' = shard_text b ''00001'' ''99999999999''"
    by (simp add: shard_text_def)
  have "stoi_result ''00001'' = Inr 1" "stoi_result ''99999999999'' = Inl OutOfRange"
    by (simp_all add: stoi_result_def stoi_def strtol_def is_space_def is_digit_def digit_val_def long_max_def long_min_def)
  then have "parse_shard_filename (b @ ''-00001-of-99999999999.gguf'') = Inl OutOfRange"
    unfolding t by (subst parse_shard_text) (simp_all add: is_digit_def)
  then show ?thesis by (simp add: start_async_download_def idle_download_def)
qed

section \<open>Where files are written\<close>

text \<open>The places in the directory of models under names of one component that end in \<^verbatim>\<open>.gguf\<close>.\<close>

definition file_name :: "string \<Rightarrow> bool" where
  "file_name n \<longleftrightarrow> CHR ''/'' \<notin> set n \<and> has_suffix ''.gguf'' n"

definition model_paths :: "string set" where
  "model_paths = (\<Union>n \<in> Collect file_name. {MODELS_DIR @ n, MODELS_DIR @ n @ ''.part''})"

text \<open>An operation that changes no file outside of a set.\<close>

definition only_changes :: "string set \<Rightarrow> (dl_world, 'a) op \<Rightarrow> bool" where
  "only_changes A m \<longleftrightarrow> (\<forall>w. {p. files (snd (m w)) p \<noteq> files w p} \<subseteq> A)"

lemma only_changesI: "(\<And>w p. p \<notin> A \<Longrightarrow> files (snd (m w)) p = files w p) \<Longrightarrow> only_changes A m"
  by (auto simp: only_changes_def)

lemma only_changesD: "only_changes A m \<Longrightarrow> p \<notin> A \<Longrightarrow> files (snd (m w)) p = files w p"
  by (auto simp: only_changes_def)

lemma only_pure [simp]: "only_changes A (returnS x)" "only_changes A (liftS r)"
  by (simp_all add: only_changes_def)

lemma only_bindS [inv_intros]:
  assumes "only_changes A m" "\<And>x. only_changes A (f x)"
  shows "only_changes A (bindS m f)"
proof (rule only_changesI)
  fix w p
  assume p: "p \<notin> A"
  obtain r w' where m: "m w = (r, w')" by (cases "m w")
  with assms p have "files w' p = files w p" by (metis only_changesD snd_conv)
  moreover have "files (snd (f x w')) p = files w' p" for x using assms(2) p by (rule only_changesD)
  ultimately show "files (snd (bindS m f w)) p = files w p" using m by (cases r) (simp_all add: bindS_def)
qed

lemma only_if [inv_intros]: "(b \<Longrightarrow> only_changes A m) \<Longrightarrow> (\<not> b \<Longrightarrow> only_changes A n) \<Longrightarrow> only_changes A (if b then m else n)"
  by simp

lemma has_suffix_append [simp]: "has_suffix x (a @ x)"
  by (simp add: has_suffix_def)

lemma only_download_file:
  assumes "file_name name"
  shows "only_changes model_paths (download_file hf net e url name)"
proof (rule only_changesI)
  fix w p
  assume "p \<notin> model_paths"
  then have "p \<noteq> MODELS_DIR @ name" "p \<noteq> MODELS_DIR @ name @ ''.part''" using assms by (auto simp: model_paths_def)
  then show "files (snd (download_file hf net e url name w)) p = files w p"
    by (simp add: download_file_def fetch_files Let_def split: curl_end.split)
qed

lemma only_download_shards:
  "list_all file_name ss \<Longrightarrow> only_changes model_paths (download_shards net e repo k name i ss n)"
proof (induction ss arbitrary: i n)
  case Nil
  show ?case by (simp add: only_changes_def)
next
  case (Cons s ss)
  then have "only_changes model_paths (download_single_file (net i) e repo s)"
    by (simp add: download_single_file_def only_download_file)
  moreover have "download_shards net e repo k name i (s # ss) n
      = bindS (download_single_file (net i) e repo s) (\<lambda>r.
       bindS (liftS (jvalue get_string (reparse r) ''status'' ''error'')) (\<lambda>status.
            if status = ''error'' then
              liftS (dump (set_member (set_member (set_member (reparse r) ''shard'' (JInt i)) ''total_shards'' (JInt k)) ''message''
                (JString (''Failed on shard '' @ show_int i @ ''/'' @ show_int k @ ''. Retry will resume.''))))
            else bindS (liftS (jvalue get_u64 (reparse r) ''size_bytes'' 0)) (\<lambda>m.
                   download_shards net e repo k name (i + 1) ss (to_u64 (n + m)))))"
    by (simp add: fun_eq_iff Let_def)
  ultimately show ?case using Cons by (auto intro!: inv_intros simp del: download_shards.simps)
qed

lemma only_with_message [simp]: "only_changes A (with_message m r)"
  unfolding with_message_def Let_def by (intro inv_intros only_pure)

lemma shard_names_plain:
  assumes "CHR ''/'' \<notin> set (base si)" "0 \<le> total_shards si"
  shows "list_all file_name (shard_names si)"
proof -
  have "CHR ''/'' \<notin> set (pad5 i)" if "0 \<le> i" for i
    using digits_no_char [OF pad5_digits [OF that]] by (simp add: is_digit_def)
  moreover have "has_suffix ''.gguf'' (build_shard_filename b i k)" for b i k
    using has_suffix_append [of "''.gguf''" "b @ ''-'' @ pad5 i @ ''-of-'' @ pad5 k"] by (simp add: build_shard_filename_def)
  ultimately show ?thesis using assms by (auto simp: shard_names_def list_all_iff file_name_def build_shard_filename_def)
qed

lemma parse_shard_base: "parse_shard_filename name = Inr si \<Longrightarrow> set (base si) \<subseteq> set name"
  by (auto simp: parse_shard_filename_def whole_file_def Let_def bindE_Inr_iff dest: in_set_takeD
      split: option.splits if_splits)

lemma only_download_from_repo:
  assumes "file_name name"
  shows "only_changes model_paths (download_from_repo net e repo name)"
proof (cases "parse_shard_filename name")
  case (Inr si)
  have "CHR ''/'' \<notin> set (base si)" using assms parse_shard_base [OF Inr] by (auto simp: file_name_def)
  then have "1 < total_shards si \<Longrightarrow> only_changes model_paths (download_shards net e repo k name i (shard_names si) n)" for k i n
    by (intro only_download_shards shard_names_plain) simp_all
  moreover have single: "only_changes model_paths (bindS (download_single_file (net 1) e repo name) (with_message m))" for m
    using assms by (intro inv_intros) (simp_all add: download_single_file_def only_download_file)
  ultimately show ?thesis
    using Inr by (intro only_changesI) (auto simp: download_from_repo_def intro: only_changesD [OF single] only_changesD)
qed (simp add: download_from_repo_def only_changes_def)

text \<open>
  C18: whatever the arguments, the network and the machine, the download tool changes only files directly
  in the directory of models, with names of one component.
\<close>

theorem download_tool_stays_in_models:
  "only_changes model_paths (handle_model_download net e args)"
proof (cases args)
  case (Some j)
  have "validate_gguf_filename n \<Longrightarrow> file_name n" for n by (simp add: validate_gguf_filename_def file_name_def)
  then show ?thesis
    unfolding handle_model_download_def Some option.case Let_def download_single_file_direct_def
    by (intro inv_intros only_pure) (auto intro!: inv_intros simp: only_download_file only_download_from_repo)
qed (simp add: handle_model_download_def)

lemma bind_on_dl [simp]: "bindS (on_dl f) h w = h () (w\<lparr>g_dl := f (g_dl w)\<rparr>)"
  by (simp add: on_dl_def)

lemma files_bind_dl [simp]: "files (snd (bindS m (\<lambda>r. on_dl (f r)) w)) = files (snd (m w))"
  by (simp add: bindS_def on_dl_def modifyS_def split: prod.split sum.split)

text \<open>
  the route for a model of the list takes the name from the request as it is: with a name that leads
  out of the directory, the download in the background creates a file elsewhere under \<^verbatim>\<open>/data\<close>, with the
  content that the named repository serves.
\<close>

theorem tier_download_escapes:
  assumes "CHR ''-'' \<notin> set x" "CHR ''/'' \<notin> set x" "x \<notin> {[], ''.'', ''..''}" "repo \<noteq> []"
    and "files w (MODELS_DIR @ ''../'' @ x) = None" "files w (MODELS_DIR @ ''../'' @ x @ ''.part'') = None"
    and "opens e (MODELS_DIR @ ''../'' @ x @ ''.part'')" "curl_starts e" "renames e"
    and "t_end (net 1 (build_hf_download_url repo (''../'' @ x)) 0) = CurlOk"
    and "http_code (net 1 (build_hf_download_url repo (''../'' @ x)) 0) < 400"
    and "utf8_ok x"
  defines "body \<equiv> jobj [(''repo_id'', JString repo), (''filename'', JString (''../'' @ x))]"
  shows "fst (route_download_tier (Some body) idle_download)
       = Inr (start_reply [] [] (Some (whole_file (''../'' @ x))), Some (repo, ''../'' @ x, whole_file (''../'' @ x)))
     \<and> files (snd (async_worker net e repo (''../'' @ x) (whole_file (''../'' @ x)) w)) (MODELS_DIR @ ''../'' @ x)
       = Some (t_body (net 1 (build_hf_download_url repo (''../'' @ x)) 0))
     \<and> canonicalize_path (MODELS_DIR @ ''../'' @ x) = ''/data/'' @ x"
proof -
  let ?n = "''../'' @ x"
  have p: "parse_shard_filename ?n = Inr (whole_file ?n)"
  proof -
    have "CHR ''-'' \<notin> set ?n" using assms(1) by simp
    then have "rfind ''-of-'' ?n = None" unfolding rfind_None_iff by (intro find_sub_absent) auto
    then show ?thesis by (simp add: parse_shard_filename_def)
  qed
  have "dump (start_reply [] [] (Some si)) = Inr (start_reply [] [] (Some si))" for si
    by (simp add: start_reply_def dump_def cpp_simps utf8_ok_ascii)
  then have route: "fst (route_download_tier (Some body) idle_download)
      = Inr (start_reply [] [] (Some (whole_file ?n)), Some (repo, ?n, whole_file ?n))"
    using assms(4) p
    by (simp add: route_download_tier_def body_def cpp_simps start_route_def start_async_download_def idle_download_def)
  have path: "canonicalize_path (MODELS_DIR @ ?n) = ''/data/'' @ x"
    using assms(2, 3) getlines_last [of slash x]
    by (simp add: canonicalize_path_def MODELS_DIR_def slash_def render_path_def)
  have "files (snd (async_worker net e repo ?n (whole_file ?n) w)) (MODELS_DIR @ ?n)
      = Some (t_body (net 1 (build_hf_download_url repo ?n) 0))"
    using assms(5-11)
    by (simp add: async_worker_def whole_file_def download_single_file_def download_file_def fetch_files Let_def)
  with route path show ?thesis by simp
qed

theorem tier_download_escapes_witness:
  "files (snd (async_worker (\<lambda>_. good_net) demo_env ''a/b'' ''../auth.json'' (whole_file ''../auth.json'') no_files))
     ''/data/models/../auth.json'' = Some [1, 2, 3]"
  using tier_download_escapes [of "''auth.json''" "''a/b''" no_files demo_env "\<lambda>_. good_net"]
  by (simp add: no_files_def demo_env_def utf8_ok_ascii) (simp add: good_net_def demo_content_def MODELS_DIR_def)

section \<open>The progress that is shown\<close>

lemma show_int_ascii: "list_all (\<lambda>c. (of_char c :: nat) < 128) (show_int n)"
  using show_nat_digits [of "nat n"] show_nat_digits [of "nat (- n)"]
  by (auto simp: show_int_def list_all_iff is_digit_def)

lemma utf8_ok_format [simp]: "utf8_ok (format_download_bytes n)" "utf8_ok (format_download_bytes n @ ''/s'')"
  using show_int_ascii
  by (auto simp: format_download_bytes_def show_tenths_def intro!: utf8_ok_ascii)

lemma dump_download_done: "utf8_ok s \<Longrightarrow> dump (download_done (MODELS_DIR @ s) s n v) = Inr (download_done (MODELS_DIR @ s) s n v)"
  by (simp add: download_done_def dump_def cpp_simps MODELS_DIR_def utf8_ok_append utf8_ok_ascii
      del: append.simps)

text \<open>
  after the last part of a model has been downloaded the progress shows its bytes twice: in the sum
  of the parts that are complete, and as the part that is being downloaded.
\<close>

theorem last_part_counted_twice:
  assumes "files w (MODELS_DIR @ s) = None" "files w (MODELS_DIR @ s @ ''.part'') = None"
    and "opens e (MODELS_DIR @ s @ ''.part'')" "curl_starts e" "renames e" "utf8_ok s"
    and "t = net i (build_hf_download_url repo s) 0" "t_end t = CurlOk" "http_code t < 400"
    and "t_progress t \<noteq> []" "snd (last (t_progress t)) = int (length (t_body t))"
    and "0 \<le> before" "before + 2 * int (length (t_body t)) < 2 ^ 64"
  shows "case async_shards net e repo k i [s] before w of (r, w') \<Rightarrow>
     r = Inr () \<and> finished_dl (g_dl w') \<and> length (the (files w' (MODELS_DIR @ s))) = length (t_body t)
     \<and> total_downloaded (g_dl w') = before + 2 * int (length (t_body t))"
proof -
  let ?d = "MODELS_DIR @ s" and ?n = "int (length (t_body t))"
  have fold_last: "ps \<noteq> [] \<Longrightarrow> current_file_downloaded (g_dl (fold curl_progress_cb ps v)) = snd (last ps)" for ps v
    by (induction ps arbitrary: v) (simp_all add: curl_progress_cb_def)
  have fold_rest: "completed_bytes (g_dl (fold curl_progress_cb ps v)) = completed_bytes (g_dl v)" for ps v
    by (induction ps arbitrary: v) (simp_all add: curl_progress_cb_def)
  let ?u = "w\<lparr>g_dl := begin_shard i (g_dl w)\<rparr>"
  let ?v = "fold curl_progress_cb (t_progress t) (?u\<lparr>files := (files w)(?d @ ''.part'' \<mapsto> t_body t)\<rparr>)"
  let ?w = "?v\<lparr>files := (files ?v)(?d @ ''.part'' := None, ?d \<mapsto> t_body t)\<rparr>"
  note d = dump_download_done [OF assms(6), of ?n "t_speed t"]
  have run: "download_single_file (net i) e repo s ?u = (Inr (download_done ?d s ?n (t_speed t)), ?w)"
    using assms(1-5, 8, 9) d assms(7) [symmetric]
    by (simp add: download_single_file_def download_file_def fetch_def Let_def)
  have c: "completed_bytes (g_dl ?w) = completed_bytes (g_dl w)" "current_file_downloaded (g_dl ?w) = ?n"
    using fold_last [OF assms(10)] assms(11) by (simp_all add: fold_rest begin_shard_def)
  have j: "jvalue get_string (reparse (download_done ?d s ?n (t_speed t))) ''status'' [] = Inr ''success''"
    "jvalue get_u64 (reparse (download_done ?d s ?n (t_speed t))) ''size_bytes'' 0 = Inr ?n"
    using assms(12, 13) by (simp_all add: download_done_def cpp_simps)
  have m: "dump_ok (jobj [(''status'', JString ''success''), (''shards'', JInt k), (''total_size_bytes'', JUInt b),
       (''total_size_human'', JString (format_download_bytes b)),
       (''message'', JString ''All shards downloaded. Restart to load model.'')])" for b
    by (simp add: cpp_simps utf8_ok_ascii)
  note step = bindS_Inr [where m = "download_single_file (net i) e repo s" and s = ?u, OF run]
  show ?thesis
    using assms(12, 13) c
    by (simp add: step j Let_def dump_def m total_downloaded_def end_download_def on_dl_def cpp_simps)
qed

theorem last_part_counted_twice_witness:
  "total_downloaded (g_dl (snd (async_shards (\<lambda>_. good_net) demo_env ''a/b'' 2 2 [''p'']  10 no_files))) = 16"
  using last_part_counted_twice [of no_files "''p''" demo_env _ "\<lambda>_. good_net" 2 "''a/b''" 10 2, OF _ _ _ _ _ _ refl]
  by (simp add: no_files_def demo_env_def good_net_def demo_content_def utf8_ok_ascii split: prod.splits)

section \<open>Imports from a drive\<close>

text \<open>
  an import takes the first file of the drive in whose path the name occurs anywhere, and stores it
  under the name: a file whose name only ends in the wanted one is imported in its place.
\<close>

theorem import_takes_first_path_with_name:
  assumes "device \<noteq> []" "validate_gguf_filename name" "try_mount usb device = Some ns"
    and "scan_gguf_files MOUNTPOINT 0 ns = before @ (a @ name @ b, c) # rest"
    and "list_all (\<lambda>f. find_sub name (fst f) = None) before"
    and "length c div (1024 * 1024) + 100 \<le> free_mb"
  shows "files (snd (usb_import usb free_mb True room device name w)) (MODELS_DIR @ name) = Some (take room c)
     \<and> fst (usb_import usb free_mb True room device name w)
       = dump (jobj [(''status'', JString ''success''), (''path'', JString (MODELS_DIR @ name)),
                 (''filename'', JString name), (''size_bytes'', JUInt (int (length c))),
                 (''size_human'', JString (format_download_bytes (int (length c)))),
                 (''message'', JString ''Model imported from USB. Restart to load it.'')])"
proof -
  have "find (\<lambda>f. find_sub name (fst f) \<noteq> None) (before @ (a @ name @ b, c) # rest) = Some (a @ name @ b, c)"
    using assms(5) find_sub_inside [of name a b] by (induction before) auto
  moreover have "name \<noteq> []" using assms(2) by (auto simp: validate_gguf_filename_def)
  ultimately show ?thesis using assms(1-4, 6) by (simp add: usb_import_def Let_def)
qed

theorem import_takes_first_path_with_name_witness:
  "files (snd (usb_import (\<lambda>dev t. Some [UFile ''tiny-m.gguf'' [7], UFile ''m.gguf'' [1, 2, 3]]) 1000 True 10 ''/dev/sdb1''
      ''m.gguf'' no_files)) ''/data/models/m.gguf'' = Some [7]"
proof -
  let ?usb = "\<lambda>dev t. Some [UFile ''tiny-m.gguf'' [7], UFile ''m.gguf'' [1, 2, 3 :: byte]]"
  have "scan_gguf_files MOUNTPOINT 0 [UFile ''tiny-m.gguf'' [7], UFile ''m.gguf'' [1, 2, 3]]
      = [] @ (''/mnt/usb/tiny-'' @ ''m.gguf'' @ [], [7]) # [(''/mnt/usb/m.gguf'', [1, 2, 3])]"
    by (simp add: hidden_def has_suffix_def MOUNTPOINT_def)
  from import_takes_first_path_with_name [OF _ _ _ this, of "''/dev/sdb1''" ?usb 1000 10 no_files]
  show ?thesis
    by (simp add: validate_gguf_filename_def has_suffix_def starts_with_def try_mount_def FS_TYPES_def MODELS_DIR_def)
qed

end
