(* ===== verification/NetTools.thy ===== *)
theory NetTools
  imports LlPrelude JsonValue Registry Installer Wifi
begin

text \<open>
  \<^verbatim>\<open>tools_network.cpp\<close> and \<^verbatim>\<open>netlink_route.h\<close>: the tools that show the interfaces, the connections and
  the configuration of the network, the one that sets it, and the messages that change the default
  route, byte for byte. Definitions only; the lemmas are in NetToolsFacts. The files of \<^verbatim>\<open>/sys\<close> and
  \<^verbatim>\<open>/proc\<close>, the resolver and what the kernel answers are arguments; what the tools do to the machine
  is a list of actions.
\<close>

unbundle bit_operations_syntax

section \<open>Addresses\<close>

text \<open>What a C function sees of a string: all before the first zero byte.\<close>

definition c_str :: "string \<Rightarrow> string" where
  "c_str s = takeWhile (\<lambda>c. c \<noteq> CHR 0x00) s"

text \<open>\<^verbatim>\<open>inet_pton (AF_INET)\<close>: the octets that are complete, the current one and whether a digit of it was
  seen.\<close>

fun pton_loop :: "nat list \<Rightarrow> nat \<Rightarrow> bool \<Rightarrow> string \<Rightarrow> nat list option" where
  "pton_loop os v seen [] = (if seen \<and> length os = 3 then Some (os @ [v]) else None)"
| "pton_loop os v seen (c # cs) =
     (if is_digit c then
        if seen \<and> v = 0 then None
        else if v * 10 + digit_val c > 255 then None
        else if \<not> seen \<and> length os \<ge> 4 then None
        else pton_loop os (v * 10 + digit_val c) True cs
      else if c = CHR ''.'' \<and> seen then (if length os = 3 then None else pton_loop (os @ [v]) 0 False cs)
      else None)"

definition inet_pton4 :: "string \<Rightarrow> byte list option" where
  "inet_pton4 s = map_option (map of_nat) (pton_loop [] 0 False (c_str s))"

definition show_dotted :: "byte list \<Rightarrow> string" where
  "show_dotted bs = (case map (\<lambda>b. show_nat (unat b)) bs of
     [a, b, c, d] \<Rightarrow> a @ ''.'' @ b @ ''.'' @ c @ ''.'' @ d | _ \<Rightarrow> [])"

text \<open>\<open>std::stoul\<close> with base 16: blanks, a sign, a prefix, and the longest run of digits.\<close>

definition is_hex :: "char \<Rightarrow> bool" where
  "is_hex c \<longleftrightarrow> is_digit c \<or> (97 \<le> (of_char c :: nat) \<and> (of_char c :: nat) \<le> 102) \<or> (65 \<le> (of_char c :: nat) \<and> (of_char c :: nat) \<le> 70)"

definition hex_val :: "char \<Rightarrow> nat" where
  "hex_val c = (if is_digit c then digit_val c else if 97 \<le> (of_char c :: nat) then of_char c - 87 else of_char c - 55)"

definition hex_number :: "string \<Rightarrow> nat" where
  "hex_number ds = fold (\<lambda>c n. 16 * n + hex_val c) ds 0"

definition skip_0x :: "string \<Rightarrow> string" where
  "skip_0x s = (case s of
     a # x # d # r \<Rightarrow> if a = CHR ''0'' \<and> (x = CHR ''x'' \<or> x = CHR ''X'') \<and> is_hex d then d # r else s
   | _ \<Rightarrow> s)"

text \<open>The number that a text begins with, with its sign; none is no conversion.\<close>

definition hex_prefix :: "string \<Rightarrow> (bool \<times> nat) option" where
  "hex_prefix s =
     (let s1 = dropWhile is_space s;
          neg = (case s1 of c # _ \<Rightarrow> c = CHR ''-'' | [] \<Rightarrow> False);
          s2 = (case s1 of c # r \<Rightarrow> if c = CHR ''-'' \<or> c = CHR ''+'' then r else s1 | [] \<Rightarrow> s1);
          ds = takeWhile is_hex (skip_0x s2)
      in if ds = [] then None else Some (neg, hex_number ds))"

definition stoul16 :: "string \<Rightarrow> int result" where
  "stoul16 s =
     (case hex_prefix s of
        None \<Rightarrow> Inl (InvalidArgument ''stoul'')
      | Some (neg, v) \<Rightarrow> if int v \<ge> 2 ^ 64 then Inl OutOfRange else Inr (if neg then to_u64 (- int v) else int v))"

definition stoi16 :: "string \<Rightarrow> int result" where
  "stoi16 s =
     (case hex_prefix s of
        None \<Rightarrow> Inl (InvalidArgument ''stoi'')
      | Some (neg, v) \<Rightarrow> let v = (if neg then - int v else int v)
                        in if v < - (2 ^ 31) \<or> v \<ge> 2 ^ 31 then Inl OutOfRange else Inr v)"

text \<open>The address is stored as it is in memory, the first octet in the low byte.\<close>

definition hex_to_ip_port :: "string \<Rightarrow> string" where
  "hex_to_ip_port hex_addr =
     (if CHR '':'' \<notin> set hex_addr then hex_addr
      else let ip_hex = takeWhile (\<lambda>c. c \<noteq> CHR '':'') hex_addr; port_hex = drop (length ip_hex + 1) hex_addr
           in case stoul16 ip_hex of
                Inl _ \<Rightarrow> hex_addr
              | Inr v \<Rightarrow> show_dotted (le_bytes 4 (word_of_int v :: u32)) @ '':''
                  @ show_int (case stoul16 port_hex of Inl _ \<Rightarrow> 0 | Inr p \<Rightarrow> to_u32 p))"

section \<open>The tools that show\<close>

record net_iface =
  ni_name :: string
  ni_attr :: "string \<Rightarrow> string"

text \<open>An attribute that is a number, when it can be converted; the bounds are those of the type.\<close>

definition number_field :: "string \<Rightarrow> int \<Rightarrow> string \<Rightarrow> (string \<times> json) list" where
  "number_field key bound s =
     (case strtol s of
        None \<Rightarrow> []
      | Some (v, _, big) \<Rightarrow> if big \<or> v < - bound \<or> v \<ge> bound then [] else [(key, JInt v)])"

definition link_type :: "string \<Rightarrow> (string \<times> json) list" where
  "link_type s =
     (case stoi s of
        None \<Rightarrow> []
      | Some n \<Rightarrow> [(''link_type'', JString (if n = 1 then ''ethernet'' else if n = 772 then ''loopback''
          else if n = 65534 then ''tun'' else ''other('' @ s @ '')''))])"

definition interface_json :: "net_iface \<Rightarrow> json" where
  "interface_json i =
     (let a = ni_attr i; num = (\<lambda>key file bound. if a file = [] then [] else number_field key bound (a file))
      in jobj ([(''name'', JString (ni_name i)),
            (''state'', JString (if a ''operstate'' = [] then ''unknown'' else a ''operstate''))]
          @ (if a ''address'' = [] then [] else [(''mac'', JString (a ''address''))])
          @ num ''mtu'' ''mtu'' (2 ^ 31)
          @ (if a ''speed'' = ''-1'' then [] else num ''speed_mbps'' ''speed'' (2 ^ 31))
          @ num ''tx_bytes'' ''statistics/tx_bytes'' (2 ^ 63) @ num ''rx_bytes'' ''statistics/rx_bytes'' (2 ^ 63)
          @ (if a ''type'' = [] then [] else link_type (a ''type''))))"

definition handle_network_interfaces :: "net_iface list option \<Rightarrow> json result" where
  "handle_network_interfaces dir =
     (case dir of
        None \<Rightarrow> dump (json_error ''cannot read /sys/class/net'')
      | Some es \<Rightarrow>
          let is = map interface_json (filter (\<lambda>i. ni_name i \<noteq> ''.'' \<and> ni_name i \<noteq> ''..'') es)
          in dump (jobj [(''interfaces'', JArray is), (''count'', JUInt (int (length is)))]))"

definition tcp_state_name :: "int \<Rightarrow> string" where
  "tcp_state_name n =
     (if 1 \<le> n \<and> n \<le> 11 then
        [''ESTABLISHED'', ''SYN_SENT'', ''SYN_RECV'', ''FIN_WAIT1'', ''FIN_WAIT2'', ''TIME_WAIT'', ''CLOSE'',
         ''CLOSE_WAIT'', ''LAST_ACK'', ''LISTEN'', ''CLOSING''] ! nat (n - 1)
      else ''UNKNOWN'')"

text \<open>The state is converted with \<open>std::stoi\<close> in base 16; the words that are missing are empty.\<close>

definition connection_json :: "string \<Rightarrow> json list" where
  "connection_json line =
     (case cpp_words line @ [[], [], [], []] of
        _ # local_addr # remote # state_hex # _ \<Rightarrow>
          if local_addr = [] then []
          else let n = (case stoi16 state_hex of Inl _ \<Rightarrow> 0 | Inr v \<Rightarrow> v)
               in [jobj [(''local'', JString (hex_to_ip_port local_addr)), (''remote'', JString (hex_to_ip_port remote)),
                    (''state'', JString (tcp_state_name n))]]
      | _ \<Rightarrow> [])"

definition handle_network_connections :: "string list option \<Rightarrow> json result" where
  "handle_network_connections tcp =
     (case tcp of
        None \<Rightarrow> dump (json_error ''cannot read /proc/net/tcp'')
      | Some lines \<Rightarrow>
          let cs = concat (map connection_json (drop 1 lines))
          in dump (jobj [(''connections'', JArray cs), (''count'', JUInt (int (length cs)))]))"

text \<open>The answer of the resolver: an error text, or the addresses with whether each is of version 6.\<close>

definition handle_network_dns_lookup :: "(string \<Rightarrow> string + (bool \<times> string) list) \<Rightarrow> json option \<Rightarrow> json result" where
  "handle_network_dns_lookup resolve args =
     (case args of
        None \<Rightarrow> dump (json_error ''invalid JSON arguments'')
      | Some args \<Rightarrow>
          bindE (jvalue get_string args ''hostname'' []) (\<lambda>h.
            if h = [] then dump (json_error ''hostname is required'')
            else if length h > 253 \<or> CHR ''/'' \<in> set h then dump (json_error ''invalid hostname'')
            else case resolve (c_str h) of
                   Inl m \<Rightarrow> dump (jobj [(''error'', JString (''DNS lookup failed: '' @ m)), (''hostname'', JString h)])
                 | Inr as \<Rightarrow>
                     dump (jobj [(''hostname'', JString h),
                       (''addresses'', JArray (map (\<lambda>(six, a). jobj [(''address'', JString a),
                          (''family'', JString (if six then ''IPv6'' else ''IPv4''))]) as)),
                       (''count'', JUInt (int (length as)))])))"

text \<open>What comes of the connection within a time: no address, no socket, or whether the host was reached,
  with the milliseconds.\<close>

datatype ping_outcome = NoAddress string | NoSocket | Tried bool int

definition handle_network_ping :: "(string \<Rightarrow> int \<Rightarrow> int \<Rightarrow> ping_outcome) \<Rightarrow> json option \<Rightarrow> json result" where
  "handle_network_ping try_connect args =
     (case args of
        None \<Rightarrow> dump (json_error ''invalid JSON arguments'')
      | Some args \<Rightarrow>
          bindE (jvalue get_string args ''host'' []) (\<lambda>host.
            if host = [] then dump (json_error ''host is required'')
            else bindE (jvalue get_int args ''port'' 80) (\<lambda>port. bindE (jvalue get_int args ''timeout_ms'' 3000) (\<lambda>t.
              let head = [(''host'', JString host), (''port'', JInt port)]
              in case try_connect (c_str host) port (if t > 10000 then 10000 else t) of
                   NoAddress m \<Rightarrow> dump (jobj (head @ [(''reachable'', JBool False),
                     (''error'', JString (''DNS resolution failed: '' @ m))]))
                 | NoSocket \<Rightarrow> dump (jobj (head @ [(''reachable'', JBool False), (''error'', JString ''socket creation failed'')]))
                 | Tried ok ms \<Rightarrow> dump (jobj (head @ [(''reachable'', JBool ok), (''latency_ms'', JInt ms)]))))))"

text \<open>The first interface that is up, with its address and netmask where the kernel tells them.\<close>

record active_iface =
  ai_name :: string
  ai_state :: string
  ai_addr :: "string option"
  ai_mask :: "string option"

definition handle_network_get_ip ::
  "json option \<Rightarrow> active_iface list \<Rightarrow> string list \<Rightarrow> json result" where
  "handle_network_get_ip saved es resolv =
     (let cfg = (case saved of None \<Rightarrow> jobj [(''mode'', JString ''dhcp'')] | Some c \<Rightarrow> c);
          up = find (\<lambda>i. ai_name i \<notin> {''.'', ''..'', ''lo''} \<and> ai_state i = ''up'') es;
          dns = find (\<lambda>l. take 11 l = ''nameserver '') resolv
      in dump (jobj ([(''config'', cfg)]
          @ (case up of None \<Rightarrow> [] | Some i \<Rightarrow>
               (case ai_addr i of None \<Rightarrow> [] | Some a \<Rightarrow> [(''active_ip'', JString a), (''active_interface'', JString (ai_name i))])
               @ (case ai_mask i of None \<Rightarrow> [] | Some m \<Rightarrow> [(''active_netmask'', JString m)]))
          @ (case dns of None \<Rightarrow> [] | Some l \<Rightarrow> [(''active_dns'', JString (drop 11 l))]))))"

section \<open>The default route\<close>

text \<open>What the tools do to the machine.\<close>

datatype net_action =
    SaveConfig json
  | EmptyConfig
  | SetAddress string "byte list"
  | SetNetmask string "byte list"
  | BringUp string
  | Netlink "byte list"
  | WriteResolv string

definition nlmsghdr :: "u32 \<Rightarrow> u16 \<Rightarrow> u16 \<Rightarrow> u32 \<Rightarrow> byte list" where
  "nlmsghdr len type flags seq = le_bytes 4 len @ le_bytes 2 type @ le_bytes 2 flags @ le_bytes 4 seq @ le_bytes 4 (0 :: u32)"

definition rtmsg :: "byte \<Rightarrow> byte \<Rightarrow> byte \<Rightarrow> byte \<Rightarrow> byte \<Rightarrow> byte list" where
  "rtmsg family tab protocol scope type = [family, 0, 0, 0, tab, protocol, scope, type] @ le_bytes 4 (0 :: u32)"

definition rtattr :: "u16 \<Rightarrow> byte list \<Rightarrow> byte list" where
  "rtattr type payload = le_bytes 2 (of_nat (4 + length payload) :: u16) @ le_bytes 2 type @ payload"

definition AF_INET4 :: byte where "AF_INET4 = 2"
definition RT_TABLE_MAIN :: byte where "RT_TABLE_MAIN = 254"
definition RTPROT_STATIC :: byte where "RTPROT_STATIC = 4"
definition RTN_UNICAST :: byte where "RTN_UNICAST = 1"
definition RTM_NEWROUTE :: u16 where "RTM_NEWROUTE = 24"
definition RTM_DELROUTE :: u16 where "RTM_DELROUTE = 25"
definition RTA_OIF :: u16 where "RTA_OIF = 4"
definition RTA_GATEWAY :: u16 where "RTA_GATEWAY = 5"
definition NLMSG_ERROR :: u16 where "NLMSG_ERROR = 2"
definition ESRCH :: int where "ESRCH = 3"

definition del_message :: "byte list" where
  "del_message = nlmsghdr 28 RTM_DELROUTE (1 OR 4) 100 @ rtmsg AF_INET4 RT_TABLE_MAIN 0 0 0"

definition add_message :: "byte list \<Rightarrow> u32 \<Rightarrow> byte list" where
  "add_message gw ifindex =
     nlmsghdr 44 RTM_NEWROUTE (1 OR 0x400 OR 0x100 OR 4) 101 @ rtmsg AF_INET4 RT_TABLE_MAIN RTPROT_STATIC 0 RTN_UNICAST
       @ rtattr RTA_GATEWAY gw @ rtattr RTA_OIF (le_bytes 4 ifindex)"

text \<open>Whether the socket can be opened, bound and sent to, and what is received: the length and the
  buffer.\<close>

record nl_env =
  nl_socket :: bool
  nl_bind :: bool
  nl_send :: bool
  nl_recv :: "int \<times> byte list"

definition ack_type :: "byte list \<Rightarrow> u16" where "ack_type buf = le_word (bytes_at 4 2 buf)"
definition ack_error :: "byte list \<Rightarrow> int" where "ack_error buf = sint (le_word (bytes_at 16 4 buf) :: u32)"

definition netlink_del_default_route :: "nl_env \<Rightarrow> int \<times> net_action list" where
  "netlink_del_default_route e =
     (if \<not> nl_socket e \<or> \<not> nl_bind e then (- 1, [])
      else if \<not> nl_send e then (- 1, [])
      else case nl_recv e of (len, buf) \<Rightarrow>
        if len > 0 \<and> ack_type buf = NLMSG_ERROR \<and> ack_error buf \<noteq> 0 \<and> ack_error buf \<noteq> - ESRCH
        then (- 1, [Netlink del_message]) else (0, [Netlink del_message]))"

definition netlink_add_default_route :: "nl_env \<Rightarrow> (string \<Rightarrow> u32) \<Rightarrow> string \<Rightarrow> string \<Rightarrow> int \<times> net_action list" where
  "netlink_add_default_route e if_index gateway dev =
     (case inet_pton4 gateway of
        None \<Rightarrow> (- 1, [])
      | Some gw \<Rightarrow>
          if if_index (c_str dev) = 0 then (- 1, [])
          else if \<not> nl_socket e \<or> \<not> nl_bind e \<or> \<not> nl_send e then (- 1, [])
          else let msg = Netlink (add_message gw (if_index (c_str dev)))
               in case nl_recv e of (len, buf) \<Rightarrow>
                    if len < 0 then (- 1, [msg])
                    else if ack_type buf = NLMSG_ERROR \<and> ack_error buf \<noteq> 0 then (- 1, [msg])
                    else (0, [msg]))"

section \<open>The tool that sets the address\<close>

text \<open>What it meets: whether the file can be written, the socket opened, the flags read and the file of
  the resolver opened; the answers to the two messages; the numbers of the interfaces; and whether a text
  is an IPv6 address.\<close>

record net_env =
  can_save :: bool
  ne_socket :: bool
  ne_flags :: bool
  ne_resolv :: bool
  ne_del :: nl_env
  ne_add :: nl_env
  ne_index :: "string \<Rightarrow> u32"
  is_ipv6 :: "string \<Rightarrow> bool"

definition IFNAMSIZ :: nat where "IFNAMSIZ = 16"

definition ioctl_name :: "string \<Rightarrow> string" where
  "ioctl_name dev = take (IFNAMSIZ - 1) (c_str dev)"

definition octets_of :: "string \<Rightarrow> byte list" where
  "octets_of s = (case inet_pton4 s of None \<Rightarrow> [0, 0, 0, 0] | Some b \<Rightarrow> b)"

definition apply_static :: "net_env \<Rightarrow> string \<Rightarrow> string \<Rightarrow> string \<Rightarrow> string \<Rightarrow> string \<Rightarrow> net_action list" where
  "apply_static e dev ip netmask gw dns =
     (if ne_socket e then
        [SetAddress (ioctl_name dev) (octets_of ip), SetNetmask (ioctl_name dev) (octets_of netmask)]
        @ (if ne_flags e then [BringUp (ioctl_name dev)] else [])
        @ (if gw \<noteq> [] then snd (netlink_del_default_route (ne_del e))
             @ snd (netlink_add_default_route (ne_add e) (ne_index e) gw dev) else [])
      else [])
     @ (if dns \<noteq> [] \<and> ne_resolv e then [WriteResolv (''nameserver '' @ dns @ [NEWL])] else [])"

text \<open>Opening the file empties it before the text of the configuration is made.\<close>

definition applied :: "net_env \<Rightarrow> json \<Rightarrow> string \<Rightarrow> net_action list \<Rightarrow> json result \<times> net_action list" where
  "applied e config msg acts =
     (if \<not> can_save e then (dump (json_error ''cannot write network config''), [])
      else case dump config of
             Inl x \<Rightarrow> (Inl x, [EmptyConfig])
           | Inr _ \<Rightarrow> (dump (jobj [(''status'', JString ''applied''), (''config'', config), (''message'', JString msg)]),
                       SaveConfig config # acts))"

definition static_config :: "string \<Rightarrow> string \<Rightarrow> string \<Rightarrow> string \<Rightarrow> string \<Rightarrow> json" where
  "static_config ip m g d i =
     jobj [(''mode'', JString ''static''), (''ip'', JString ip), (''netmask'', JString m),
           (''gateway'', JString g), (''dns'', JString d), (''interface'', JString i)]"

definition set_static :: "net_env \<Rightarrow> json \<Rightarrow> json result \<times> net_action list" where
  "set_static e args =
     (let str = (\<lambda>k d. jvalue get_string args k d); refuse = (\<lambda>m. (dump (json_error m), []))
      in case str ''ip'' [] of
           Inl x \<Rightarrow> (Inl x, [])
         | Inr ip \<Rightarrow>
             if ip = [] then refuse ''ip is required for static mode''
             else if inet_pton4 ip = None then refuse ''invalid IP address format''
             else case bindE (str ''netmask'' ''255.255.255.0'') (\<lambda>m. bindE (str ''gateway'' []) (\<lambda>g.
                    bindE (str ''dns'' ''8.8.8.8'') (\<lambda>d. bindE (str ''interface'' ''eth0'') (\<lambda>i. Inr (m, g, d, i))))) of
                    Inl x \<Rightarrow> (Inl x, [])
                  | Inr (m, g, d, i) \<Rightarrow>
                      if inet_pton4 m = None then refuse ''invalid netmask format''
                      else if g \<noteq> [] \<and> inet_pton4 g = None then refuse ''invalid gateway format''
                      else if inet_pton4 d = None \<and> \<not> is_ipv6 e (c_str d) then refuse ''invalid DNS address format''
                      else applied e (static_config ip m g d i) ''Static IP applied and saved.'' (apply_static e i ip m g d))"

definition quoted :: "string \<Rightarrow> string" where
  "quoted s = [CHR 0x27] @ s @ [CHR 0x27]"

definition handle_network_set_ip :: "net_env \<Rightarrow> json option \<Rightarrow> json result \<times> net_action list" where
  "handle_network_set_ip e args =
     (case args of
        None \<Rightarrow> (dump (json_error ''invalid JSON arguments''), [])
      | Some j \<Rightarrow>
          (case jvalue get_string j ''mode'' [] of
             Inl x \<Rightarrow> (Inl x, [])
           | Inr mode \<Rightarrow>
               if mode \<noteq> ''dhcp'' \<and> mode \<noteq> ''static'' then (dump (json_error (''mode must be '' @ quoted ''dhcp'' @ '' or '' @ quoted ''static'')), [])
               else if mode = ''static'' then set_static e j
               else applied e (jobj [(''mode'', JString ''dhcp'')])
                      ''Switched to DHCP. Config saved; reboot to fully apply.'' []))"

end
