(* ===== verification/NetToolsFacts.thy ===== *)
theory NetToolsFacts
  imports NetTools InstallerFacts
begin

text \<open>
  The lemmas and properties of the network tools: the texts of addresses and back, the bytes of the
  route messages as the kernel reads them, and which settings take effect.
\<close>

unbundle bit_operations_syntax

section \<open>Dotted addresses\<close>

lemma pton_number:
  "n \<le> 255 \<Longrightarrow> length os < 4 \<Longrightarrow> pton_loop os 0 False (show_nat n @ r) = pton_loop os n True r"
proof (induction n arbitrary: r rule: show_nat.induct)
  case (1 n)
  show ?case
  proof (cases "n < 10")
    case True
    then show ?thesis using 1(3) by (subst show_nat.simps) simp
  next
    case False
    then have s: "show_nat n = show_nat (n div 10) @ [digit_char (n mod 10)]" by (subst show_nat.simps) simp
    have "pton_loop os 0 False (show_nat n @ r) = pton_loop os (n div 10) True (digit_char (n mod 10) # r)"
      using 1 False by (simp add: s)
    also have "\<dots> = pton_loop os n True r" using False 1(2, 3) by (simp add: div_eq_0_iff)
    finally show ?thesis .
  qed
qed

lemma dot_no_digit [simp]: "\<not> is_digit (CHR ''.'')" "\<not> is_digit (CHR '':'')" "\<not> is_hex (CHR '':'')"
  by (simp_all add: is_digit_def is_hex_def)

lemma digit_not_nul: "is_digit c \<Longrightarrow> c \<noteq> CHR 0x00"
  by (auto simp: is_digit_def)

lemma show_nat_not_nul: "CHR 0x00 \<notin> set (show_nat n)"
  using show_nat_digits [of n] digit_not_nul by (auto simp: list_all_iff)

lemma c_str_id: "CHR 0x00 \<notin> set s \<Longrightarrow> c_str s = s"
  unfolding c_str_def by (rule takeWhile_eq_all_conv [THEN iffD2]) auto

lemma c_str_cut: "c_str (s @ CHR 0x00 # r) = c_str s"
  by (induction s) (auto simp: c_str_def)

lemma length_4: "length xs = 4 \<Longrightarrow> \<exists>a b c d. xs = [a, b, c, d]"
  by (auto simp: numeral_eq_Suc length_Suc_conv)

lemma show_dotted_not_nul: "CHR 0x00 \<notin> set (show_dotted bs)"
  using show_nat_not_nul by (auto simp: show_dotted_def split: list.splits)

lemma inet_pton4_dotted:
  assumes "length bs = 4"
  shows "inet_pton4 (show_dotted bs) = Some bs"
proof -
  obtain a b c d where bs: "bs = [a, b, c, d]" using length_4 [OF assms] by blast
  have le: "unat x \<le> 255" for x :: byte using unat_byte [of x] by simp
  have "pton_loop [] 0 False (show_dotted bs) = Some (map unat bs)"
    using pton_number [OF le [of d], of _ "[]"] by (simp add: bs show_dotted_def pton_number le)
  moreover have "c_str (show_dotted bs) = show_dotted bs" by (rule c_str_id [OF show_dotted_not_nul])
  ultimately show ?thesis by (simp add: inet_pton4_def comp_def)
qed

lemma pton_loop_length: "pton_loop os v seen s = Some ns \<Longrightarrow> length ns = 4"
  by (induction os v seen s rule: pton_loop.induct) (auto split: if_splits)

lemma inet_pton4_length: "inet_pton4 s = Some bs \<Longrightarrow> length bs = 4"
  by (auto simp: inet_pton4_def dest: pton_loop_length)

lemma pton_loop_bounded:
  "pton_loop os v seen s = Some ns \<Longrightarrow> list_all (\<lambda>n. n \<le> 255) os \<Longrightarrow> v \<le> 255 \<Longrightarrow> list_all (\<lambda>n. n \<le> 255) ns"
  by (induction os v seen s rule: pton_loop.induct) (auto split: if_splits)

lemma inet_pton4_c_str: "inet_pton4 (s @ CHR 0x00 # r) = inet_pton4 s"
  by (simp add: inet_pton4_def c_str_cut)

section \<open>Hexadecimal addresses\<close>

text \<open>The text that the kernel writes into \<^verbatim>\<open>/proc/net/tcp\<close>: \<open>%08X:%04X\<close>, of the address as the
  word that it is in memory and of the port.\<close>

definition hex_upper :: "nat \<Rightarrow> char" where
  "hex_upper n = (if n < 10 then char_of (48 + n) else char_of (55 + n))"

primrec hex_pad :: "nat \<Rightarrow> nat \<Rightarrow> string" where
  "hex_pad 0 n = []"
| "hex_pad (Suc k) n = hex_pad k (n div 16) @ [hex_upper (n mod 16)]"

definition kernel_text :: "byte list \<Rightarrow> u16 \<Rightarrow> string" where
  "kernel_text ip port = hex_pad 8 (unat (le_word ip :: u32)) @ '':'' @ hex_pad 4 (unat port)"

lemma hex_upper: "n < 16 \<Longrightarrow> is_hex (hex_upper n)" "n < 16 \<Longrightarrow> hex_val (hex_upper n) = n"
  by (auto simp: hex_upper_def is_hex_def hex_val_def is_digit_def digit_val_def)

lemma length_hex_pad [simp]: "length (hex_pad k n) = k"
  by (induction k arbitrary: n) auto

lemma hex_pad_hex: "list_all is_hex (hex_pad k n)"
  by (induction k arbitrary: n) (auto simp: hex_upper)

lemma hex_number_pad: "hex_number (hex_pad k n) = n mod 16 ^ k"
proof (induction k arbitrary: n)
  case (Suc k)
  have "hex_number (hex_pad (Suc k) n) = 16 * (n div 16 mod 16 ^ k) + n mod 16"
    using Suc [of "n div 16"] by (simp add: hex_number_def hex_upper)
  also have "\<dots> = n mod 16 ^ Suc k" by (simp add: mod_mult2_eq)
  finally show ?case .
qed (simp add: hex_number_def)

lemma is_hex_plain: "is_hex c \<Longrightarrow> \<not> is_space c \<and> c \<noteq> CHR ''-'' \<and> c \<noteq> CHR ''+'' \<and> c \<noteq> CHR ''x'' \<and> c \<noteq> CHR ''X'' \<and> c \<noteq> CHR '':''"
  by (auto simp: is_hex_def is_digit_def is_space_def)

lemma hex_prefix_digits:
  assumes "list_all is_hex ds" "ds \<noteq> []"
  shows "hex_prefix ds = Some (False, hex_number ds)"
proof -
  obtain c cs where ds: "ds = c # cs" using assms(2) by (cases ds) auto
  have c: "\<not> is_space c" "c \<noteq> CHR ''-''" "c \<noteq> CHR ''+''" using is_hex_plain assms(1) ds by auto
  have "skip_0x ds = ds" using assms(1) is_hex_plain by (fastforce simp: ds skip_0x_def split: list.splits)
  moreover have "takeWhile is_hex ds = ds" using assms(1) by (simp add: list_all_iff)
  ultimately show ?thesis using c assms(2) by (simp add: hex_prefix_def ds)
qed

lemma le_bytes_word: "length bs = 4 \<Longrightarrow> le_bytes 4 (le_word bs :: u32) = bs"
  using le_bytes_le_word [of bs, where 'a = 32] by simp

text \<open>
  an address and a port in the form of the kernel's list of connections are shown as they
  are: the octets in their order in memory, and the port in decimal.\<close>

theorem hex_to_ip_port_shows:
  assumes "length ip = 4"
  shows "hex_to_ip_port (kernel_text ip port) = show_dotted ip @ '':'' @ show_nat (unat port)"
proof -
  let ?a = "hex_pad 8 (unat (le_word ip :: u32))" and ?p = "hex_pad 4 (unat port)"
  have u: "unat (le_word ip :: u32) < 16 ^ 8" "unat port < 16 ^ 4"
    using unsigned_less [of "le_word ip :: u32"] unsigned_less [of port] by simp_all
  have n: "hex_number ?a = unat (le_word ip :: u32)" "hex_number ?p = unat port"
    using u by (simp_all add: hex_number_pad)
  have ne: "?a \<noteq> []" "?p \<noteq> []" by (metis length_hex_pad list.size(3) zero_neq_numeral)+
  have s: "stoul16 ?a = Inr (int (unat (le_word ip :: u32)))" "stoul16 ?p = Inr (int (unat port))"
    using u n hex_prefix_digits [OF hex_pad_hex ne(1)] hex_prefix_digits [OF hex_pad_hex ne(2)]
    by (simp_all add: stoul16_def)
  have a: "CHR '':'' \<notin> set ?a" using hex_pad_hex [of 8] by (auto simp: list_all_iff dest: is_hex_plain)
  have t: "takeWhile (\<lambda>c. c \<noteq> CHR '':'') (kernel_text ip port) = ?a"
    unfolding kernel_text_def by (subst takeWhile_append2) (use a in auto)
  have d: "drop (length ?a + 1) (kernel_text ip port) = ?p" by (simp add: kernel_text_def)
  have c: "CHR '':'' \<in> set (kernel_text ip port)" by (simp add: kernel_text_def)
  have p: "to_u32 (int (unat port)) = int (unat port)"
  proof (rule to_u32_id)
    have "unat port < 65536" using u(2) by simp
    then have "int (unat port) < int 65536" by (simp only: of_nat_less_iff)
    also have "int 65536 < 2 ^ 32" by simp
    finally show "int (unat port) < 2 ^ 32" .
  qed simp
  show ?thesis
    unfolding hex_to_ip_port_def Let_def t using c d s p le_bytes_word [OF assms]
    by (simp add: show_int_def)
qed

theorem hex_to_ip_port_shows_witness:
  "hex_to_ip_port (kernel_text [127, 0, 0, 1] 8080) = show_dotted [127, 0, 0, 1] @ '':'' @ show_nat 8080"
  using hex_to_ip_port_shows [of "[127, 0, 0, 1]" 8080] by simp

section \<open>The messages for the kernel\<close>

text \<open>How the kernel reads a message, by its documentation: the length in the header, the family, the
  length of the prefix, the table and the kind of route, and then the attributes, each with its own
  length, padded to four bytes.\<close>

function read_attrs :: "byte list \<Rightarrow> (u16 \<times> byte list) list option" where
  "read_attrs bs =
     (if bs = [] then Some []
      else let n = unat (le_word (take 2 bs) :: u16) in
           if n < 4 \<or> n > length bs then None
           else map_option ((#) (le_word (take 2 (drop 2 bs)), take (n - 4) (drop 4 bs)))
                  (read_attrs (drop ((n + 3) div 4 * 4) bs)))"
  by pat_completeness auto
termination
proof (relation "measure length", simp, goal_cases)
  case (1 bs n)
  then have "4 \<le> n" "bs \<noteq> []" by auto
  then have "0 < (n + 3) div 4 * 4" by simp
  with \<open>bs \<noteq> []\<close> show ?case by (simp add: diff_less)
qed

declare read_attrs.simps [simp del]

record route_request =
  rr_length :: nat
  rr_type :: u16
  rr_flags :: u16
  rr_family :: byte
  rr_prefix :: byte
  rr_table :: byte
  rr_kind :: byte
  rr_attrs :: "(u16 \<times> byte list) list option"

definition read_request :: "byte list \<Rightarrow> route_request" where
  "read_request m =
     \<lparr>rr_length = unat (le_word (take 4 m) :: u32), rr_type = le_word (take 2 (drop 4 m)),
      rr_flags = le_word (take 2 (drop 6 m)), rr_family = m ! 16, rr_prefix = m ! 17, rr_table = m ! 20,
      rr_kind = m ! 23, rr_attrs = read_attrs (drop 28 m)\<rparr>"

lemma read_attrs_rtattr:
  "length p = 4 \<Longrightarrow> read_attrs (rtattr ty p @ r) = map_option ((#) (ty, p)) (read_attrs r)"
proof -
  assume p: "length p = 4"
  define m where "m = rtattr ty p @ r"
  have "m \<noteq> []" using p by (auto simp: m_def rtattr_def)
  moreover have "le_word (take 2 m) = (8 :: u16)" "take 2 (drop 2 m) = le_bytes 2 ty"
    "take 4 (drop 4 m) = p" "drop 8 m = r" "length m = 8 + length r"
    using p by (simp_all add: m_def rtattr_def)
  ultimately show ?thesis by (fold m_def, subst read_attrs.simps) (simp add: Let_def)
qed

lemma read_attrs_Nil [simp]: "read_attrs [] = Some []"
  by (subst read_attrs.simps) simp

lemma read_add_message:
  assumes "length gw = 4"
  shows "read_request (add_message gw i) =
     \<lparr>rr_length = length (add_message gw i), rr_type = RTM_NEWROUTE, rr_flags = 0x505, rr_family = AF_INET4,
      rr_prefix = 0, rr_table = RT_TABLE_MAIN, rr_kind = RTN_UNICAST,
      rr_attrs = Some [(RTA_GATEWAY, gw), (RTA_OIF, le_bytes 4 i)]\<rparr>"
proof -
  have d: "drop 28 (add_message gw i) = rtattr RTA_GATEWAY gw @ rtattr RTA_OIF (le_bytes 4 i) @ []"
    by (simp add: add_message_def nlmsghdr_def rtmsg_def)
  have "length (add_message gw i) = 44" using assms by (simp add: add_message_def nlmsghdr_def rtmsg_def rtattr_def)
  then show ?thesis
    unfolding read_request_def d read_attrs_rtattr [OF assms]
    using read_attrs_rtattr [of "le_bytes 4 i" RTA_OIF "[]"]
    by (simp add: add_message_def nlmsghdr_def rtmsg_def nth_append AF_INET4_def)
qed

text \<open>
  C28: whatever the addition of a default route sends to the kernel is one well formed request
  for the destination of length zero in the main table, through the gateway as its text says and the
  interface with the number of its name.\<close>

theorem route_request_is_wellformed:
  assumes "Netlink m \<in> set (snd (netlink_add_default_route e if_index gateway dev))"
  shows "\<exists>gw. inet_pton4 gateway = Some gw \<and> if_index (c_str dev) \<noteq> 0 \<and>
     read_request m =
       \<lparr>rr_length = length m, rr_type = RTM_NEWROUTE, rr_flags = 0x505, rr_family = AF_INET4,
        rr_prefix = 0, rr_table = RT_TABLE_MAIN, rr_kind = RTN_UNICAST,
        rr_attrs = Some [(RTA_GATEWAY, gw), (RTA_OIF, le_bytes 4 (if_index (c_str dev)))]\<rparr>"
proof -
  obtain gw where gw: "inet_pton4 gateway = Some gw" and i: "if_index (c_str dev) \<noteq> 0"
      and m: "m = add_message gw (if_index (c_str dev))"
    using assms by (auto simp: netlink_add_default_route_def Let_def split: option.splits if_splits prod.splits)
  show ?thesis using gw i read_add_message [OF inet_pton4_length [OF gw]] by (simp add: m)
qed

definition sample_nl :: nl_env where
  "sample_nl = \<lparr>nl_socket = True, nl_bind = True, nl_send = True, nl_recv = (36, replicate 36 0)\<rparr>"

theorem route_request_is_wellformed_witness:
  "\<exists>gw. inet_pton4 ''192.168.1.1'' = Some gw \<and>
     rr_attrs (read_request (add_message [192, 168, 1, 1] 3)) = Some [(RTA_GATEWAY, gw), (RTA_OIF, le_bytes 4 (3 :: u32))]"
proof -
  have "inet_pton4 ''192.168.1.1'' = Some [192, 168, 1, 1]"
    by (simp add: inet_pton4_def c_str_def is_digit_def digit_val_def)
  then have "Netlink (add_message [192, 168, 1, 1] 3)
      \<in> set (snd (netlink_add_default_route sample_nl (\<lambda>_. 3) ''192.168.1.1'' ''eth0''))"
    by (simp add: netlink_add_default_route_def sample_nl_def ack_type_def bytes_at_def Let_def)
  from route_request_is_wellformed [OF this] show ?thesis by auto
qed

section \<open>Settings\<close>

lemma some_addresses:
  "inet_pton4 ''10.0.0.2'' = Some [10, 0, 0, 2]" "inet_pton4 ''255.255.255.0'' = Some [255, 255, 255, 0]"
  "inet_pton4 ''8.8.8.8'' = Some [8, 8, 8, 8]" "inet_pton4 ''1.1.1.1'' = Some [1, 1, 1, 1]"
  by (simp_all add: inet_pton4_def c_str_def is_digit_def digit_val_def)

lemma applied_acts: "a \<in> set (snd (applied e c m acts)) \<Longrightarrow> a \<in> insert EmptyConfig (insert (SaveConfig c) (set acts))"
  by (auto simp: applied_def split: sum.splits if_splits)


text \<open>
  C30: the server for names is checked only up to its first zero byte and written whole: with a
  well formed address before that byte the request is carried out, and any lines after it go into
  the resolver's file.\<close>

theorem resolver_line_is_injected:
  fixes e :: net_env and v lines_after :: string
  defines "d \<equiv> v @ CHR 0x00 # NEWL # lines_after"
  assumes "inet_pton4 v \<noteq> None" "can_save e" "ne_resolv e" "utf8_ok d"
  shows "WriteResolv (''nameserver '' @ v @ CHR 0x00 # NEWL # lines_after @ [NEWL])
     \<in> set (snd (handle_network_set_ip e (Some (jobj [(''mode'', JString ''static''), (''ip'', JString ''10.0.0.2''), (''dns'', JString d)]))))"
proof -
  let ?args = "jobj [(''mode'', JString ''static''), (''ip'', JString ''10.0.0.2''), (''dns'', JString d)]"
  obtain x where "inet_pton4 d = Some x" using assms(2) by (auto simp: inet_pton4_c_str d_def)
  note p = this some_addresses
  have u: "dump_ok (static_config ''10.0.0.2'' ''255.255.255.0'' [] d ''eth0'')"
    unfolding static_config_def
    by (rule dump_ok_jobj) (use assms(5) in \<open>simp add: utf8_ok_ascii; simp add: utf8_ok_def\<close>)
  have "handle_network_set_ip e (Some ?args) =
      applied e (static_config ''10.0.0.2'' ''255.255.255.0'' [] d ''eth0'') ''Static IP applied and saved.''
        (apply_static e ''eth0'' ''10.0.0.2'' ''255.255.255.0'' [] d)"
    using p by (simp add: handle_network_set_ip_def set_static_def cpp_simps)
  moreover have "WriteResolv (''nameserver '' @ d @ [NEWL]) \<in> set (apply_static e ''eth0'' ''10.0.0.2'' ''255.255.255.0'' [] d)"
    using assms(4) by (simp add: apply_static_def d_def)
  ultimately show ?thesis using assms(3) u by (simp add: applied_def dump_def d_def)
qed

definition sample_net :: net_env where
  "sample_net = \<lparr>can_save = True, ne_socket = True, ne_flags = True, ne_resolv = True, ne_del = sample_nl, ne_add = sample_nl,
     ne_index = (\<lambda>_. 3), is_ipv6 = (\<lambda>_. False)\<rparr>"

theorem resolver_line_is_injected_witness:
  "WriteResolv (''nameserver '' @ ''1.1.1.1'' @ CHR 0x00 # NEWL # ''nameserver 6.6.6.6'' @ [NEWL])
     \<in> set (snd (handle_network_set_ip sample_net (Some (jobj [(''mode'', JString ''static''), (''ip'', JString ''10.0.0.2''),
          (''dns'', JString (''1.1.1.1'' @ CHR 0x00 # NEWL # ''nameserver 6.6.6.6''))]))))"
proof (rule resolver_line_is_injected)
  show "inet_pton4 ''1.1.1.1'' \<noteq> None" by (simp add: some_addresses)
  show "utf8_ok (''1.1.1.1'' @ CHR 0x00 # NEWL # ''nameserver 6.6.6.6'')"
    by (rule utf8_ok_ascii) (simp add: NEWL_def)
qed (simp_all add: sample_net_def)


end
