(* ===== verification/HwDetect.thy ===== *)
theory HwDetect
  imports LlPrelude JsonValue NetTools FsTools
begin

text \<open>
  \<^verbatim>\<open>hwdetect.cpp\<close>, \<^verbatim>\<open>hwdetect.h\<close> and \<^verbatim>\<open>cpu_topology.h\<close>: what the program finds out about the machine.
  Definitions only; the lemmas are in EngineFacts. The files of \<^verbatim>\<open>/proc\<close> and \<^verbatim>\<open>/sys\<close>, as lines or
  texts, are arguments; a \<^verbatim>\<open>std::set\<close> of numbers is an \<open>int set\<close>, walked in its order. Numbers that no
  kernel reports, where the arithmetic of \<open>int\<close> would overflow, are not wrapped.
\<close>

section \<open>Lists of processors\<close>

record CpuTopology =
  logical_cores :: int
  physical_cores :: int
  is_hybrid :: bool
  p_cores :: int
  e_cores :: int
  p_threads :: int
  e_threads :: int
  p_core_range :: string
  cpu_features :: string
  recommended_threads :: int
  recommended_batch_threads :: int

definition new_topology :: CpuTopology where
  "new_topology = \<lparr>logical_cores = 0, physical_cores = 0, is_hybrid = False, p_cores = 0, e_cores = 0,
     p_threads = 0, e_threads = 0, p_core_range = [], cpu_features = [], recommended_threads = 1,
     recommended_batch_threads = 1\<rparr>"

definition stoi_throws :: "string \<Rightarrow> int result" where
  "stoi_throws s =
     (case strtol s of
        None \<Rightarrow> Inl (InvalidArgument ''stoi'')
      | Some _ \<Rightarrow> (case stoi s of None \<Rightarrow> Inl OutOfRange | Some v \<Rightarrow> Inr v))"

definition cpu_token :: "string \<Rightarrow> int set result" where
  "cpu_token token =
     (if CHR ''-'' \<in> set token then
        let lo_text = takeWhile (\<lambda>c. c \<noteq> CHR ''-'') token in
        bindE (stoi_throws lo_text) (\<lambda>lo. bindE (stoi_throws (drop (length lo_text + 1) token)) (\<lambda>hi. Inr {lo..hi}))
      else bindE (stoi_throws token) (\<lambda>i. Inr {i}))"

definition parse_cpulist :: "string \<Rightarrow> int set result" where
  "parse_cpulist s = bindE (mapE cpu_token (getlines (CHR '','') [] s)) (\<lambda>cs. Inr (\<Union> (set cs)))"

definition show_range :: "string \<Rightarrow> int \<Rightarrow> int \<Rightarrow> string" where
  "show_range result lo hi =
     (if result = [] then result else result @ '','') @ (if lo = hi then show_int lo else show_int lo @ ''-'' @ show_int hi)"

fun format_loop :: "string \<Rightarrow> int \<Rightarrow> int \<Rightarrow> int list \<Rightarrow> string" where
  "format_loop result lo hi [] = show_range result lo hi"
| "format_loop result lo hi (i # is) =
     (if i = hi + 1 then format_loop result lo i is else format_loop (show_range result lo hi) i i is)"

definition format_cpulist :: "int set \<Rightarrow> string" where
  "format_cpulist cpus = (case sorted_list_of_set cpus of [] \<Rightarrow> [] | i # is \<Rightarrow> format_loop [] i i is)"

section \<open>The topology\<close>

text \<open>The part after the separator: \<open>substr (colon + 2)\<close> throws when the line ends at the colon.\<close>

definition after_colon :: "string \<Rightarrow> string \<Rightarrow> string result" where
  "after_colon old line =
     (case find_sub '':'' line of
        None \<Rightarrow> Inr old
      | Some i \<Rightarrow> if i + 2 > length line then Inl OutOfRange else Inr (drop (i + 2) line))"

record cpu_scan =
  scan_logical :: int
  scan_ids :: "string set"
  scan_phys :: string
  scan_core :: string
  saw_avx2 :: bool
  saw_avx512 :: bool
  saw_amx :: bool
  saw_vnni :: bool

definition new_scan :: cpu_scan where
  "new_scan = \<lparr>scan_logical = 0, scan_ids = {}, scan_phys = [], scan_core = [], saw_avx2 = False, saw_avx512 = False,
     saw_amx = False, saw_vnni = False\<rparr>"

definition flush_core :: "cpu_scan \<Rightarrow> cpu_scan" where
  "flush_core s =
     (if scan_phys s \<noteq> [] \<and> scan_core s \<noteq> [] then s\<lparr>scan_ids := insert (scan_phys s @ '':'' @ scan_core s) (scan_ids s)\<rparr> else s)"

definition has_text :: "string \<Rightarrow> string \<Rightarrow> bool" where
  "has_text p s \<longleftrightarrow> find_sub p s \<noteq> None"

definition cpu_line :: "cpu_scan \<Rightarrow> string \<Rightarrow> cpu_scan result" where
  "cpu_line s line =
     (let s = (if starts_with ''processor'' line
               then (flush_core s)\<lparr>scan_logical := scan_logical s + 1, scan_phys := [], scan_core := []\<rparr> else s)
      in bindE (if starts_with ''physical id'' line then after_colon (scan_phys s) line else Inr (scan_phys s)) (\<lambda>ph.
         bindE (if starts_with ''core id'' line then after_colon (scan_core s) line else Inr (scan_core s)) (\<lambda>co.
         let s = s\<lparr>scan_phys := ph, scan_core := co\<rparr> in
         Inr (if starts_with ''flags'' line \<or> starts_with ''Features'' line
              then s\<lparr>saw_avx2 := saw_avx2 s \<or> has_text ''avx2'' line, saw_avx512 := saw_avx512 s \<or> has_text ''avx512'' line,
                     saw_amx := saw_amx s \<or> has_text ''amx_tile'' line,
                     saw_vnni := saw_vnni s \<or> has_text ''avx_vnni'' line \<or> has_text ''avx512_vnni'' line\<rparr>
              else s))))"

fun scan_cpuinfo :: "cpu_scan \<Rightarrow> string list \<Rightarrow> cpu_scan result" where
  "scan_cpuinfo s [] = Inr (flush_core s)"
| "scan_cpuinfo s (l # ls) = bindE (cpu_line s l) (\<lambda>s. scan_cpuinfo s ls)"

definition features_of :: "cpu_scan \<Rightarrow> string" where
  "features_of s =
     (let f = (if saw_avx2 s then ''AVX2 '' else []) @ (if saw_avx512 s then ''AVX-512 '' else [])
              @ (if saw_vnni s then ''VNNI '' else []) @ (if saw_amx s then ''AMX '' else [])
      in if f = [] then ''SSE4.2'' else f)"

definition read_sysfs_trim :: "string \<Rightarrow> string" where
  "read_sysfs_trim line = rev (dropWhile (\<lambda>c. c \<in> {NEWL, CHR 0x0D, CHR '' ''}) (rev line))"

text \<open>The frequency gap: more than a fifth. The product with 1.2 in floating point is rounded to the
  number that it is where it is a whole one, so the comparison is that of the exact numbers.\<close>

definition gap_of_clocks :: "int \<Rightarrow> int \<Rightarrow> bool" where
  "gap_of_clocks max_freq min_freq \<longleftrightarrow> min_freq > 0 \<and> 5 * max_freq > 6 * min_freq"

definition read_clocks :: "(nat \<Rightarrow> string) \<Rightarrow> nat \<Rightarrow> (int \<times> int) list result" where
  "read_clocks freq_file n =
     bindE (mapE (\<lambda>i. let v = read_sysfs_trim (freq_file i) in
              if v = [] then Inr [] else bindE (stoi_throws v) (\<lambda>f. Inr [(int i, f)])) [0..<n]) (\<lambda>fs. Inr (concat fs))"

definition split_by_clock :: "(int \<times> int) list \<Rightarrow> (int set \<times> int set) option" where
  "split_by_clock fs =
     (if length fs < 2 then None
      else let hi = fold (\<lambda>(_, f) m. if f > m then f else m) fs 0;
               lo = fold (\<lambda>(_, f) m. if f < m then f else m) fs (2 ^ 31 - 1);
               threshold = tdiv (hi + lo) 2
           in if gap_of_clocks hi lo
              then Some (set (map fst (filter (\<lambda>(_, f). f \<ge> threshold) fs)), set (map fst (filter (\<lambda>(_, f). \<not> f \<ge> threshold) fs)))
              else None)"

text \<open>The lists of the two kinds of cores, by the kernel or by their clocks.\<close>

definition hybrid_sets :: "string \<Rightarrow> string \<Rightarrow> (nat \<Rightarrow> string) \<Rightarrow> int \<Rightarrow> (int set \<times> int set) option result" where
  "hybrid_sets p_list e_list freq_file logical =
     (let p = read_sysfs_trim p_list; e = read_sysfs_trim e_list in
      if p \<noteq> [] \<and> e \<noteq> [] then bindE (parse_cpulist p) (\<lambda>ps. bindE (parse_cpulist e) (\<lambda>es. Inr (Some (ps, es))))
      else if logical > 1 then bindE (read_clocks freq_file (nat logical)) (\<lambda>fs. Inr (split_by_clock fs))
      else Inr None)"

definition clamp1 :: "int \<Rightarrow> int" where "clamp1 n = (if n < 1 then 1 else n)"

definition recommend :: "int \<Rightarrow> int \<Rightarrow> string \<Rightarrow> (int set \<times> int set) option \<Rightarrow> CpuTopology" where
  "recommend logical physical features sets =
     (let t = new_topology\<lparr>logical_cores := logical, physical_cores := physical, cpu_features := features,
                is_hybrid := (sets \<noteq> None)\<rparr>
      in case sets of
           Some (ps, es) \<Rightarrow>
             if ps \<noteq> {} then
               let pt = int (card ps); et = int (card es);
                   est = physical - et; est = (if est \<le> 0 then tdiv pt 2 else est); est = (if est \<le> 0 then 1 else est)
               in t\<lparr>p_threads := pt, e_threads := et, p_cores := est, e_cores := et, p_core_range := format_cpulist ps,
                    recommended_threads := clamp1 est, recommended_batch_threads := clamp1 pt\<rparr>
             else t\<lparr>recommended_threads := clamp1 physical, recommended_batch_threads := clamp1 logical\<rparr>
         | None \<Rightarrow> t\<lparr>recommended_threads := clamp1 physical, recommended_batch_threads := clamp1 logical\<rparr>)"

definition detect_cpu_topology :: "string list \<Rightarrow> string \<Rightarrow> string \<Rightarrow> (nat \<Rightarrow> string) \<Rightarrow> CpuTopology result" where
  "detect_cpu_topology cpuinfo p_list e_list freq_file =
     bindE (scan_cpuinfo new_scan cpuinfo) (\<lambda>s.
       let logical = (if scan_logical s = 0 then 1 else scan_logical s);
           physical = (if scan_ids s = {} then logical else int (card (scan_ids s)))
       in bindE (hybrid_sets p_list e_list freq_file logical) (\<lambda>sets. Inr (recommend logical physical (features_of s) sets)))"

section \<open>The machine\<close>

record HardwareInfo =
  hw_cpu_model :: string
  hw_cpu_cores :: int
  hw_physical_cores :: int
  hw_ram_total_mb :: int
  hw_ram_free_mb :: int
  gpu_detected :: bool
  gpu_name :: string
  gpu_driver :: string
  gpu_vram_mb :: int
  gpu_gtt_mb :: int
  gpu_is_discrete :: bool
  gpu_is_unified :: bool
  has_avx2 :: bool
  has_avx512 :: bool
  topology :: CpuTopology
  bluetooth_detected :: bool
  bluetooth_name :: string
  touchpad_detected :: bool
  has_battery :: bool
  battery_percent :: int
  wifi_interfaces :: int
  ethernet_interfaces :: int

definition new_hardware :: HardwareInfo where
  "new_hardware = \<lparr>hw_cpu_model = ''unknown'', hw_cpu_cores = 1, hw_physical_cores = 0, hw_ram_total_mb = 0,
     hw_ram_free_mb = 0, gpu_detected = False, gpu_name = [], gpu_driver = [], gpu_vram_mb = 0, gpu_gtt_mb = 0,
     gpu_is_discrete = False, gpu_is_unified = False, has_avx2 = False, has_avx512 = False, topology = new_topology,
     bluetooth_detected = False, bluetooth_name = [], touchpad_detected = False, has_battery = False,
     battery_percent = - 1, wifi_interfaces = 0, ethernet_interfaces = 0\<rparr>"

definition read_meminfo_kb :: "string list \<Rightarrow> string \<Rightarrow> int" where
  "read_meminfo_kb meminfo key =
     (case find (\<lambda>l. starts_with key l \<and> CHR '':'' \<in> set l) meminfo of
        None \<Rightarrow> 0
      | Some l \<Rightarrow> atoi (drop 1 (dropWhile (\<lambda>c. c \<noteq> CHR '':'') l)))"

text \<open>One entry of a directory under \<^verbatim>\<open>/sys\<close>: its name, the first lines of its files, and whether there are
  files of a name.\<close>

record sys_entry =
  sys_name :: string
  sys_file :: "string \<Rightarrow> string"
  sys_exists :: "string \<Rightarrow> bool"
  sys_link :: "string \<Rightarrow> string option"

definition vendor_name :: "string \<Rightarrow> string option" where
  "vendor_name v = (if v = ''0x10de'' then Some ''NVIDIA'' else if v = ''0x1002'' then Some ''AMD''
     else if v = ''0x8086'' then Some ''Intel'' else None)"

definition is_card :: "sys_entry \<Rightarrow> bool" where
  "is_card e \<longleftrightarrow> starts_with ''card'' (sys_name e) \<and> CHR ''-'' \<notin> set (sys_name e)"

definition the_gpu :: "sys_entry list \<Rightarrow> sys_entry option" where
  "the_gpu drm = find (\<lambda>e. is_card e \<and> vendor_name (sys_file e ''device/vendor'') \<noteq> None) drm"

definition to_mib :: "string \<Rightarrow> int" where
  "to_mib s = (case strtoul s of None \<Rightarrow> 0 | Some (v, _, _) \<Rightarrow> v div (1024 * 1024))"

definition driver_of :: "string \<Rightarrow> sys_entry \<Rightarrow> string" where
  "driver_of old e =
     (case sys_link e ''device/driver'' of
        None \<Rightarrow> old
      | Some l \<Rightarrow> let l = take 255 l in
          if l = [] then old
          else if slash \<in> set l then rev (takeWhile (\<lambda>c. c \<noteq> slash) (rev l)) else l)"

definition set_gpu :: "HardwareInfo \<Rightarrow> sys_entry \<Rightarrow> HardwareInfo" where
  "set_gpu hw e =
     (let vendor = sys_file e ''device/vendor''; vram = sys_file e ''device/mem_info_vram_total'';
          gtt = sys_file e ''device/mem_info_gtt_total''; intel = sys_file e ''device/total_vram'';
          hw = hw\<lparr>gpu_detected := True, gpu_name := the (vendor_name vendor), gpu_driver := driver_of (gpu_driver hw) e\<rparr>
      in if vram \<noteq> [] then
           let hw = hw\<lparr>gpu_vram_mb := to_mib vram\<rparr>; hw = (if gtt \<noteq> [] then hw\<lparr>gpu_gtt_mb := to_mib gtt\<rparr> else hw)
           in if gpu_vram_mb hw \<ge> 2048 \<and> gpu_vram_mb hw \<ge> gpu_gtt_mb hw then hw\<lparr>gpu_is_discrete := True\<rparr>
              else hw\<lparr>gpu_is_unified := True\<rparr>
         else if intel \<noteq> [] then
           let hw = hw\<lparr>gpu_vram_mb := to_mib intel, gpu_is_discrete := (vendor \<noteq> ''0x8086'')\<rparr>
           in if vendor = ''0x8086'' then hw\<lparr>gpu_is_unified := True\<rparr> else hw
         else hw\<lparr>gpu_is_unified := True\<rparr>)"

definition set_pci_gpu :: "HardwareInfo \<Rightarrow> sys_entry list \<Rightarrow> HardwareInfo" where
  "set_pci_gpu hw pci =
     (case find (\<lambda>e. \<not> starts_with ''.'' (sys_name e) \<and>
              (case hex_prefix (sys_file e ''class'') of None \<Rightarrow> False
               | Some (neg, v) \<Rightarrow> drop_bit 16 (if neg then to_u64 (- int v) else min (int v) (2 ^ 64 - 1)) = 3)) pci of
        None \<Rightarrow> hw
      | Some e \<Rightarrow> hw\<lparr>gpu_detected := True, gpu_name := (case vendor_name (sys_file e ''vendor'') of Some n \<Rightarrow> n
                    | None \<Rightarrow> ''GPU (PCI '' @ sys_file e ''vendor'' @ '')'')\<rparr>)"

fun cpu_model_scan :: "string \<Rightarrow> string list \<Rightarrow> string result" where
  "cpu_model_scan m [] = Inr m"
| "cpu_model_scan m (l # ls) =
     (if starts_with ''model name'' l \<and> m = ''unknown'' then bindE (after_colon m l) (\<lambda>m. cpu_model_scan m ls)
      else cpu_model_scan m ls)"

definition is_touchpad :: "string \<Rightarrow> bool" where
  "is_touchpad name \<longleftrightarrow> list_ex (\<lambda>p. has_text p name)
     [''ouchpad'', ''trackpad'', ''Touchpad'', ''TrackPad'', ''ELAN'', ''Synaptics'', ''ALPS'']"

definition battery :: "HardwareInfo \<Rightarrow> sys_entry list \<Rightarrow> HardwareInfo" where
  "battery hw ps =
     (case find (\<lambda>e. \<not> starts_with ''.'' (sys_name e) \<and> sys_file e ''type'' = ''Battery'') ps of
        None \<Rightarrow> hw
      | Some e \<Rightarrow> (if sys_file e ''capacity'' = [] then hw\<lparr>has_battery := True\<rparr>
                 else hw\<lparr>has_battery := True, battery_percent := atoi (sys_file e ''capacity'')\<rparr>))"

text \<open>The interfaces: those with a directory for radio, and of the others those with a device.\<close>

definition real_nets :: "sys_entry list \<Rightarrow> sys_entry list" where
  "real_nets net = filter (\<lambda>e. \<not> starts_with ''.'' (sys_name e) \<and> sys_name e \<notin> {''lo'', ''sit0''}) net"

record machine =
  m_cpuinfo :: "string list"
  m_meminfo :: "string list"
  m_p_list :: string
  m_e_list :: string
  m_freq :: "nat \<Rightarrow> string"
  m_drm :: "sys_entry list"
  m_pci :: "sys_entry list"
  m_bluetooth :: "sys_entry list"
  m_input :: "sys_entry list"
  m_power :: "sys_entry list"
  m_net :: "sys_entry list"

definition detect_hardware :: "machine \<Rightarrow> HardwareInfo result" where
  "detect_hardware m =
     bindE (cpu_model_scan ''unknown'' (m_cpuinfo m)) (\<lambda>cpu.
     bindE (detect_cpu_topology (m_cpuinfo m) (m_p_list m) (m_e_list m) (m_freq m)) (\<lambda>t.
       let n = int (length (filter (starts_with ''processor'') (m_cpuinfo m)));
           hw = new_hardware\<lparr>hw_cpu_model := cpu, hw_cpu_cores := (if n > 0 then n else 1), topology := t,
             hw_physical_cores := physical_cores t,
             has_avx2 := list_ex (has_text ''avx2'') (m_cpuinfo m) \<or> has_text ''AVX2'' (cpu_features t),
             has_avx512 := list_ex (has_text ''avx512'') (m_cpuinfo m) \<or> has_text ''AVX-512'' (cpu_features t),
             hw_ram_total_mb := tdiv (read_meminfo_kb (m_meminfo m) ''MemTotal'') 1024,
             hw_ram_free_mb := tdiv (read_meminfo_kb (m_meminfo m) ''MemAvailable'') 1024\<rparr>;
           hw = (case the_gpu (m_drm m) of Some e \<Rightarrow> set_gpu hw e | None \<Rightarrow> hw);
           hw = (if gpu_detected hw then hw else set_pci_gpu hw (m_pci m));
           hw = (case find (\<lambda>e. starts_with ''hci'' (sys_name e)) (m_bluetooth m) of
                   None \<Rightarrow> hw | Some e \<Rightarrow> hw\<lparr>bluetooth_detected := True, bluetooth_name := sys_name e\<rparr>);
           hw = hw\<lparr>touchpad_detected := list_ex (\<lambda>e. starts_with ''event'' (sys_name e) \<and> is_touchpad (sys_file e ''device/name'')) (m_input m)\<rparr>;
           hw = battery hw (m_power m)
       in Inr (hw\<lparr>wifi_interfaces := int (length (filter (\<lambda>e. sys_exists e ''wireless'') (real_nets (m_net m)))),
                  ethernet_interfaces := int (length (filter (\<lambda>e. \<not> sys_exists e ''wireless'' \<and> sys_exists e ''device'') (real_nets (m_net m))))\<rparr>)))"

end
