(* ===== verification/Engine.thy ===== *)
theory Engine
  imports HwDetect
begin

text \<open>
  The model server as \<^verbatim>\<open>child_main.cpp\<close> runs it: the arguments that it is started with, and the threads
  that start it, watch it and declare it ready: the start of the program, a monitor for each server
  started, the poll of its health, the heartbeat's watch and the callback on changes of the cluster.
  Definitions only; the lemmas are in EngineFacts. The threads are a machine of atomic accesses to the
  shared variables, the table of child processes and the outcomes of starting and asking a server; an
  event names the thread that moves and what it meets.
\<close>

section \<open>The arguments of the server\<close>

definition compute_thread_count :: "HardwareInfo \<Rightarrow> int \<Rightarrow> int" where
  "compute_thread_count hw cpu_cores =
     (if recommended_threads (topology hw) > 0 then recommended_threads (topology hw)
      else let phys = (if hw_physical_cores hw > 0 then hw_physical_cores hw else cpu_cores)
           in if phys < 1 then 1 else phys)"

definition compute_batch_thread_count :: "HardwareInfo \<Rightarrow> int \<Rightarrow> int" where
  "compute_batch_thread_count hw cpu_cores =
     (if recommended_batch_threads (topology hw) > 0 then recommended_batch_threads (topology hw)
      else if cpu_cores < 1 then 1 else cpu_cores)"

definition compute_context_size :: "int \<Rightarrow> int" where
  "compute_context_size free_ram_mb =
     (if free_ram_mb < 256 then 512 else if free_ram_mb \<ge> 2048 then 8192 else if free_ram_mb \<ge> 1024 then 4096
      else if free_ram_mb \<ge> 512 then 2048 else 2048)"

text \<open>The names in the two directories of drivers for computing.\<close>

definition has_vulkan_icd :: "string list option \<Rightarrow> string list option \<Rightarrow> bool" where
  "has_vulkan_icd usr etc =
     (let found = (\<lambda>d. case d of None \<Rightarrow> False | Some ns \<Rightarrow> list_ex (\<lambda>n. length n > 5 \<and> drop (length n - 5) n = ''.json'') ns)
      in found usr \<or> found etc)"

text \<open>The second look at the card, at the start of each server.\<close>

definition refresh_gpu_memory :: "sys_entry list option \<Rightarrow> HardwareInfo \<Rightarrow> HardwareInfo" where
  "refresh_gpu_memory drm hw =
     (case drm of None \<Rightarrow> hw | Some es \<Rightarrow>
       (case the_gpu es of None \<Rightarrow> hw | Some e \<Rightarrow>
         let vram = sys_file e ''device/mem_info_vram_total''; gtt = sys_file e ''device/mem_info_gtt_total'';
             hw = hw\<lparr>gpu_detected := True, gpu_name := the (vendor_name (sys_file e ''device/vendor'')), gpu_driver := driver_of (gpu_driver hw) e\<rparr>;
             hw = (if vram \<noteq> [] then hw\<lparr>gpu_vram_mb := to_mib vram\<rparr> else hw);
             hw = (if gtt \<noteq> [] then hw\<lparr>gpu_gtt_mb := to_mib gtt\<rparr> else hw)
         in if gpu_vram_mb hw \<ge> 2048 \<and> gpu_vram_mb hw \<ge> gpu_gtt_mb hw
            then hw\<lparr>gpu_is_discrete := True, gpu_is_unified := False\<rparr>
            else hw\<lparr>gpu_is_unified := True, gpu_is_discrete := False\<rparr>))"

definition gpu_layers :: "HardwareInfo \<Rightarrow> bool \<Rightarrow> string option" where
  "gpu_layers hw icd =
     (if icd \<and> gpu_detected hw then
        Some (if gpu_is_discrete hw \<and> gpu_vram_mb hw \<ge> 2048 then show_int (max 1 (to_i32 (gpu_vram_mb hw div 1200))) else ''99'')
      else None)"

definition llama_args :: "HardwareInfo \<Rightarrow> bool \<Rightarrow> int \<Rightarrow> string \<Rightarrow> int \<Rightarrow> int \<Rightarrow> string \<Rightarrow> string \<Rightarrow> string list" where
  "llama_args hw icd port model_path cpu_cores free_ram rpc_endpoints tensor_split =
     [''llama-server'', ''-m'', model_path, ''--host'', ''127.0.0.1'', ''--port'', show_int port, ''--no-webui'',
      ''-c'', show_int (compute_context_size free_ram), ''-t'', show_int (compute_thread_count hw cpu_cores),
      ''-tb'', show_int (compute_batch_thread_count hw cpu_cores), ''-fa'']
     @ (if p_core_range (topology hw) = [] then [] else [''--cpu-range'', p_core_range (topology hw), ''--cpu-strict'', ''1''])
     @ (case gpu_layers hw icd of None \<Rightarrow> [] | Some n \<Rightarrow> [''-ngl'', n])
     @ (if rpc_endpoints = [] then [] else [''--rpc'', rpc_endpoints])
     @ (if tensor_split = [] then [] else [''--tensor-split'', tensor_split])"

definition rpc_args :: "int \<Rightarrow> string list" where
  "rpc_args port = [''llama-rpc-server'', ''--host'', ''0.0.0.0'', ''--port'', show_int port, ''-c'']"

text \<open>Whether an answer of the server counts as healthy: the status of the response and its body, when
  it is JSON. A status that is not a string throws.\<close>

definition healthy :: "(int \<times> json option) option \<Rightarrow> bool result" where
  "healthy r =
     (case r of
        Some (code, Some body) \<Rightarrow>
          if code = 200 then bindE (jvalue get_string body ''status'' []) (\<lambda>s. Inr (s = ''ok'' \<or> s = ''no slot available''))
          else Inr False
      | _ \<Rightarrow> Inr False)"

section \<open>The shared state\<close>

text \<open>A server: its process, and the model and the remote endpoints that it was started with.\<close>

record server =
  s_pid :: int
  s_alive :: bool
  s_model :: string
  s_rpc :: string

datatype monitor_phase = MTop | MWait int | MReaped | MSpawn | MHealth | MDone

record monitor =
  m_phase :: monitor_phase
  m_retries :: nat
  m_path :: string

datatype poll_phase = PSleep | PProbe | PKill int

datatype beat_phase = BSleep | BWatch | BRecover | BHealth string

datatype callback_phase = CBegin | CReap int | CClear | CSpawn | CHealth string string | CStuck string | CStuckReap string int | CSolo string | CSoloHealth string

text \<open>\<open>inference_llama\<close> is whether the function for inference is that of the server instead of the stub; the table
  holds the children that nobody has waited for.\<close>

record engine =
  running :: bool
  llama_pid :: int
  model_loaded :: bool
  inference_ready :: bool
  inference_llama :: bool
  g_model_name :: string
  servers :: "server list"
  monitors :: "monitor list"
  poll_phase :: poll_phase
  poll_fails :: nat
  beat :: beat_phase
  callbacks :: "callback_phase list"

definition max_retries :: nat where "max_retries = 3"
definition FAIL_THRESHOLD :: nat where "FAIL_THRESHOLD = 3"

definition server_of :: "engine \<Rightarrow> int \<Rightarrow> server option" where
  "server_of s pid = find (\<lambda>p. s_pid p = pid) (servers s)"

definition exit_server :: "int \<Rightarrow> engine \<Rightarrow> engine" where
  "exit_server pid s = s\<lparr>servers := map (\<lambda>p. if s_pid p = pid then p\<lparr>s_alive := False\<rparr> else p) (servers s)\<rparr>"

definition reap_server :: "int \<Rightarrow> engine \<Rightarrow> engine" where
  "reap_server pid s = s\<lparr>servers := filter (\<lambda>p. s_pid p \<noteq> pid) (servers s)\<rparr>"

text \<open>The outcome of starting a server: no process, or one with a new number.\<close>

definition spawn_llama_server :: "string \<Rightarrow> string \<Rightarrow> int option \<Rightarrow> engine \<Rightarrow> bool \<times> engine" where
  "spawn_llama_server path rpc outcome s =
     (case outcome of
        None \<Rightarrow> (False, s)
      | Some pid \<Rightarrow> (True, s\<lparr>servers := servers s @ [\<lparr>s_pid = pid, s_alive = True, s_model = path, s_rpc = rpc\<rparr>], llama_pid := pid\<rparr>))"

definition fresh_pid :: "int option \<Rightarrow> engine \<Rightarrow> bool" where
  "fresh_pid outcome s = (case outcome of None \<Rightarrow> True | Some pid \<Rightarrow> pid > 0 \<and> server_of s pid = None \<and> pid \<noteq> llama_pid s)"

definition some_alive :: "engine \<Rightarrow> bool" where
  "some_alive s = list_ex s_alive (servers s)"

definition model_up :: "engine \<Rightarrow> engine" where
  "model_up s = s\<lparr>model_loaded := True, inference_llama := True\<rparr>"

definition model_down :: "engine \<Rightarrow> engine" where
  "model_down s = s\<lparr>model_loaded := False, inference_llama := False\<rparr>"

section \<open>The threads\<close>

text \<open>What happens: a server exits; a monitor, the poll, the heartbeat or a callback moves. An outcome says whether
  a server could be started, whether it is healthy in time, and what the heartbeat or the callback finds:
  whether the file of the model is there, whether the node leads, and the model that is chosen.\<close>

datatype event =
    Exits int
  | Stop
  | Monitor nat "int option" bool
  | Poll bool
  | Beat bool "int option" bool
  | Topology
  | Callback nat bool "string \<times> string" "int option" bool

definition start_monitor :: "string \<Rightarrow> engine \<Rightarrow> engine" where
  "start_monitor path s = s\<lparr>monitors := monitors s @ [\<lparr>m_phase = MTop, m_retries = 0, m_path = path\<rparr>]\<rparr>"

text \<open>One move of a monitor: what becomes of it and of the state, \<open>None\<close> while it waits. A server can be found
  healthy only when one is alive.\<close>

definition monitor_step :: "int option \<Rightarrow> bool \<Rightarrow> monitor \<Rightarrow> engine \<Rightarrow> (monitor \<times> engine) option" where
  "monitor_step outcome ok m s =
     (case m_phase m of
        MTop \<Rightarrow>
          if \<not> running s \<or> m_retries m \<ge> max_retries \<or> llama_pid s \<le> 0 then Some (m\<lparr>m_phase := MDone\<rparr>, s)
          else Some (m\<lparr>m_phase := MWait (llama_pid s)\<rparr>, s)
      | MWait pid \<Rightarrow>
          (case server_of s pid of
             None \<Rightarrow> Some (m\<lparr>m_phase := MDone\<rparr>, s)
           | Some p \<Rightarrow> if s_alive p then None else Some (m\<lparr>m_phase := MReaped\<rparr>, reap_server pid s))
      | MReaped \<Rightarrow>
          if \<not> running s then Some (m\<lparr>m_phase := MDone\<rparr>, s)
          else let r = m_retries m + 1
               in Some (m\<lparr>m_retries := r, m_phase := (if r \<ge> max_retries then MDone else MSpawn)\<rparr>, model_down s)
      | MSpawn \<Rightarrow>
          if \<not> fresh_pid outcome s then None
          else (case spawn_llama_server (m_path m) [] outcome s of
                  (up, s) \<Rightarrow> Some (m\<lparr>m_phase := (if up then MHealth else MTop)\<rparr>, s))
      | MHealth \<Rightarrow>
          if ok \<and> \<not> some_alive s then None
          else if ok then Some (m\<lparr>m_retries := 0, m_phase := MTop\<rparr>, model_up s)
          else Some (m\<lparr>m_phase := MTop\<rparr>, s)
      | MDone \<Rightarrow> None)"

definition poll_step :: "bool \<Rightarrow> engine \<Rightarrow> engine option" where
  "poll_step ok s =
     (case poll_phase s of
        PSleep \<Rightarrow> if \<not> running s then None
                 else if \<not> model_loaded s then Some (s\<lparr>poll_fails := 0\<rparr>) else Some (s\<lparr>poll_phase := PProbe\<rparr>)
      | PProbe \<Rightarrow>
          if ok then (if some_alive s then Some (s\<lparr>poll_fails := 0, inference_ready := True, poll_phase := PSleep\<rparr>) else None)
          else let n = poll_fails s + 1
               in if n < FAIL_THRESHOLD then Some (s\<lparr>poll_fails := n, poll_phase := PSleep\<rparr>)
                  else Some (s\<lparr>poll_fails := n, inference_ready := False, poll_phase := PKill (llama_pid s)\<rparr>)
      | PKill pid \<Rightarrow> Some ((if pid > 0 then exit_server pid s else s)\<lparr>poll_fails := 0, poll_phase := PSleep\<rparr>))"

definition beat_step :: "bool \<Rightarrow> int option \<Rightarrow> bool \<Rightarrow> engine \<Rightarrow> engine option" where
  "beat_step readable outcome ok s =
     (case beat s of
        BSleep \<Rightarrow> if \<not> running s then None else Some (s\<lparr>beat := BWatch\<rparr>)
      | BWatch \<Rightarrow>
          Some ((if model_loaded s \<and> llama_pid s > 0 \<and> server_of s (llama_pid s) = None
                 then model_down (s\<lparr>llama_pid := 0\<rparr>) else s)\<lparr>beat := BRecover\<rparr>)
      | BRecover \<Rightarrow>
          if \<not> model_loaded s \<and> llama_pid s = 0 \<and> g_model_name s \<noteq> [] \<and> readable then
            if \<not> fresh_pid outcome s then None
            else (case spawn_llama_server (''/data/models/'' @ g_model_name s) [] outcome s of
                    (up, s) \<Rightarrow> Some (s\<lparr>beat := (if up then BHealth (''/data/models/'' @ g_model_name s) else BSleep)\<rparr>))
          else Some (s\<lparr>beat := BSleep\<rparr>)
      | BHealth path \<Rightarrow>
          if ok \<and> \<not> some_alive s then None
          else if ok then Some (start_monitor path (model_up s)\<lparr>beat := BSleep\<rparr>) else Some (s\<lparr>beat := BSleep\<rparr>))"

text \<open>The callback: what becomes of it, \<open>None\<close> at its end. \<open>choice\<close> is the file of the model chosen, empty when
  none fits, and the endpoints of the peers.\<close>

definition callback_step ::
  "bool \<Rightarrow> string \<times> string \<Rightarrow> int option \<Rightarrow> bool \<Rightarrow> callback_phase \<Rightarrow> engine \<Rightarrow> (callback_phase option \<times> engine) option" where
  "callback_step leads choice outcome ok c s =
     (case c of
        CBegin \<Rightarrow> if \<not> leads then Some (None, s) else if llama_pid s > 0 then Some (Some (CReap (llama_pid s)), s) else Some (Some CSpawn, s)
      | CReap pid \<Rightarrow>
          (case server_of s pid of
             None \<Rightarrow> Some (Some CClear, s)
           | Some p \<Rightarrow> if s_alive p then None else Some (Some CClear, reap_server pid s))
      | CClear \<Rightarrow> Some (Some CSpawn, model_down (s\<lparr>llama_pid := 0\<rparr>))
      | CSpawn \<Rightarrow>
          let s1 = (if fst choice \<noteq> [] then s\<lparr>g_model_name := fst choice\<rparr> else s) in
          if g_model_name s1 = [] then Some (None, s1)
          else if \<not> fresh_pid outcome s1 then None
          else (case spawn_llama_server (''/data/models/'' @ g_model_name s1) (snd choice) outcome s1 of
                  (up, s2) \<Rightarrow> Some (if up then Some (CHealth (''/data/models/'' @ g_model_name s1) (snd choice)) else None, s2))
      | CHealth path rpc \<Rightarrow>
          if ok \<and> \<not> some_alive s then None
          else if ok then Some (None, start_monitor path (model_up s))
          else if rpc \<noteq> [] then Some (Some (CStuck path), s) else Some (None, s)
      | CStuck path \<Rightarrow> if llama_pid s > 0 then Some (Some (CStuckReap path (llama_pid s)), s) else Some (Some (CSolo path), s)
      | CStuckReap path pid \<Rightarrow>
          (case server_of s pid of
             None \<Rightarrow> Some (Some (CSolo path), s\<lparr>llama_pid := 0\<rparr>)
           | Some p \<Rightarrow> if s_alive p then None else Some (Some (CSolo path), (reap_server pid s)\<lparr>llama_pid := 0\<rparr>))
      | CSolo path \<Rightarrow>
          if \<not> fresh_pid outcome s then None
          else (case spawn_llama_server path [] outcome s of (up, s) \<Rightarrow> Some (if up then Some (CSoloHealth path) else None, s))
      | CSoloHealth path \<Rightarrow>
          if ok \<and> \<not> some_alive s then None
          else if ok then Some (None, start_monitor path (model_up s)) else Some (None, s))"

definition replace_at :: "nat \<Rightarrow> 'a option \<Rightarrow> 'a list \<Rightarrow> 'a list" where
  "replace_at i x xs = (case x of Some y \<Rightarrow> xs[i := y] | None \<Rightarrow> take i xs @ drop (i + 1) xs)"

fun engine_step :: "event \<Rightarrow> engine \<Rightarrow> engine option" where
  "engine_step (Exits pid) s = (if server_of s pid = None then None else Some (exit_server pid s))"
| "engine_step Stop s = Some (s\<lparr>running := False\<rparr>)"
| "engine_step (Monitor i outcome ok) s =
     (if i < length (monitors s) then
        map_option (\<lambda>(m, s). s\<lparr>monitors := (monitors s)[i := m]\<rparr>) (monitor_step outcome ok (monitors s ! i) s)
      else None)"
| "engine_step (Poll ok) s = poll_step ok s"
| "engine_step (Beat readable outcome ok) s = beat_step readable outcome ok s"
| "engine_step Topology s = Some (s\<lparr>callbacks := callbacks s @ [CBegin]\<rparr>)"
| "engine_step (Callback i leads choice outcome ok) s =
     (if i < length (callbacks s) then
        map_option (\<lambda>(c, s). s\<lparr>callbacks := replace_at i c (callbacks s)\<rparr>) (callback_step leads choice outcome ok (callbacks s ! i) s)
      else None)"

fun engine_run :: "event list \<Rightarrow> engine \<Rightarrow> engine option" where
  "engine_run [] s = Some s"
| "engine_run (e # es) s = (case engine_step e s of None \<Rightarrow> None | Some s \<Rightarrow> engine_run es s)"

text \<open>The start of the program: no model, or one whose server could not be started, or one that was, healthy in
  time or not.\<close>

definition idle_engine :: "string \<Rightarrow> engine" where
  "idle_engine name =
     \<lparr>running = True, llama_pid = 0, model_loaded = False, inference_ready = True, inference_llama = False,
      g_model_name = name, servers = [], monitors = [], poll_phase = PSleep, poll_fails = 0, beat = BSleep, callbacks = []\<rparr>"

definition file_name :: "string \<Rightarrow> string" where
  "file_name path = (if slash \<in> set path then rev (takeWhile (\<lambda>c. c \<noteq> slash) (rev path)) else path)"

definition boot_engine :: "string \<Rightarrow> int option \<Rightarrow> bool \<Rightarrow> engine" where
  "boot_engine path outcome ok =
     (if path = [] then idle_engine []
      else case spawn_llama_server path [] outcome (idle_engine (file_name path)) of
             (False, s) \<Rightarrow> s
           | (True, s) \<Rightarrow> start_monitor path (if ok then model_up s else s))"

text \<open>The answer to the check of health from outside.\<close>

definition handle_health :: "engine \<Rightarrow> int \<Rightarrow> int \<Rightarrow> string \<Rightarrow> json result" where
  "handle_health s uptime tools mode =
     dump (jobj [(''status'', JString ''ok''), (''uptime_seconds'', JInt uptime), (''model_loaded'', JBool (model_loaded s)),
       (''model_name'', if g_model_name s = [] then JNull else JString (g_model_name s)),
       (''inference_ready'', JBool (model_loaded s \<and> inference_ready s)), (''engine_responsive'', JBool (inference_ready s)),
       (''tools_count'', JInt tools), (''mode'', JString mode)])"

end
