(* ===== verification/EngineFacts.thy ===== *)
theory EngineFacts
  imports Engine
begin

text \<open>
  The lemmas and properties of the detection of the hardware and of the model server: lists of
  processors and back, the bounds on threads and restarts, the classes of cards, and what the threads
  that watch the server can and cannot reach.
\<close>

section \<open>Lists of processors\<close>

lemma show_int_nat: "0 \<le> n \<Longrightarrow> show_int n = show_nat (nat n)"
  by (simp add: show_int_def)

lemma stoi_show_cpu: "0 \<le> n \<Longrightarrow> n < 2 ^ 31 \<Longrightarrow> stoi_throws (show_int n) = Inr n"
  using strtol_digits [OF show_nat_nonempty show_nat_digits, of "nat n"]
  by (simp add: show_int_nat stoi_throws_def stoi_def long_max_def)

definition cpu_text :: "int \<times> int \<Rightarrow> string" where
  "cpu_text r = (if fst r = snd r then show_int (fst r) else show_int (fst r) @ ''-'' @ show_int (snd r))"

definition small :: "int \<Rightarrow> bool" where "small n \<longleftrightarrow> 0 \<le> n \<and> n < 2 ^ 31"

lemma digits_plain: "small n \<Longrightarrow> c \<in> set (show_int n) \<Longrightarrow> is_digit c"
  using show_nat_digits [of "nat n"] by (simp add: small_def show_int_nat list_all_iff)

lemma digits_free: "small n \<Longrightarrow> CHR '','' \<notin> set (show_int n)" "small n \<Longrightarrow> CHR ''-'' \<notin> set (show_int n)"
  using digits_plain by (fastforce simp: is_digit_def)+

lemma cpu_text_nonempty: "small (fst r) \<Longrightarrow> cpu_text r \<noteq> []"
  by (simp add: cpu_text_def small_def show_int_nat)

lemma cpu_token_text:
  assumes "small lo" "small hi" "lo \<le> hi"
  shows "cpu_token (cpu_text (lo, hi)) = Inr {lo..hi}"
proof (cases "lo = hi")
  case True
  with assms digits_free(2) [OF assms(1)] show ?thesis
    by (simp add: cpu_text_def cpu_token_def stoi_show_cpu small_def)
next
  case False
  let ?t = "show_int lo @ CHR ''-'' # show_int hi"
  have w: "takeWhile (\<lambda>c. c \<noteq> CHR ''-'') ?t = show_int lo"
    by (subst takeWhile_append2) (use digits_free(2) [OF assms(1)] in auto)
  have "stoi_throws (show_int lo) = Inr lo" "stoi_throws (show_int hi) = Inr hi"
    using assms by (simp_all add: stoi_show_cpu small_def)
  with False w show ?thesis by (simp add: cpu_text_def cpu_token_def Let_def)
qed

fun joined :: "string list \<Rightarrow> string" where
  "joined [] = []"
| "joined [t] = t"
| "joined (t # ts) = t @ '','' @ joined ts"

lemma joined_snoc: "ts \<noteq> [] \<Longrightarrow> joined (ts @ [t]) = joined ts @ '','' @ t"
  by (induction ts rule: joined.induct) auto

lemma joined_empty: "list_all (\<lambda>t. t \<noteq> []) ts \<Longrightarrow> joined ts = [] \<longleftrightarrow> ts = []"
  by (cases ts rule: joined.cases) auto

lemma getlines_plain: "d \<notin> set t \<Longrightarrow> acc \<noteq> [] \<or> t \<noteq> [] \<Longrightarrow> getlines d acc t = [rev acc @ t]"
  by (induction t arbitrary: acc) auto

lemma getlines_joined:
  "list_all (\<lambda>t. t \<noteq> [] \<and> CHR '','' \<notin> set t) ts \<Longrightarrow> getlines (CHR '','') [] (joined ts) = ts"
proof (induction ts rule: joined.induct)
  case (2 t)
  then show ?case using getlines_plain [of "CHR '',''" t "[]"] by simp
next
  case (3 t u us)
  then show ?case using getlines_line [of "CHR '',''" t "[]"] by simp
qed simp

text \<open>The ranges that the loop writes.\<close>

fun ranges :: "int \<Rightarrow> int \<Rightarrow> int list \<Rightarrow> (int \<times> int) list" where
  "ranges lo hi [] = [(lo, hi)]"
| "ranges lo hi (i # is) = (if i = hi + 1 then ranges lo i is else (lo, hi) # ranges i i is)"

lemma format_loop_ranges:
  "small lo \<Longrightarrow> list_all small is \<Longrightarrow> list_all (\<lambda>t. t \<noteq> []) ts \<Longrightarrow>
     format_loop (joined ts) lo hi is = joined (ts @ map cpu_text (ranges lo hi is))"
proof (induction lo hi "is" arbitrary: ts rule: ranges.induct)
  case (1 lo hi)
  then show ?case by (cases "ts = []") (auto simp: show_range_def cpu_text_def joined_snoc joined_empty)
next
  case (2 lo hi i "is")
  show ?case
  proof (cases "i = hi + 1")
    case True
    then show ?thesis using 2 by simp
  next
    case False
    have r: "show_range (joined ts) lo hi = joined (ts @ [cpu_text (lo, hi)])"
      using "2.prems" by (cases "ts = []") (auto simp: show_range_def cpu_text_def joined_snoc joined_empty)
    have "list_all (\<lambda>t. t \<noteq> []) (ts @ [cpu_text (lo, hi)])" using "2.prems" cpu_text_nonempty [of "(lo, hi)"] by simp
    then show ?thesis using False "2.IH"(2) [OF False, of "ts @ [cpu_text (lo, hi)]"] "2.prems" by (simp add: r)
  qed
qed

lemma ranges_small:
  "small lo \<Longrightarrow> small hi \<Longrightarrow> lo \<le> hi \<Longrightarrow> list_all small is \<Longrightarrow> (a, b) \<in> set (ranges lo hi is) \<Longrightarrow>
     small a \<and> small b \<and> a \<le> b"
  by (induction lo hi "is" rule: ranges.induct) (auto split: if_splits)

lemma ranges_cover:
  "lo \<le> hi \<Longrightarrow> (\<Union>(a, b) \<in> set (ranges lo hi is). {a..b}) = {lo..hi} \<union> set is"
proof (induction lo hi "is" rule: ranges.induct)
  case (2 lo hi i "is")
  have "{lo..hi + 1} = insert (hi + 1) {lo..hi}" using 2(3) by auto
  with 2 show ?case by (auto split: if_splits)
qed simp

lemma mapE_parts: "(\<And>x. x \<in> set xs \<Longrightarrow> f (g x) = Inr (h x)) \<Longrightarrow> mapE f (map g xs) = Inr (map h xs)"
  by (induction xs) auto

text \<open>
  C31: the list of processors that the model server is pinned to is read back as the same set.\<close>

theorem cpulist_roundtrip:
  assumes "finite S" "\<forall>i\<in>S. 0 \<le> i \<and> i < 2 ^ 31"
  shows "parse_cpulist (format_cpulist S) = Inr S"
proof (cases "sorted_list_of_set S")
  case Nil
  then have "S = {}" using assms(1) by simp
  with Nil show ?thesis by (simp add: parse_cpulist_def format_cpulist_def)
next
  case (Cons i "is")
  then have S: "S = insert i (set is)" using assms(1) by (metis list.simps(15) set_sorted_list_of_set)
  have sm: "small i" "list_all small is" using assms(2) S by (auto simp: small_def list_all_iff)
  let ?r = "ranges i i is"
  have f: "format_cpulist S = joined (map cpu_text ?r)"
    using format_loop_ranges [OF sm, of "[]" i] by (simp add: format_cpulist_def Cons)
  have r: "small (fst r) \<and> small (snd r) \<and> fst r \<le> snd r" if "r \<in> set ?r" for r
    using ranges_small [OF sm(1) sm(1) _ sm(2), of "fst r" "snd r"] that by simp
  have plain: "CHR '','' \<notin> set (cpu_text r)" if "r \<in> set ?r" for r
    using r [OF that] digits_free(1) [of "fst r"] digits_free(1) [of "snd r"] by (simp add: cpu_text_def)
  have "list_all (\<lambda>t. t \<noteq> [] \<and> CHR '','' \<notin> set t) (map cpu_text ?r)"
    using r plain cpu_text_nonempty by (simp add: list_all_iff)
  from getlines_joined [OF this] have g: "getlines (CHR '','') [] (format_cpulist S) = map cpu_text ?r" by (simp add: f)
  have "mapE cpu_token (map cpu_text ?r) = Inr (map (\<lambda>r. {fst r..snd r}) ?r)"
    by (rule mapE_parts) (use cpu_token_text r in \<open>metis prod.collapse\<close>)
  moreover have "\<Union> (set (map (\<lambda>r. {fst r..snd r}) ?r)) = S"
    using ranges_cover [of i i "is"] S by (simp add: case_prod_beta')
  ultimately show ?thesis by (simp add: parse_cpulist_def g)
qed

theorem cpulist_roundtrip_witness: "parse_cpulist (format_cpulist {0, 1, 2, 3, 8, 10, 11}) = Inr {0, 1, 2, 3, 8, 10, 11}"
  by (rule cpulist_roundtrip) simp_all

section \<open>Threads, layers and cards\<close>

definition scan_bounded :: "cpu_scan \<Rightarrow> bool" where
  "scan_bounded s \<longleftrightarrow> finite (scan_ids s) \<and> int (card (scan_ids s)) + 1 \<le> scan_logical s"

lemma flush_core_facts:
  "finite (scan_ids s) \<Longrightarrow> finite (scan_ids (flush_core s)) \<and> card (scan_ids (flush_core s)) \<le> card (scan_ids s) + 1
     \<and> scan_logical (flush_core s) = scan_logical s"
  by (simp add: flush_core_def card_insert_if)

lemma cpu_line_facts:
  assumes "cpu_line s l = Inr s'"
  shows "scan_logical s' = scan_logical s + (if starts_with ''processor'' l then 1 else 0)"
    and "scan_ids s' = scan_ids (if starts_with ''processor'' l then flush_core s else s)"
proof -
  let ?s = "if starts_with ''processor'' l
            then (flush_core s)\<lparr>scan_logical := scan_logical s + 1, scan_phys := [], scan_core := []\<rparr> else s"
  obtain ph co where "s' = ?s\<lparr>scan_phys := ph, scan_core := co\<rparr> \<or> (\<exists>a b c d. s' = ?s\<lparr>scan_phys := ph, scan_core := co,
      saw_avx2 := a, saw_avx512 := b, saw_amx := c, saw_vnni := d\<rparr>)"
    using assms unfolding cpu_line_def Let_def bindE_Inr_iff by (elim exE conjE) (simp split: if_splits, blast+)
  then show "scan_logical s' = scan_logical s + (if starts_with ''processor'' l then 1 else 0)"
    "scan_ids s' = scan_ids (if starts_with ''processor'' l then flush_core s else s)"
    by auto
qed

lemma cpu_line_bounded:
  assumes "cpu_line s l = Inr s'" "scan_bounded s \<or> s = new_scan \<and> starts_with ''processor'' l"
  shows "scan_bounded s'"
proof (cases "s = new_scan")
  case True
  with assms cpu_line_facts [OF assms(1)] show ?thesis
    by (auto simp: scan_bounded_def new_scan_def flush_core_def)
next
  case False
  with assms cpu_line_facts [OF assms(1)] flush_core_facts [of s] show ?thesis
    by (auto simp: scan_bounded_def)
qed

lemma scan_cpuinfo_bounded:
  "scan_cpuinfo s ls = Inr s' \<Longrightarrow> scan_bounded s \<Longrightarrow>
     finite (scan_ids s') \<and> int (card (scan_ids s')) \<le> scan_logical s' \<and> 1 \<le> scan_logical s'
     \<and> scan_logical s' = scan_logical s + int (length (filter (starts_with ''processor'') ls))"
proof (induction ls arbitrary: s)
  case Nil
  then show ?case using flush_core_facts [of s] by (auto simp: scan_bounded_def)
next
  case (Cons l ls)
  then obtain t where t: "cpu_line s l = Inr t" "scan_cpuinfo t ls = Inr s'" by (auto simp: bindE_Inr_iff)
  from Cons.IH [OF t(2) cpu_line_bounded [OF t(1)]] Cons.prems cpu_line_facts(1) [OF t(1)] show ?case by auto
qed

text \<open>
  on a machine with one kind of cores, of which the kernel lists each processor, the server
  generates with at least one thread and never with more than it uses for whole batches, which is the
  number of processors.\<close>

theorem thread_counts_bounded:
  assumes "detect_cpu_topology (l # ls) p_list e_list freq_file = Inr t" "starts_with ''processor'' l" "\<not> is_hybrid t"
  shows "1 \<le> recommended_threads t \<and> recommended_threads t \<le> recommended_batch_threads t
     \<and> recommended_batch_threads t = int (length (filter (starts_with ''processor'') (l # ls)))"
proof -
  obtain s sets where s: "scan_cpuinfo new_scan (l # ls) = Inr s"
      and t: "t = recommend (if scan_logical s = 0 then 1 else scan_logical s)
         (if scan_ids s = {} then (if scan_logical s = 0 then 1 else scan_logical s) else int (card (scan_ids s))) (features_of s) sets"
    using assms(1) by (auto simp: detect_cpu_topology_def bindE_Inr_iff Let_def)
  obtain s1 where s1: "cpu_line new_scan l = Inr s1" "scan_cpuinfo s1 ls = Inr s" using s by (auto simp: bindE_Inr_iff)
  have b: "scan_bounded s1" using cpu_line_bounded [OF s1(1)] assms(2) by simp
  have l: "scan_logical s1 = 1" using cpu_line_facts(1) [OF s1(1)] assms(2) by (simp add: new_scan_def)
  note f = scan_cpuinfo_bounded [OF s1(2) b]
  have "sets = None" using assms(3) by (cases sets) (auto simp: t recommend_def new_topology_def Let_def split: if_splits)
  with f l assms(2) show ?thesis
    by (auto simp: t recommend_def clamp1_def new_topology_def card_gt_0_iff Suc_le_eq)
qed

definition cpu_lines :: "string list" where
  "cpu_lines = [''processor : 0'', ''physical id : 0'', ''core id : 0'', ''processor : 1'', ''physical id : 0'', ''core id : 0'']"

theorem thread_counts_bounded_witness:
  "\<exists>t. detect_cpu_topology cpu_lines [] [] (\<lambda>_. []) = Inr t \<and> 1 \<le> recommended_threads t
     \<and> recommended_threads t \<le> recommended_batch_threads t \<and> recommended_batch_threads t = 2"
proof -
  have "detect_cpu_topology cpu_lines [] [] (\<lambda>_. [])
      = Inr (recommend 2 1 ''SSE4.2'' None)"
    by (simp add: detect_cpu_topology_def cpu_lines_def new_scan_def cpu_line_def flush_core_def starts_with_def after_colon_def
        hybrid_sets_def read_sysfs_trim_def read_clocks_def split_by_clock_def features_of_def Let_def upt_rec)
  moreover have "\<not> is_hybrid (recommend 2 1 ''SSE4.2'' None)" by (simp add: recommend_def new_topology_def)
  ultimately show ?thesis
    using thread_counts_bounded [of "''processor : 0''" "tl cpu_lines" "[]" "[]" "\<lambda>_. []"]
    by (auto simp: cpu_lines_def starts_with_def)
qed

text \<open>
  a card of Intel with its own memory of two gigabytes or more is taken for one that shares the
  memory of the machine when the program starts, and for a card of its own when the server starts, which
  then gets only a part of the layers.\<close>

theorem intel_card_is_reclassified:
  assumes "the_gpu drm = Some e" "sys_file e ''device/vendor'' = ''0x8086''" "sys_file e ''device/mem_info_vram_total'' = []"
    "sys_file e ''device/mem_info_gtt_total'' = []" "to_mib (sys_file e ''device/total_vram'') \<ge> 2048"
  shows "gpu_layers (set_gpu new_hardware e) True = Some ''99''
     \<and> gpu_layers (refresh_gpu_memory (Some drm) (set_gpu new_hardware e)) True
         = Some (show_int (max 1 (to_i32 (to_mib (sys_file e ''device/total_vram'') div 1200))))"
proof -
  have "sys_file e ''device/total_vram'' \<noteq> []"
    using assms(5) by (auto simp: to_mib_def strtoul_def)
  then show ?thesis
    using assms by (simp add: set_gpu_def refresh_gpu_memory_def gpu_layers_def new_hardware_def Let_def)
qed

definition intel_card :: sys_entry where
  "intel_card = \<lparr>sys_name = ''card0'', sys_file = (\<lambda>f. if f = ''device/vendor'' then ''0x8086''
     else if f = ''device/total_vram'' then ''4294967296'' else []), sys_exists = (\<lambda>_. False), sys_link = (\<lambda>_. None)\<rparr>"

theorem intel_card_is_reclassified_witness:
  "gpu_layers (set_gpu new_hardware intel_card) True = Some ''99''
     \<and> gpu_layers (refresh_gpu_memory (Some [intel_card]) (set_gpu new_hardware intel_card)) True = Some ''3''"
proof -
  have g: "the_gpu [intel_card] = Some intel_card"
    by (simp add: the_gpu_def is_card_def intel_card_def vendor_name_def starts_with_def)
  have "strtoul ''4294967296'' = Some (4294967296, [], False)"
    by (simp add: strtoul_def is_space_def is_digit_def digit_val_def)
  then have m: "to_mib (sys_file intel_card ''device/total_vram'') = 4096" by (simp add: intel_card_def to_mib_def)
  have "show_int (max 1 (to_i32 3)) = ''3''" by code_simp
  with intel_card_is_reclassified [OF g] m show ?thesis by (simp add: intel_card_def)
qed

section \<open>Runs of the threads\<close>

lemmas step_defs = monitor_step_def poll_step_def beat_step_def callback_step_def spawn_llama_server_def
lemmas state_defs = model_up_def model_down_def exit_server_def reap_server_def start_monitor_def

lemma server_of_update [simp]:
  "server_of (s\<lparr>running := a\<rparr>) = server_of s" "server_of (s\<lparr>llama_pid := b\<rparr>) = server_of s"
  "server_of (s\<lparr>model_loaded := c\<rparr>) = server_of s" "server_of (s\<lparr>inference_ready := d\<rparr>) = server_of s"
  "server_of (s\<lparr>inference_llama := f\<rparr>) = server_of s" "server_of (s\<lparr>g_model_name := g\<rparr>) = server_of s"
  "server_of (s\<lparr>monitors := h\<rparr>) = server_of s" "server_of (s\<lparr>poll_phase := i\<rparr>) = server_of s"
  "server_of (s\<lparr>poll_fails := j\<rparr>) = server_of s" "server_of (s\<lparr>beat := k\<rparr>) = server_of s"
  "server_of (s\<lparr>callbacks := l\<rparr>) = server_of s"
  by (simp_all add: server_of_def fun_eq_iff)

lemma reap_server_fields [simp]:
  "monitors (reap_server q s) = monitors s" "poll_phase (reap_server q s) = poll_phase s"
  "callbacks (reap_server q s) = callbacks s" "llama_pid (reap_server q s) = llama_pid s"
  "monitors (exit_server q s) = monitors s" "poll_phase (exit_server q s) = poll_phase s"
  "callbacks (exit_server q s) = callbacks s" "llama_pid (exit_server q s) = llama_pid s"
  by (simp_all add: reap_server_def exit_server_def)

text \<open>The interface of the proofs about runs: what every event of a class keeps holds after every run of
  such events.\<close>

locale engine_invariant =
  fixes I :: "engine \<Rightarrow> bool" and legal_event :: "event \<Rightarrow> bool"
  assumes step_keeps: "I s \<Longrightarrow> legal_event e \<Longrightarrow> engine_step e s = Some s' \<Longrightarrow> I s'"
begin

lemma run_keeps: "I s \<Longrightarrow> list_all legal_event es \<Longrightarrow> engine_run es s = Some s' \<Longrightarrow> I s'"
  by (induction es arbitrary: s) (auto split: option.splits dest: step_keeps)

end

lemma engine_run_append:
  "engine_run (a @ b) s = (case engine_run a s of None \<Rightarrow> None | Some s \<Rightarrow> engine_run b s)"
  by (induction a arbitrary: s) (auto split: option.split)

subsection \<open>A server that is down for good\<close>

text \<open>The engine is down with the number of a server that is gone: no monitor is left, the heartbeat is not starting
  a server and no callback is under way.\<close>

definition given_up :: "engine \<Rightarrow> bool" where
  "given_up s \<longleftrightarrow> \<not> model_loaded s \<and> llama_pid s > 0 \<and> list_all (\<lambda>m. m_phase m = MDone) (monitors s)
     \<and> beat s \<in> {BSleep, BWatch, BRecover} \<and> callbacks s = []"

definition no_topology :: "event \<Rightarrow> bool" where "no_topology e \<longleftrightarrow> e \<noteq> Topology"

lemma given_up_step: "given_up s \<Longrightarrow> no_topology e \<Longrightarrow> engine_step e s = Some s' \<Longrightarrow> given_up s'"
proof (cases e)
  case (Monitor i outcome ok)
  assume g: "given_up s" and "engine_step e s = Some s'"
  then show ?thesis using Monitor by (auto simp: given_up_def list_all_length monitor_step_def split: if_splits)
next
  case (Poll ok)
  assume "given_up s" "engine_step e s = Some s'"
  then show ?thesis
    using Poll by (auto simp: given_up_def poll_step_def exit_server_def Let_def split: poll_phase.splits if_splits)
next
  case (Beat a b c)
  assume "given_up s" "engine_step e s = Some s'"
  then show ?thesis using Beat by (auto simp: given_up_def beat_step_def split: if_splits)
qed (auto simp: given_up_def no_topology_def exit_server_def split: if_splits)

interpretation down: engine_invariant given_up no_topology
  by unfold_locales (rule given_up_step)

text \<open>A server exits and the next one cannot be started.\<close>

definition failed_restart :: "int \<Rightarrow> event list" where
  "failed_restart pid = [Monitor 0 None False, Exits pid, Monitor 0 None False, Monitor 0 None False, Monitor 0 None False,
     Monitor 0 None False, Monitor 0 None False]"

lemma failed_restart_run:
  assumes "path \<noteq> []" "pid > 0"
  shows "\<exists>s. engine_run (failed_restart pid) (boot_engine path (Some pid) True) = Some s \<and> given_up s"
  using assms
  by (simp add: failed_restart_def boot_engine_def idle_engine_def step_defs state_defs server_of_def max_retries_def
      fresh_pid_def given_up_def)



subsection \<open>A server that is slow\<close>

definition slow :: "int \<Rightarrow> engine \<Rightarrow> bool" where
  "slow pid s \<longleftrightarrow> \<not> model_loaded s \<and> llama_pid s = pid \<and> (\<exists>p. server_of s pid = Some p \<and> s_alive p)
     \<and> list_all (\<lambda>m. m_phase m \<in> {MTop, MWait pid, MDone}) (monitors s)
     \<and> beat s \<in> {BSleep, BWatch, BRecover} \<and> callbacks s = [] \<and> poll_phase s = PSleep"

definition keeps_server :: "int \<Rightarrow> event \<Rightarrow> bool" where
  "keeps_server pid e \<longleftrightarrow> e \<noteq> Topology \<and> e \<noteq> Exits pid"

lemma server_of_exit: "server_of (exit_server q s) pid =
    map_option (\<lambda>p. if s_pid p = q then p\<lparr>s_alive := False\<rparr> else p) (server_of s pid)"
proof -
  have "find (\<lambda>p. s_pid p = pid) (map (\<lambda>p. if s_pid p = q then p\<lparr>s_alive := False\<rparr> else p) xs)
      = map_option (\<lambda>p. if s_pid p = q then p\<lparr>s_alive := False\<rparr> else p) (find (\<lambda>p. s_pid p = pid) xs)" for xs :: "server list"
    by (induction xs) auto
  then show ?thesis by (simp add: server_of_def exit_server_def)
qed

lemma server_of_pid: "server_of s pid = Some p \<Longrightarrow> s_pid p = pid"
  by (auto simp: server_of_def find_Some_iff)

lemma slow_step: "slow pid s \<Longrightarrow> pid > 0 \<Longrightarrow> keeps_server pid e \<Longrightarrow> engine_step e s = Some s' \<Longrightarrow> slow pid s'"
proof (cases e)
  case (Exits q)
  assume "slow pid s" "keeps_server pid e" "engine_step e s = Some s'"
  then have k: "q \<noteq> pid" "s' = exit_server q s" and s: "slow pid s" using Exits by (auto simp: keeps_server_def split: if_splits)
  obtain p where p: "server_of s pid = Some p" "s_alive p" using s by (auto simp: slow_def)
  have "server_of s' pid = Some p" using p k server_of_pid [OF p(1)] by (simp add: server_of_exit)
  with p(2) s k show ?thesis by (simp add: slow_def exit_server_def)
next
  case (Monitor i outcome ok)
  assume sl: "slow pid s" and st: "engine_step e s = Some s'" and "pid > 0"
  obtain p where p: "server_of s pid = Some p" "s_alive p" using sl by (auto simp: slow_def)
  have ph: "m_phase (monitors s ! i) \<in> {MTop, MWait pid, MDone}" "i < length (monitors s)"
    using sl st Monitor by (auto simp: slow_def list_all_length split: if_splits)
  obtain m where m: "monitor_step outcome ok (monitors s ! i) s = Some (m, s)" "m_phase m \<in> {MTop, MWait pid, MDone}"
      "s' = s\<lparr>monitors := (monitors s)[i := m]\<rparr>"
    using st Monitor ph p sl by (auto simp: monitor_step_def slow_def split: if_splits)
  have "list_all (\<lambda>m. m_phase m \<in> {MTop, MWait pid, MDone}) ((monitors s)[i := m])"
    using sl m(2) by (auto simp: slow_def list_all_iff dest!: set_update_subset_insert [THEN subsetD])
  then show ?thesis using sl m(3) by (simp add: slow_def server_of_def)
next
  case (Poll ok)
  assume "slow pid s" "engine_step e s = Some s'"
  then show ?thesis using Poll by (auto simp: slow_def poll_step_def server_of_def split: if_splits)
next
  case (Beat a b c)
  assume "slow pid s" "engine_step e s = Some s'" "pid > 0"
  then show ?thesis using Beat by (auto simp: slow_def beat_step_def server_of_def split: if_splits)
qed (auto simp: slow_def keeps_server_def server_of_def split: if_splits)

interpretation slow_run: engine_invariant "\<lambda>s. pid > 0 \<and> slow pid s" "keeps_server pid" for pid
  by unfold_locales (auto intro: slow_step)



subsection \<open>Two servers\<close>

text \<open>A server that runs while no thread has its number.\<close>

definition orphan :: "int \<Rightarrow> engine \<Rightarrow> bool" where
  "orphan pid s \<longleftrightarrow> (\<exists>p. server_of s pid = Some p \<and> s_alive p) \<and> llama_pid s \<noteq> pid
     \<and> list_all (\<lambda>m. m_phase m \<noteq> MWait pid) (monitors s) \<and> poll_phase s \<noteq> PKill pid
     \<and> list_all (\<lambda>c. c \<noteq> CReap pid \<and> (\<forall>path. c \<noteq> CStuckReap path pid)) (callbacks s)"

definition others :: "int \<Rightarrow> event \<Rightarrow> bool" where "others pid e \<longleftrightarrow> e \<noteq> Exits pid"

lemma server_of_reap: "q \<noteq> pid \<Longrightarrow> server_of (reap_server q s) pid = server_of s pid"
proof -
  assume "q \<noteq> pid"
  then have "find (\<lambda>p. s_pid p = pid) (filter (\<lambda>p. s_pid p \<noteq> q) xs) = find (\<lambda>p. s_pid p = pid) xs" for xs :: "server list"
    by (induction xs) auto
  then show ?thesis by (simp add: server_of_def reap_server_def)
qed

lemma find_append: "find P (xs @ ys) = (case find P xs of None \<Rightarrow> find P ys | Some x \<Rightarrow> Some x)"
  by (induction xs) auto

lemma spawn_keeps:
  assumes "spawn_llama_server path rpc outcome s = (up, s')" "fresh_pid outcome s" "server_of s pid = Some p"
  shows "server_of s' pid = Some p" "llama_pid s \<noteq> pid \<Longrightarrow> llama_pid s' \<noteq> pid" "monitors s' = monitors s"
    "poll_phase s' = poll_phase s" "callbacks s' = callbacks s"
  using assms by (auto simp: spawn_llama_server_def fresh_pid_def server_of_def find_append split: option.splits)

definition same_but :: "int \<Rightarrow> engine \<Rightarrow> engine \<Rightarrow> bool" where
  "same_but pid s s' \<longleftrightarrow> server_of s' pid = server_of s pid \<and> llama_pid s' \<noteq> pid"

lemma monitor_step_orphan:
  assumes "monitor_step outcome ok m s = Some (m', s')" "orphan pid s" "m_phase m \<noteq> MWait pid"
  shows "same_but pid s s' \<and> m_phase m' \<noteq> MWait pid \<and> monitors s' = monitors s \<and> poll_phase s' = poll_phase s \<and> callbacks s' = callbacks s"
proof -
  obtain p where p: "server_of s pid = Some p" "llama_pid s \<noteq> pid" using assms(2) by (auto simp: orphan_def)
  show ?thesis
    using assms(1, 3) p
    by (cases "m_phase m")
      (auto simp: monitor_step_def same_but_def model_up_def model_down_def server_of_reap
        split: if_splits option.splits prod.splits dest: spawn_keeps)
qed

lemma callback_step_orphan:
  assumes "callback_step leads choice outcome ok c s = Some (c', s')" "orphan pid s" "c \<noteq> CReap pid" "\<And>path. c \<noteq> CStuckReap path pid"
    "pid > 0"
  shows "same_but pid s s' \<and> (\<forall>d. c' = Some d \<longrightarrow> d \<noteq> CReap pid \<and> (\<forall>path. d \<noteq> CStuckReap path pid))
     \<and> (\<exists>ms. monitors s' = monitors s @ ms \<and> list_all (\<lambda>m. m_phase m = MTop) ms) \<and> poll_phase s' = poll_phase s \<and> callbacks s' = callbacks s"
proof -
  obtain p where p: "server_of s pid = Some p" "llama_pid s \<noteq> pid" using assms(2) by (auto simp: orphan_def)
  show ?thesis
    using assms(1, 3, 4, 5) p
    by (cases c)
      (auto simp: callback_step_def same_but_def model_up_def model_down_def server_of_reap start_monitor_def Let_def
        split: if_splits option.splits prod.splits dest: spawn_keeps)
qed

lemma beat_step_orphan:
  assumes "beat_step readable outcome ok s = Some s'" "orphan pid s" "pid > 0"
  shows "same_but pid s s' \<and> (\<exists>ms. monitors s' = monitors s @ ms \<and> list_all (\<lambda>m. m_phase m = MTop) ms)
     \<and> poll_phase s' = poll_phase s \<and> callbacks s' = callbacks s"
proof -
  obtain p where p: "server_of s pid = Some p" "llama_pid s \<noteq> pid" using assms(2) by (auto simp: orphan_def)
  show ?thesis
    using assms(1, 3) p
    by (auto simp: beat_step_def same_but_def model_up_def model_down_def start_monitor_def
        split: beat_phase.splits if_splits prod.splits dest: spawn_keeps)
qed

lemma orphan_step: "pid > 0 \<Longrightarrow> orphan pid s \<Longrightarrow> others pid e \<Longrightarrow> engine_step e s = Some s' \<Longrightarrow> orphan pid s'"
proof (cases e)
  case (Exits q)
  assume o: "orphan pid s" and "others pid e" "engine_step e s = Some s'"
  then have "q \<noteq> pid" "s' = exit_server q s" using Exits by (auto simp: others_def split: if_splits)
  moreover obtain p where p: "server_of s pid = Some p" "s_alive p" using o by (auto simp: orphan_def)
  ultimately have "server_of s' pid = Some p" using server_of_pid [OF p(1)] by (simp add: server_of_exit)
  with p(2) o \<open>s' = _\<close> show ?thesis by (simp add: orphan_def)
next
  case (Monitor i outcome ok)
  assume o: "orphan pid s" and "engine_step e s = Some s'"
  then obtain m t where i: "i < length (monitors s)" and st: "monitor_step outcome ok (monitors s ! i) s = Some (m, t)"
      and s': "s' = t\<lparr>monitors := (monitors t)[i := m]\<rparr>"
    using Monitor by (auto split: if_splits)
  have "m_phase (monitors s ! i) \<noteq> MWait pid" using o i by (auto simp: orphan_def list_all_length)
  note k = monitor_step_orphan [OF st o this]
  have "list_all (\<lambda>m. m_phase m \<noteq> MWait pid) ((monitors s)[i := m])"
    using o k by (auto simp: orphan_def list_all_iff dest!: set_update_subset_insert [THEN subsetD])
  with k o show ?thesis by (auto simp: s' orphan_def same_but_def)
next
  case (Poll ok)
  assume o: "orphan pid s" and st: "engine_step e s = Some s'"
  obtain p where p: "server_of s pid = Some p" "s_alive p" "llama_pid s \<noteq> pid" "poll_phase s \<noteq> PKill pid" using o by (auto simp: orphan_def)
  have "server_of s' pid = Some p \<and> llama_pid s' \<noteq> pid \<and> poll_phase s' \<noteq> PKill pid \<and> monitors s' = monitors s \<and> callbacks s' = callbacks s"
    using st p Poll server_of_pid [OF p(1)]
    by (auto simp: poll_step_def Let_def server_of_exit split: poll_phase.splits if_splits)
  with o p show ?thesis by (simp add: orphan_def)
next
  case (Beat a b c)
  assume o: "orphan pid s" and "engine_step e s = Some s'" "pid > 0"
  then have "beat_step a b c s = Some s'" using Beat by simp
  from beat_step_orphan [OF this o \<open>pid > 0\<close>] o show ?thesis
    by (auto simp: orphan_def same_but_def list_all_iff)
next
  case Topology
  assume "orphan pid s" "engine_step e s = Some s'"
  with Topology show ?thesis by (auto simp: orphan_def)
next
  case (Callback i leads choice outcome ok)
  assume o: "orphan pid s" and "engine_step e s = Some s'" "pid > 0"
  then obtain c t where i: "i < length (callbacks s)"
      and st: "callback_step leads choice outcome ok (callbacks s ! i) s = Some (c, t)"
      and s': "s' = t\<lparr>callbacks := replace_at i c (callbacks t)\<rparr>"
    using Callback by (auto split: if_splits)
  have c: "callbacks s ! i \<noteq> CReap pid" "\<And>path. callbacks s ! i \<noteq> CStuckReap path pid"
    using o i by (auto simp: orphan_def list_all_length)
  note k = callback_step_orphan [OF st o c \<open>pid > 0\<close>]
  have "set (replace_at i c (callbacks s)) \<subseteq> set (callbacks s) \<union> set_option c"
    by (auto simp: replace_at_def split: option.split dest: in_set_takeD in_set_dropD set_update_subset_insert [THEN subsetD])
  then have "list_all (\<lambda>c. c \<noteq> CReap pid \<and> (\<forall>path. c \<noteq> CStuckReap path pid)) (replace_at i c (callbacks s))"
    using o k by (fastforce simp: orphan_def list_all_iff)
  with k o show ?thesis by (auto simp: s' orphan_def same_but_def list_all_iff)
qed (auto simp: orphan_def)

interpretation orphan_run: engine_invariant "\<lambda>s. pid > 0 \<and> orphan pid s" "others pid" for pid
  by unfold_locales (auto intro: orphan_step)

text \<open>A run to two servers: the monitor waits for its server; the callback stops that server, and the monitor is the one that learns of its
  exit; both start another, the callback first.\<close>

definition the_path :: string where "the_path = ''/data/models/m.gguf''"
definition the_rpc :: string where "the_rpc = ''10.0.0.2:50052''"

definition mid :: "int \<Rightarrow> bool \<Rightarrow> server list \<Rightarrow> monitor list \<Rightarrow> callback_phase list \<Rightarrow> engine" where
  "mid pid up ps ms cs =
     \<lparr>running = True, llama_pid = pid, model_loaded = up, inference_ready = True, inference_llama = up,
      g_model_name = ''m.gguf'', servers = ps, monitors = ms, poll_phase = PSleep, poll_fails = 0, beat = BSleep, callbacks = cs\<rparr>"

definition srv :: "int \<Rightarrow> bool \<Rightarrow> string \<Rightarrow> server" where
  "srv pid up rpc = \<lparr>s_pid = pid, s_alive = up, s_model = the_path, s_rpc = rpc\<rparr>"

definition mon :: "monitor_phase \<Rightarrow> nat \<Rightarrow> monitor" where
  "mon ph r = \<lparr>m_phase = ph, m_retries = r, m_path = the_path\<rparr>"

lemma paths: "''/data/models/m.gguf'' = the_path" "the_path \<noteq> []" "the_rpc \<noteq> []"
  by (simp_all add: the_path_def the_rpc_def)

lemma double_start_steps:
  "boot_engine the_path (Some 100) True = mid 100 True [srv 100 True []] [mon MTop 0] []"
  "engine_step (Monitor 0 None False) (mid 100 True [srv 100 True []] [mon MTop 0] [])
     = Some (mid 100 True [srv 100 True []] [mon (MWait 100) 0] [])"
  "engine_step Topology (mid 100 True [srv 100 True []] [mon (MWait 100) 0] [])
     = Some (mid 100 True [srv 100 True []] [mon (MWait 100) 0] [CBegin])"
  "engine_step (Callback 0 True ([], the_rpc) None False) (mid 100 True [srv 100 True []] [mon (MWait 100) 0] [CBegin])
     = Some (mid 100 True [srv 100 True []] [mon (MWait 100) 0] [CReap 100])"
  "engine_step (Exits 100) (mid 100 True [srv 100 True []] [mon (MWait 100) 0] [CReap 100])
     = Some (mid 100 True [srv 100 False []] [mon (MWait 100) 0] [CReap 100])"
  "engine_step (Monitor 0 None False) (mid 100 True [srv 100 False []] [mon (MWait 100) 0] [CReap 100])
     = Some (mid 100 True [] [mon MReaped 0] [CReap 100])"
  "engine_step (Callback 0 True ([], the_rpc) None False) (mid 100 True [] [mon MReaped 0] [CReap 100])
     = Some (mid 100 True [] [mon MReaped 0] [CClear])"
  "engine_step (Monitor 0 None False) (mid 100 True [] [mon MReaped 0] [CClear])
     = Some (mid 100 False [] [mon MSpawn 1] [CClear])"
  "engine_step (Callback 0 True ([], the_rpc) None False) (mid 100 False [] [mon MSpawn 1] [CClear])
     = Some (mid 0 False [] [mon MSpawn 1] [CSpawn])"
  "engine_step (Callback 0 True ([], the_rpc) (Some 101) False) (mid 0 False [] [mon MSpawn 1] [CSpawn])
     = Some (mid 101 False [srv 101 True the_rpc] [mon MSpawn 1] [CHealth the_path the_rpc])"
  "engine_step (Callback 0 True ([], the_rpc) None True) (mid 101 False [srv 101 True the_rpc] [mon MSpawn 1] [CHealth the_path the_rpc])
     = Some (mid 101 True [srv 101 True the_rpc] [mon MSpawn 1, mon MTop 0] [])"
  "engine_step (Monitor 0 (Some 102) False) (mid 101 True [srv 101 True the_rpc] [mon MSpawn 1, mon MTop 0] [])
     = Some (mid 102 True [srv 101 True the_rpc, srv 102 True []] [mon MHealth 1, mon MTop 0] [])"
             apply (simp add: boot_engine_def spawn_llama_server_def idle_engine_def mid_def srv_def mon_def paths start_monitor_def model_up_def)
             apply (simp add: file_name_def slash_def the_path_def)
            apply (simp_all add: mid_def mon_def srv_def step_defs state_defs server_of_def max_retries_def fresh_pid_def replace_at_def some_alive_def paths)
  done

definition double_start :: "event list" where
  "double_start =
     [Monitor 0 None False, Topology, Callback 0 True ([], the_rpc) None False, Exits 100, Monitor 0 None False,
      Callback 0 True ([], the_rpc) None False, Monitor 0 None False, Callback 0 True ([], the_rpc) None False,
      Callback 0 True ([], the_rpc) (Some 101) False, Callback 0 True ([], the_rpc) None True, Monitor 0 (Some 102) False]"

lemma double_start_run:
  "engine_run double_start (boot_engine the_path (Some 100) True)
     = Some (mid 102 True [srv 101 True the_rpc, srv 102 True []] [mon MHealth 1, mon MTop 0] [])"
  unfolding double_start_def engine_run.simps double_start_steps option.case ..

text \<open>
  after a change of the cluster two servers can run, and the one that was started for the cluster
  then has no thread that would ever stop it or wait for it: in every run from there it stays until
  it exits by itself.\<close>

theorem two_servers_run:
  "\<exists>s. engine_run double_start (boot_engine the_path (Some 100) True) = Some s
     \<and> map s_pid (filter s_alive (servers s)) = [101, 102]
     \<and> \<not> (\<exists>es s'. list_all (others 101) es \<and> engine_run es s = Some s' \<and> \<not> orphan 101 s')"
proof -
  let ?s = "mid 102 True [srv 101 True the_rpc, srv 102 True []] [mon MHealth 1, mon MTop 0] []"
  have o: "orphan 101 ?s" by (simp add: orphan_def mid_def srv_def mon_def server_of_def)
  have "\<not> (\<exists>es s'. list_all (others 101) es \<and> engine_run es ?s = Some s' \<and> \<not> orphan 101 s')"
    using orphan_run.run_keeps [of 101 ?s] o by auto
  moreover have "map s_pid (filter s_alive (servers ?s)) = [101, 102]" by (simp add: mid_def srv_def)
  ultimately show ?thesis using double_start_run by (intro exI [of _ ?s] conjI)
qed

subsection \<open>The bound on restarts\<close>

text \<open>How often the monitor with number \<open>i\<close> starts a server in a run.\<close>

fun starts_of :: "nat \<Rightarrow> event list \<Rightarrow> engine \<Rightarrow> nat" where
  "starts_of i [] s = 0"
| "starts_of i (e # es) s =
     (case e of Monitor j (Some pid) ok \<Rightarrow> if j = i \<and> i < length (monitors s) \<and> m_phase (monitors s ! i) = MSpawn then 1 else 0 | _ \<Rightarrow> 0)
     + (case engine_step e s of None \<Rightarrow> 0 | Some s' \<Rightarrow> starts_of i es s')"

text \<open>How often it still may, if no server that it starts becomes healthy.\<close>

definition restarts_left :: "monitor \<Rightarrow> nat" where
  "restarts_left m = (case m_phase m of MSpawn \<Rightarrow> max_retries - m_retries m | MDone \<Rightarrow> 0 | _ \<Rightarrow> max_retries - 1 - m_retries m)"

definition not_healthy :: "nat \<Rightarrow> event \<Rightarrow> bool" where
  "not_healthy i e \<longleftrightarrow> (case e of Monitor j outcome ok \<Rightarrow> \<not> (j = i \<and> ok) | _ \<Rightarrow> True)"

lemma monitor_step_left:
  "monitor_step outcome ok m s = Some (m', s') \<Longrightarrow> \<not> ok \<Longrightarrow>
     restarts_left m' + (if m_phase m = MSpawn \<and> outcome \<noteq> None then 1 else 0) \<le> restarts_left m
     \<or> m_phase m = MSpawn \<and> max_retries \<le> m_retries m"
  by (auto simp: monitor_step_def restarts_left_def max_retries_def spawn_llama_server_def
      split: monitor_phase.splits if_splits option.splits prod.splits)

definition tries_small :: "monitor \<Rightarrow> bool" where
  "tries_small m \<longleftrightarrow> (m_phase m = MSpawn \<longrightarrow> m_retries m < max_retries)"

lemma monitor_step_small: "monitor_step outcome ok m s = Some (m', s') \<Longrightarrow> tries_small m \<Longrightarrow> tries_small m'"
  by (auto simp: monitor_step_def tries_small_def max_retries_def split: monitor_phase.splits if_splits option.splits prod.splits)

text \<open>Steps of the other threads leave the monitors or add one; other monitors leave this one.\<close>

lemma monitors_kept:
  "monitor_step outcome ok m s = Some (m', s') \<Longrightarrow> monitors s' = monitors s"
  "callback_step leads choice outcome ok c s = Some (c', s') \<Longrightarrow> \<exists>ms. monitors s' = monitors s @ ms"
  "beat_step readable outcome ok s = Some s' \<Longrightarrow> \<exists>ms. monitors s' = monitors s @ ms"
  "poll_step ok s = Some s' \<Longrightarrow> monitors s' = monitors s"
  by (auto simp: monitor_step_def callback_step_def beat_step_def poll_step_def spawn_llama_server_def start_monitor_def model_up_def
      model_down_def Let_def split: monitor_phase.splits callback_phase.splits beat_phase.splits poll_phase.splits if_splits option.splits prod.splits)

lemma other_step:
  assumes "engine_step e s = Some s'" "i < length (monitors s)" "\<And>outcome ok. e \<noteq> Monitor i outcome ok"
  shows "i < length (monitors s') \<and> monitors s' ! i = monitors s ! i"
proof (cases e)
  case (Monitor j outcome ok)
  with assms(3) have "j \<noteq> i" by auto
  with Monitor show ?thesis using assms(1, 2) by (auto split: if_splits dest: monitors_kept(1))
next
  case (Callback j leads choice outcome ok)
  with assms(1) obtain c t where "callback_step leads choice outcome ok (callbacks s ! j) s = Some (c, t)"
      "s' = t\<lparr>callbacks := replace_at j c (callbacks t)\<rparr>" by (auto split: if_splits)
  with monitors_kept(2) [OF this(1)] assms(2) show ?thesis by (auto simp: nth_append)
next
  case (Beat a b c)
  with assms monitors_kept(3) [of a b c s s'] show ?thesis by (auto simp: nth_append)
next
  case (Poll ok)
  with assms monitors_kept(4) [of ok s s'] show ?thesis by simp
qed (use assms in \<open>auto split: if_splits\<close>)

lemma starts_bounded:
  "i < length (monitors s) \<Longrightarrow> tries_small (monitors s ! i) \<Longrightarrow> list_all (not_healthy i) es \<Longrightarrow>
     starts_of i es s \<le> restarts_left (monitors s ! i)
       + (if engine_run es s = None then 1 else 0)"
proof (induction es arbitrary: s)
  case (Cons e es)
  show ?case
  proof (cases "engine_step e s")
    case None
    then show ?thesis by (auto split: event.split option.split)
  next
    case (Some t)
    show ?thesis
    proof (cases "\<exists>outcome ok. e = Monitor i outcome ok")
      case True
      then obtain outcome where e: "e = Monitor i outcome False" using Cons.prems(3) by (auto simp: not_healthy_def)
      obtain m u where m: "monitor_step outcome False (monitors s ! i) s = Some (m, u)" "t = u\<lparr>monitors := (monitors u)[i := m]\<rparr>"
        using Some e Cons.prems(1) by auto
      have t: "i < length (monitors t)" "monitors t ! i = m" using monitors_kept(1) [OF m(1)] m(2) Cons.prems(1) by auto
      have "tries_small m" using monitor_step_small [OF m(1) Cons.prems(2)] .
      with Cons.IH [of t] t Cons.prems(3) have IH: "starts_of i es t \<le> restarts_left m + (if engine_run es t = None then 1 else 0)" by simp
      have "restarts_left m + (if m_phase (monitors s ! i) = MSpawn \<and> outcome \<noteq> None then 1 else 0) \<le> restarts_left (monitors s ! i)"
        using monitor_step_left [OF m(1)] Cons.prems(2) by (auto simp: tries_small_def)
      moreover have "starts_of i (e # es) s
          = (if m_phase (monitors s ! i) = MSpawn \<and> outcome \<noteq> None then 1 else 0) + starts_of i es t"
        using Some Cons.prems(1) by (cases outcome) (simp_all add: e del: engine_step.simps)
      moreover have "engine_run (e # es) s = engine_run es t" using Some by simp
      ultimately show ?thesis using IH by simp
    next
      case False
      with other_step [OF Some Cons.prems(1)] have t: "i < length (monitors t)" "monitors t ! i = monitors s ! i" by auto
      have "starts_of i (e # es) s = starts_of i es t"
        using False Some by (auto split: event.split option.split)
      with Cons.IH [of t] t Cons.prems Some show ?thesis by simp
    qed
  qed
qed simp



end
