(* ===== verification/NetStart.thy ===== *)
theory NetStart
  imports NetTools HwDetect Wifi
begin

text \<open>
  How \<^verbatim>\<open>child_main.cpp\<close> brings the machine to the network and to the screen: the configuration of the
  WiFi daemon, the search for a wired interface with its wait for an address, the default route and the
  resolver after that, the fallback to WiFi, and the chain of compositors. Definitions only; the
  lemmas are in NetStartFacts. What the kernel and the programs started answer are arguments; what is
  done is a list of actions. The lines of \<^verbatim>\<open>/proc/net/route\<close> are taken as the kernel writes them: fields
  between blanks, and names of at most 15 characters.
\<close>

unbundle bit_operations_syntax

section \<open>The configuration of the WiFi daemon\<close>

text \<open>\<open>fgets\<close> with a buffer of \<open>cap + 1\<close> characters, until the end of the file.\<close>

fun fgets_loop :: "nat \<Rightarrow> string \<Rightarrow> string \<Rightarrow> string list" where
  "fgets_loop cap acc [] = (if acc = [] then [] else [acc])"
| "fgets_loop cap acc (c # cs) =
     (if c = NEWL \<or> length acc + 1 \<ge> cap then (acc @ [c]) # fgets_loop cap [] cs else fgets_loop cap (acc @ [c]) cs)"

definition fgets_all :: "nat \<Rightarrow> string \<Rightarrow> string list" where
  "fgets_all buf s = fgets_loop (buf - 1) [] s"

definition new_wpa_conf :: string where
  "new_wpa_conf = ''ctrl_interface=/run/wpa_supplicant'' @ [NEWL] @ ''ctrl_interface_group=0'' @ [NEWL] @ ''update_config=1'' @ [NEWL]
     @ ''country=US'' @ [NEWL]"

definition country_line :: string where "country_line = ''country=US'' @ [NEWL]"

fun patch_lines :: "bool \<Rightarrow> string list \<Rightarrow> string" where
  "patch_lines inserted [] = (if inserted then [] else country_line)"
| "patch_lines inserted (l # ls) =
     (if \<not> inserted \<and> starts_with ''update_config='' l then l @ country_line @ patch_lines True ls
      else l @ patch_lines inserted ls)"

text \<open>The file after the function has seen to it: \<open>writable\<close> is whether it can be created, \<open>patchable\<close> whether the
  patched copy can be written and moved over it. A copy that cannot be moved is left where it is.\<close>

definition ensure_wpa_conf :: "bool \<Rightarrow> bool \<Rightarrow> string option \<Rightarrow> string option" where
  "ensure_wpa_conf writable patchable conf =
     (case conf of
        None \<Rightarrow> if writable then Some new_wpa_conf else None
      | Some s \<Rightarrow>
          if list_ex (starts_with ''country='') (fgets_all 512 s) then Some s
          else if patchable then Some (patch_lines False (fgets_all 512 s)) else Some s)"

text \<open>What is printed of it.\<close>

definition conf_dump :: "string \<Rightarrow> string list" where
  "conf_dump s = map (\<lambda>l. if starts_with ''    psk='' l \<or> starts_with (TAB # ''psk='') l then ''  psk=********'' @ [NEWL] else ''  '' @ l) (fgets_all 256 s)"

definition wpa_args :: "string \<Rightarrow> string list" where
  "wpa_args dev = [''wpa_supplicant'', ''-dd'', ''-i'', dev, ''-c'', ''/data/llamaste/wifi/wpa.conf'', ''-D'', ''nl80211,wext'', ''-f'', ''/tmp/wpa_supplicant.log'']"

section \<open>The default route after an address\<close>

text \<open>What is known when an interface has its address: the address and netmask, zero where the kernel does not
  tell, the table of routes, the lines of the lease, the size of the resolver's file.\<close>

record dhcp_env =
  own_ip :: "byte list"
  own_mask :: "byte list"
  routes :: "string list"
  lease :: "string list option"
  resolv_size :: "nat option"
  resolv_writable :: bool
  dhcp_del :: nl_env
  dhcp_add :: nl_env
  dhcp_index :: "string \<Rightarrow> u32"

definition route_fields :: "string \<Rightarrow> (string \<times> nat list) option" where
  "route_fields line =
     (case cpp_words line of
        [] \<Rightarrow> None
      | dev # ws \<Rightarrow> Some (dev, map (\<lambda>w. snd (the (hex_prefix w))) (takeWhile (\<lambda>w. hex_prefix w \<noteq> None) ws)))"

definition is_default_line :: "string \<Rightarrow> bool" where
  "is_default_line line =
     (case route_fields line of Some (dev, d # _) \<Rightarrow> d = 0 \<and> dev \<noteq> ''lo'' | _ \<Rightarrow> False)"

definition gateway_line :: "string \<Rightarrow> string \<Rightarrow> nat option" where
  "gateway_line dev line =
     (case route_fields line of Some (r, d # g # _) \<Rightarrow> if d = 0 \<and> g \<noteq> 0 \<and> r = dev then Some g else None | _ \<Rightarrow> None)"

definition trim_ends :: "string \<Rightarrow> string" where
  "trim_ends s = rev (dropWhile (\<lambda>c. c = NEWL \<or> c = CHR 0x0D) (rev s))"

definition lease_router :: "string list option \<Rightarrow> string" where
  "lease_router info =
     (case info of None \<Rightarrow> [] | Some ls \<Rightarrow>
       (case find (starts_with ''routers='') ls of
          None \<Rightarrow> []
        | Some l \<Rightarrow> takeWhile (\<lambda>c. c \<noteq> CHR '' '') (trim_ends (drop 8 l))))"

definition routed_gateway :: "string \<Rightarrow> string list \<Rightarrow> string" where
  "routed_gateway dev rs =
     (case find (\<lambda>g. g \<noteq> None) (map (gateway_line dev) rs) of
        Some (Some g) \<Rightarrow> show_dotted (le_bytes 4 (of_nat g :: u32)) | _ \<Rightarrow> [])"

definition guessed_gateway :: "byte list \<Rightarrow> byte list \<Rightarrow> string" where
  "guessed_gateway ip netmask = show_dotted (map2 (OR) (map2 (AND) ip netmask) [0, 0, 0, 1])"

definition dhcp_gateway :: "string \<Rightarrow> dhcp_env \<Rightarrow> string" where
  "dhcp_gateway dev e =
     (let g = lease_router (lease e); g = (if g = [] then routed_gateway dev (routes e) else g)
      in if g = [] then guessed_gateway (own_ip e) (own_mask e) else g)"

definition fallback_dns :: string where
  "fallback_dns = ''nameserver 8.8.8.8'' @ [NEWL] @ ''nameserver 8.8.4.4'' @ [NEWL]"

definition apply_dhcp_route_and_dns :: "string \<Rightarrow> dhcp_env \<Rightarrow> net_action list" where
  "apply_dhcp_route_and_dns dev e =
     (if own_ip e \<noteq> [0, 0, 0, 0] \<and> own_mask e \<noteq> [0, 0, 0, 0] \<and> \<not> list_ex is_default_line (routes e) then
        snd (netlink_del_default_route (dhcp_del e))
        @ snd (netlink_add_default_route (dhcp_add e) (dhcp_index e) (dhcp_gateway dev e) dev)
      else [])
     @ (if (case resolv_size e of None \<Rightarrow> True | Some n \<Rightarrow> n < 10) \<and> resolv_writable e then [WriteResolv fallback_dns] else [])"

section \<open>The wired interfaces\<close>

text \<open>An interface: its kind if the file can be read, whether it is for WiFi, whether a socket can be opened, the
  readings of the carrier, one each second, its address when the carrier is there, and whether it has one at each look
  after the first and the second start of the client for addresses.\<close>

record wired =
  w_name :: string
  w_kind :: "int option"
  w_wifi :: bool
  w_socket :: bool
  w_carrier :: "nat \<Rightarrow> int option"
  w_has_ip :: bool
  w_lease :: "nat \<Rightarrow> nat \<Rightarrow> bool"

datatype start_action = StartDhcp string | StopDhcp string | RouteAndDns string

definition skipped_iface :: "string \<Rightarrow> bool" where
  "skipped_iface n \<longleftrightarrow> starts_with ''.'' n \<or> n \<in> {''lo'', ''sit0'', ''tunl0'', ''ip6tnl0'', ''gre0'', ''ip_vti0'', ''ip6_vti0''}"

fun carrier_loop :: "(nat \<Rightarrow> int option) \<Rightarrow> nat \<Rightarrow> nat \<Rightarrow> int \<Rightarrow> bool" where
  "carrier_loop f k 0 c \<longleftrightarrow> c = 1"
| "carrier_loop f k (Suc n) c \<longleftrightarrow> (case f k of None \<Rightarrow> c = 1 | Some v \<Rightarrow> if v = 1 then True else carrier_loop f (k + 1) n v)"

definition has_carrier :: "wired \<Rightarrow> bool" where
  "has_carrier w \<longleftrightarrow> carrier_loop (w_carrier w) 0 10 0"

definition got_lease :: "wired \<Rightarrow> nat \<Rightarrow> bool" where
  "got_lease w attempt \<longleftrightarrow> list_ex (w_lease w attempt) [0..<(if attempt = 0 then 20 else 30)]"

text \<open>One interface: what is done, and whether the flag for a wired address is set.\<close>

definition start_wired :: "wired \<Rightarrow> start_action list \<times> bool" where
  "start_wired w =
     (if skipped_iface (w_name w) \<or> (case w_kind w of Some k \<Rightarrow> k \<noteq> 1 | None \<Rightarrow> False) \<or> w_wifi w \<or> \<not> w_socket w \<or> \<not> has_carrier w then ([], False)
      else if w_has_ip w then ([RouteAndDns (w_name w)], False)
      else if got_lease w 0 then ([StartDhcp (w_name w), RouteAndDns (w_name w)], True)
      else let as = [StartDhcp (w_name w), StopDhcp (w_name w), StartDhcp (w_name w)]
           in if got_lease w 1 then (as @ [RouteAndDns (w_name w)], True) else (as, False))"

definition start_all_wired :: "wired list \<Rightarrow> start_action list \<times> bool" where
  "start_all_wired ws = (concat (map (fst \<circ> start_wired) ws), list_ex (snd \<circ> start_wired) ws)"

text \<open>WiFi is started exactly when the flag is not set.\<close>

definition wifi_is_started :: "wired list \<Rightarrow> bool" where
  "wifi_is_started ws \<longleftrightarrow> \<not> snd (start_all_wired ws)"

text \<open>The resolver's file after WiFi: written when there is no server for names in it.\<close>

definition wifi_resolv :: "string \<Rightarrow> string list \<Rightarrow> string list option \<Rightarrow> string option" where
  "wifi_resolv dev rs resolv =
     (if (case resolv of None \<Rightarrow> False | Some ls \<Rightarrow> list_ex (starts_with ''nameserver'') ls) then None
      else let g = routed_gateway dev rs
           in Some ((if g = [] then [] else ''nameserver '' @ g @ [NEWL]) @ ''nameserver 8.8.8.8'' @ [NEWL] @ ''nameserver 1.1.1.1'' @ [NEWL]))"

section \<open>The compositors\<close>

text \<open>How a compositor ends: it could not be forked, it was killed by a signal, or it exited with a code; with the
  seconds it ran.\<close>

datatype ending = ForkFailed | Signalled int | Exited int int

definition is_clean_exit :: "ending \<Rightarrow> bool" where
  "is_clean_exit e = (case e of Exited code secs \<Rightarrow> code = 0 \<and> secs > 5 | _ \<Rightarrow> False)"

text \<open>The kiosk is tried again up to five times; the answers are its endings in turn. The result is the names
  started, and whether the chain stops there.\<close>

fun cage_loop :: "(nat \<Rightarrow> ending) \<Rightarrow> nat \<Rightarrow> nat \<Rightarrow> nat \<times> bool" where
  "cage_loop f k 0 = (k, False)"
| "cage_loop f k (Suc n) =
     (case f k of
        ForkFailed \<Rightarrow> (k, False)
      | e \<Rightarrow> if is_clean_exit e then (k + 1, True)
            else if (case e of Exited code _ \<Rightarrow> code = 127 | _ \<Rightarrow> False) then (k + 1, False)
            else cage_loop f (k + 1) n)"

definition compositor_chain :: "(nat \<Rightarrow> ending) \<Rightarrow> ending \<Rightarrow> string list" where
  "compositor_chain cage labwc =
     (case cage_loop cage 0 5 of (n, stop) \<Rightarrow>
        replicate n ''cage+cog''
        @ (if stop then [] else (if labwc = ForkFailed then [] else [''labwc'']) @ (if is_clean_exit labwc then [] else [''weston''])))"

text \<open>The size of the file system for shared buffers, in megabytes, and the port.\<close>

definition runtime_mb :: "nat option \<Rightarrow> nat" where
  "runtime_mb ram_mb = (case ram_mb of None \<Rightarrow> 256 | Some r \<Rightarrow> let m = r div 8; m = (if m < 128 then 128 else m) in if m > 1024 then 1024 else m)"

definition http_port_used :: "int \<Rightarrow> bool \<Rightarrow> int" where
  "http_port_used port is_root = (if port = 80 \<and> \<not> is_root then 8080 else port)"

end
