(* ===== verification/NetStartFacts.thy ===== *)
theory NetStartFacts
  imports NetStart NetToolsFacts
begin

text \<open>
  The lemmas and properties of the start of the network and of the screen.
\<close>

unbundle bit_operations_syntax

section \<open>The configuration of the WiFi daemon\<close>

definition conf_line :: "string \<Rightarrow> bool" where
  "conf_line l \<longleftrightarrow> (\<exists>x. l = x @ [NEWL] \<and> NEWL \<notin> set x \<and> length x < 511)"

lemma fgets_loop_line:
  "NEWL \<notin> set x \<Longrightarrow> length acc + length x < cap \<Longrightarrow> fgets_loop cap acc (x @ NEWL # r) = (acc @ x @ [NEWL]) # fgets_loop cap [] r"
  by (induction x arbitrary: acc) auto

lemma fgets_lines: "list_all conf_line ls \<Longrightarrow> fgets_all 512 (concat ls) = ls"
proof (induction ls)
  case (Cons l ls)
  then obtain x where x: "l = x @ [NEWL]" "NEWL \<notin> set x" "length x < 511" by (auto simp: conf_line_def)
  then show ?case using Cons fgets_loop_line [of x "[]" 511 "concat ls"] by (simp add: fgets_all_def)
qed (simp add: fgets_all_def)

lemma country_conf_line: "conf_line country_line"
  unfolding conf_line_def by (rule exI [of _ "''country=US''"]) (simp add: country_line_def NEWL_def)

lemma patch_lines_insert:
  "\<exists>a b. ls = a @ b \<and> patch_lines False ls = concat (a @ [country_line] @ b)"
proof (induction ls)
  case (Cons l ls)
  then obtain a b where ab: "ls = a @ b" "patch_lines False ls = concat (a @ [country_line] @ b)" by blast
  have "patch_lines True ls = concat ls" for ls by (induction ls) auto
  then have t: "starts_with ''update_config='' l \<Longrightarrow> patch_lines False (l # ls) = concat ([l] @ [country_line] @ ls)" by simp
  have f: "\<not> starts_with ''update_config='' l \<Longrightarrow> patch_lines False (l # ls) = concat ((l # a) @ [country_line] @ b)"
    using ab by simp
  show ?case
  proof (cases "starts_with ''update_config='' l")
    case True
    from t [OF True] show ?thesis by (intro exI [of _ "[l]"] exI [of _ ls]) simp
  next
    case False
    from f [OF False] ab(1) show ?thesis by (intro exI [of _ "l # a"] exI [of _ b]) simp
  qed
qed (auto simp: country_line_def)

text \<open>
  a configuration of complete lines without a country gets one line for it and keeps all of its
  own, in their order; the result is not changed again.\<close>

theorem wpa_conf_patched_once:
  assumes "list_all conf_line ls" "\<not> list_ex (starts_with ''country='') ls"
  shows "\<exists>a b. ls = a @ b \<and> ensure_wpa_conf w True (Some (concat ls)) = Some (concat (a @ [country_line] @ b))
     \<and> ensure_wpa_conf w True (Some (concat (a @ [country_line] @ b))) = Some (concat (a @ [country_line] @ b))"
proof -
  obtain a b where ab: "ls = a @ b" "patch_lines False ls = concat (a @ [country_line] @ b)"
    using patch_lines_insert by blast
  have "list_all conf_line (a @ [country_line] @ b)" using assms(1) ab(1) country_conf_line by simp
  note f = fgets_lines [OF this]
  have "starts_with ''country='' country_line" by (simp add: country_line_def starts_with_def)
  then have "ensure_wpa_conf w True (Some (concat (a @ [country_line] @ b))) = Some (concat (a @ [country_line] @ b))"
    unfolding ensure_wpa_conf_def option.case f by simp
  moreover have "ensure_wpa_conf w True (Some (concat ls)) = Some (concat (a @ [country_line] @ b))"
    using assms(2) ab(2) by (simp add: ensure_wpa_conf_def fgets_lines [OF assms(1)])
  ultimately show ?thesis using ab(1) by blast
qed

theorem wpa_conf_patched_once_witness:
  "\<exists>a b. [''update_config=1'' @ [NEWL], ''network={'' @ [NEWL], ''}'' @ [NEWL]] = a @ b
     \<and> ensure_wpa_conf True True (Some (concat [''update_config=1'' @ [NEWL], ''network={'' @ [NEWL], ''}'' @ [NEWL]]))
         = Some (concat (a @ [country_line] @ b))"
proof -
  let ?ls = "[''update_config=1'' @ [NEWL], ''network={'' @ [NEWL], ''}'' @ [NEWL]]"
  have "list_all conf_line ?ls" by (auto simp: conf_line_def NEWL_def)
  moreover have "\<not> list_ex (starts_with ''country='') ?ls" by (simp add: starts_with_def)
  ultimately show ?thesis using wpa_conf_patched_once [of ?ls True] by blast
qed

section \<open>The default route\<close>

lemma no_default_no_gateway:
  "dev \<noteq> ''lo'' \<Longrightarrow> \<not> is_default_line l \<Longrightarrow> gateway_line dev l = None"
  by (auto simp: is_default_line_def gateway_line_def split: option.splits list.splits)

lemma routed_gateway_empty: "dev \<noteq> ''lo'' \<Longrightarrow> \<not> list_ex is_default_line rs \<Longrightarrow> routed_gateway dev rs = []"
proof -
  assume "dev \<noteq> ''lo''" "\<not> list_ex is_default_line rs"
  then have n: "gateway_line dev l = None" if "l \<in> set rs" for l
    using no_default_no_gateway that by (auto simp: list_ex_iff)
  have "find (\<lambda>g. g \<noteq> None) (map (gateway_line dev) rs) = None"
    unfolding find_None_iff using n by auto
  then show ?thesis by (simp only: routed_gateway_def option.case)
qed

text \<open>
  a route is only added where the table has no default route; the gateway is then the router of the
  lease or the guess, and never one of the table, whose lookup in between cannot succeed.\<close>

theorem dhcp_route_by_lease_or_guess:
  assumes "Netlink m \<in> set (apply_dhcp_route_and_dns dev e)" "m \<noteq> del_message" "dev \<noteq> ''lo''"
  shows "\<not> list_ex is_default_line (routes e)
     \<and> (\<exists>gw. inet_pton4 (if lease_router (lease e) = [] then guessed_gateway (own_ip e) (own_mask e) else lease_router (lease e)) = Some gw
          \<and> m = add_message gw (dhcp_index e (c_str dev)))"
proof -
  have n: "\<not> list_ex is_default_line (routes e)" using assms(1) by (auto simp: apply_dhcp_route_and_dns_def split: if_splits)
  have g: "dhcp_gateway dev e = (if lease_router (lease e) = [] then guessed_gateway (own_ip e) (own_mask e) else lease_router (lease e))"
    by (simp add: dhcp_gateway_def routed_gateway_empty [OF assms(3) n] Let_def)
  have "Netlink m \<in> set (snd (netlink_add_default_route (dhcp_add e) (dhcp_index e) (dhcp_gateway dev e) dev))"
    using assms(1, 2) by (auto simp: apply_dhcp_route_and_dns_def netlink_del_default_route_def split: if_splits prod.splits)
  then show ?thesis
    using n unfolding g
    by (auto simp: netlink_add_default_route_def Let_def split: option.splits if_splits prod.splits)
qed

definition sample_dhcp :: dhcp_env where
  "sample_dhcp = \<lparr>own_ip = [192, 168, 1, 7], own_mask = [255, 255, 255, 0], routes = [], lease = None, resolv_size = Some 40,
     resolv_writable = True, dhcp_del = sample_nl, dhcp_add = sample_nl, dhcp_index = (\<lambda>_. 2)\<rparr>"

theorem dhcp_route_by_lease_or_guess_witness:
  "\<exists>gw. inet_pton4 (guessed_gateway [192, 168, 1, 7] [255, 255, 255, 0]) = Some gw \<and> add_message [192, 168, 1, 1] 2 = add_message gw 2"
proof -
  let ?m = "add_message [192, 168, 1, 1] 2"
  have g: "guessed_gateway [192, 168, 1, 7] [255, 255, 255, 0] = show_dotted [192, 168, 1, 1]" by (simp add: guessed_gateway_def)
  have p: "inet_pton4 (show_dotted [192, 168, 1, 1]) = Some [192, 168, 1, 1]" by (rule inet_pton4_dotted) simp
  have d: "dhcp_gateway ''eth0'' sample_dhcp = show_dotted [192, 168, 1, 1]"
    by (simp add: dhcp_gateway_def lease_router_def routed_gateway_def sample_dhcp_def g)
  have "snd (netlink_add_default_route sample_nl (\<lambda>_. 2) (show_dotted [192, 168, 1, 1]) ''eth0'') = [Netlink ?m]"
    using p by (simp add: netlink_add_default_route_def sample_nl_def ack_type_def bytes_at_def Let_def)
  then have "Netlink ?m \<in> set (apply_dhcp_route_and_dns ''eth0'' sample_dhcp)"
    using d by (simp add: apply_dhcp_route_and_dns_def) (simp add: sample_dhcp_def)
  moreover have "?m \<noteq> del_message"
  proof
    assume "?m = del_message"
    then have "length ?m = length del_message" by simp
    then show False by (simp add: add_message_def del_message_def nlmsghdr_def rtmsg_def rtattr_def)
  qed
  ultimately have "\<exists>gw. inet_pton4 (if lease_router (lease sample_dhcp) = [] then guessed_gateway (own_ip sample_dhcp) (own_mask sample_dhcp)
        else lease_router (lease sample_dhcp)) = Some gw \<and> ?m = add_message gw (dhcp_index sample_dhcp (c_str ''eth0''))"
    using dhcp_route_by_lease_or_guess [of ?m "''eth0''" sample_dhcp] by simp
  then show ?thesis by (simp add: sample_dhcp_def lease_router_def)
qed

section \<open>Wired and wireless\<close>

text \<open>
  a wired interface that has its address from the kernel does not count as one: where all others
  are skipped, WiFi is started beside it.\<close>

theorem kernel_address_starts_wifi:
  assumes "\<forall>w\<in>set ws. w_has_ip w"
  shows "wifi_is_started ws"
  using assms by (auto simp: wifi_is_started_def start_all_wired_def start_wired_def list_ex_iff)

definition sample_wired :: wired where
  "sample_wired = \<lparr>w_name = ''eth0'', w_kind = Some 1, w_wifi = False, w_socket = True, w_carrier = (\<lambda>_. Some 1), w_has_ip = True,
     w_lease = (\<lambda>_ _. False)\<rparr>"

theorem kernel_address_starts_wifi_witness:
  "wifi_is_started [sample_wired] \<and> start_wired sample_wired = ([RouteAndDns ''eth0''], False)"
proof -
  have "has_carrier sample_wired"
    by (simp add: has_carrier_def sample_wired_def eval_nat_numeral)
  then show ?thesis
    using kernel_address_starts_wifi [of "[sample_wired]"]
    by (simp add: start_wired_def) (simp add: sample_wired_def skipped_iface_def starts_with_def)
qed

section \<open>The screen\<close>

lemma cage_loop_bounded: "cage_loop f k n = (m, stop) \<Longrightarrow> k \<le> m \<and> m \<le> k + n"
proof (induction f k n rule: cage_loop.induct)
  case (2 f k n)
  then show ?case by (fastforce split: ending.splits if_splits)
qed simp

text \<open>
  the screen is started at most seven times, and unless one of the first two compositors ends as
  its user wants, the last one tried is the one that needs least.\<close>

theorem compositors_bounded:
  "length (compositor_chain cage labwc) \<le> 7
   \<and> (snd (cage_loop cage 0 5) \<or> is_clean_exit labwc \<or> last (compositor_chain cage labwc) = ''weston'')"
proof -
  obtain n stop where n: "cage_loop cage 0 5 = (n, stop)" by (cases "cage_loop cage 0 5")
  then have "n \<le> 5" using cage_loop_bounded [OF n] by simp
  then show ?thesis using n by (auto simp: compositor_chain_def)
qed

end
