(* ===== verification/DataDisk.thy ===== *)
theory DataDisk
  imports Installer ModelDownload
begin

text \<open>
  The search of \<^verbatim>\<open>init.cpp\<close> for the partition with the data: the growing of the partition in its table and
  of the file system in the partition, and the order in which partitions are tried, formatted and
  given up. Definitions only; the lemmas are in DataDiskFacts. The tables are those of Installer. What
  the mounts, the formatting and the reads of a partition give is an argument; the disks are state,
  and what is done to the machine is a list of actions.
\<close>

unbundle bit_operations_syntax

section \<open>Names of devices\<close>

definition contains_sub :: "string \<Rightarrow> string \<Rightarrow> bool" where
  "contains_sub sub s \<longleftrightarrow> find_sub sub s \<noteq> None"

definition trailing_digits :: "string \<Rightarrow> string" where
  "trailing_digits s = rev (takeWhile is_digit (rev s))"

definition disk_device_for :: "string \<Rightarrow> string" where
  "disk_device_for s =
     (if contains_sub ''nvme'' s \<or> contains_sub ''loop'' s \<or> contains_sub ''mmcblk'' s then
        (case rfind ''p'' s of Some p \<Rightarrow> if p > 4 then take p s else [] | None \<Rightarrow> [])
      else let n = length s - length (trailing_digits s) in if n > 0 \<and> n < length s then take n s else [])"

text \<open>\<^verbatim>\<open>atoi\<close> is the conversion to \<^verbatim>\<open>long\<close>, cut to 32 bits.\<close>

definition partition_number_from :: "string \<Rightarrow> int" where
  "partition_number_from s =
     (case strtol (trailing_digits s) of None \<Rightarrow> - 1 | Some (v, _, _) \<Rightarrow> to_i32 v)"

section \<open>Growing the partition\<close>

text \<open>How the growing can end the process: the memory for the entries, whose number is read from the
  disk, cannot be had, and the checksum of the header reads past it.\<close>

datatype boot_fault = NoMemory nat | ReadsPastHeader

text \<open>The number, start and length of a partition as the kernel is told them.\<close>

type_synonym kernel_resize = "int \<times> u64 \<times> u64"

definition entry_at :: "nat \<Rightarrow> nat \<Rightarrow> byte list \<Rightarrow> byte list" where
  "entry_at sz i entries = drop (i * sz) entries"

text \<open>Whether another entry ends behind the one with the index.\<close>

definition is_last_partition :: "nat \<Rightarrow> nat \<Rightarrow> nat \<Rightarrow> byte list \<Rightarrow> bool" where
  "is_last_partition sz n index entries \<longleftrightarrow>
     list_all (\<lambda>i. i = index \<or> ending_lba (entry_at sz i entries) \<le> ending_lba (entry_at sz index entries)) [0..<n]"

text \<open>Both writes at the start are made even if the first fails; the copy at the end is left out then.\<close>

definition grow_tables ::
  "disk_faults \<Rightarrow> int \<Rightarrow> u64 \<Rightarrow> GPTHeader \<Rightarrow> byte list \<Rightarrow> u64 \<Rightarrow> disk \<Rightarrow> boot_fault + (disk \<times> kernel_resize option)" where
  "grow_tables stops part_num sectors h entries start d =
     (let new_last = sectors - 34
      in case seal_header (h\<lparr>last_usable_lba := new_last, alternate_lba := sectors - 1,
                             partition_array_crc32 := crc32_gpt entries\<rparr>) of
           None \<Rightarrow> Inl ReadsPastHeader
         | Some h \<Rightarrow>
             (case pwrite stops 4 (unat (partition_entry_lba h * 512)) entries d of (w1, d) \<Rightarrow>
              case pwrite stops 5 512 (header_bytes h) d of (w2, d) \<Rightarrow>
                if \<not> w1 \<or> \<not> w2 then Inr (d, None)
                else case write_backup stops sectors h entries d of
                       None \<Rightarrow> Inl ReadsPastHeader
                     | Some d \<Rightarrow> Inr (write_mbr stops sectors d,
                                      Some (part_num, start * 512, (new_last - start + 1) * 512))))"

text \<open>The growing on an open disk: \<open>memory n\<close> is whether \<open>n\<close> bytes can be had.\<close>

definition grow_on_disk ::
  "(nat \<Rightarrow> bool) \<Rightarrow> disk_faults \<Rightarrow> int \<Rightarrow> disk \<Rightarrow> boot_fault + (disk \<times> kernel_resize option)" where
  "grow_on_disk memory stops part_num d =
     (let sectors = (of_nat (disk_size d) div 512 :: u64); index = nat (part_num - 1)
      in if stops 1 \<noteq> None \<or> disk_size d < 1048576 then Inr (d, None)
         else case pread stops 2 512 HEADER_BYTES d of
                None \<Rightarrow> Inr (d, None)
              | Some hb \<Rightarrow>
                  let h = parse_header hb; n = unat (num_partition_entries h); sz = unat (partition_entry_size h)
                  in if signature h \<noteq> EFI_PART then Inr (d, None)
                     else if index \<ge> n \<or> sz < 128 then Inr (d, None)
                     else if \<not> memory (n * sz) then Inl (NoMemory (n * sz))
                     else case pread stops 3 (unat (partition_entry_lba h * 512)) (n * sz) d of
                            None \<Rightarrow> Inr (d, None)
                          | Some entries \<Rightarrow>
                              let target = entry_at sz index entries
                              in if \<not> has_type target then Inr (d, None)
                                 else if \<not> is_last_partition sz n index entries then Inr (d, None)
                                 else if sectors - 34 \<le> ending_lba target \<or> sectors - 34 - ending_lba target < 4096
                                      then Inr (d, None)
                                 else grow_tables stops part_num sectors h
                                        (put_bytes (index * sz + 40) (le_bytes 8 (sectors - 34)) entries)
                                        (starting_lba target) d)"

section \<open>The machine at boot\<close>

datatype boot_action =
    KernelResize string int u64 u64
  | MountExt4 string
  | MountNoJournal string
  | RemountData
  | MakeFileSystem string
  | GrowFileSystem string u64
  | MountTmpfs string

text \<open>\<open>whole_disks\<close> are the disks that can be opened, by their device; \<open>done_at_boot\<close> is what was done.\<close>

record boot_state =
  whole_disks :: "string \<Rightarrow> disk option"
  done_at_boot :: "boot_action list"

text \<open>What a partition gives: whether it is there, what a read of its first 2048 bytes returns (\<open>None\<close>
  when it cannot be opened), the errors of the mounts, zero for success, whether it can be formatted and
  mounted after that, and its size with the block size and the blocks of the mounted file system.\<close>

record boot_env =
  is_there :: "string \<Rightarrow> bool"
  first_bytes :: "string \<Rightarrow> byte list option"
  mount_errno :: "string \<Rightarrow> nat"
  noload_mounts :: "string \<Rightarrow> bool"
  mkfs_found :: bool
  mkfs_succeeds :: "string \<Rightarrow> bool"
  mounts_formatted :: "string \<Rightarrow> bool"
  fs_sizes :: "string \<Rightarrow> (u64 \<times> u64 \<times> u64) option"
  data_opens :: bool
  has_memory :: "nat \<Rightarrow> bool"
  disk_errors :: "string \<Rightarrow> disk_faults"

definition EIO :: nat where "EIO = 5"

definition act :: "boot_action list \<Rightarrow> boot_state \<Rightarrow> boot_state" where
  "act as s = s\<lparr>done_at_boot := done_at_boot s @ as\<rparr>"

definition grow_gpt_partition :: "boot_env \<Rightarrow> string \<Rightarrow> boot_state \<Rightarrow> boot_fault + boot_state" where
  "grow_gpt_partition e dev s =
     (let disk_dev = disk_device_for dev; part_num = partition_number_from dev
      in if disk_dev = [] \<or> part_num < 1 then Inr s
         else case whole_disks s disk_dev of
                None \<Rightarrow> Inr s
              | Some d \<Rightarrow>
                  (case grow_on_disk (has_memory e) (disk_errors e disk_dev) part_num d of
                     Inl f \<Rightarrow> Inl f
                   | Inr (d, k) \<Rightarrow>
                       Inr (act (case k of None \<Rightarrow> [] | Some (n, a, b) \<Rightarrow> [KernelResize disk_dev n a b])
                              (s\<lparr>whole_disks := (whole_disks s)(disk_dev \<mapsto> d)\<rparr>))))"

text \<open>The file system is asked to grow when 1024 blocks can be had; it is never formatted for it.\<close>

definition grow_ext4_online :: "boot_env \<Rightarrow> string \<Rightarrow> boot_action list" where
  "grow_ext4_online e dev =
     (case fs_sizes e dev of
        None \<Rightarrow> []
      | Some (part_bytes, bsize, current) \<Rightarrow>
          if part_bytes = 0 \<or> bsize = 0 then []
          else if part_bytes div bsize \<le> current + 1024 \<or> \<not> data_opens e then []
          else [GrowFileSystem dev (part_bytes div bsize)])"

definition ext4_magic :: "byte list \<Rightarrow> bool" where
  "ext4_magic sb \<longleftrightarrow> le_word (bytes_at 1080 2 sb) = (0xEF53 :: u16)"

text \<open>Only a partition that was read and shows no magic is left out; one that cannot be read is tried.\<close>

definition refused_by_magic :: "boot_env \<Rightarrow> string \<Rightarrow> bool" where
  "refused_by_magic e dev \<longleftrightarrow>
     (case first_bytes e dev of None \<Rightarrow> False | Some sb \<Rightarrow> length sb \<ge> 1082 \<and> \<not> ext4_magic sb)"

definition format_data :: "boot_env \<Rightarrow> string \<Rightarrow> boot_state \<Rightarrow> bool \<times> boot_state" where
  "format_data e dev s =
     (if \<not> mkfs_found e then (False, s)
      else if mkfs_succeeds e dev \<and> mounts_formatted e dev then (True, act [MakeFileSystem dev, MountExt4 dev] s)
      else (False, act [MakeFileSystem dev] s))"

definition mount_data_partition :: "boot_env \<Rightarrow> string \<Rightarrow> bool \<Rightarrow> boot_state \<Rightarrow> bool \<times> boot_state" where
  "mount_data_partition e dev allow_format s =
     (if mount_errno e dev = 0 then (True, act (MountExt4 dev # grow_ext4_online e dev) s)
      else if mount_errno e dev = EIO \<and> noload_mounts e dev
      then (True, act ([MountNoJournal dev, RemountData] @ grow_ext4_online e dev) s)
      else if allow_format then format_data e dev s
      else (False, s))"

definition try_mount_data_partition ::
  "boot_env \<Rightarrow> string \<Rightarrow> bool \<Rightarrow> boot_state \<Rightarrow> boot_fault + (bool \<times> boot_state)" where
  "try_mount_data_partition e dev allow_format s =
     (if refused_by_magic e dev then Inr (False, s)
      else case grow_gpt_partition e dev s of
             Inl f \<Rightarrow> Inl f
           | Inr s \<Rightarrow> Inr (mount_data_partition e dev allow_format s))"

section \<open>The search\<close>

definition DATA_CANDIDATES :: "string list" where
  "DATA_CANDIDATES = [''/dev/vda5'', ''/dev/sda5'', ''/dev/sdb5'', ''/dev/sdc5'', ''/dev/nvme0n1p5'',
     ''/dev/vda4'', ''/dev/sda4'', ''/dev/sdb4'', ''/dev/sdc4'', ''/dev/nvme0n1p4'']"

text \<open>The entries of \<^verbatim>\<open>/sys/block\<close> in the order of the directory, each with the names in its own and
  whether they are partitions.\<close>

definition skipped_block :: "string \<Rightarrow> bool" where
  "skipped_block blk \<longleftrightarrow> take 1 blk = ''.'' \<or> starts_with ''loop'' blk \<or> starts_with ''ram'' blk \<or> starts_with ''dm-'' blk"

definition discover_partitions :: "(string \<times> (string \<times> bool) list option) list \<Rightarrow> string list" where
  "discover_partitions blocks =
     concat (map (\<lambda>(blk, names).
       if skipped_block blk then []
       else case names of None \<Rightarrow> []
         | Some ns \<Rightarrow> map (\<lambda>(p, _). ''/dev/'' @ p) (filter (\<lambda>(p, is_part). starts_with blk p \<and> is_part) ns)) blocks)"

fun try_partitions :: "boot_env \<Rightarrow> bool \<Rightarrow> string list \<Rightarrow> boot_state \<Rightarrow> boot_fault + (bool \<times> boot_state)" where
  "try_partitions e allow_format [] s = Inr (False, s)"
| "try_partitions e allow_format (dev # devs) s =
     (if \<not> is_there e dev then try_partitions e allow_format devs s
      else case try_mount_data_partition e dev allow_format s of
             Inl f \<Rightarrow> Inl f
           | Inr (True, s) \<Rightarrow> Inr (True, s)
           | Inr (False, s) \<Rightarrow> try_partitions e allow_format devs s)"

definition init_mount_data :: "boot_env \<Rightarrow> string list \<Rightarrow> boot_state \<Rightarrow> boot_fault + (bool \<times> boot_state)" where
  "init_mount_data e parts s =
     (case try_partitions e True DATA_CANDIDATES s of
        Inl f \<Rightarrow> Inl f
      | Inr (True, s) \<Rightarrow> Inr (True, s)
      | Inr (False, s) \<Rightarrow>
          (case try_partitions e False (filter (\<lambda>p. p \<notin> set DATA_CANDIDATES) parts) s of
             Inl f \<Rightarrow> Inl f
           | Inr (True, s) \<Rightarrow> Inr (True, s)
           | Inr (False, s) \<Rightarrow> Inr (False, act [MountTmpfs ''size=1G''] s)))"

section \<open>The EFI partition\<close>

definition ESP_CANDIDATES :: "string list" where
  "ESP_CANDIDATES = [''/dev/sda2'', ''/dev/vda2'', ''/dev/nvme0n1p2'']"

definition init_mount_esp :: "(string \<Rightarrow> bool) \<Rightarrow> (string \<Rightarrow> bool) \<Rightarrow> string option" where
  "init_mount_esp there mounts = find (\<lambda>p. there p \<and> mounts p) ESP_CANDIDATES"

end
