(* ===== verification/DataDiskFacts.thy ===== *)
theory DataDiskFacts
  imports DataDisk InstallerFacts
begin

text \<open>
  The lemmas and properties of the search for the partition with the data: what growing it writes, with and
  without errors, what it leaves alone, and which partitions can be formatted.
\<close>

unbundle bit_operations_syntax

section \<open>Growing without errors\<close>

text \<open>A disk of \<open>n\<close> sectors with a table in its usual place, whose partition with the index is the last one
  and has at least 4096 free sectors behind it.\<close>

definition growable :: "disk \<Rightarrow> nat \<Rightarrow> GPTHeader \<Rightarrow> byte list \<Rightarrow> nat \<Rightarrow> bool" where
  "growable d n h entries index \<longleftrightarrow>
     (let sz = unat (partition_entry_size h)
      in h = parse_header (disk_read 512 HEADER_BYTES d) \<and> signature h = EFI_PART \<and> header_size h = 92 \<and> my_lba h = 1
         \<and> partition_entry_lba h = 2 \<and> index < unat (num_partition_entries h) \<and> 128 \<le> sz
         \<and> unat (num_partition_entries h) * sz \<le> 32 * 512
         \<and> entries = disk_read 1024 (unat (num_partition_entries h) * sz) d
         \<and> has_type (entry_at sz index entries) \<and> is_last_partition sz (unat (num_partition_entries h)) index entries
         \<and> n = disk_size d div 512 \<and> 2048 \<le> n \<and> disk_size d < 2 ^ 63
         \<and> unat (ending_lba (entry_at sz index entries)) + 4096 \<le> n - 34)"

definition grown_entries :: "nat \<Rightarrow> GPTHeader \<Rightarrow> nat \<Rightarrow> byte list \<Rightarrow> byte list" where
  "grown_entries n h index entries =
     put_bytes (index * unat (partition_entry_size h) + 40) (le_bytes 8 (of_nat (n - 34) :: u64)) entries"

lemma growable_bounds:
  assumes "growable d n h entries index"
  shows "index * unat (partition_entry_size h) + 128 \<le> length entries" "length entries \<le> 16384"
    "length (grown_entries n h index entries) = length entries" "tables_fit d n h (grown_entries n h index entries)"
    "length entries = unat (num_partition_entries h) * unat (partition_entry_size h)"
proof -
  let ?n = "unat (num_partition_entries h)" and ?s = "unat (partition_entry_size h)"
  have a: "index < ?n" "128 \<le> ?s" "?n * ?s \<le> 32 * 512" "entries = disk_read 1024 (?n * ?s) d" "framed h"
    using assms framed_parse [of "disk_read 512 HEADER_BYTES d"] by (auto simp: growable_def Let_def)
  show l: "length entries = ?n * ?s" using a(4) by simp
  have "(index + 1) * ?s \<le> ?n * ?s" using a(1) by (intro mult_right_mono) simp_all
  with a(2) l show g: "index * ?s + 128 \<le> length entries" by simp
  show l2: "length entries \<le> 16384" using a(3) l by simp
  show l3: "length (grown_entries n h index entries) = length entries" using g by (simp add: grown_entries_def)
  show "tables_fit d n h (grown_entries n h index entries)"
  proof -
    have "header_size h = 92" "partition_entry_lba h = 2" "n = disk_size d div 512" "2048 \<le> n" "disk_size d < 2 ^ 63"
      using assms by (auto simp: growable_def Let_def)
    with a(5) l2 l3 show ?thesis by (simp add: tables_fit_def)
  qed
qed

lemma grown_entry_end:
  assumes "growable d n h entries index"
  shows "ending_lba (entry_at (unat (partition_entry_size h)) index (grown_entries n h index entries)) = of_nat (n - 34)"
    "starting_lba (entry_at (unat (partition_entry_size h)) index (grown_entries n h index entries))
       = starting_lba (entry_at (unat (partition_entry_size h)) index entries)"
  using growable_bounds(1) [OF assms]
  by (simp_all add: ending_lba_def starting_lba_def entry_at_def bytes_at_drop grown_entries_def bytes_at_put_same bytes_at_put_other)

lemma header_of_rewritten:
  "tables_fit d n h e \<Longrightarrow> pread no_faults 2 512 HEADER_BYTES (rewritten d n h e) = Some (header_bytes (new_primary n h e))"
  using rewritten_reads(1) [of d n h e] tables_fitD [of d n h e] by (simp add: pread_ok HEADER_BYTES_def)

lemma grow_result:
  assumes "growable d n h entries index" "memory (length entries)"
  defines "e \<equiv> grown_entries n h index entries"
  shows "\<exists>k. grow_on_disk memory no_faults (int index + 1) d = Inr (rewritten d n h e, Some k)"
    "grow_on_disk memory no_faults (int index + 1) (rewritten d n h e) = Inr (rewritten d n h e, None)"
proof -
  let ?n = "unat (num_partition_entries h)" and ?s = "unat (partition_entry_size h)"
  note b = growable_bounds [OF assms(1)] and t = tables_fitD [OF growable_bounds(4) [OF assms(1)]]
  have a: "h = parse_header (disk_read 512 HEADER_BYTES d)" "signature h = EFI_PART" "index < ?n" "128 \<le> ?s"
    "entries = disk_read 1024 (?n * ?s) d" "has_type (entry_at ?s index entries)" "is_last_partition ?s ?n index entries"
    "unat (ending_lba (entry_at ?s index entries)) + 4096 \<le> n - 34"
    using assms(1) by (auto simp: growable_def Let_def)
  note s = sector_numbers [OF t(5, 6, 7)]
  have last: "(of_nat (disk_size d) div 512 :: u64) - 34 = of_nat (n - 34)" "(of_nat n :: u64) - 34 = of_nat (n - 34)"
    using s(2) s(3) [of 34] by simp_all
  have far: "ending_lba (entry_at ?s index entries) < of_nat (n - 34)"
    "\<not> of_nat (n - 34) - ending_lba (entry_at ?s index entries) < 4096"
  proof -
    show l: "ending_lba (entry_at ?s index entries) < of_nat (n - 34)"
      using a(8) s(5) [of 34] by (simp add: word_less_nat_alt)
    then have "unat (of_nat (n - 34) - ending_lba (entry_at ?s index entries)) = n - 34 - unat (ending_lba (entry_at ?s index entries))"
      using s(5) [of 34] by (simp add: unat_sub)
    with a(8) show "\<not> of_nat (n - 34) - ending_lba (entry_at ?s index entries) < 4096"
      by (simp add: word_less_nat_alt)
  qed
  then have fars: "(of_nat (n - 34) \<le> ending_lba (entry_at ?s index entries)) = False"
    "(of_nat (n - 34) - ending_lba (entry_at ?s index entries) < 4096) = False" by simp_all
  have hdr: "pread no_faults 2 512 HEADER_BYTES d = Some (disk_read 512 HEADER_BYTES d)"
    using t(6, 8) by (intro pread_ok) (simp add: HEADER_BYTES_def)
  have ent: "pread no_faults 3 1024 (length entries) d = Some entries"
    using b(2, 5) t(6, 8) a(5) by (subst pread_ok) simp_all
  have large: "\<not> disk_size d < 1048576" using t(6, 8) by simp
  have grow: "grow_on_disk memory no_faults (int index + 1) d =
      grow_tables no_faults (int index + 1) (of_nat n) h e (starting_lba (entry_at ?s index entries)) d"
    using a(2, 3, 4, 6, 7) t(3) assms(2) large
    by (simp add: grow_on_disk_def Let_def hdr a(1) [symmetric] ent b(5) [symmetric] last s(2) e_def grown_entries_def fars)
  note fit = b(4) [folded e_def]
  obtain d4 where d4: "write_backup no_faults (of_nat n) (new_primary n h e) e
        (disk_write 512 (header_bytes (new_primary n h e)) (disk_write 1024 e d)) = Some d4"
      "write_mbr no_faults (of_nat n) d4 = rewritten d n h e"
    using rewritten_result(3) [OF fit] by blast
  have "grow_tables no_faults (int index + 1) (of_nat n) h e st d = Inr (rewritten d n h e, Some (int index + 1, st * 512, (of_nat (n - 34) - st + 1) * 512))" for st
    using s(3) [of 34] s(3) [of 1] d4 rewritten_result(1, 2) [OF fit] sealed_primary [OF fit]
    by (simp add: grow_tables_def Let_def del: One_nat_def)
  with grow show "\<exists>k. grow_on_disk memory no_faults (int index + 1) d = Inr (rewritten d n h e, Some k)" by simp
  have len: "length e = length entries" using b(3) by (simp add: e_def)
  have ent2: "pread no_faults 3 1024 (length entries) (rewritten d n h e) = Some e"
    using rewritten_reads(2) [OF fit] b(2) t(6, 8) len by (subst pread_ok) simp_all
  show "grow_on_disk memory no_faults (int index + 1) (rewritten d n h e) = Inr (rewritten d n h e, None)"
    using a(2, 3, 4) t(1, 3) assms(2) large grown_entry_end(1) [OF assms(1), folded e_def] header_of_rewritten [OF fit]
    by (simp add: grow_on_disk_def Let_def parse_header_bytes ent2 b(5) [symmetric] last)
qed


text \<open>
  C12: when the data partition is the last one and has room behind it, the boot makes it reach to the end
  of the disk: both copies of the table are valid and point at each other, only the end of that
  entry has changed, no byte between the tables is touched, and the next boot finds nothing to do.
\<close>

theorem boot_growth_is_valid:
  assumes "growable d n h entries index" "memory (length entries)"
  shows "\<exists>d' k p b e. grow_on_disk memory no_faults (int index + 1) d = Inr (d', Some k)
    \<and> gpt_at d' 1 p e \<and> gpt_at d' (n - 1) b e \<and> alternate_lba p = my_lba b \<and> alternate_lba b = my_lba p
    \<and> last_usable_lba p = of_nat (n - 34) \<and> last_usable_lba b = of_nat (n - 34)
    \<and> e = put_bytes (index * unat (partition_entry_size h) + 40) (le_bytes 8 (of_nat (n - 34) :: u64)) entries
    \<and> (\<forall>i \<in> {34 * 512..<(n - 33) * 512}. bytes_of d' i = bytes_of d i)
    \<and> grow_on_disk memory no_faults (int index + 1) d' = Inr (d', None)"
proof -
  let ?e = "grown_entries n h index entries"
  note b = growable_bounds [OF assms(1)]
  have i: "signature h = EFI_PART" "my_lba h = 1" "length ?e = unat (num_partition_entries h) * unat (partition_entry_size h)"
    using assms(1) b(3, 5) by (auto simp: growable_def Let_def)
  obtain k where k: "grow_on_disk memory no_faults (int index + 1) d = Inr (rewritten d n h ?e, Some k)"
    using grow_result(1) [of d n h entries index memory] assms by blast
  have far: "\<forall>i \<in> {34 * 512..<(n - 33) * 512}. bytes_of (rewritten d n h ?e) i = bytes_of d i"
    using rewritten_reads(5) [OF b(4)] by simp
  show ?thesis
    using k rewritten_gpt [OF b(4) i] i(2) far grow_result(2) [of d n h entries index memory] assms
    by - (rule exI [of _ "rewritten d n h ?e"], rule exI [of _ k], rule exI [of _ "new_primary n h ?e"],
      rule exI [of _ "new_backup n h ?e"], rule exI [of _ ?e], simp add: grown_entries_def)
qed

lemma demo_growable: "growable demo_disk 1048576 demo_header (disk_read 1024 640 demo_disk) 4"
proof -
  have l: "length (header_bytes demo_header) = 92" using length_header_bytes [OF demo_framed] by (simp add: HEADER_BYTES_def)
  have h: "disk_read 512 HEADER_BYTES demo_disk = header_bytes demo_header"
    by (simp add: demo_disk_def HEADER_BYTES_def read_other read_same l)
  have z: "le_word (replicate 8 0) = (0 :: u64)" by (simp add: eval_nat_numeral)
  have ends: "ending_lba (entry_at 128 i (disk_read 1024 640 demo_disk)) = 0" if "i < 5" for i
  proof -
    have "disk_read (1024 + (i * 128 + 40)) 8 demo_disk = replicate 8 0"
    proof (rule nth_equalityI)
      fix j assume "j < length (disk_read (1024 + (i * 128 + 40)) 8 demo_disk)"
      then have "j < 8" "i * 128 + j \<noteq> 472" using that by (simp, simp) presburger
      then show "disk_read (1024 + (i * 128 + 40)) 8 demo_disk ! j = replicate 8 0 ! j"
        using length_header_bytes [OF demo_framed] by (auto simp: demo_disk_def disk_read_def disk_write_def HEADER_BYTES_def)
    qed simp
    with that z show ?thesis by (simp add: ending_lba_def entry_at_def bytes_at_drop bytes_at_read)
  qed
  have "bytes_of demo_disk 1536 = 1" by (simp add: demo_disk_def disk_write_def)
  then have "has_type (entry_at 128 4 (disk_read 1024 640 demo_disk))"
    by (simp add: has_type_def entry_at_def bytes_at_drop bytes_at_read) (simp add: disk_read_def upt_rec)
  with ends show ?thesis
    unfolding growable_def h parse_header_bytes [OF demo_framed] is_last_partition_def list_all_iff
    by (simp add: demo_header_def demo_disk_def Let_def)
qed

theorem boot_growth_is_valid_witness:
  "\<exists>d' k. grow_on_disk (\<lambda>_. True) no_faults 5 demo_disk = Inr (d', Some k) \<and> grow_on_disk (\<lambda>_. True) no_faults 5 d' = Inr (d', None)"
  using boot_growth_is_valid [OF demo_growable, of "\<lambda>_. True"] by auto

section \<open>Growing with errors\<close>

text \<open>A table whose entries lie between its header and sector 34 and fit into 32 sectors; and the bytes that the
  growing leaves alone on a disk of that size: the place and the form of the entries in the header, and everything
  between the tables.\<close>

definition within_tables :: "disk \<Rightarrow> bool" where
  "within_tables d \<longleftrightarrow>
     (let h = parse_header (disk_read 512 HEADER_BYTES d);
          len = unat (num_partition_entries h) * unat (partition_entry_size h)
      in 2 \<le> unat (partition_entry_lba h) \<and> unat (partition_entry_lba h) * 512 + len \<le> 34 * 512 \<and> len \<le> 32 * 512
         \<and> disk_size d < 2 ^ 63)"

definition spared :: "nat \<Rightarrow> nat \<Rightarrow> bool" where
  "spared sz i \<longleftrightarrow> (584 \<le> i \<and> i < 600) \<or> (34 * 512 \<le> i \<and> i < (sz div 512 - 33) * 512)"

definition kept :: "disk \<Rightarrow> disk \<Rightarrow> bool" where
  "kept d d' \<longleftrightarrow> disk_size d' = disk_size d \<and> (\<forall>i. spared (disk_size d) i \<longrightarrow> bytes_of d' i = bytes_of d i)"

lemma disk_read_nth: "k < n \<Longrightarrow> disk_read off n d ! k = bytes_of d (off + k)"
  by (simp add: disk_read_def)

lemma kept_refl [simp]: "kept d d" by (simp add: kept_def)

lemma kept_trans: "kept d d' \<Longrightarrow> kept d' d'' \<Longrightarrow> kept d d''" by (simp add: kept_def)

lemma kept_pwrite:
  assumes "\<And>k. k < length bs \<Longrightarrow> spared (disk_size d) (off + k) \<Longrightarrow> bs ! k = bytes_of d (off + k)"
  shows "kept d (snd (pwrite stops c off bs d))"
proof -
  have w: "kept d (disk_write off (take n bs) d)" for n
    using assms by (auto simp: kept_def disk_write_def le_iff_add)
  show ?thesis by (simp add: pwrite_def Let_def w)
qed

lemma kept_outside:
  "(\<And>i. off \<le> i \<Longrightarrow> i < off + length bs \<Longrightarrow> \<not> spared (disk_size d) i) \<Longrightarrow> kept d (snd (pwrite stops c off bs d))"
  by (rule kept_pwrite) auto

lemma geometry_bytes:
  assumes "framed h"
  shows "k < 16 \<Longrightarrow> header_bytes h ! (72 + k)
    = (le_bytes 8 (partition_entry_lba h) @ le_bytes 4 (num_partition_entries h) @ le_bytes 4 (partition_entry_size h)) ! k"
proof -
  assume k: "k < 16"
  define p where "p = signature h @ le_bytes 4 (revision h) @ le_bytes 4 (header_size h) @ le_bytes 4 (header_crc32 h)
     @ le_bytes 4 (reserved h) @ le_bytes 8 (my_lba h) @ le_bytes 8 (alternate_lba h)
     @ le_bytes 8 (first_usable_lba h) @ le_bytes 8 (last_usable_lba h) @ disk_guid h"
  define g where "g = le_bytes 8 (partition_entry_lba h) @ le_bytes 4 (num_partition_entries h) @ le_bytes 4 (partition_entry_size h)"
  have "header_bytes h = p @ g @ le_bytes 4 (partition_array_crc32 h)" by (simp add: header_bytes_def p_def g_def)
  moreover have "length p = 72" "length g = 16" using assms by (simp_all add: p_def g_def framed_def)
  ultimately show ?thesis using k by (simp add: nth_append g_def [symmetric])
qed

lemma within_tables_kept: "kept d d' \<Longrightarrow> within_tables d \<Longrightarrow> within_tables d'"
proof -
  assume k: "kept d d'" and w: "within_tables d"
  have r: "disk_read i n d' = disk_read i n d" if "584 \<le> i" "i + n \<le> 600" for i n
    using k that by (auto simp: disk_read_def kept_def spared_def)
  have b: "bytes_at i n (disk_read 512 HEADER_BYTES d') = bytes_at i n (disk_read 512 HEADER_BYTES d)" if "72 \<le> i" "i + n \<le> 88" for i n
    using that r [of "512 + i" n] by (simp add: bytes_at_read HEADER_BYTES_def)
  show "within_tables d'"
    using w k by (simp add: within_tables_def parse_header_def Let_def b kept_def)
qed

lemma seal_header_geometry:
  "seal_header h = Some h' \<Longrightarrow> partition_entry_lba h' = partition_entry_lba h \<and> num_partition_entries h' = num_partition_entries h
     \<and> partition_entry_size h' = partition_entry_size h \<and> framed h' = framed h"
  by (auto simp: seal_header_def Let_def split: if_splits)

lemma kept_mbr: "1048576 \<le> disk_size d \<Longrightarrow> kept d (write_mbr stops sectors d)"
proof (cases "pread stops 8 0 512 d")
  case (Some mbr)
  then have "length (update_mbr sectors mbr) = 512" by (auto simp: pread_def split: if_splits)
  with Some show ?thesis by (auto simp: write_mbr_def spared_def intro!: kept_outside)
qed (simp add: write_mbr_def)

lemma kept_backup:
  assumes "write_backup stops (of_nat n) h entries d = Some d'" "framed h" "length entries \<le> 32 * 512"
    "n = disk_size d div 512" "2048 \<le> n" "disk_size d < 2 ^ 63"
  shows "kept d d'"
proof -
  note s = sector_numbers [OF assms(4-6)]
  let ?d = "snd (pwrite stops 6 ((n - 33) * 512) entries d)"
  have a: "unat (((of_nat n :: u64) - 33) * 512) = (n - 33) * 512" "unat (((of_nat n :: u64) - 1) * 512) = (n - 1) * 512"
    using s(3) [of 33] s(3) [of 1] s(4) [of 33] s(4) [of 1] by simp_all
  obtain b where b: "seal_header (h\<lparr>my_lba := of_nat n - 1, alternate_lba := 1, partition_entry_lba := of_nat n - 33\<rparr>) = Some b"
    and d': "d' = snd (pwrite stops 7 ((n - 1) * 512) (header_bytes b) ?d)"
    using assms(1) unfolding write_backup_def Let_def a by (rule map_option_eq_Some [THEN iffD1, elim_format]) blast
  have l: "length (header_bytes b) = 92"
    using seal_header_geometry [OF b] assms(2) length_header_bytes [of b] by (simp add: HEADER_BYTES_def)
  have k1: "kept d ?d" using assms(4, 5) by (intro kept_outside) (auto simp: spared_def)
  have "kept ?d d'" unfolding d'
    using assms(4, 5) k1 by (intro kept_outside) (auto simp: spared_def kept_def)
  with k1 show ?thesis by (rule kept_trans)
qed

lemma kept_grow_tables:
  assumes "grow_tables stops pn (of_nat n) h entries st d = Inr (d', k)"
    "h = parse_header (disk_read 512 HEADER_BYTES d)" "within_tables d"
    "length entries = unat (num_partition_entries h) * unat (partition_entry_size h)"
    "n = disk_size d div 512" "2048 \<le> n"
  shows "kept d d'"
proof -
  obtain h' where h': "seal_header (h\<lparr>last_usable_lba := of_nat n - 34, alternate_lba := of_nat n - 1,
      partition_array_crc32 := crc32_gpt entries\<rparr>) = Some h'"
    using assms(1) by (auto simp: grow_tables_def Let_def split: option.splits)
  have f: "framed h" using framed_parse [of "disk_read 512 HEADER_BYTES d"] by (simp add: assms(2))
  note g = seal_header_geometry [OF h', simplified]
  have w: "2 \<le> unat (partition_entry_lba h)" "unat (partition_entry_lba h) * 512 + length entries \<le> 34 * 512" "length entries \<le> 32 * 512"
    "disk_size d < 2 ^ 63" using assms(2-4) by (auto simp: within_tables_def Let_def)
  have lba: "unat (partition_entry_lba h * 512) = unat (partition_entry_lba h) * 512"
    using w(2) unat_mult_lem [of "partition_entry_lba h" 512] by simp
  let ?d1 = "snd (pwrite stops 4 (unat (partition_entry_lba h) * 512) entries d)"
  let ?d2 = "snd (pwrite stops 5 512 (header_bytes h') ?d1)"
  have k1: "kept d ?d1" using w assms(5, 6) by (intro kept_outside) (auto simp: spared_def)
  have k2: "kept ?d1 ?d2"
  proof (rule kept_pwrite)
    fix k assume k: "k < length (header_bytes h')" "spared (disk_size ?d1) (512 + k)"
    then have "k < 92" using g f length_header_bytes [of h'] by (simp add: HEADER_BYTES_def)
    with k(2) have k': "72 \<le> k" "k < 88" by (auto simp: spared_def)
    define j where "j = k - 72"
    with k' have j: "k = 72 + j" "j < 16" by simp_all
    have "header_bytes h' ! k = header_bytes h ! k" using g f j geometry_bytes [of h' j] geometry_bytes [of h j] by simp
    also have "\<dots> = bytes_of d (512 + k)"
      using header_bytes_parse [of "disk_read 512 HEADER_BYTES d"] k' by (simp add: assms(2) disk_read_nth HEADER_BYTES_def)
    also have "\<dots> = bytes_of ?d1 (512 + k)" using k1 k' by (simp add: kept_def spared_def)
    finally show "header_bytes h' ! k = bytes_of ?d1 (512 + k)" .
  qed
  have k12: "kept d ?d2" using k1 k2 by (rule kept_trans)
  show ?thesis
  proof (cases "fst (pwrite stops 4 (unat (partition_entry_lba h) * 512) entries d) \<and> fst (pwrite stops 5 512 (header_bytes h') ?d1)")
    case True
    then obtain d3 where d3: "write_backup stops (of_nat n) h' entries ?d2 = Some d3" "d' = write_mbr stops (of_nat n) d3"
      using assms(1) g h' by (auto simp: grow_tables_def Let_def lba split_beta split: option.splits)
    have sz: "disk_size ?d2 = disk_size d" using k12 by (simp add: kept_def)
    have k3: "kept ?d2 d3"
      using kept_backup [OF d3(1)] g f w(3, 4) assms(5, 6) sz by simp
    moreover have "kept d3 d'" unfolding d3(2)
      by (rule kept_mbr) (use k3 sz assms(5, 6) in \<open>simp add: kept_def\<close>)
    ultimately show ?thesis using k12 by (blast intro: kept_trans)
  next
    case False
    then have "d' = ?d2" using assms(1) g h' by (auto simp: grow_tables_def Let_def lba split_beta split: option.splits if_splits)
    with k12 show ?thesis by simp
  qed
qed

lemma kept_grow_on_disk:
  assumes "grow_on_disk memory stops pn d = Inr (d', k)" "within_tables d"
  shows "kept d d'"
proof (cases "d' = d")
  case False
  let ?h = "parse_header (disk_read 512 HEADER_BYTES d)"
  let ?len = "unat (num_partition_entries ?h) * unat (partition_entry_size ?h)"
  let ?n = "disk_size d div 512"
  have big: "1048576 \<le> disk_size d" and hd: "pread stops 2 512 HEADER_BYTES d = Some (disk_read 512 HEADER_BYTES d)"
    using assms(1) False by (auto simp: grow_on_disk_def Let_def pread_def split: if_splits)
  have w: "disk_size d < 2 ^ 63" using assms(2) by (simp add: within_tables_def Let_def)
  have n: "2048 \<le> ?n" using big by simp
  note s = sector_numbers [OF refl n w]
  obtain e st where e: "length e = ?len" "grow_tables stops pn (of_nat ?n) ?h e st d = Inr (d', k)"
  proof -
    let ?i = "nat (pn - 1)" and ?sz = "unat (partition_entry_size ?h)"
    let ?old = "disk_read (unat (partition_entry_lba ?h * 512)) ?len d"
    let ?new = "put_bytes (?i * ?sz + 40) (le_bytes 8 (of_nat (disk_size d) div 512 - 34 :: u64)) ?old"
    have a: "?i < unat (num_partition_entries ?h)" "128 \<le> ?sz"
      and g: "grow_tables stops pn (of_nat (disk_size d) div 512) ?h ?new (starting_lba (entry_at ?sz ?i ?old)) d = Inr (d', k)"
      using assms(1) False unfolding grow_on_disk_def hd
      by (auto simp: Let_def pread_def split: if_splits)
    have "(?i + 1) * ?sz \<le> unat (num_partition_entries ?h) * ?sz" using a(1) by (intro mult_right_mono) simp_all
    with a(2) have "length ?new = ?len" by simp
    with g that show thesis by (simp only: s(2))
  qed
  show ?thesis by (rule kept_grow_tables [OF e(2) refl assms(2) e(1) refl n])
qed simp

definition disks_kept :: "boot_state \<Rightarrow> boot_state \<Rightarrow> bool" where
  "disks_kept s s' \<longleftrightarrow>
     (\<forall>dev d. whole_disks s dev = Some d \<and> within_tables d \<longrightarrow> (\<exists>d'. whole_disks s' dev = Some d' \<and> kept d d'))"

lemma disks_kept_refl [simp]: "disks_kept s s" "disks_kept s (act as s)"
  by (auto simp: disks_kept_def act_def)

lemma disks_kept_trans:
  assumes "disks_kept s s'" "disks_kept s' s''" shows "disks_kept s s''"
  unfolding disks_kept_def
proof (intro allI impI)
  fix dev d assume a: "whole_disks s dev = Some d \<and> within_tables d"
  then obtain d' where d': "whole_disks s' dev = Some d'" "kept d d'" using assms(1) by (auto simp: disks_kept_def)
  then obtain d'' where "whole_disks s'' dev = Some d''" "kept d' d''"
    using assms(2) within_tables_kept [OF d'(2)] a unfolding disks_kept_def by blast
  then show "\<exists>d'. whole_disks s'' dev = Some d' \<and> kept d d'" using d'(2) kept_trans by blast
qed

lemma disks_kept_grow: "grow_gpt_partition e dev s = Inr s' \<Longrightarrow> disks_kept s s'"
  using kept_grow_on_disk
  by (fastforce simp: grow_gpt_partition_def disks_kept_def act_def Let_def split: if_splits option.splits sum.splits prod.splits)

lemma disks_kept_mount: "mount_data_partition e dev allow s = (r, s') \<Longrightarrow> disks_kept s s'"
  by (auto simp: mount_data_partition_def format_data_def split: if_splits)

lemma disks_kept_try: "try_mount_data_partition e dev allow s = Inr (r, s') \<Longrightarrow> disks_kept s s'"
  by (auto simp: try_mount_data_partition_def split: if_splits sum.splits dest!: disks_kept_grow disks_kept_mount intro: disks_kept_trans)

lemma disks_kept_partitions: "try_partitions e allow devs s = Inr (r, s') \<Longrightarrow> disks_kept s s'"
proof (induction devs arbitrary: s)
  case (Cons dev devs)
  then show ?case
    by (auto split: if_splits sum.splits prod.splits bool.splits dest!: disks_kept_try intro: disks_kept_trans)
qed simp


definition demo_boot :: boot_env where
  "demo_boot = \<lparr>is_there = (\<lambda>p. p = ''/dev/sda5'' \<or> p = ''/dev/sdz5''),
     first_bytes = (\<lambda>p. Some (put_bytes 1080 (le_bytes 2 (0xEF53 :: u16)) (replicate 2048 0))), mount_errno = (\<lambda>p. if p = ''/dev/sda5'' then 22 else 0),
     noload_mounts = (\<lambda>_. False), mkfs_found = True, mkfs_succeeds = (\<lambda>_. True), mounts_formatted = (\<lambda>_. True),
     fs_sizes = (\<lambda>_. None), data_opens = True, has_memory = (\<lambda>_. True), disk_errors = (\<lambda>_. no_faults)\<rparr>"

lemma demo_magic: "\<not> refused_by_magic demo_boot dev"
  by (simp add: refused_by_magic_def demo_boot_def ext4_magic_def bytes_at_put_same)

lemma names_of_demo:
  "disk_device_for ''/dev/sda5'' = ''/dev/sda''" "partition_number_from ''/dev/sda5'' = 5"
  "disk_device_for ''/dev/sdz5'' = ''/dev/sdz''" "partition_number_from ''/dev/sdz5'' = 5"
  by code_simp+

lemma demo_boot_fields [simp]:
  "is_there demo_boot p \<longleftrightarrow> p = ''/dev/sda5'' \<or> p = ''/dev/sdz5''" "mkfs_found demo_boot" "mkfs_succeeds demo_boot p"
  "mounts_formatted demo_boot p" "mount_errno demo_boot p = (if p = ''/dev/sda5'' then 22 else 0)" "has_memory demo_boot = (\<lambda>_. True)"
  "disk_errors demo_boot p = no_faults"
  by (simp_all add: demo_boot_def)

text \<open>The first candidate that is there is formatted, because it cannot be mounted.\<close>

lemma demo_mounts:
  assumes "grow_gpt_partition demo_boot ''/dev/sda5'' s = Inr s1"
  shows "init_mount_data demo_boot [] s = Inr (True, act [MakeFileSystem ''/dev/sda5'', MountExt4 ''/dev/sda5''] s1)"
  using assms demo_magic
  by (simp add: init_mount_data_def DATA_CANDIDATES_def try_mount_data_partition_def mount_data_partition_def format_data_def EIO_def)


section \<open>What is formatted\<close>

lemma formats_grow: "grow_gpt_partition e dev s = Inr s' \<Longrightarrow> MakeFileSystem p \<in> set (done_at_boot s') \<Longrightarrow> MakeFileSystem p \<in> set (done_at_boot s)"
  by (auto simp: grow_gpt_partition_def act_def Let_def split: if_splits option.splits sum.splits prod.splits)

lemma formats_mount:
  "mount_data_partition e dev allow s = (r, s') \<Longrightarrow> MakeFileSystem p \<in> set (done_at_boot s') \<Longrightarrow>
     MakeFileSystem p \<in> set (done_at_boot s)
     \<or> (allow \<and> p = dev \<and> mount_errno e dev \<noteq> 0 \<and> (mount_errno e dev = EIO \<longrightarrow> \<not> noload_mounts e dev))"
  by (auto simp: mount_data_partition_def format_data_def grow_ext4_online_def act_def split: if_splits option.splits prod.splits)

lemma formats_try:
  "try_mount_data_partition e dev allow s = Inr (r, s') \<Longrightarrow> MakeFileSystem p \<in> set (done_at_boot s') \<Longrightarrow>
     MakeFileSystem p \<in> set (done_at_boot s)
     \<or> (allow \<and> p = dev \<and> \<not> refused_by_magic e dev \<and> mount_errno e dev \<noteq> 0
        \<and> (mount_errno e dev = EIO \<longrightarrow> \<not> noload_mounts e dev))"
  by (auto simp: try_mount_data_partition_def split: if_splits sum.splits dest!: formats_mount dest: formats_grow)

lemma formats_partitions:
  "try_partitions e allow devs s = Inr (r, s') \<Longrightarrow> MakeFileSystem p \<in> set (done_at_boot s') \<Longrightarrow>
     MakeFileSystem p \<in> set (done_at_boot s)
     \<or> (allow \<and> p \<in> set devs \<and> is_there e p \<and> \<not> refused_by_magic e p \<and> mount_errno e p \<noteq> 0
        \<and> (mount_errno e p = EIO \<longrightarrow> \<not> noload_mounts e p))"
proof (induction devs arbitrary: s)
  case (Cons dev devs)
  show ?case
  proof (cases "is_there e dev")
    case True
    then obtain b s1 where s1: "try_mount_data_partition e dev allow s = Inr (b, s1)"
      using Cons.prems(1) by (auto split: sum.splits)
    show ?thesis
    proof (cases b)
      case True
      with s1 Cons.prems \<open>is_there e dev\<close> show ?thesis by (auto dest: formats_try)
    next
      case False
      with s1 Cons.prems \<open>is_there e dev\<close> have "try_partitions e allow devs s1 = Inr (r, s')" by simp
      from Cons.IH [OF this Cons.prems(2)] formats_try [OF s1] \<open>is_there e dev\<close> show ?thesis by auto
    qed
  qed (use Cons in auto)
qed simp

text \<open>
  C11: the boot formats a partition only if it is one of the ten names kept for the data, it is there, its first
  bytes are either not readable or carry the magic of the file system, and it could be mounted
  neither with nor without its journal. A partition that is only found by the scan is never formatted.
\<close>

theorem only_data_slots_are_formatted:
  assumes "init_mount_data e parts s = Inr (r, s')" "done_at_boot s = []" "MakeFileSystem p \<in> set (done_at_boot s')"
  shows "p \<in> set DATA_CANDIDATES \<and> is_there e p \<and> \<not> refused_by_magic e p \<and> mount_errno e p \<noteq> 0
    \<and> (mount_errno e p = EIO \<longrightarrow> \<not> noload_mounts e p)"
proof -
  obtain b s1 where s1: "try_partitions e True DATA_CANDIDATES s = Inr (b, s1)"
    using assms(1) by (auto simp: init_mount_data_def split: sum.splits)
  have found: "MakeFileSystem p \<in> set (done_at_boot s1)"
    using assms(1, 3) s1
    by (auto simp: init_mount_data_def act_def split: sum.splits prod.splits bool.splits dest: formats_partitions)
  show ?thesis using formats_partitions [OF s1 found] assms(2) by simp
qed

theorem only_data_slots_are_formatted_witness:
  "\<exists>s'. init_mount_data demo_boot [] \<lparr>whole_disks = Map.empty, done_at_boot = []\<rparr> = Inr (True, s')
     \<and> MakeFileSystem ''/dev/sda5'' \<in> set (done_at_boot s') \<and> mount_errno demo_boot ''/dev/sda5'' \<noteq> 0"
proof -
  have g: "grow_gpt_partition demo_boot ''/dev/sda5'' \<lparr>whole_disks = Map.empty, done_at_boot = []\<rparr> = Inr \<lparr>whole_disks = Map.empty, done_at_boot = []\<rparr>"
    by (simp add: grow_gpt_partition_def names_of_demo)
  from only_data_slots_are_formatted [OF demo_mounts [OF g], of "''/dev/sda5''"] demo_mounts [OF g]
  show ?thesis by (simp add: act_def)
qed


end
