(* ===== verification/Startup.thy ===== *)
theory Startup
  imports DataDisk NetStart
begin

text \<open>
  The start of the machine in \<^verbatim>\<open>main.cpp\<close> and the parts of \<^verbatim>\<open>init.cpp\<close> around it: the boot mode, the host
  name, the pivot of the live system, the network as it was saved, the modules and services, the
  models that are linked and the one that is selected. Definitions only; the lemmas are in
  StartupFacts. What files, mounts and programs give is an argument, and what is done is a list of
  actions.
\<close>

unbundle bit_operations_syntax

section \<open>Mode, name and settings\<close>

text \<open>From the first line of \<^verbatim>\<open>/proc/cmdline\<close>, and of the file with the name.\<close>

definition init_parse_boot_mode :: "string option \<Rightarrow> string" where
  "init_parse_boot_mode line =
     (case line of
        None \<Rightarrow> ''server''
      | Some l \<Rightarrow> if contains_sub ''llamaste.mode=live'' l then ''live''
                  else if contains_sub ''llamaste.mode=desktop'' l then ''desktop'' else ''server'')"

definition init_set_hostname :: "string \<Rightarrow> string option \<Rightarrow> string" where
  "init_set_hostname default_name saved =
     (case saved of None \<Rightarrow> default_name | Some s \<Rightarrow> if s = [] then default_name else s)"

definition read_config_main :: "string option \<Rightarrow> string" where
  "read_config_main txt_of =
     (case txt_of of
        None \<Rightarrow> []
      | Some s \<Rightarrow> rev (dropWhile (\<lambda>c. c = NEWL \<or> c = CHR 0x0D \<or> c = CHR '' '') (rev (take 511 s))))"

section \<open>The pivot of the live system\<close>

text \<open>The calls in their order, each with whether its failure ends the pivot.\<close>

datatype pivot_call =
    MountAs string string
  | FreeLoop
  | OpenImage
  | OpenLoop
  | AttachImage
  | BindTo string string
  | MakePrivate
  | EnterRoot
  | MoveRoot
  | Reexec

definition pivot_calls :: "(pivot_call \<times> bool) list" where
  "pivot_calls =
     [(MountAs ''tmpfs'' ''/live/tmpfs'', True), (FreeLoop, True), (OpenImage, True), (OpenLoop, True), (AttachImage, True),
      (MountAs ''squashfs'' ''/live/squashfs'', True), (MountAs ''overlay'' ''/live/root'', True),
      (BindTo ''/proc'' ''/live/root/proc'', False), (BindTo ''/sys'' ''/live/root/sys'', False),
      (BindTo ''/dev'' ''/live/root/dev'', False), (BindTo ''/run'' ''/live/root/run'', False),
      (BindTo ''/install'' ''/live/root/install'', False), (BindTo ''/'' ''/live/root/cdrom'', False),
      (MakePrivate, False), (EnterRoot, True), (MoveRoot, True), (Reexec, True)]"

text \<open>The calls that succeed, up to one that must and does not.\<close>

fun run_calls :: "(pivot_call \<Rightarrow> bool) \<Rightarrow> (pivot_call \<times> bool) list \<Rightarrow> pivot_call list" where
  "run_calls ok [] = []"
| "run_calls ok ((c, needed) # cs) =
     (if ok c then c # run_calls ok cs else if needed then [] else run_calls ok cs)"

text \<open>When the last call succeeds the process is another one; otherwise the boot goes on.\<close>

definition do_live_pivot :: "bool \<Rightarrow> bool \<Rightarrow> (pivot_call \<Rightarrow> bool) \<Rightarrow> pivot_call list" where
  "do_live_pivot marker squashfs ok = (if \<not> marker \<or> \<not> squashfs then [] else run_calls ok pivot_calls)"

section \<open>The saved network\<close>

text \<open>The text after the first key, to the second quote after the next colon.\<close>

definition get_val :: "string \<Rightarrow> string \<Rightarrow> string" where
  "get_val json_txt key =
     (case find_sub (QT # key @ [QT]) json_txt of
        None \<Rightarrow> []
      | Some i \<Rightarrow>
          (case dropWhile (\<lambda>c. c \<noteq> CHR '':'') (drop i json_txt) of
             [] \<Rightarrow> []
           | _ # r \<Rightarrow>
               (case dropWhile (\<lambda>c. c \<noteq> QT) r of
                  [] \<Rightarrow> []
                | _ # v \<Rightarrow> if QT \<in> set v then takeWhile (\<lambda>c. c \<noteq> QT) v else [])))"

datatype boot_net = Did net_action | OldRoute "byte list" string

text \<open>What the boot meets: the lines that the kernel's own configuration left, the table of routes, and as
  in \<^verbatim>\<open>net_env\<close> what the sockets and files give.\<close>

record boot_net_env =
  pnp_lines :: "string list option"
  ipconfig_lines :: "string list option"
  route_lines :: "string list option"
  resolv_opens :: bool
  opens_socket :: bool
  has_flags :: bool
  old_route_socket :: bool
  boot_del :: nl_env
  boot_add :: nl_env
  boot_index :: "string \<Rightarrow> u32"

definition resolv_from_pnp :: "string list option \<Rightarrow> string" where
  "resolv_from_pnp pnp =
     (case pnp of
        None \<Rightarrow> ''nameserver 8.8.8.8'' @ [NEWL]
      | Some ls \<Rightarrow> concat (map (\<lambda>l. l @ [NEWL]) (filter (\<lambda>l. starts_with ''nameserver'' l \<or> starts_with ''domain'' l) ls)))"

definition lines_of :: "string list option \<Rightarrow> string list" where
  "lines_of ls = (case ls of None \<Rightarrow> [] | Some ls \<Rightarrow> ls)"

definition trim_address :: "string \<Rightarrow> string" where
  "trim_address s =
     rev (dropWhile (\<lambda>c. c = CHR '' '' \<or> c = TAB \<or> c = CHR 0x0D \<or> c = NEWL)
       (rev (dropWhile (\<lambda>c. c = CHR '' '' \<or> c = TAB) s)))"

definition gateway_of_line :: "string \<Rightarrow> string \<Rightarrow> string" where
  "gateway_of_line gw l =
     (if contains_sub ''Gateway'' l then
        (case rfind '':'' l of
           None \<Rightarrow> gw
         | Some i \<Rightarrow> let g = trim_address (drop (i + 1) l) in if g = ''0.0.0.0'' then [] else g)
      else gw)"

definition ipconfig_gateway :: "string list \<Rightarrow> string" where
  "ipconfig_gateway ls = foldl gateway_of_line [] ls"

definition routed_name :: "string \<Rightarrow> string option" where
  "routed_name l = (case route_fields l of Some (dev, d # _) \<Rightarrow> if d \<noteq> 0 \<and> dev \<noteq> ''lo'' then Some dev else None | _ \<Rightarrow> None)"

definition routed_iface :: "string list \<Rightarrow> string" where
  "routed_iface ls = (case List.map_filter routed_name ls of [] \<Rightarrow> ''eno1'' | dev # _ \<Rightarrow> dev)"

definition dhcp_route :: "boot_net_env \<Rightarrow> string \<Rightarrow> boot_net list" where
  "dhcp_route e gw =
     (let dev = routed_iface (lines_of (route_lines e));
          del = netlink_del_default_route (boot_del e); add = netlink_add_default_route (boot_add e) (boot_index e) gw dev
      in map Did (snd del) @ map Did (snd add)
         @ (if fst add = 0 then []
            else case inet_pton4 gw of
                   None \<Rightarrow> []
                 | Some b \<Rightarrow> if old_route_socket e then [OldRoute b (take (IFNAMSIZ - 1) (c_str dev))] else []))"

definition apply_dhcp :: "boot_net_env \<Rightarrow> boot_net list" where
  "apply_dhcp e =
     (if resolv_opens e then [Did (WriteResolv (resolv_from_pnp (pnp_lines e)))] else [])
     @ (if list_ex is_default_line (lines_of (route_lines e)) then []
        else let gw = ipconfig_gateway (lines_of (ipconfig_lines e)) in if gw = [] then [] else dhcp_route e gw)"

text \<open>Both addresses lie in the same place, so a netmask that cannot be read leaves the address there.\<close>

definition octets_or :: "byte list \<Rightarrow> string \<Rightarrow> byte list" where
  "octets_or old s = (case inet_pton4 s of None \<Rightarrow> old | Some b \<Rightarrow> b)"

definition boot_static :: "boot_net_env \<Rightarrow> string \<Rightarrow> string \<Rightarrow> string \<Rightarrow> string \<Rightarrow> string \<Rightarrow> boot_net list" where
  "boot_static e dev ip netmask gw dns =
     (if ip = [] \<or> \<not> opens_socket e then []
      else let dev = (if dev = [] then ''eth0'' else dev); netmask = (if netmask = [] then ''255.255.255.0'' else netmask);
               a = octets_or [0, 0, 0, 0] ip
           in map Did
             ([SetAddress (ioctl_name dev) a, SetNetmask (ioctl_name dev) (octets_or a netmask)]
              @ (if has_flags e then [BringUp (ioctl_name dev)] else [])
              @ (if gw \<noteq> [] then snd (netlink_del_default_route (boot_del e))
                   @ snd (netlink_add_default_route (boot_add e) (boot_index e) gw dev) else [])
              @ (if dns \<noteq> [] \<and> resolv_opens e then [WriteResolv (''nameserver '' @ dns @ [NEWL])] else [])))"

definition init_apply_network_config :: "boot_net_env \<Rightarrow> string option \<Rightarrow> boot_net list" where
  "init_apply_network_config e file =
     (let json_txt = (case file of None \<Rightarrow> [] | Some c \<Rightarrow> c);
          mode = (if json_txt = [] then ''dhcp'' else get_val json_txt ''mode'')
      in if mode \<noteq> ''static'' then apply_dhcp e
         else boot_static e (get_val json_txt ''interface'') (get_val json_txt ''ip'') (get_val json_txt ''netmask'')
                (get_val json_txt ''gateway'') (get_val json_txt ''dns''))"

section \<open>Modules and services\<close>

text \<open>A module that is not there, cannot be opened or loaded gives \<open>-1\<close>; one that is already loaded is fine.\<close>

datatype load_result = Loaded | AlreadyThere | LoadFails

definition load_module_by_path :: "(string \<Rightarrow> bool) \<Rightarrow> (string \<Rightarrow> load_result) \<Rightarrow> string \<Rightarrow> string \<Rightarrow> int" where
  "load_module_by_path mod_opens try_load mod_base rel_path =
     (let p = mod_base @ ''/kernel/'' @ rel_path
      in if \<not> mod_opens p then - 1 else case try_load p of LoadFails \<Rightarrow> - 1 | _ \<Rightarrow> 0)"

definition gpu_modules :: "string list" where
  "gpu_modules = map ((@) ''drivers/gpu/drm/'')
     [''scheduler/gpu-sched.ko'', ''drm_exec.ko'', ''drm_suballoc_helper.ko'', ''ttm/ttm.ko'', ''drm_buddy.ko'', ''drm_ttm_helper.ko'',
      ''amd/amdxcp/amdxcp.ko'', ''amd/amdgpu/amdgpu.ko'', ''nouveau/nouveau.ko'', ''xe/xe.ko'', ''i915/i915.ko'']"

datatype service_action = LoadModule string | RunTool "string list" | StartDaemon string

record service_env =
  release_name :: "string option"
  base_exists :: bool
  can_open :: "string \<Rightarrow> bool"
  dep_readable :: bool
  udevd_alive :: bool
  dbus_socket :: bool

definition init_start_udevd :: "service_env \<Rightarrow> service_action list" where
  "init_start_udevd e = (if udevd_alive e then [] else [StartDaemon ''udevd''])"

definition init_load_modules :: "service_env \<Rightarrow> service_action list" where
  "init_load_modules e =
     (case release_name e of
        None \<Rightarrow> []
      | Some r \<Rightarrow>
          let mod_base = ''/lib/modules/'' @ r
          in if \<not> base_exists e then []
             else map LoadModule (filter (can_open e) (map (\<lambda>m. mod_base @ ''/kernel/'' @ m) gpu_modules))
               @ (if dep_readable e then [] else [RunTool [''depmod'', ''-a'', r]])
               @ init_start_udevd e
               @ [RunTool [''udevadm'', ''trigger'', ''--action=add'', ''--subsystem-nomatch=input''],
                  RunTool [''udevadm'', ''settle'', ''--timeout=30'']])"

definition init_start_dbus :: "service_action list" where
  "init_start_dbus = [StartDaemon ''dbus-daemon'']"

definition init_start_bluetoothd :: "service_env \<Rightarrow> service_action list" where
  "init_start_bluetoothd e = (if dbus_socket e then [StartDaemon ''bluetoothd''] else [])"

section \<open>The models\<close>

record ModelCandidate =
  mc_name :: string
  mc_filename :: string
  mc_required_mb :: int

definition MODELS :: "ModelCandidate list" where
  "MODELS =
     [\<lparr>mc_name = ''Qwen2.5-32B-Instruct'', mc_filename = ''qwen2.5-32b-instruct-q4_k_m-00001-of-00005.gguf'', mc_required_mb = 22000\<rparr>,
      \<lparr>mc_name = ''Qwen2.5-14B-Instruct'', mc_filename = ''qwen2.5-14b-instruct-q4_k_m-00001-of-00003.gguf'', mc_required_mb = 11000\<rparr>,
      \<lparr>mc_name = ''Qwen2.5-7B-Instruct'', mc_filename = ''qwen2.5-7b-instruct-q4_k_m-00001-of-00002.gguf'', mc_required_mb = 6500\<rparr>,
      \<lparr>mc_name = ''Qwen2.5-3B-Instruct'', mc_filename = ''qwen2.5-3b-instruct-q4_k_m.gguf'', mc_required_mb = 4000\<rparr>,
      \<lparr>mc_name = ''Qwen2.5-1.5B-Instruct'', mc_filename = ''qwen2.5-1.5b-instruct-q4_k_m.gguf'', mc_required_mb = 2500\<rparr>,
      \<lparr>mc_name = ''Qwen2.5-0.5B-Instruct'', mc_filename = ''qwen2.5-0.5b-instruct-q4_k_m.gguf'', mc_required_mb = 1500\<rparr>]"

definition model_file :: "ModelCandidate \<Rightarrow> string" where
  "model_file m = ''/data/models/'' @ mc_filename m"

definition select_model_main :: "string \<Rightarrow> (string \<Rightarrow> bool) \<Rightarrow> int \<Rightarrow> string" where
  "select_model_main override_path readable free_mb =
     (if override_path \<noteq> [] \<and> readable override_path then override_path
      else case find (\<lambda>m. mc_required_mb m \<le> free_mb \<and> readable (model_file m)) MODELS of
             Some m \<Rightarrow> model_file m
           | None \<Rightarrow> [])"

text \<open>The names in \<^verbatim>\<open>/data/models\<close> that are links, with what they point to; a link is not made over a name that
  is there.\<close>

type_synonym model_links = "string \<Rightarrow> string option"

definition is_gguf :: "string \<Rightarrow> bool" where "is_gguf n \<longleftrightarrow> has_suffix ''.gguf'' n"

definition add_link :: "(string \<Rightarrow> bool) \<Rightarrow> string \<Rightarrow> string \<Rightarrow> model_links \<Rightarrow> model_links" where
  "add_link on_disk dir n m = (if on_disk n \<or> m n \<noteq> None then m else m(n \<mapsto> dir @ ''/'' @ n))"

text \<open>The names in the directory, when it can be read.\<close>

definition seed_bundled_models :: "(string \<Rightarrow> bool) \<Rightarrow> string list option \<Rightarrow> model_links \<Rightarrow> model_links" where
  "seed_bundled_models on_disk names m =
     (case names of None \<Rightarrow> m | Some ns \<Rightarrow> fold (add_link on_disk ''/opt/llamaste/models'') (filter is_gguf ns) m)"

definition USB_CANDIDATES :: "string list" where
  "USB_CANDIDATES = [''/dev/sdc'', ''/dev/sdc1'', ''/dev/sdb'', ''/dev/sdb1'', ''/dev/sdd'', ''/dev/sdd1'']"

text \<open>The first model of the first directory that has one: \<open>dirs dev sub\<close> are the names in the root of the
  drive and in its directory of models.\<close>

definition usb_model :: "(string \<Rightarrow> string list option) \<Rightarrow> (string \<times> string) option" where
  "usb_model dirs =
     first_some (\<lambda>d. case dirs d of None \<Rightarrow> None | Some ns \<Rightarrow> map_option (\<lambda>n. (d, n)) (find is_gguf ns))
       [''/mnt/model-usb'', ''/mnt/model-usb/models'']"

text \<open>The drive that stays mounted, and the links.\<close>

fun scan_usb_for_model ::
  "(string \<Rightarrow> bool) \<Rightarrow> (string \<Rightarrow> bool) \<Rightarrow> (string \<Rightarrow> string \<Rightarrow> string list option) \<Rightarrow> (string \<Rightarrow> bool) \<Rightarrow> string list \<Rightarrow> model_links
     \<Rightarrow> string option \<times> model_links" where
  "scan_usb_for_model ok_dev mounts dirs on_disk [] m = (None, m)"
| "scan_usb_for_model ok_dev mounts dirs on_disk (dev # devs) m =
     (if \<not> ok_dev dev \<or> \<not> mounts dev then scan_usb_for_model ok_dev mounts dirs on_disk devs m
      else case usb_model (dirs dev) of
             None \<Rightarrow> scan_usb_for_model ok_dev mounts dirs on_disk devs m
           | Some (d, n) \<Rightarrow> (Some dev, add_link on_disk d n m))"

section \<open>The whole start\<close>

text \<open>What the start meets besides the disks: the command line, the names in the models directory of the data
  partition and of the image, the file that names a model, whether a path can be read, the drives, and
  the memory and cores.\<close>

record main_env =
  cmdline_text :: "string option"
  m_boot :: boot_env
  m_parts :: "string list"
  stored_models :: "string \<Rightarrow> bool"
  bundled_models :: "string list option"
  override_file :: "string option"
  path_readable :: "string \<Rightarrow> bool"
  usb_accessible :: "string \<Rightarrow> bool"
  usb_mounts :: "string \<Rightarrow> bool"
  usb_dirs :: "string \<Rightarrow> string \<Rightarrow> string list option"
  ram_free :: int
  ram_total :: int
  n_cores :: int

record SupervisorConfig =
  sc_model_path :: string
  sc_boot_mode :: string
  sc_http_port :: int
  sc_cpu_cores :: int
  sc_ram_total_mb :: int

text \<open>The data of the machine: whether a partition holds it, and the links in its models directory.\<close>

definition mount_for_mode :: "main_env \<Rightarrow> string \<Rightarrow> boot_state \<Rightarrow> boot_fault + (bool \<times> model_links \<times> boot_state)" where
  "mount_for_mode e mode s =
     (if mode = ''live'' then
        let s = act [MountTmpfs ''size=512M''] s
        in Inr (False, snd (scan_usb_for_model (usb_accessible e) (usb_mounts e) (usb_dirs e) (\<lambda>_. False) USB_CANDIDATES Map.empty), s)
      else case init_mount_data (m_boot e) (m_parts e) s of
             Inl f \<Rightarrow> Inl f
           | Inr (True, s) \<Rightarrow> Inr (True, Map.empty, s)
           | Inr (False, s) \<Rightarrow> Inr (False, Map.empty, act [MountTmpfs ''size=512M''] s))"

definition model_readable :: "main_env \<Rightarrow> bool \<Rightarrow> model_links \<Rightarrow> string \<Rightarrow> bool" where
  "model_readable e stored links p \<longleftrightarrow>
     (if starts_with ''/data/models/'' p
      then let n = drop 13 p in (stored \<and> stored_models e n) \<or> links n \<noteq> None
      else path_readable e p)"

definition main_start :: "main_env \<Rightarrow> boot_state \<Rightarrow> boot_fault + (SupervisorConfig \<times> boot_state)" where
  "main_start e s =
     (let mode = init_parse_boot_mode (cmdline_text e)
      in case mount_for_mode e mode s of
           Inl f \<Rightarrow> Inl f
         | Inr (stored, links, s) \<Rightarrow>
             let links = seed_bundled_models (\<lambda>n. stored \<and> stored_models e n) (bundled_models e) links;
                 available = (if mode = ''desktop'' then ram_free e - 500 else ram_free e)
             in Inr (\<lparr>sc_model_path = select_model_main (if stored then read_config_main (override_file e) else [])
                         (model_readable e stored links) available,
                      sc_boot_mode = mode, sc_http_port = 80, sc_cpu_cores = n_cores e, sc_ram_total_mb = ram_total e\<rparr>, s))"

end
