(* ===== verification/JsonText.thy ===== *)
theory JsonText
  imports Registry
begin

text \<open>
  The text of JSON values in \<^verbatim>\<open>json.hpp\<close>: the serializer with its escapes and its indentation, the lexer
  and the parser. Definitions only; the lemmas are in JsonTextFacts. The texts of floating-point
  numbers and the value of one are arguments: \<open>sd\<close> prints, and \<open>rd\<close> reads, \<open>None\<close> where the number
  is too large. Positions and messages of errors are not kept.
\<close>

section \<open>Serializer\<close>

definition QUOT :: char where "QUOT = CHR 0x22"
definition BACKSLASH :: char where "BACKSLASH = CHR 0x5C"
definition LF :: char where "LF = CHR 0x0A"

definition code :: "char \<Rightarrow> nat" where "code c = of_char c"

text \<open>The code point that the decoder has so far; the masks and shifts are written with \<open>mod\<close> and \<open>*\<close>.\<close>

definition decode_codep :: "nat \<Rightarrow> nat \<Rightarrow> nat \<Rightarrow> nat" where
  "decode_codep st codep b = (if st \<noteq> 0 then b mod 64 + codep * 64 else b mod 2 ^ (8 - utf8d ! b))"

definition hex4 :: "nat \<Rightarrow> string" where
  "hex4 n = [hex_digit (n div 4096 mod 16), hex_digit (n div 256 mod 16), hex_digit (n div 16 mod 16), hex_digit (n mod 16)]"

definition escaped :: "nat \<Rightarrow> char \<Rightarrow> string" where
  "escaped codep c =
     (if codep = 0x08 then BACKSLASH # ''b'' else if codep = 0x09 then BACKSLASH # ''t''
      else if codep = 0x0A then BACKSLASH # ''n'' else if codep = 0x0C then BACKSLASH # ''f''
      else if codep = 0x0D then BACKSLASH # ''r'' else if codep = 0x22 then [BACKSLASH, QUOT]
      else if codep = 0x5C then [BACKSLASH, BACKSLASH]
      else if codep \<le> 0x1F then BACKSLASH # CHR ''u'' # hex4 codep else [c])"

fun escape_run :: "nat \<Rightarrow> nat \<Rightarrow> string \<Rightarrow> string result" where
  "escape_run st codep [] = (if st = 0 then Inr [] else Inl (TypeError 316))"
| "escape_run st codep (c # cs) =
     (let b = code c; codep' = decode_codep st codep b; st' = utf8_decode st b
      in if st' = 1 then Inl (TypeError 316)
         else bindE (escape_run st' codep' cs) (\<lambda>r. Inr ((if st' = 0 then escaped codep' c else [c]) @ r)))"

definition dump_escaped :: "string \<Rightarrow> string result" where "dump_escaped s = escape_run 0 0 s"

definition quoted_text :: "string \<Rightarrow> string result" where
  "quoted_text s = bindE (dump_escaped s) (\<lambda>t. Inr (QUOT # t @ [QUOT]))"

text \<open>With an indentation, every element is on a line of its own.\<close>

definition line_break :: "nat option \<Rightarrow> nat \<Rightarrow> string" where
  "line_break p n = (case p of None \<Rightarrow> [] | Some _ \<Rightarrow> LF # replicate n (CHR '' ''))"

definition inner :: "nat option \<Rightarrow> nat \<Rightarrow> nat" where
  "inner p n = (case p of None \<Rightarrow> n | Some k \<Rightarrow> n + k)"

definition colon :: "nat option \<Rightarrow> string" where
  "colon p = (case p of None \<Rightarrow> '':'' | Some _ \<Rightarrow> '': '')"

definition framed_text :: "nat option \<Rightarrow> nat \<Rightarrow> char \<Rightarrow> char \<Rightarrow> string \<Rightarrow> string result" where
  "framed_text p n a b t = Inr (a # line_break p (inner p n) @ t @ line_break p n @ [b])"

definition more_text :: "nat option \<Rightarrow> nat \<Rightarrow> string \<Rightarrow> string result \<Rightarrow> string result" where
  "more_text p n t r = bindE r (\<lambda>r. Inr (t @ CHR '','' # line_break p n @ r))"

fun dump_value :: "(rat \<Rightarrow> string) \<Rightarrow> nat option \<Rightarrow> nat \<Rightarrow> json \<Rightarrow> string result"
  and dump_items :: "(rat \<Rightarrow> string) \<Rightarrow> nat option \<Rightarrow> nat \<Rightarrow> json list \<Rightarrow> string result"
  and dump_members :: "(rat \<Rightarrow> string) \<Rightarrow> nat option \<Rightarrow> nat \<Rightarrow> (string \<times> json) list \<Rightarrow> string result" where
  "dump_value sd p n JNull = Inr ''null''"
| "dump_value sd p n (JBool b) = Inr (if b then ''true'' else ''false'')"
| "dump_value sd p n (JInt i) = Inr (show_int i)"
| "dump_value sd p n (JUInt i) = Inr (show_int i)"
| "dump_value sd p n (JFloat r) = Inr (sd r)"
| "dump_value sd p n (JString s) = quoted_text s"
| "dump_value sd p n (JArray js) =
     (if js = [] then Inr ''[]'' else bindE (dump_items sd p (inner p n) js) (framed_text p n (CHR ''['') (CHR '']'')))"
| "dump_value sd p n (JObject ms) =
     (if ms = [] then Inr [CHR 0x7B, CHR 0x7D] else bindE (dump_members sd p (inner p n) ms) (framed_text p n (CHR 0x7B) (CHR 0x7D)))"
| "dump_items sd p n [] = Inr []"
| "dump_items sd p n (j # js) =
     bindE (dump_value sd p n j) (\<lambda>t. if js = [] then Inr t else more_text p n t (dump_items sd p n js))"
| "dump_members sd p n [] = Inr []"
| "dump_members sd p n ((k, v) # ms) =
     bindE (quoted_text k) (\<lambda>q. bindE (dump_value sd p n v) (\<lambda>t.
       if ms = [] then Inr (q @ colon p @ t) else more_text p n (q @ colon p @ t) (dump_members sd p n ms)))"

text \<open>\<open>dump()\<close> without an argument, and \<open>dump(k)\<close>.\<close>

definition json_dump :: "(rat \<Rightarrow> string) \<Rightarrow> nat option \<Rightarrow> json \<Rightarrow> string result" where
  "json_dump sd p j = dump_value sd p 0 j"

section \<open>Lexer: strings\<close>

definition hex_val_json :: "char \<Rightarrow> nat option" where
  "hex_val_json c =
     (let b = code c
      in if 48 \<le> b \<and> b \<le> 57 then Some (b - 48) else if 65 \<le> b \<and> b \<le> 70 then Some (b - 55)
         else if 97 \<le> b \<and> b \<le> 102 then Some (b - 87) else None)"

fun get_codepoint :: "string \<Rightarrow> (nat \<times> string) option" where
  "get_codepoint (a # b # c # d # r) =
     (case (hex_val_json a, hex_val_json b, hex_val_json c, hex_val_json d) of
        (Some a, Some b, Some c, Some d) \<Rightarrow> Some (a * 4096 + b * 256 + c * 16 + d, r)
      | _ \<Rightarrow> None)"
| "get_codepoint _ = None"

definition utf8_bytes :: "nat \<Rightarrow> string" where
  "utf8_bytes cp =
     map char_of
       (if cp < 0x80 then [cp]
        else if cp \<le> 0x7FF then [0xC0 + cp div 64, 0x80 + cp mod 64]
        else if cp \<le> 0xFFFF then [0xE0 + cp div 4096, 0x80 + cp div 64 mod 64, 0x80 + cp mod 64]
        else [0xF0 + cp div 262144, 0x80 + cp div 4096 mod 64, 0x80 + cp div 64 mod 64, 0x80 + cp mod 64])"

text \<open>A \<^verbatim>\<open>\u\<close> escape after the \<^verbatim>\<open>u\<close>: a high surrogate needs a low one behind it, a low one cannot stand
  alone.\<close>

definition scan_unicode :: "string \<Rightarrow> (string \<times> string) option" where
  "scan_unicode s =
     (case get_codepoint s of
        None \<Rightarrow> None
      | Some (cp1, r) \<Rightarrow>
          if 0xD800 \<le> cp1 \<and> cp1 \<le> 0xDBFF then
            (case r of
               a # b # r' \<Rightarrow>
                 if a = BACKSLASH \<and> b = CHR ''u'' then
                   (case get_codepoint r' of
                      None \<Rightarrow> None
                    | Some (cp2, r'') \<Rightarrow>
                        if 0xDC00 \<le> cp2 \<and> cp2 \<le> 0xDFFF then Some (utf8_bytes (cp1 * 1024 + cp2 - 0x35FDC00), r'') else None)
                 else None
             | _ \<Rightarrow> None)
          else if 0xDC00 \<le> cp1 \<and> cp1 \<le> 0xDFFF then None
          else Some (utf8_bytes cp1, r))"

definition simple_escape :: "char \<Rightarrow> char option" where
  "simple_escape c =
     (if c = QUOT \<or> c = BACKSLASH \<or> c = CHR ''/'' then Some c
      else if c = CHR ''b'' then Some (CHR 0x08) else if c = CHR ''f'' then Some (CHR 0x0C)
      else if c = CHR ''n'' then Some (CHR 0x0A) else if c = CHR ''r'' then Some (CHR 0x0D)
      else if c = CHR ''t'' then Some (CHR 0x09) else None)"

fun scan_escape :: "string \<Rightarrow> (string \<times> string) option" where
  "scan_escape [] = None"
| "scan_escape (c # cs) =
     (if c = CHR ''u'' then scan_unicode cs else map_option (\<lambda>x. ([x], cs)) (simple_escape c))"

text \<open>The ranges of the bytes that must follow a first byte of a longer character.\<close>

definition byte_ranges :: "nat \<Rightarrow> (nat \<times> nat) list option" where
  "byte_ranges b =
     (if 0xC2 \<le> b \<and> b \<le> 0xDF then Some [(0x80, 0xBF)]
      else if b = 0xE0 then Some [(0xA0, 0xBF), (0x80, 0xBF)]
      else if 0xE1 \<le> b \<and> b \<le> 0xEC \<or> b = 0xEE \<or> b = 0xEF then Some [(0x80, 0xBF), (0x80, 0xBF)]
      else if b = 0xED then Some [(0x80, 0x9F), (0x80, 0xBF)]
      else if b = 0xF0 then Some [(0x90, 0xBF), (0x80, 0xBF), (0x80, 0xBF)]
      else if 0xF1 \<le> b \<and> b \<le> 0xF3 then Some [(0x80, 0xBF), (0x80, 0xBF), (0x80, 0xBF)]
      else if b = 0xF4 then Some [(0x80, 0x8F), (0x80, 0xBF), (0x80, 0xBF)]
      else None)"

fun next_byte_in_range :: "(nat \<times> nat) list \<Rightarrow> string \<Rightarrow> (string \<times> string) option" where
  "next_byte_in_range [] s = Some ([], s)"
| "next_byte_in_range ((lo, hi) # rs) [] = None"
| "next_byte_in_range ((lo, hi) # rs) (c # cs) =
     (if lo \<le> code c \<and> code c \<le> hi then map_option (\<lambda>(t, r). (c # t, r)) (next_byte_in_range rs cs) else None)"

text \<open>One character or escape of a string, not its end.\<close>

definition scan_char :: "char \<Rightarrow> string \<Rightarrow> (string \<times> string) option" where
  "scan_char c cs =
     (if c = BACKSLASH then scan_escape cs
      else if code c < 0x20 then None
      else if code c < 0x80 then Some ([c], cs)
      else case byte_ranges (code c) of
             None \<Rightarrow> None
           | Some rs \<Rightarrow> map_option (\<lambda>(t, r). (c # t, r)) (next_byte_in_range rs cs))"

lemma next_byte_shorter: "next_byte_in_range rs s = Some (t, r) \<Longrightarrow> length r \<le> length s"
  by (induction rs s arbitrary: t rule: next_byte_in_range.induct) (fastforce split: if_splits)+

lemma get_codepoint_shorter: "get_codepoint s = Some (n, r) \<Longrightarrow> length r < length s"
  by (induction s rule: get_codepoint.induct) (auto split: option.splits)

lemma scan_escape_shorter: "scan_escape s = Some (t, r) \<Longrightarrow> length r < length s"
  by (cases s)
    (auto simp: scan_unicode_def split: if_splits option.splits prod.splits list.splits dest!: get_codepoint_shorter)

lemma scan_char_shorter: "scan_char c cs = Some (t, r) \<Longrightarrow> length r \<le> length cs"
  by (auto simp: scan_char_def split: if_splits option.splits dest: next_byte_shorter scan_escape_shorter)

text \<open>After the opening quote: the characters and what follows the closing one.\<close>

function scan_string :: "string \<Rightarrow> (string \<times> string) option" where
  "scan_string [] = None"
| "scan_string (c # cs) =
     (if c = QUOT then Some ([], cs)
      else case scan_char c cs of
             None \<Rightarrow> None
           | Some (t, r) \<Rightarrow> map_option (\<lambda>(u, r). (t @ u, r)) (scan_string r))"
  by pat_completeness auto
termination
  by (relation "measure length") (auto dest: scan_char_shorter)

declare scan_string.simps(2) [simp del]

section \<open>Lexer: numbers\<close>

text \<open>The states after the digits, each with the text it adds and the rest; whether the number is a float.\<close>

definition scan_exponent :: "string \<Rightarrow> (string \<times> string) option" where
  "scan_exponent s =
     (let sg = (case s of c # _ \<Rightarrow> if c = CHR ''+'' \<or> c = CHR ''-'' then [c] else [] | [] \<Rightarrow> []);
          s1 = drop (length sg) s; ds = takeWhile is_digit s1
      in if ds = [] then None else Some (sg @ ds, dropWhile is_digit s1))"

definition scan_e :: "string \<Rightarrow> (string \<times> string) option" where
  "scan_e s =
     (case s of
        c # r \<Rightarrow> if c = CHR ''e'' \<or> c = CHR ''E'' then map_option (\<lambda>(t, r). (c # t, r)) (scan_exponent r) else Some ([], s)
      | [] \<Rightarrow> Some ([], s))"

definition scan_tail :: "string \<Rightarrow> (string \<times> string) option" where
  "scan_tail s =
     (case s of
        c # r \<Rightarrow>
          if c = CHR ''.'' then
            (let ds = takeWhile is_digit r
             in if ds = [] then None
                else map_option (\<lambda>(t, r). (c # ds @ t, r)) (scan_e (dropWhile is_digit r)))
          else scan_e s
      | [] \<Rightarrow> Some ([], s))"

definition scan_int_part :: "string \<Rightarrow> (string \<times> string) option" where
  "scan_int_part s =
     (case s of
        c # r \<Rightarrow>
          if c = CHR ''0'' then Some ([c], r)
          else if is_digit c then Some (takeWhile is_digit s, dropWhile is_digit s) else None
      | [] \<Rightarrow> None)"

datatype token =
    TBeginArray
  | TEndArray
  | TBeginObject
  | TEndObject
  | TColon
  | TComma
  | TTrue
  | TFalse
  | TNull
  | TString string
  | TUnsigned int
  | TInteger int
  | TFloat "rat option"
  | TEndOfInput
  | TError

text \<open>An integer that does not fit becomes a float.\<close>

definition number_token :: "(string \<Rightarrow> rat option) \<Rightarrow> bool \<Rightarrow> string \<Rightarrow> string \<Rightarrow> token" where
  "number_token rd neg ds tail =
     (let v = int (digits_val 0 ds)
      in if tail \<noteq> [] then TFloat (rd ((if neg then ''-'' else []) @ ds @ tail))
         else if neg then (if - v < - (2 ^ 63) then TFloat (rd (CHR ''-'' # ds)) else TInteger (- v))
         else if v \<ge> 2 ^ 64 then TFloat (rd ds) else TUnsigned v)"

definition scan_number :: "(string \<Rightarrow> rat option) \<Rightarrow> bool \<Rightarrow> string \<Rightarrow> token \<times> string" where
  "scan_number rd neg s =
     (case scan_int_part s of
        None \<Rightarrow> (TError, s)
      | Some (ds, r) \<Rightarrow>
          (case scan_tail r of None \<Rightarrow> (TError, r) | Some (t, r) \<Rightarrow> (number_token rd neg ds t, r)))"

section \<open>Lexer: tokens\<close>

definition is_json_space :: "char \<Rightarrow> bool" where
  "is_json_space c \<longleftrightarrow> c = CHR '' '' \<or> c = CHR 0x09 \<or> c = CHR 0x0A \<or> c = CHR 0x0D"

definition scan_literal :: "string \<Rightarrow> token \<Rightarrow> string \<Rightarrow> token \<times> string" where
  "scan_literal lit t s = (if starts_with lit s then (t, drop (length lit) s) else (TError, s))"

text \<open>The token that begins with a character, which is not a blank.\<close>

definition scan_token :: "(string \<Rightarrow> rat option) \<Rightarrow> char \<Rightarrow> string \<Rightarrow> token \<times> string" where
  "scan_token rd c cs =
     (if c = CHR ''['' then (TBeginArray, cs) else if c = CHR '']'' then (TEndArray, cs)
      else if c = CHR 0x7B then (TBeginObject, cs) else if c = CHR 0x7D then (TEndObject, cs)
      else if c = CHR '':'' then (TColon, cs) else if c = CHR '','' then (TComma, cs)
      else if c = CHR ''t'' then scan_literal ''rue'' TTrue cs
      else if c = CHR ''f'' then scan_literal ''alse'' TFalse cs
      else if c = CHR ''n'' then scan_literal ''ull'' TNull cs
      else if c = QUOT then (case scan_string cs of None \<Rightarrow> (TError, cs) | Some (t, r) \<Rightarrow> (TString t, r))
      else if c = CHR ''-'' then scan_number rd True cs
      else if is_digit c then scan_number rd False (c # cs)
      else if c = CHR 0x00 then (TEndOfInput, cs)
      else (TError, cs))"

definition scan :: "(string \<Rightarrow> rat option) \<Rightarrow> string \<Rightarrow> token \<times> string" where
  "scan rd s = (case dropWhile is_json_space s of [] \<Rightarrow> (TEndOfInput, []) | c # cs \<Rightarrow> scan_token rd c cs)"

lemma scan_string_shorter: "scan_string s = Some (t, r) \<Longrightarrow> length r < length s"
proof (induction s arbitrary: t r rule: scan_string.induct)
  case (2 c cs)
  show ?case
  proof (cases "c = QUOT")
    case False
    with 2(2) obtain u r1 v where "scan_char c cs = Some (u, r1)" "scan_string r1 = Some (v, r)"
      by (auto simp: scan_string.simps(2) split: option.splits)
    with 2(1) [OF False] scan_char_shorter show ?thesis by fastforce
  qed (use 2(2) in \<open>simp add: scan_string.simps(2)\<close>)
qed simp

lemma length_dropWhile_less: "length (dropWhile P s) \<le> length s"
  by (rule length_dropWhile_le)

lemma scan_exponent_shorter: "scan_exponent s = Some (t, r) \<Longrightarrow> length r \<le> length s"
  using length_dropWhile_le [of is_digit "drop n s" for n]
  by (auto simp: scan_exponent_def Let_def split: if_splits list.splits intro: order_trans [OF length_dropWhile_le])

lemma scan_e_shorter: "scan_e s = Some (t, r) \<Longrightarrow> length r \<le> length s"
  by (cases s) (auto simp: scan_e_def split: if_splits dest: scan_exponent_shorter)

lemma scan_tail_shorter: "scan_tail s = Some (t, r) \<Longrightarrow> length r \<le> length s"
  by (cases s)
    (auto simp: scan_tail_def Let_def split: if_splits dest!: scan_e_shorter intro: order_trans [OF _ length_dropWhile_le] le_SucI)

lemma scan_number_shorter: "scan_number rd neg s = (t, r) \<Longrightarrow> t \<noteq> TError \<Longrightarrow> length r < length s"
proof -
  assume a: "scan_number rd neg s = (t, r)" "t \<noteq> TError"
  then obtain ds r1 u where i: "scan_int_part s = Some (ds, r1)" "scan_tail r1 = Some (u, r)"
    by (auto simp: scan_number_def split: option.splits)
  have "length r1 < length s"
    using i(1) by (cases s) (auto simp: scan_int_part_def length_dropWhile_le le_imp_less_Suc split: if_splits)
  with scan_tail_shorter [OF i(2)] show ?thesis by simp
qed

lemma scan_token_shorter:
  "scan_token rd c cs = (t, r) \<Longrightarrow> t \<noteq> TError \<Longrightarrow> length r < Suc (length cs)"
  by (auto simp: scan_token_def scan_literal_def split: if_splits option.splits
      dest: scan_string_shorter scan_number_shorter)

lemma scan_shorter:
  assumes "scan rd s = (t, r)" "t \<noteq> TError" "t \<noteq> TEndOfInput" shows "length r < length s"
proof -
  obtain c cs where d: "dropWhile is_json_space s = c # cs" using assms by (cases "dropWhile is_json_space s") (auto simp: scan_def)
  then have "length (c # cs) \<le> length s" by (metis length_dropWhile_le)
  with d assms scan_token_shorter [of rd c cs t r] show ?thesis by (simp add: scan_def)
qed

text \<open>The tokens that the parser gets one after the other, up to an error or the end of the input.\<close>

function tokens :: "(string \<Rightarrow> rat option) \<Rightarrow> string \<Rightarrow> token list" where
  "tokens rd s =
     (case scan rd s of
        (TEndOfInput, _) \<Rightarrow> [TEndOfInput]
      | (TError, _) \<Rightarrow> [TError]
      | (t, r) \<Rightarrow> t # tokens rd r)"
  by pat_completeness auto
termination
  by (relation "measure (\<lambda>(rd, s). length s)") (auto dest!: scan_shorter [OF sym])

declare tokens.simps [simp del]

section \<open>Parser\<close>

text \<open>An array or object that is not complete: its elements so far, for an object with the key of the
  next value.\<close>

datatype frame = InArray "json list" | InObject "(string \<times> json) list" string

text \<open>The key of a member with its colon.\<close>

definition member_key :: "token list \<Rightarrow> (string \<times> token list) option" where
  "member_key ts = (case ts of TString k # TColon # r \<Rightarrow> Some (k, r) | _ \<Rightarrow> None)"

lemma member_key_shorter: "member_key ts = Some (k, r) \<Longrightarrow> length r < length ts"
  by (auto simp: member_key_def split: list.splits token.splits)

function value_at :: "frame list \<Rightarrow> token list \<Rightarrow> json result"
  and after_value :: "frame list \<Rightarrow> json \<Rightarrow> token list \<Rightarrow> json result" where
  "value_at st [] = Inl ParseError"
| "value_at st (t # ts) =
     (case t of
        TBeginObject \<Rightarrow>
          if take 1 ts = [TEndObject] then after_value st (JObject []) (drop 1 ts)
          else (case member_key ts of None \<Rightarrow> Inl ParseError | Some (k, r) \<Rightarrow> value_at (InObject [] k # st) r)
      | TBeginArray \<Rightarrow>
          if take 1 ts = [TEndArray] then after_value st (JArray []) (drop 1 ts) else value_at (InArray [] # st) ts
      | TFloat v \<Rightarrow> (case v of None \<Rightarrow> Inl OutOfRange | Some r \<Rightarrow> after_value st (JFloat r) ts)
      | TTrue \<Rightarrow> after_value st (JBool True) ts
      | TFalse \<Rightarrow> after_value st (JBool False) ts
      | TNull \<Rightarrow> after_value st JNull ts
      | TInteger i \<Rightarrow> after_value st (JInt i) ts
      | TUnsigned i \<Rightarrow> after_value st (JUInt i) ts
      | TString s \<Rightarrow> after_value st (JString s) ts
      | _ \<Rightarrow> Inl ParseError)"
| "after_value [] v ts = (if ts = [TEndOfInput] then Inr v else Inl ParseError)"
| "after_value (f # st) v [] = Inl ParseError"
| "after_value (InArray vs # st) v (t # ts) =
     (if t = TComma then value_at (InArray (vs @ [v]) # st) ts
      else if t = TEndArray then after_value st (JArray (vs @ [v])) ts else Inl ParseError)"
| "after_value (InObject ms k # st) v (t # ts) =
     (if t = TComma
      then (case member_key ts of None \<Rightarrow> Inl ParseError | Some (k', r) \<Rightarrow> value_at (InObject (obj_insert k v ms) k' # st) r)
      else if t = TEndObject then after_value st (JObject (obj_insert k v ms)) ts else Inl ParseError)"
  by pat_completeness auto
termination
  by (relation "measure (case_sum (\<lambda>(st, ts). length ts) (\<lambda>(st, v, ts). length ts))") (auto dest: member_key_shorter)

text \<open>A byte order mark in front is skipped; the first byte of one alone is an error.\<close>

definition json_parse :: "(string \<Rightarrow> rat option) \<Rightarrow> string \<Rightarrow> json result" where
  "json_parse rd s =
     (case s of
        c # cs \<Rightarrow>
          if c = CHR 0xEF then
            (if starts_with [CHR 0xBB, CHR 0xBF] cs then value_at [] (tokens rd (drop 2 cs)) else Inl ParseError)
          else value_at [] (tokens rd s)
      | [] \<Rightarrow> value_at [] (tokens rd s))"

text \<open>The library as the argument of the definitions that use it.\<close>

definition json_library :: "(rat \<Rightarrow> string) \<Rightarrow> (string \<Rightarrow> rat option) \<Rightarrow> json_text" where
  "json_library sd rd =
     (\<lambda>j. case json_dump sd None j of Inr t \<Rightarrow> t | Inl _ \<Rightarrow> [],
      \<lambda>s. case json_parse rd s of Inr j \<Rightarrow> Some j | Inl _ \<Rightarrow> None)"

end
