(* ===== verification/JsonTextFacts.thy ===== *)
theory JsonTextFacts
  imports JsonText
begin

text \<open>
  The lemmas and properties of the text of JSON values: the serializer and the lexer agree on what a string
  is, and the parser reads back what the serializer writes.
\<close>

section \<open>The two readers of UTF-8\<close>

text \<open>The state after a first byte and the range of the byte that leads from a state to the next one.\<close>

definition first_state :: "nat \<Rightarrow> nat" where
  "first_state b =
     (if b < 0x80 then 0 else if 0xC2 \<le> b \<and> b \<le> 0xDF then 2 else if b = 0xE0 then 4
      else if 0xE1 \<le> b \<and> b \<le> 0xEC \<or> b = 0xEE \<or> b = 0xEF then 3 else if b = 0xED then 5
      else if b = 0xF0 then 6 else if 0xF1 \<le> b \<and> b \<le> 0xF3 then 7 else if b = 0xF4 then 8 else 1)"

definition low_byte :: "nat \<Rightarrow> nat" where "low_byte st = (if st = 4 then 0xA0 else if st = 6 then 0x90 else 0x80)"
definition high_byte :: "nat \<Rightarrow> nat" where "high_byte st = (if st = 5 then 0x9F else if st = 8 then 0x8F else 0xBF)"
definition next_state :: "nat \<Rightarrow> nat" where "next_state st = (if st = 2 then 0 else if st \<le> 5 then 2 else 3)"

text \<open>The classes of the bytes, from the table.\<close>

lemma nth_skip: "length xs = n \<Longrightarrow> (xs @ ys) ! (n + i) = ys ! i" by (auto simp: nth_append)

lemma below_32: "i < (32 :: nat) \<Longrightarrow> i \<in> {0, 1, 2, 3, 4, 5, 6, 7, 8, 9, 10, 11, 12, 13, 14, 15, 16, 17, 18, 19, 20, 21, 22, 23, 24, 25, 26, 27, 28, 29, 30, 31}"
  by (simp only: insert_iff empty_iff) presburger

lemma utf8d_ranges:
  "b < 128 \<Longrightarrow> utf8d ! b = 0" "i < 16 \<Longrightarrow> utf8d ! (128 + i) = 1" "i < 16 \<Longrightarrow> utf8d ! (144 + i) = 9" "i < 32 \<Longrightarrow> utf8d ! (160 + i) = 7"
  "i < 2 \<Longrightarrow> utf8d ! (192 + i) = 8" "i < 30 \<Longrightarrow> utf8d ! (194 + i) = 2"
  "i < 32 \<Longrightarrow> utf8d ! (224 + i) = ([10, 3, 3, 3, 3, 3, 3, 3, 3, 3, 3, 3, 3, 4, 3, 3, 11, 6, 6, 6, 5, 8, 8, 8, 8, 8, 8, 8, 8, 8, 8, 8] :: nat list) ! i"
proof -
  show "b < 128 \<Longrightarrow> utf8d ! b = 0" by (rule utf8d_ascii)
  show "i < 16 \<Longrightarrow> utf8d ! (128 + i) = 1" by (simp add: utf8d_def nth_append)
  show "i < 16 \<Longrightarrow> utf8d ! (144 + i) = 9" by (simp add: utf8d_def nth_append)
  show "i < 32 \<Longrightarrow> utf8d ! (160 + i) = 7" by (simp add: utf8d_def nth_append)
  show "i < 2 \<Longrightarrow> utf8d ! (192 + i) = 8" using less_2_cases [of i] by (auto simp: utf8d_def nth_append)
  show "i < 30 \<Longrightarrow> utf8d ! (194 + i) = 2" by (simp add: utf8d_def nth_append)
  show "i < 32 \<Longrightarrow> utf8d ! (224 + i) = ([10, 3, 3, 3, 3, 3, 3, 3, 3, 3, 3, 3, 3, 4, 3, 3, 11, 6, 6, 6, 5, 8, 8, 8, 8, 8, 8, 8, 8, 8, 8, 8] :: nat list) ! i"
  proof -
    assume i: "i < 32"
    have l: "length utf8d = 400" by (simp add: utf8d_def)
    have "take 32 (drop 224 utf8d) = [10, 3, 3, 3, 3, 3, 3, 3, 3, 3, 3, 3, 3, 4, 3, 3, 11, 6, 6, 6, 5, 8, 8, 8, 8, 8, 8, 8, 8, 8, 8, 8]"
      by (simp add: utf8d_def)
    moreover have "utf8d ! (224 + i) = take 32 (drop 224 utf8d) ! i" using i l by simp
    ultimately show ?thesis by simp
  qed
qed

lemma byte_cases:
  assumes "b < 256"
  obtains "b < 128" "utf8d ! b = 0" | "128 \<le> b" "b < 144" "utf8d ! b = 1" | "144 \<le> b" "b < 160" "utf8d ! b = 9"
    | "160 \<le> b" "b < 192" "utf8d ! b = 7" | "192 \<le> b" "b < 194" "utf8d ! b = 8" | "194 \<le> b" "b < 224" "utf8d ! b = 2"
    | "b = 224" "utf8d ! b = 10" | "225 \<le> b" "b < 237" "utf8d ! b = 3" | "b = 237" "utf8d ! b = 4" | "b = 238" "utf8d ! b = 3"
    | "b = 239" "utf8d ! b = 3" | "b = 240" "utf8d ! b = 11" | "241 \<le> b" "b < 244" "utf8d ! b = 6" | "b = 244" "utf8d ! b = 5"
    | "245 \<le> b" "utf8d ! b = 8"
proof -
  note r = utf8d_ranges(2-6) [of "b - 128"] utf8d_ranges(3) [of "b - 144"] utf8d_ranges(4) [of "b - 160"]
    utf8d_ranges(5) [of "b - 192"] utf8d_ranges(6) [of "b - 194"]
  consider "b < 128" | "128 \<le> b" "b < 144" | "144 \<le> b" "b < 160" | "160 \<le> b" "b < 192" | "192 \<le> b" "b < 194" | "194 \<le> b" "b < 224" | "224 \<le> b"
    by linarith
  then show thesis
  proof cases
    case 7
    define i where "i = b - 224"
    have b: "b = 224 + i" "i < 32" using 7 assms by (simp_all add: i_def)
    from below_32 [OF b(2)] utf8d_ranges(7) [OF b(2)] b(1) show thesis
      by (elim insertE emptyE) (use that in simp_all)
  qed (use that r utf8d_ascii [of b] in simp_all)
qed

lemma utf8d_rows:
  "utf8d ! 256 = 0" "utf8d ! 257 = 1" "utf8d ! 258 = 2" "utf8d ! 259 = 3" "utf8d ! 260 = 5" "utf8d ! 261 = 8"
  "utf8d ! 262 = 7" "utf8d ! 263 = 1" "utf8d ! 264 = 1" "utf8d ! 265 = 1" "utf8d ! 266 = 4" "utf8d ! 267 = 6"
  "utf8d ! 288 = 1" "utf8d ! 289 = 0" "utf8d ! 290 = 1" "utf8d ! 291 = 1" "utf8d ! 292 = 1" "utf8d ! 293 = 1"
  "utf8d ! 294 = 1" "utf8d ! 295 = 0" "utf8d ! 296 = 1" "utf8d ! 297 = 0" "utf8d ! 298 = 1" "utf8d ! 299 = 1"
  "utf8d ! 304 = 1" "utf8d ! 305 = 2" "utf8d ! 306 = 1" "utf8d ! 307 = 1" "utf8d ! 308 = 1" "utf8d ! 309 = 1"
  "utf8d ! 310 = 1" "utf8d ! 311 = 2" "utf8d ! 312 = 1" "utf8d ! 313 = 2" "utf8d ! 314 = 1" "utf8d ! 315 = 1"
  "utf8d ! 320 = 1" "utf8d ! 321 = 1" "utf8d ! 322 = 1" "utf8d ! 323 = 1" "utf8d ! 324 = 1" "utf8d ! 325 = 1"
  "utf8d ! 326 = 1" "utf8d ! 327 = 2" "utf8d ! 328 = 1" "utf8d ! 329 = 1" "utf8d ! 330 = 1" "utf8d ! 331 = 1"
  "utf8d ! 336 = 1" "utf8d ! 337 = 2" "utf8d ! 338 = 1" "utf8d ! 339 = 1" "utf8d ! 340 = 1" "utf8d ! 341 = 1"
  "utf8d ! 342 = 1" "utf8d ! 343 = 1" "utf8d ! 344 = 1" "utf8d ! 345 = 2" "utf8d ! 346 = 1" "utf8d ! 347 = 1"
  "utf8d ! 352 = 1" "utf8d ! 353 = 1" "utf8d ! 354 = 1" "utf8d ! 355 = 1" "utf8d ! 356 = 1" "utf8d ! 357 = 1"
  "utf8d ! 358 = 1" "utf8d ! 359 = 3" "utf8d ! 360 = 1" "utf8d ! 361 = 3" "utf8d ! 362 = 1" "utf8d ! 363 = 1"
  "utf8d ! 368 = 1" "utf8d ! 369 = 3" "utf8d ! 370 = 1" "utf8d ! 371 = 1" "utf8d ! 372 = 1" "utf8d ! 373 = 1"
  "utf8d ! 374 = 1" "utf8d ! 375 = 3" "utf8d ! 376 = 1" "utf8d ! 377 = 3" "utf8d ! 378 = 1" "utf8d ! 379 = 1"
  "utf8d ! 384 = 1" "utf8d ! 385 = 3" "utf8d ! 386 = 1" "utf8d ! 387 = 1" "utf8d ! 388 = 1" "utf8d ! 389 = 1"
  "utf8d ! 390 = 1" "utf8d ! 391 = 1" "utf8d ! 392 = 1" "utf8d ! 393 = 1" "utf8d ! 394 = 1" "utf8d ! 395 = 1"
  by (simp_all add: utf8d_def nth_append)

lemma code_less: "code c < 256" by (simp add: code_def)

lemma decode_first: "utf8_decode 0 (code c) = first_state (code c)"
  by (rule byte_cases [OF code_less [of c]]) (simp_all add: utf8_decode_def utf8d_rows first_state_def)

lemma decode_next:
  assumes "2 \<le> st" "st \<le> 8"
  shows "utf8_decode st (code c) = (if low_byte st \<le> code c \<and> code c \<le> high_byte st then next_state st else 1)"
proof -
  have "st \<in> {2, 3, 4, 5, 6, 7, 8}" using assms by (simp only: insert_iff empty_iff) presburger
  then show ?thesis
    by - (rule byte_cases [OF code_less [of c]];
      elim insertE emptyE; simp add: utf8_decode_def utf8d_rows low_byte_def high_byte_def next_state_def)
qed

text \<open>The ranges that the lexer demands after a first byte, by the state of the serializer there.\<close>

definition ranges_of :: "nat \<Rightarrow> (nat \<times> nat) list" where
  "ranges_of st =
     (if st = 0 then [] else if st = 2 then [(0x80, 0xBF)] else if st \<le> 5 then [(low_byte st, high_byte st), (0x80, 0xBF)]
      else [(low_byte st, high_byte st), (0x80, 0xBF), (0x80, 0xBF)])"

lemma ranges_step:
  assumes "2 \<le> st" "st \<le> 8"
  shows "ranges_of st = (low_byte st, high_byte st) # ranges_of (next_state st)" "next_state st = 0 \<or> 2 \<le> next_state st \<and> next_state st \<le> 8"
proof -
  have "st \<in> {2, 3, 4, 5, 6, 7, 8}" using assms by (simp only: insert_iff empty_iff) presburger
  then show "ranges_of st = (low_byte st, high_byte st) # ranges_of (next_state st)" "next_state st = 0 \<or> 2 \<le> next_state st \<and> next_state st \<le> 8"
    by (auto simp: ranges_of_def low_byte_def high_byte_def next_state_def)
qed

lemma byte_ranges_first:
  "128 \<le> b \<Longrightarrow> byte_ranges b = (if first_state b = 1 then None else Some (ranges_of (first_state b)))"
  by (auto simp: byte_ranges_def first_state_def ranges_of_def low_byte_def high_byte_def; presburger)

lemma first_state_range: "128 \<le> b \<Longrightarrow> first_state b \<noteq> 1 \<Longrightarrow> 2 \<le> first_state b \<and> first_state b \<le> 8"
  by (auto simp: first_state_def split: if_splits)

text \<open>No character of more than one byte has a code point below 128, so none of its bytes is escaped.\<close>

definition codep_large :: "nat \<Rightarrow> nat \<Rightarrow> bool" where
  "codep_large st codep \<longleftrightarrow> (st = 0 \<longrightarrow> 128 \<le> codep) \<and> (st = 2 \<longrightarrow> 2 \<le> codep) \<and> (st \<in> {3, 5, 7, 8} \<longrightarrow> 1 \<le> codep)"

lemma mod_near: "k * m \<le> b \<Longrightarrow> b < k * m + m \<Longrightarrow> b mod m = b - k * m" for b :: nat
proof -
  assume b: "k * m \<le> b" "b < k * m + m"
  have "b mod m = (b - k * m + k * m) mod m" using b(1) by simp
  also have "\<dots> = b - k * m" using b by (simp only: mod_mult_self1 mod_mult_self3) simp
  finally show ?thesis .
qed

lemma low_bits:
  fixes b :: nat
  shows "194 \<le> b \<Longrightarrow> b < 224 \<Longrightarrow> 2 \<le> b mod 64" "225 \<le> b \<Longrightarrow> b < 256 \<Longrightarrow> 1 \<le> b mod 32" "241 \<le> b \<Longrightarrow> b < 244 \<Longrightarrow> 1 \<le> b mod 4"
    "160 \<le> b \<Longrightarrow> b \<le> 191 \<Longrightarrow> 32 \<le> b mod 64" "144 \<le> b \<Longrightarrow> b \<le> 191 \<Longrightarrow> 16 \<le> b mod 64"
  using mod_near [of 3 64 b] mod_near [of 7 32 b] mod_near [of 60 4 b] mod_near [of 2 64 b] by simp_all

lemma codep_large_first:
  "128 \<le> code c \<Longrightarrow> first_state (code c) \<noteq> 1 \<Longrightarrow> codep_large (first_state (code c)) (decode_codep 0 n (code c))"
  using low_bits(1-3) [of "code c"]
  by - (rule byte_cases [OF code_less [of c]];
    simp add: codep_large_def decode_codep_def first_state_def split: if_splits)

lemma codep_large_next:
  assumes "2 \<le> st" "st \<le> 8" "codep_large st n" "low_byte st \<le> code c" "code c \<le> high_byte st"
  shows "codep_large (next_state st) (decode_codep st n (code c))"
proof -
  have "st \<in> {2, 3, 4, 5, 6, 7, 8}" using assms(1, 2) by (simp only: insert_iff empty_iff) presburger
  with assms(3-5) low_bits(4, 5) [of "code c"] show ?thesis
    by (elim insertE emptyE)
      (simp_all add: codep_large_def decode_codep_def next_state_def low_byte_def high_byte_def)
qed

lemma escaped_large: "128 \<le> n \<Longrightarrow> escaped n c = [c]" by (simp add: escaped_def)

lemma escape_run_zero: "escape_run 0 n s = escape_run 0 0 s"
  by (cases s) (simp_all add: decode_codep_def)

lemma escape_rest:
  "escape_run st n s = Inr t \<Longrightarrow> 2 \<le> st \<Longrightarrow> st \<le> 8 \<Longrightarrow> codep_large st n \<Longrightarrow>
     \<exists>u v w. s = u @ v \<and> u \<noteq> [] \<and> t = u @ w \<and> escape_run 0 0 v = Inr w
       \<and> (\<forall>r. next_byte_in_range (ranges_of st) (u @ r) = Some (u, r))"
proof (induction s arbitrary: st n t)
  case (Cons c cs)
  let ?st = "next_state st" and ?n = "decode_codep st n (code c)"
  have b: "low_byte st \<le> code c" "code c \<le> high_byte st"
    using Cons.prems decode_next [of st c] by (auto simp: Let_def split: if_splits)
  then have d: "utf8_decode st (code c) = ?st" using Cons.prems(2, 3) by (simp add: decode_next)
  note large = codep_large_next [OF Cons.prems(2, 3, 4) b]
  note step = ranges_step [OF Cons.prems(2, 3)]
  obtain w0 where w0: "escape_run ?st ?n cs = Inr w0" "t = c # w0"
    using Cons.prems(1) d large
    by (auto simp: Let_def bindE_Inr_iff codep_large_def escaped_large split: if_splits)
  show ?case
  proof (cases "?st = 0")
    case True
    then have "escape_run 0 0 cs = Inr w0" using w0(1) escape_run_zero by metis
    with True w0(2) b step show ?thesis
      by - (rule exI [of _ "[c]"], rule exI [of _ cs], rule exI [of _ w0], simp add: ranges_of_def)
  next
    case False
    with step(2) have "2 \<le> ?st" "?st \<le> 8" by simp_all
    from Cons.IH [OF w0(1) this large] obtain u v w where
      "cs = u @ v" "w0 = u @ w" "escape_run 0 0 v = Inr w" "\<forall>r. next_byte_in_range (ranges_of ?st) (u @ r) = Some (u, r)"
      by auto
    with w0(2) b step(1) show ?thesis
      by - (rule exI [of _ "c # u"], rule exI [of _ v], rule exI [of _ w], simp)
  qed
qed simp

section \<open>Strings\<close>

lemma code_inj: "code c = code d \<longleftrightarrow> c = d" by (simp add: code_def)

lemma code_numbers:
  "code c = 8 \<longleftrightarrow> c = CHR 0x08" "code c = 9 \<longleftrightarrow> c = CHR 0x09" "code c = 10 \<longleftrightarrow> c = CHR 0x0A" "code c = 12 \<longleftrightarrow> c = CHR 0x0C"
  "code c = 13 \<longleftrightarrow> c = CHR 0x0D" "code c = 34 \<longleftrightarrow> c = QUOT" "code c = 92 \<longleftrightarrow> c = BACKSLASH"
  using code_inj [of c "CHR 0x08"] code_inj [of c "CHR 0x09"] code_inj [of c "CHR 0x0A"] code_inj [of c "CHR 0x0C"]
    code_inj [of c "CHR 0x0D"] code_inj [of c QUOT] code_inj [of c BACKSLASH]
  by (simp_all add: code_def QUOT_def BACKSLASH_def)

lemma hex_val_digit: "d < 16 \<Longrightarrow> hex_val_json (hex_digit d) = Some d"
  by (auto simp: hex_val_json_def hex_digit_def code_def)

lemma get_codepoint_hex4: "n < 65536 \<Longrightarrow> get_codepoint (hex4 n @ r) = Some (n, r)"
proof -
  assume n: "n < 65536"
  let ?a = "n div 16" and ?b = "n div 256" and ?c = "n div 4096"
  have d: "?b = ?a div 16" "?c = ?b div 16" by (simp_all flip: div_mult2_eq)
  have m: "?c mod 16 = ?c" using n by simp
  have "n = 16 * ?a + n mod 16" "?a = 16 * ?b + ?a mod 16" "?b = 16 * ?c + ?b mod 16" unfolding d by simp_all
  then have "?c * 4096 + ?b mod 16 * 256 + ?a mod 16 * 16 + n mod 16 = n" by linarith
  moreover have "?c < 16" using n by simp
  ultimately show ?thesis using m by (simp add: hex4_def hex_val_digit)
qed

lemma scan_escaped:
  assumes "code c < 128"
  shows "\<exists>x xs. escaped (code c) c = x # xs \<and> x \<noteq> QUOT \<and> (\<forall>r. scan_char x (xs @ r) = Some ([c], r))"
proof -
  consider "code c \<in> {8, 9, 10, 12, 13, 34, 92}" | "code c \<notin> {8, 9, 10, 12, 13, 34, 92}" "code c \<le> 31"
    | "code c \<notin> {34, 92}" "32 \<le> code c" by (cases "code c \<le> 31") auto
  then show ?thesis
  proof cases
    case 1
    then show ?thesis
      by (auto simp: code_numbers) (simp_all add: escaped_def scan_char_def simple_escape_def code_def BACKSLASH_def QUOT_def)
  next
    case 2
    have "scan_unicode (hex4 (code c) @ r) = Some ([c], r)" for r
      using 2 get_codepoint_hex4 [of "code c" r] by (simp add: scan_unicode_def utf8_bytes_def) (simp add: code_def)
    with 2 show ?thesis by (auto simp: escaped_def scan_char_def BACKSLASH_def QUOT_def)
  next
    case 3
    then have "c \<noteq> QUOT" "c \<noteq> BACKSLASH" by (auto simp: code_def QUOT_def BACKSLASH_def)
    with 3 assms show ?thesis by (auto simp: escaped_def scan_char_def)
  qed
qed

lemma escape_scan: "escape_run 0 0 s = Inr t \<Longrightarrow> scan_string (t @ QUOT # r) = Some (s, r)"
proof (induction s arbitrary: t rule: length_induct)
  case (1 s)
  show ?case
  proof (cases s)
    case Nil
    with 1(2) show ?thesis by (simp add: scan_string.simps(2))
  next
    case (Cons c cs)
    let ?st = "first_state (code c)" and ?n = "decode_codep 0 0 (code c)"
    have ne: "?st \<noteq> 1" and run: "bindE (escape_run ?st ?n cs) (\<lambda>r. Inr ((if ?st = 0 then escaped ?n c else [c]) @ r)) = Inr t"
      using 1(2) Cons decode_first [of c] by (auto simp: Let_def split: if_splits)
    show ?thesis
    proof (cases "code c < 128")
      case True
      then have z: "?st = 0" "?n = code c" by (simp_all add: first_state_def decode_codep_def utf8d_ascii)
      then obtain w where w: "escape_run 0 0 cs = Inr w" "t = escaped (code c) c @ w"
        using run escape_run_zero [of ?n cs] by (auto simp: bindE_Inr_iff)
      obtain x xs where x: "escaped (code c) c = x # xs" "x \<noteq> QUOT" "\<And>r. scan_char x (xs @ r) = Some ([c], r)"
        using scan_escaped [OF True] by blast
      have "scan_string (w @ QUOT # r) = Some (cs, r)" using 1(1) Cons w(1) by auto
      with x w(2) Cons show ?thesis by (simp add: scan_string.simps(2))
    next
      case False
      then have r: "2 \<le> ?st" "?st \<le> 8" using first_state_range [of "code c"] ne by simp_all
      have large: "codep_large ?st ?n" using codep_large_first [of c] ne False by simp
      obtain w where w: "escape_run ?st ?n cs = Inr w" "t = c # w" using run r by (auto simp: bindE_Inr_iff)
      obtain u v x where u: "cs = u @ v" "w = u @ x" "escape_run 0 0 v = Inr x"
        "\<And>r. next_byte_in_range (ranges_of ?st) (u @ r) = Some (u, r)"
        using escape_rest [OF w(1) r large] by blast
      have "c \<noteq> QUOT" "c \<noteq> BACKSLASH" using False by (auto simp: code_def QUOT_def BACKSLASH_def)
      moreover have "scan_char c (u @ r) = Some (c # u, r)" for r
        using False calculation(2) u(4) ne by (simp add: scan_char_def byte_ranges_first)
      moreover have "scan_string (x @ QUOT # r) = Some (v, r)" using 1(1) Cons u(1, 3) by auto
      ultimately show ?thesis using w(2) u(1, 2) Cons by (simp add: scan_string.simps(2))
    qed
  qed
qed

lemma escape_run_ok: "(\<exists>t. escape_run st n s = Inr t) \<longleftrightarrow> utf8_run st s"
proof (induction s arbitrary: st n)
  case (Cons c cs)
  from Cons [of "utf8_decode st (code c)" "decode_codep st n (code c)"] show ?case
    by (auto simp: Let_def bindE_Inr_iff code_def)
qed simp

lemma dump_escaped_ok: "utf8_ok s \<Longrightarrow> \<exists>t. dump_escaped s = Inr t"
  by (simp add: dump_escaped_def utf8_ok_def escape_run_ok)

lemma escape_run_error: "escape_run st n s = Inl e \<Longrightarrow> e = TypeError 316"
  by (induction s arbitrary: st n) (auto simp: Let_def bindE_def split: if_splits sum.splits)

section \<open>Numbers\<close>

text \<open>What can follow a value in a text: no digit, point or exponent.\<close>

definition ends_value :: "string \<Rightarrow> bool" where
  "ends_value r \<longleftrightarrow> (case r of [] \<Rightarrow> True | c # _ \<Rightarrow> \<not> is_digit c \<and> c \<noteq> CHR ''.'' \<and> c \<noteq> CHR ''e'' \<and> c \<noteq> CHR ''E'')"

lemma digit_char_zero: "d < 10 \<Longrightarrow> digit_char d = CHR ''0'' \<longleftrightarrow> d = 0"
  using code_inj [of "digit_char d" "CHR ''0''"] by (simp add: digit_char_def code_def)

lemma show_nat_head: "0 < n \<Longrightarrow> hd (show_nat n) \<noteq> CHR ''0''"
proof (induction n rule: show_nat.induct)
  case (1 n)
  show ?case
  proof (cases "n < 10")
    case True
    then show ?thesis using 1(2) by (subst show_nat.simps) (simp add: digit_char_zero)
  next
    case False
    with 1 show ?thesis by (subst show_nat.simps) (simp add: hd_append div_greater_zero_iff)
  qed
qed

lemma show_nat_zero: "show_nat 0 = ''0''" using digit_char_zero [of 0] by (subst show_nat.simps) simp

lemma scan_int_part_show: "ends_value r \<Longrightarrow> scan_int_part (show_nat n @ r) = Some (show_nat n, r)"
proof (cases "n = 0")
  case False
  assume e: "ends_value r"
  obtain d ds where s: "show_nat n = d # ds" using show_nat_nonempty by (metis list.exhaust)
  have d: "list_all is_digit (show_nat n)" by (rule show_nat_digits)
  have w: "takeWhile is_digit (show_nat n @ r) = show_nat n" "dropWhile is_digit (show_nat n @ r) = r"
    using d e by (cases r; simp add: list_all_iff ends_value_def)+
  have "d \<noteq> CHR ''0''" using show_nat_head [of n] False s by simp
  with s d w show ?thesis by (simp add: scan_int_part_def)
qed (simp add: show_nat_zero scan_int_part_def)

lemma scan_tail_end: "ends_value r \<Longrightarrow> scan_tail r = Some ([], r)"
  by (cases r) (auto simp: scan_tail_def scan_e_def ends_value_def)

lemma scan_number_show:
  "ends_value r \<Longrightarrow> scan_number rd neg (show_nat n @ r) = (number_token rd neg (show_nat n) [], r)"
  by (simp add: scan_number_def scan_int_part_show scan_tail_end)

lemma digit_not_token:
  "is_digit c \<Longrightarrow> c \<notin> {CHR ''['', CHR '']'', CHR 0x7B, CHR 0x7D, CHR '':'', CHR '','', CHR ''t'', CHR ''f'', CHR ''n'', QUOT, CHR ''-''}
     \<and> \<not> is_json_space c"
  by (auto simp: is_digit_def QUOT_def is_json_space_def)

lemma scan_show_nat:
  assumes "ends_value r" "n < 2 ^ 64"
  shows "scan rd (show_nat n @ r) = (TUnsigned (int n), r)"
proof -
  obtain d ds where s: "show_nat n = d # ds" using show_nat_nonempty by (metis list.exhaust)
  have d: "is_digit d" using show_nat_digits [of n] s by simp
  note d = d digit_not_token [OF d, THEN conjunct1] digit_not_token [OF d, THEN conjunct2]
  have "int n < int (2 ^ 64)" using assms(2) by (simp only: of_nat_less_iff)
  then have "scan_number rd False (show_nat n @ r) = (TUnsigned (int n), r)"
    using assms(1) by (simp add: scan_number_show number_token_def)
  with s d show ?thesis by (simp add: scan_def scan_token_def)
qed

lemma scan_show_neg:
  assumes "ends_value r" "n \<le> 2 ^ 63"
  shows "scan rd (CHR ''-'' # show_nat n @ r) = (TInteger (- int n), r)"
proof -
  have "int n \<le> int (2 ^ 63)" using assms(2) by (simp only: of_nat_le_iff)
  then have "scan_number rd True (show_nat n @ r) = (TInteger (- int n), r)"
    using assms(1) by (simp add: scan_number_show number_token_def)
  then show ?thesis by (simp add: scan_def scan_token_def is_json_space_def QUOT_def)
qed

section \<open>Values that have a text\<close>

text \<open>The numbers are in the range of their types, the keys of an object in order, and the text of a float is
  read back as it.\<close>

definition float_text :: "(rat \<Rightarrow> string) \<Rightarrow> (string \<Rightarrow> rat option) \<Rightarrow> rat \<Rightarrow> bool" where
  "float_text sd rd x \<longleftrightarrow>
     sd x \<noteq> [] \<and> hd (sd x) \<noteq> CHR 0xEF \<and> (\<forall>r. ends_value r \<longrightarrow> scan rd (sd x @ r) = (TFloat (Some x), r))"

fun json_legal :: "(rat \<Rightarrow> string) \<Rightarrow> (string \<Rightarrow> rat option) \<Rightarrow> json \<Rightarrow> bool" where
  "json_legal sd rd (JInt i) \<longleftrightarrow> - (2 ^ 63) \<le> i \<and> i < 2 ^ 63"
| "json_legal sd rd (JUInt i) \<longleftrightarrow> 0 \<le> i \<and> i < 2 ^ 64"
| "json_legal sd rd (JFloat x) \<longleftrightarrow> float_text sd rd x"
| "json_legal sd rd (JArray js) \<longleftrightarrow> list_all (json_legal sd rd) js"
| "json_legal sd rd (JObject ms) \<longleftrightarrow> sorted_wrt (<) (map fst ms) \<and> list_all (\<lambda>(k, v). json_legal sd rd v) ms"
| "json_legal sd rd _ \<longleftrightarrow> True"

fun tokens_of :: "json \<Rightarrow> token list"
  and item_tokens :: "json list \<Rightarrow> token list"
  and member_tokens :: "(string \<times> json) list \<Rightarrow> token list" where
  "tokens_of JNull = [TNull]"
| "tokens_of (JBool b) = [if b then TTrue else TFalse]"
| "tokens_of (JInt i) = [if 0 \<le> i then TUnsigned i else TInteger i]"
| "tokens_of (JUInt i) = [TUnsigned i]"
| "tokens_of (JFloat x) = [TFloat (Some x)]"
| "tokens_of (JString s) = [TString s]"
| "tokens_of (JArray js) = TBeginArray # item_tokens js @ [TEndArray]"
| "tokens_of (JObject ms) = TBeginObject # member_tokens ms @ [TEndObject]"
| "item_tokens [] = []"
| "item_tokens (j # js) = tokens_of j @ (if js = [] then [] else TComma # item_tokens js)"
| "member_tokens [] = []"
| "member_tokens ((k, v) # ms) = TString k # TColon # tokens_of v @ (if ms = [] then [] else TComma # member_tokens ms)"

lemma tokens_Cons:
  "scan rd s = (t, r) \<Longrightarrow> t \<noteq> TError \<Longrightarrow> t \<noteq> TEndOfInput \<Longrightarrow> tokens rd s = t # tokens rd r"
  by (subst tokens.simps) (cases t; simp)

lemma tokens_char:
  "\<not> is_json_space c \<Longrightarrow> scan_token rd c cs = (t, r) \<Longrightarrow> t \<noteq> TError \<Longrightarrow> t \<noteq> TEndOfInput \<Longrightarrow> tokens rd (c # cs) = t # tokens rd r"
  by (rule tokens_Cons) (simp_all add: scan_def)

lemma tokens_blank: "is_json_space c \<Longrightarrow> tokens rd (c # s) = tokens rd s"
  by (subst (1 2) tokens.simps) (simp add: scan_def)

lemma tokens_blanks: "list_all is_json_space b \<Longrightarrow> tokens rd (b @ s) = tokens rd s"
  by (induction b) (simp_all add: tokens_blank)

lemma break_blank [simp]: "list_all is_json_space (line_break p n)"
  by (auto simp: line_break_def is_json_space_def LF_def list_all_iff split: option.split)

lemma tokens_break [simp]: "tokens rd (line_break p n @ s) = tokens rd s"
  by (rule tokens_blanks) simp

lemma tokens_marks [simp]:
  "tokens rd (CHR ''['' # s) = TBeginArray # tokens rd s" "tokens rd (CHR '']'' # s) = TEndArray # tokens rd s"
  "tokens rd (CHR 0x7B # s) = TBeginObject # tokens rd s" "tokens rd (CHR 0x7D # s) = TEndObject # tokens rd s"
  "tokens rd (CHR '','' # s) = TComma # tokens rd s" "tokens rd (CHR '':'' # s) = TColon # tokens rd s"
  by (rule tokens_char; simp add: is_json_space_def scan_token_def)+

lemma tokens_colon [simp]: "tokens rd (colon p @ s) = TColon # tokens rd s"
  by (simp add: colon_def tokens_blank is_json_space_def split: option.split)

lemma tokens_quoted:
  "quoted_text s = Inr t \<Longrightarrow> tokens rd (t @ r) = TString s # tokens rd r"
  by (auto simp: quoted_text_def dump_escaped_def bindE_Inr_iff escape_scan scan_token_def is_json_space_def QUOT_def [symmetric]
      intro!: tokens_char) (simp_all add: QUOT_def scan_token_def escape_scan [unfolded QUOT_def])

lemma ends_break [simp]: "ends_value (line_break p n @ CHR '']'' # r)" "ends_value (line_break p n @ CHR 0x7D # r)"
  by (simp_all add: ends_value_def line_break_def is_digit_def LF_def split: option.split)

lemma ends_comma [simp]: "ends_value (CHR '','' # r)" "ends_value []"
  by (simp_all add: ends_value_def is_digit_def)

lemma tokens_literals [simp]:
  "tokens rd (CHR ''n'' # CHR ''u'' # CHR ''l'' # CHR ''l'' # r) = TNull # tokens rd r"
  "tokens rd (CHR ''t'' # CHR ''r'' # CHR ''u'' # CHR ''e'' # r) = TTrue # tokens rd r"
  "tokens rd (CHR ''f'' # CHR ''a'' # CHR ''l'' # CHR ''s'' # CHR ''e'' # r) = TFalse # tokens rd r"
  by (rule tokens_char; simp add: is_json_space_def scan_token_def scan_literal_def starts_with_def)+

lemma tokens_int:
  assumes "ends_value r"
  shows "- (2 ^ 63) \<le> i \<Longrightarrow> i < 2 ^ 64 \<Longrightarrow> tokens rd (show_int i @ r) = (if 0 \<le> i then TUnsigned i else TInteger i) # tokens rd r"
proof -
  assume i: "- (2 ^ 63) \<le> i" "i < 2 ^ 64"
  show ?thesis
  proof (cases "0 \<le> i")
    case True
    then have "nat i < 2 ^ 64" using i(2) by simp
    from scan_show_nat [OF assms this, of rd] True show ?thesis by (simp add: show_int_def tokens_Cons)
  next
    case False
    then have "nat (- i) \<le> 2 ^ 63" using i(1) by simp
    from scan_show_neg [OF assms this, of rd] False show ?thesis by (simp add: show_int_def tokens_Cons)
  qed
qed

section \<open>The tokens of a text\<close>

lemma tokens_text:
  "dump_value sd p n j = Inr t \<Longrightarrow> json_legal sd rd j \<Longrightarrow> ends_value r \<Longrightarrow> tokens rd (t @ r) = tokens_of j @ tokens rd r"
  "dump_items sd p n js = Inr t \<Longrightarrow> list_all (json_legal sd rd) js \<Longrightarrow> js \<noteq> [] \<Longrightarrow> ends_value r \<Longrightarrow> tokens rd (t @ r) = item_tokens js @ tokens rd r"
  "dump_members sd p n ms = Inr t \<Longrightarrow> list_all (\<lambda>(k, v). json_legal sd rd v) ms \<Longrightarrow> ms \<noteq> [] \<Longrightarrow> ends_value r \<Longrightarrow>
     tokens rd (t @ r) = member_tokens ms @ tokens rd r"
proof (induction sd p n j and sd p n js and sd p n ms arbitrary: t r and t r and t r rule: dump_value_dump_items_dump_members.induct)
  case (7 sd p n js)
  then show ?case by (auto simp: bindE_Inr_iff framed_text_def split: if_splits)
next
  case (8 sd p n ms)
  then show ?case by (auto simp: bindE_Inr_iff framed_text_def split: if_splits)
next
  case (10 sd p n j js)
  then show ?case by (auto simp: bindE_Inr_iff more_text_def split: if_splits)
next
  case (12 sd p n k v ms)
  then show ?case by (auto simp: bindE_Inr_iff more_text_def tokens_quoted split: if_splits)
qed (auto simp: tokens_int tokens_quoted float_text_def tokens_Cons)

section \<open>The value of the tokens\<close>

lemma obj_insert_last: "sorted_wrt (<) (map fst acc @ [k]) \<Longrightarrow> obj_insert k v acc = acc @ [(k, v)]"
  by (induction acc) auto

lemma tokens_of_head: "\<exists>t ts. tokens_of j = t # ts \<and> t \<noteq> TEndArray"
  by (cases j) auto

lemma parse_tokens:
  "json_legal sd rd j \<Longrightarrow> value_at st (tokens_of j @ ts) = after_value st (reparse j) ts"
  "list_all (json_legal sd rd) js \<Longrightarrow> js \<noteq> [] \<Longrightarrow>
     value_at (InArray vs # st) (item_tokens js @ TEndArray # ts) = after_value st (JArray (vs @ map reparse js)) ts"
  "list_all (\<lambda>(k, v). json_legal sd rd v) ms \<Longrightarrow> ms \<noteq> [] \<Longrightarrow> sorted_wrt (<) (map fst (acc @ ms)) \<Longrightarrow>
     \<exists>k r. member_key (member_tokens ms @ TEndObject # ts) = Some (k, r)
       \<and> value_at (InObject acc k # st) r = after_value st (JObject (acc @ map (\<lambda>(k, v). (k, reparse v)) ms)) ts"
proof (induction j and js and ms arbitrary: st ts and st ts vs and st ts acc rule: tokens_of_item_tokens_member_tokens.induct)
  case (7 js)
  show ?case
  proof (cases js)
    case (Cons j js')
    obtain t r where "tokens_of j = t # r" "t \<noteq> TEndArray" using tokens_of_head by blast
    with 7(1) [of "[]" st ts] 7(2) Cons show ?thesis by simp
  qed simp
next
  case (8 ms)
  show ?case
  proof (cases ms)
    case (Cons m ms')
    obtain k v where m: "m = (k, v)" by (cases m)
    have legal: "list_all (\<lambda>(k, v). json_legal sd rd v) ms" "sorted_wrt (<) (map fst ([] @ ms))" using 8(2) by simp_all
    from 8(1) [OF legal(1) _ legal(2), of ts st] Cons obtain k' r where
      r: "member_key (member_tokens ms @ TEndObject # ts) = Some (k', r)"
      "value_at (InObject [] k' # st) r = after_value st (JObject (map (\<lambda>(k, v). (k, reparse v)) ms)) ts" by auto
    have "take 1 (member_tokens ms @ TEndObject # ts) \<noteq> [TEndObject]" using Cons m by simp
    with r show ?thesis by simp
  qed simp
next
  case (10 j js)
  show ?case
  proof (cases "js = []")
    case True
    with 10(1) [of "InArray vs # st"] 10(3) show ?thesis by simp
  next
    case False
    with 10(1) [of "InArray vs # st"] 10(2) [OF False, of "vs @ [reparse j]"] 10(3) show ?thesis by simp
  qed
next
  case (12 k v ms)
  have ins: "obj_insert k (reparse v) acc = acc @ [(k, reparse v)]"
    using 12(5) by (intro obj_insert_last) (simp add: sorted_wrt_append)
  show ?case
  proof (cases "ms = []")
    case True
    with 12(1) [of "InObject acc k # st"] 12(3) ins show ?thesis by (simp add: member_key_def)
  next
    case False
    have legal: "list_all (\<lambda>(k, v). json_legal sd rd v) ms" "sorted_wrt (<) (map fst ((acc @ [(k, reparse v)]) @ ms))"
      using 12(3, 5) by simp_all
    from 12(2) [OF False legal(1) False legal(2), of ts st] obtain k' r where
      r: "member_key (member_tokens ms @ TEndObject # ts) = Some (k', r)"
      "value_at (InObject (acc @ [(k, reparse v)]) k' # st) r
         = after_value st (JObject (acc @ (k, reparse v) # map (\<lambda>(k, v). (k, reparse v)) ms)) ts" by auto
    with 12(1) [of "InObject acc k # st"] 12(3) ins False show ?thesis by (simp add: member_key_def)
  qed
qed simp_all

lemma dump_value_ok:
  "dump_ok j \<Longrightarrow> \<exists>t. dump_value sd p n j = Inr t"
  "list_all dump_ok js \<Longrightarrow> \<exists>t. dump_items sd p n js = Inr t"
  "list_all (\<lambda>(k, v). utf8_ok k \<and> dump_ok v) ms \<Longrightarrow> \<exists>t. dump_members sd p n ms = Inr t"
proof (induction sd p n j and sd p n js and sd p n ms rule: dump_value_dump_items_dump_members.induct)
  case (6 sd p n s)
  then show ?case using dump_escaped_ok [of s] by (auto simp: quoted_text_def)
next
  case (12 sd p n k v ms)
  then show ?case using dump_escaped_ok [of k] by (cases "ms = []") (auto simp: quoted_text_def more_text_def)
next
  case (10 sd p n j js)
  then show ?case by (cases "js = []") (auto simp: more_text_def)
qed (auto simp: framed_text_def)

lemma dump_value_fails:
  "dump_value sd p n j = Inr t \<Longrightarrow> dump_ok j"
  "dump_items sd p n js = Inr t \<Longrightarrow> list_all dump_ok js"
  "dump_members sd p n ms = Inr t \<Longrightarrow> list_all (\<lambda>(k, v). utf8_ok k \<and> dump_ok v) ms"
proof (induction sd p n j and sd p n js and sd p n ms arbitrary: t and t and t rule: dump_value_dump_items_dump_members.induct)
  case (6 sd p n s)
  then show ?case using escape_run_ok [of 0 0 s] by (auto simp: quoted_text_def dump_escaped_def bindE_Inr_iff utf8_ok_def)
next
  case (12 sd p n k v ms)
  then show ?case using escape_run_ok [of 0 0 k]
    by (auto simp: quoted_text_def dump_escaped_def more_text_def bindE_Inr_iff utf8_ok_def split: if_splits)
next
  case (10 sd p n j js)
  then show ?case by (auto simp: more_text_def bindE_Inr_iff split: if_splits)
qed (auto simp: bindE_Inr_iff split: if_splits)

lemma dump_value_error:
  "dump_value sd p n j = Inl e \<Longrightarrow> e = TypeError 316"
  "dump_items sd p n js = Inl e \<Longrightarrow> e = TypeError 316"
  "dump_members sd p n ms = Inl e \<Longrightarrow> e = TypeError 316"
  by (induction sd p n j and sd p n js and sd p n ms rule: dump_value_dump_items_dump_members.induct)
    (auto simp: quoted_text_def dump_escaped_def more_text_def framed_text_def bindE_def split: if_splits sum.splits
      dest: escape_run_error)

lemma show_int_head: "\<exists>c cs. show_int i = c # cs \<and> c \<noteq> CHR 0xEF"
proof -
  have "\<exists>c cs. show_nat m = c # cs \<and> c \<noteq> CHR 0xEF" for m
    using show_nat_digits [of m] by (cases "show_nat m") (auto simp: is_digit_def)
  then show ?thesis by (simp add: show_int_def)
qed

lemma dump_value_head:
  "dump_value sd p n j = Inr t \<Longrightarrow> json_legal sd rd j \<Longrightarrow> \<exists>c cs. t = c # cs \<and> c \<noteq> CHR 0xEF"
proof (cases j)
  case (JFloat x)
  assume "dump_value sd p n j = Inr t" "json_legal sd rd j"
  with JFloat show ?thesis by (cases t) (auto simp: float_text_def)
qed (use show_int_head in \<open>auto simp: quoted_text_def framed_text_def bindE_Inr_iff QUOT_def split: if_splits\<close>)

lemma tokens_end: "tokens rd [] = [TEndOfInput]" by (subst tokens.simps) (simp add: scan_def)



definition demo_value :: json where
  "demo_value = jobj [(''b'', JArray [JInt (- 7), JUInt 12, JNull, JBool True]), (''a'', JString (''x'' @ [QUOT, CHR 0x0A] @ e_acute))]"

lemma demo_value_legal: "dump_ok demo_value" "json_legal sd rd demo_value"
proof -
  have "utf8_ok (''x'' @ [QUOT, CHR 0x0A] @ e_acute)"
    using utf8_run_e_acutes [of 1 "[]"] utf8_run_ascii [of "''x'' @ [QUOT, CHR 0x0A]" e_acute] by (simp add: utf8_ok_def QUOT_def)
  then show "dump_ok demo_value" by (simp add: demo_value_def jobj_def utf8_ok_ascii)
  show "json_legal sd rd demo_value" by (simp add: demo_value_def jobj_def)
qed


section \<open>What the lexer lets through\<close>

lemma code_of_nat: "n < 256 \<Longrightarrow> code (char_of n) = n" by (simp add: code_def)

lemma next_byte_run:
  "next_byte_in_range (ranges_of st) s = Some (t, r) \<Longrightarrow> st = 0 \<or> 2 \<le> st \<and> st \<le> 8 \<Longrightarrow> utf8_run st t"
proof (induction s arbitrary: st t)
  case Nil
  then show ?case using ranges_step(1) [of st] by (cases "st = 0") (auto simp: ranges_of_def)
next
  case (Cons c cs)
  show ?case
  proof (cases "st = 0")
    case False
    with Cons.prems(2) have st: "2 \<le> st" "st \<le> 8" by simp_all
    note step = ranges_step [OF st]
    obtain u where u: "low_byte st \<le> code c" "code c \<le> high_byte st" "t = c # u"
      "next_byte_in_range (ranges_of (next_state st)) cs = Some (u, r)"
      using Cons.prems(1) step(1) by (auto split: if_splits)
    from Cons.IH [OF u(4) step(2)] u(1-3) decode_next [OF st, of c] show ?thesis
      by (auto simp: code_def next_state_def split: if_splits)
  qed (use Cons.prems in \<open>simp add: ranges_of_def\<close>)
qed

lemma utf8_run_chain:
  "utf8_run 0 (c # cs) \<longleftrightarrow> first_state (code c) \<noteq> 1 \<and> utf8_run (first_state (code c)) cs"
  "2 \<le> st \<Longrightarrow> st \<le> 8 \<Longrightarrow> utf8_run st (c # cs) \<longleftrightarrow> low_byte st \<le> code c \<and> code c \<le> high_byte st \<and> utf8_run (next_state st) cs"
  using decode_first [of c] decode_next [of st c] by (auto simp: Let_def code_def next_state_def)

lemma utf8_bytes_ok:
  assumes "n < 0x110000" "\<not> (0xD800 \<le> n \<and> n \<le> 0xDFFF)"
  shows "utf8_ok (utf8_bytes n)"
proof -
  consider "n < 0x80" | "0x80 \<le> n" "n \<le> 0x7FF" | "0x800 \<le> n" "n \<le> 0xFFFF" | "0x10000 \<le> n" using assms by linarith
  then show ?thesis
  proof cases
    case 1
    then show ?thesis by (simp add: utf8_bytes_def utf8_ok_def utf8_run_chain code_of_nat first_state_def del: utf8_run.simps(2))
  next
    case 2
    then have d: "2 \<le> n div 64" "n div 64 \<le> 31" by simp_all
    then have "first_state (192 + n div 64) = 2" by (simp add: first_state_def)
    with 2 d show ?thesis
      by (simp add: utf8_bytes_def utf8_ok_def utf8_run_chain code_of_nat low_byte_def high_byte_def next_state_def less_imp_le del: utf8_run.simps(2))
  next
    case 3
    let ?a = "n div 4096" and ?b = "n div 64 mod 64"
    have b: "?a \<le> 15" using 3 by simp
    have e: "n div 64 = 64 * ?a + ?b" by (simp add: div_mult2_eq [of n 64 64, simplified])
    have l: "?a = 0 \<Longrightarrow> 32 \<le> ?b" using e 3 by simp
    have h: "?a = 13 \<Longrightarrow> ?b < 32"
    proof -
      assume a: "?a = 13"
      then have "n < 57344" using div_less_iff_less_mult [of 4096 n 14] by simp
      then have "n div 64 < 864" using 3 assms(2) by (simp add: div_less_iff_less_mult)
      with a e show "?b < 32" by simp
    qed
    have "?a = 0 \<and> first_state (224 + ?a) = 4 \<or> ?a = 13 \<and> first_state (224 + ?a) = 5 \<or> first_state (224 + ?a) = 3"
      using b by (auto simp: first_state_def)
    moreover have "?b < 64" "n mod 64 < 64" by simp_all
    ultimately show ?thesis using 3 b l h
      by (auto simp: utf8_bytes_def utf8_ok_def utf8_run_chain code_of_nat low_byte_def high_byte_def next_state_def simp del: utf8_run.simps(2))
  next
    case 4
    let ?a = "n div 262144" and ?b = "n div 4096 mod 64"
    have b: "?a \<le> 4" using assms(1) by simp
    have e: "n div 4096 = 64 * ?a + ?b" by (simp add: div_mult2_eq [of n 4096 64, simplified])
    have l: "?a = 0 \<Longrightarrow> 16 \<le> ?b" using e 4 by simp
    have h: "?a = 4 \<Longrightarrow> ?b < 16" using e assms(1) by simp
    have "?a = 0 \<and> first_state (240 + ?a) = 6 \<or> ?a = 4 \<and> first_state (240 + ?a) = 8 \<or> first_state (240 + ?a) = 7"
      using b by (auto simp: first_state_def)
    moreover have "?b < 64" "n div 64 mod 64 < 64" "n mod 64 < 64" by simp_all
    ultimately show ?thesis using 4 b l h
      by (auto simp: utf8_bytes_def utf8_ok_def utf8_run_chain code_of_nat low_byte_def high_byte_def next_state_def simp del: utf8_run.simps(2))
  qed
qed

lemma hex_val_small: "hex_val_json x = Some v \<Longrightarrow> v < 16" by (auto simp: hex_val_json_def Let_def split: if_splits)

lemma get_codepoint_small: "get_codepoint s = Some (n, r) \<Longrightarrow> n < 65536"
proof (induction s rule: get_codepoint.induct)
  case (1 a b c d r0)
  then obtain va vb vc vd where v: "hex_val_json a = Some va" "hex_val_json b = Some vb" "hex_val_json c = Some vc" "hex_val_json d = Some vd"
    "n = va * 4096 + vb * 256 + vc * 16 + vd" by (auto split: option.splits)
  from hex_val_small [OF v(1)] hex_val_small [OF v(2)] hex_val_small [OF v(3)] hex_val_small [OF v(4)] v(5) show ?case by linarith
qed auto

lemma scan_unicode_utf8:
  assumes "scan_unicode s = Some (t, r)" shows "utf8_ok t"
proof -
  obtain n r1 where n: "get_codepoint s = Some (n, r1)" using assms by (auto simp: scan_unicode_def split: option.splits)
  note small = get_codepoint_small [OF n]
  show ?thesis
  proof (cases "0xD800 \<le> n \<and> n \<le> 0xDBFF")
    case True
    then obtain m r2 r3 where m: "get_codepoint r2 = Some (m, r3)" "0xDC00 \<le> m" "m \<le> 0xDFFF" "t = utf8_bytes (n * 1024 + m - 0x35FDC00)"
      using assms n by (auto simp: scan_unicode_def split: list.splits if_splits option.splits)
    have "utf8_ok (utf8_bytes (n * 1024 + m - 0x35FDC00))"
      using True m(2, 3) by (intro utf8_bytes_ok) auto
    with m(4) show ?thesis by simp
  next
    case False
    with assms n have "t = utf8_bytes n" "\<not> (0xDC00 \<le> n \<and> n \<le> 0xDFFF)" by (auto simp: scan_unicode_def split: if_splits)
    with False small show ?thesis by (auto intro!: utf8_bytes_ok)
  qed
qed

lemma simple_escape_ascii: "simple_escape x = Some y \<Longrightarrow> code y < 128"
  by (auto simp: simple_escape_def code_def QUOT_def BACKSLASH_def split: if_split_asm)

lemma scan_char_utf8: "scan_char c s = Some (t, r) \<Longrightarrow> utf8_ok t"
proof -
  assume a: "scan_char c s = Some (t, r)"
  consider "c = BACKSLASH" | "c \<noteq> BACKSLASH" "code c < 128" | "c \<noteq> BACKSLASH" "128 \<le> code c" by linarith
  then show ?thesis
  proof cases
    case 1
    with a have "scan_escape s = Some (t, r)" by (simp add: scan_char_def)
    then consider "\<exists>x y. t = [y] \<and> simple_escape x = Some y" | "\<exists>cs. scan_unicode cs = Some (t, r)"
      by (cases s) (auto split: if_splits)
    then show ?thesis
    proof cases
      case 1
      then obtain x y where y: "t = [y]" "simple_escape x = Some y" by blast
      from simple_escape_ascii [OF y(2)] y(1) show ?thesis by (simp add: code_def utf8_ok_ascii)
    next
      case 2
      then show ?thesis
        by (auto dest: scan_unicode_utf8)
    qed
  next
    case 2
    with a show ?thesis by (auto simp: scan_char_def code_def split: if_splits intro!: utf8_ok_ascii)
  next
    case 3
    with a have ne: "first_state (code c) \<noteq> 1" by (auto simp: scan_char_def byte_ranges_first split: if_splits)
    with a 3 obtain u where u: "t = c # u" "next_byte_in_range (ranges_of (first_state (code c))) s = Some (u, r)"
      by (auto simp: scan_char_def byte_ranges_first)
    have "utf8_run (first_state (code c)) u"
      using next_byte_run [OF u(2)] first_state_range [OF 3(2) ne] by simp
    with u(1) ne show ?thesis by (simp add: utf8_ok_def utf8_run_chain del: utf8_run.simps(2))
  qed
qed

lemma scan_string_utf8: "scan_string s = Some (u, r) \<Longrightarrow> utf8_ok u"
proof (induction s arbitrary: u rule: scan_string.induct)
  case (2 c cs)
  show ?case
  proof (cases "c = QUOT")
    case True
    with 2(2) show ?thesis by (simp add: scan_string.simps(2) utf8_ok_def)
  next
    case False
    with 2(2) obtain t r1 v where "scan_char c cs = Some (t, r1)" "scan_string r1 = Some (v, r)" "u = t @ v"
      by (auto simp: scan_string.simps(2) split: option.splits)
    with 2(1) [OF False] scan_char_utf8 show ?thesis by (auto intro: utf8_ok_append)
  qed
qed simp

text \<open>Characters that stand for themselves.\<close>

definition bare_text :: "string \<Rightarrow> bool" where
  "bare_text s \<longleftrightarrow> list_all (\<lambda>c. 0x20 \<le> code c \<and> c \<noteq> QUOT \<and> c \<noteq> BACKSLASH) s"

lemma escaped_plain: "0x20 \<le> code c \<Longrightarrow> c \<noteq> QUOT \<Longrightarrow> c \<noteq> BACKSLASH \<Longrightarrow> escaped (code c) c = [c]"
  by (auto simp: escaped_def code_numbers(6, 7))

lemma escape_plain: "escape_run 0 0 s = Inr t \<Longrightarrow> bare_text s \<Longrightarrow> t = s"
proof (induction s arbitrary: t rule: length_induct)
  case (1 s)
  show ?case
  proof (cases s)
    case (Cons c cs)
    let ?st = "first_state (code c)" and ?n = "decode_codep 0 0 (code c)"
    have p: "0x20 \<le> code c" "c \<noteq> QUOT" "c \<noteq> BACKSLASH" "bare_text cs" using 1(3) Cons by (simp_all add: bare_text_def)
    have ne: "?st \<noteq> 1" and run: "bindE (escape_run ?st ?n cs) (\<lambda>r. Inr ((if ?st = 0 then escaped ?n c else [c]) @ r)) = Inr t"
      using 1(2) Cons decode_first [of c] by (auto simp: Let_def split: if_splits)
    show ?thesis
    proof (cases "code c < 128")
      case True
      then have z: "?st = 0" "?n = code c" by (simp_all add: first_state_def decode_codep_def utf8d_ascii)
      then obtain w where w: "escape_run 0 0 cs = Inr w" "t = escaped (code c) c @ w"
        using run escape_run_zero [of ?n cs] by (auto simp: bindE_Inr_iff)
      have "w = cs" using 1(1) Cons w(1) p(4) by auto
      with w(2) Cons escaped_plain [OF p(1-3)] show ?thesis by simp
    next
      case False
      then have r: "2 \<le> ?st" "?st \<le> 8" using first_state_range [of "code c"] ne by simp_all
      have large: "codep_large ?st ?n" using codep_large_first [of c] ne False by simp
      obtain w where w: "escape_run ?st ?n cs = Inr w" "t = c # w" using run r by (auto simp: bindE_Inr_iff)
      obtain u v x where u: "cs = u @ v" "w = u @ x" "escape_run 0 0 v = Inr x"
        using escape_rest [OF w(1) r large] by blast
      have "x = v" using 1(1) Cons u(1, 3) p(4) by (auto simp: bare_text_def)
      with w(2) u(1, 2) Cons show ?thesis by simp
    qed
  qed (use 1(2) in simp)
qed

text \<open>
  C0: on text without quotes, backslashes and control characters the lexer, which compares the bytes with a
  table of ranges, accepts exactly what the automaton of the serializer accepts, and gives it back unchanged.
\<close>

theorem lexer_agrees_with_serializer:
  assumes "bare_text s"
  shows "scan_string (s @ [QUOT]) = Some (s, []) \<longleftrightarrow> dump_escaped s = Inr s"
proof
  assume "scan_string (s @ [QUOT]) = Some (s, [])"
  then have "utf8_run 0 s" using scan_string_utf8 utf8_ok_def by blast
  then obtain t where t: "escape_run 0 0 s = Inr t" using escape_run_ok by blast
  with escape_plain [OF t assms] show "dump_escaped s = Inr s" by (simp add: dump_escaped_def)
next
  assume "dump_escaped s = Inr s"
  then show "scan_string (s @ [QUOT]) = Some (s, [])" using escape_scan [of s s "[]"] by (simp add: dump_escaped_def)
qed

theorem lexer_agrees_with_serializer_witness:
  "scan_string ((''x'' @ e_acute) @ [QUOT]) = Some (''x'' @ e_acute, []) \<longleftrightarrow> dump_escaped (''x'' @ e_acute) = Inr (''x'' @ e_acute)"
  by (rule lexer_agrees_with_serializer)
    (simp add: bare_text_def e_acute_def QUOT_def BACKSLASH_def code_def)

section \<open>What the parser gives\<close>

fun token_utf8 :: "token \<Rightarrow> bool" where
  "token_utf8 (TString s) \<longleftrightarrow> utf8_ok s"
| "token_utf8 _ \<longleftrightarrow> True"

fun frame_utf8 :: "frame \<Rightarrow> bool" where
  "frame_utf8 (InArray vs) \<longleftrightarrow> list_all dump_ok vs"
| "frame_utf8 (InObject ms k) \<longleftrightarrow> dump_ok (JObject ms) \<and> utf8_ok k"

lemma scan_utf8: "scan rd s = (t, r) \<Longrightarrow> token_utf8 t"
  by (auto simp: scan_def scan_token_def scan_literal_def scan_number_def number_token_def Let_def
      split: list.splits if_splits option.splits dest: scan_string_utf8)

lemma tokens_utf8: "list_all token_utf8 (tokens rd s)"
proof (induction rd s rule: tokens.induct)
  case (1 rd s)
  obtain t r where t: "scan rd s = (t, r)" by (cases "scan rd s")
  with 1 scan_utf8 [OF t] show ?case by (subst tokens.simps) (cases t; simp)
qed

lemma member_key_utf8: "member_key ts = Some (k, r) \<Longrightarrow> list_all token_utf8 ts \<Longrightarrow> utf8_ok k \<and> list_all token_utf8 r"
  by (auto simp: member_key_def split: list.splits token.splits)

lemma value_at_utf8:
  "value_at st ts = Inr j \<Longrightarrow> list_all token_utf8 ts \<Longrightarrow> list_all frame_utf8 st \<Longrightarrow> dump_ok j"
  "after_value st v ts = Inr j \<Longrightarrow> list_all token_utf8 ts \<Longrightarrow> list_all frame_utf8 st \<Longrightarrow> dump_ok v \<Longrightarrow> dump_ok j"
proof (induction st ts and st v ts rule: value_at_after_value.induct)
  case (2 st t ts)
  then show ?case
    by (cases t) (auto split: if_splits option.splits dest: member_key_utf8 simp: list_all_iff dest!: in_set_dropD)
next
  case (6 ms k st v t ts)
  have ins: "dump_ok (JObject (obj_insert k v ms))" using 6(5, 6) by (simp add: dump_ok_obj_insert)
  show ?case
  proof (cases "t = TComma")
    case True
    with 6(3) obtain k' r where k: "member_key ts = Some (k', r)" "value_at (InObject (obj_insert k v ms) k' # st) r = Inr j"
      by (auto split: option.splits)
    with member_key_utf8 [OF k(1)] 6(1) [OF True k(1) refl k(2)] 6(4, 5) ins show ?thesis by simp
  next
    case False
    with 6(2) [OF False] 6(3-5) ins show ?thesis by (simp split: if_splits)
  qed
qed (auto split: if_splits)

text \<open>
  C0: every value that the parser makes of a text can be serialized again: all its strings and keys are
  UTF-8, those from escapes too.
\<close>

theorem parsed_values_are_utf8:
  assumes "json_parse rd s = Inr j" shows "dump_ok j"
  using assms value_at_utf8(1) [of "[]" _ j] tokens_utf8
  by (auto simp: json_parse_def split: list.splits if_splits)

theorem parsed_values_are_utf8_witness:
  "\<exists>t. json_parse (\<lambda>_. None) t = Inr (reparse demo_value) \<and> dump_ok (reparse demo_value)"
proof -
  obtain t where "json_dump (\<lambda>_. []) None demo_value = Inr t" "json_parse (\<lambda>_. None) t = Inr (reparse demo_value)"
    using tokens_text(1) [of "\<lambda>_. []" None 0 demo_value _ "\<lambda>_. None" "[]"] dump_value_ok(1) [OF demo_value_legal(1), of "\<lambda>_. []" None 0]
      dump_value_head [of "\<lambda>_. []" None 0 demo_value _ "\<lambda>_. None"] demo_value_legal parse_tokens(1) [of "\<lambda>_. []" "\<lambda>_. None" demo_value "[]" "[TEndOfInput]"]
      tokens_end
    by (auto simp: json_dump_def json_parse_def)
  with parsed_values_are_utf8 show ?thesis by blast
qed

lemma dump_plain: "utf8_ok s \<Longrightarrow> bare_text s \<Longrightarrow> quoted_text s = Inr (QUOT # s @ [QUOT])"
  using dump_escaped_ok [of s] escape_plain [of s] by (auto simp: quoted_text_def dump_escaped_def)

end
