(* ===== verification/StartupFacts.thy ===== *)
theory StartupFacts
  imports Startup JsonTextFacts NetToolsFacts
begin

text \<open>
  The lemmas and properties of the start: the saved network as it comes back at the next boot, the model that
  is selected, the pivot, and what the data directory is.
\<close>

section \<open>The saved network\<close>

lemma quote_same [simp]: "QUOT = QT" by (simp add: QUOT_def QT_def)

definition member :: "string \<Rightarrow> string \<Rightarrow> string" where
  "member k v = QT # k @ QT # '': '' @ QT # v @ [QT]"

lemma upto_quote [simp]: "QT \<notin> set v \<Longrightarrow> takeWhile (\<lambda>c. c \<noteq> QT) (v @ QT # s) = v"
  by (induction v) auto

lemma find_sub_other: "QT \<notin> set v \<Longrightarrow> find_sub (QT # w) (v @ s) = map_option ((+) (length v)) (find_sub (QT # w) s)"
  by (cases "find_sub (QT # w) s"; induction v) (auto simp: starts_with_def)

lemma get_val_skip:
  "find_sub (QT # key @ [QT]) (p @ s) = map_option ((+) (length p)) (find_sub (QT # key @ [QT]) s) \<Longrightarrow> get_val (p @ s) key = get_val s key"
  by (auto simp: get_val_def split: option.splits)

lemma get_val_free: "QT \<notin> set v \<Longrightarrow> get_val (v @ s) key = get_val s key"
  by (rule get_val_skip) (rule find_sub_other)

text \<open>A quoted text that is not the key is passed over, up to its closing quote.\<close>

lemma quoted_other:
  assumes "QT \<notin> set k" "QT \<notin> set v" "k \<noteq> v"
  shows "\<not> starts_with (QT # k @ [QT]) (QT # v @ QT # s)"
proof
  assume "starts_with (QT # k @ [QT]) (QT # v @ QT # s)"
  then obtain r where r: "k @ QT # r = v @ QT # s" by (auto simp: starts_with_iff)
  have "k = v" using upto_quote [OF assms(1), of r] upto_quote [OF assms(2), of s] by (simp only: r)
  with assms(3) show False ..
qed

lemma find_sub_Cons: "\<not> starts_with p (c # s) \<Longrightarrow> find_sub p ([c] @ s) = map_option ((+) (length [c])) (find_sub p s)"
  by (cases "find_sub p s") simp_all

lemma get_val_step: "\<not> starts_with (QT # key @ [QT]) (c # s) \<Longrightarrow> get_val (c # s) key = get_val s key"
  using get_val_skip [of key "[c]" s] find_sub_Cons [of "QT # key @ [QT]" c s] by simp

lemma get_val_string:
  assumes "QT \<notin> set key" "QT \<notin> set v" "key \<noteq> v"
  shows "get_val (QT # v @ QT # s) key = get_val (QT # s) key"
  using get_val_step [OF quoted_other [OF assms]] get_val_free [OF assms(2)] by simp

lemma get_val_close:
  "key \<noteq> [] \<Longrightarrow> s = [] \<or> hd s \<noteq> hd key \<Longrightarrow> get_val (QT # s) key = get_val s key"
  by (rule get_val_step) (cases key; cases s; auto simp: starts_with_def)

lemma get_val_hit:
  assumes "CHR '':'' \<notin> set key" "QT \<notin> set v"
  shows "get_val (member key v @ s) key = v"
proof -
  have "find_sub (QT # key @ [QT]) (member key v @ s) = Some 0"
    by (simp add: member_def starts_with_iff)
  moreover have "dropWhile (\<lambda>c. c \<noteq> CHR '':'') (member key v @ s) = '': '' @ QT # v @ QT # s"
  proof -
    have "dropWhile (\<lambda>c. c \<noteq> CHR '':'') ((QT # key @ [QT]) @ ('': '' @ QT # v @ QT # s)) = '': '' @ QT # v @ QT # s"
      using assms(1) by (subst dropWhile_append2) (auto simp: QT_def)
    then show ?thesis by (simp add: member_def)
  qed
  ultimately show ?thesis using assms(2) by (simp add: get_val_def) (simp add: QT_def)
qed

text \<open>What a key must be so that the search does not take a part of the layout for it.\<close>

definition sought :: "string \<Rightarrow> bool" where
  "sought key \<longleftrightarrow> key \<noteq> [] \<and> QT \<notin> set key \<and> CHR '':'' \<notin> set key \<and> hd key \<noteq> CHR '','' \<and> hd key \<noteq> NEWL"

lemma get_val_member:
  assumes "sought key" "QT \<notin> set k" "key \<noteq> k" "QT \<notin> set v" "key \<noteq> v" "s = [] \<or> hd s = CHR '','' \<or> hd s = NEWL"
  shows "get_val (member k v @ s) key = get_val s key"
proof -
  have q: "QT \<notin> set key" "key \<noteq> []" "hd key \<noteq> CHR '':''" "s = [] \<or> hd s \<noteq> hd key"
    using assms(1, 6) by (auto simp: sought_def) (metis list.set_sel(1))+
  have "get_val (QT # k @ QT # ('': '' @ QT # v @ QT # s)) key = get_val (QT # ('': '' @ QT # v @ QT # s)) key"
    by (rule get_val_string [OF q(1) assms(2, 3)])
  also have "\<dots> = get_val ('': '' @ QT # v @ QT # s) key"
    by (rule get_val_close [OF q(2)]) (use q(3) in auto)
  also have "\<dots> = get_val (QT # v @ QT # s) key" by (rule get_val_free) (simp add: QT_def)
  also have "\<dots> = get_val (QT # s) key" by (rule get_val_string [OF q(1) assms(4, 5)])
  also have "\<dots> = get_val s key" by (rule get_val_close [OF q(2, 4)])
  finally show ?thesis by (simp add: member_def)
qed

text \<open>The members of an object as the serializer lays them out, after the brace or the comma \<open>c\<close>.\<close>

fun laid_out :: "char \<Rightarrow> (string \<times> string) list \<Rightarrow> string" where
  "laid_out c [] = [NEWL, CHR 0x7D]"
| "laid_out c ((k, v) # ms) = (c # NEWL # ''  '') @ member k v @ laid_out (CHR '','') ms"

lemma laid_out_start: "hd (laid_out (CHR '','') ms) = CHR '','' \<or> hd (laid_out (CHR '','') ms) = NEWL"
  by (cases ms) (auto split: prod.splits)

lemma get_val_laid_out:
  assumes "sought key" "c \<noteq> QT" "list_all (\<lambda>(k, v). QT \<notin> set k \<and> QT \<notin> set v \<and> key \<noteq> v) ms" "map_of ms key = Some v"
  shows "get_val (laid_out c ms) key = v"
  using assms(2-)
proof (induction ms arbitrary: c)
  case (Cons m ms)
  obtain k w where m: "m = (k, w)" by (cases m)
  have f: "get_val (laid_out c (m # ms)) key = get_val (member k w @ laid_out (CHR '','') ms) key"
    using get_val_free [of "c # NEWL # ''  ''"] Cons.prems(1) by (simp add: m QT_def NEWL_def)
  show ?case
  proof (cases "k = key")
    case True
    then show ?thesis using f Cons.prems assms(1) get_val_hit [of key w "laid_out (CHR '','') ms"]
      by (simp add: m sought_def)
  next
    case False
    have "get_val (member k w @ laid_out (CHR '','') ms) key = get_val (laid_out (CHR '','') ms) key"
      by (rule get_val_member) (use assms(1) False Cons.prems(2) m laid_out_start in auto)
    moreover have "get_val (laid_out (CHR '','') ms) key = v"
      by (rule Cons.IH) (use Cons.prems False m in \<open>simp_all add: QT_def\<close>)
    ultimately show ?thesis using f by simp
  qed
qed simp

text \<open>The file as the tool writes it.\<close>

definition network_members :: "string \<Rightarrow> string \<Rightarrow> string \<Rightarrow> string \<Rightarrow> string \<Rightarrow> (string \<times> string) list" where
  "network_members ip m g d i =
     [(''dns'', d), (''gateway'', g), (''interface'', i), (''ip'', ip), (''mode'', ''static''), (''netmask'', m)]"

definition KEYS :: "string list" where "KEYS = [''dns'', ''gateway'', ''interface'', ''ip'', ''mode'', ''netmask'']"

text \<open>The values that can be read back: valid UTF-8 with no quote, backslash or control character, and none of the keys.\<close>

definition saved_value :: "string \<Rightarrow> bool" where
  "saved_value v \<longleftrightarrow> utf8_ok v \<and> bare_text v \<and> v \<notin> set KEYS"

lemma quoted_key: "k \<in> {''dns'', ''gateway'', ''interface'', ''ip'', ''mode'', ''netmask'', ''static''} \<Longrightarrow> quoted_text k = Inr (QT # k @ [QT])"
  using dump_plain [OF utf8_ok_ascii [of k]] by (auto simp: bare_text_def code_def QUOT_def QT_def BACKSLASH_def)

lemma static_config_text:
  assumes "list_all saved_value [ip, m, g, d, i]"
  shows "json_dump sd (Some 2) (static_config ip m g d i) = Inr (laid_out (CHR 0x7B) (network_members ip m g d i))"
proof -
  have v: "quoted_text v = Inr (QT # v @ [QT])" if "v \<in> {ip, m, g, d, i}" for v
    using that assms dump_plain [of v] by (auto simp: saved_value_def)
  have o: "static_config ip m g d i = JObject [(''dns'', JString d), (''gateway'', JString g), (''interface'', JString i), (''ip'', JString ip),
      (''mode'', JString ''static''), (''netmask'', JString m)]"
    by (simp add: static_config_def jobj_def)
  show ?thesis
    by (simp add: o json_dump_def quoted_key v more_text_def framed_text_def inner_def colon_def line_break_def LF_def NEWL_def
        network_members_def member_def numeral_2_eq_2)
qed

lemma plain_free: "bare_text v \<Longrightarrow> QT \<notin> set v"
  by (auto simp: bare_text_def list_all_iff QUOT_def QT_def)

lemma saved_network_read:
  assumes "list_all saved_value [ip, m, g, d, i]" "key \<in> set KEYS"
  shows "get_val (laid_out (CHR 0x7B) (network_members ip m g d i)) key = the (map_of (network_members ip m g d i) key)"
proof -
  have s: "sought key" using assms(2) by (auto simp: KEYS_def sought_def QT_def NEWL_def)
  have k: "QT \<notin> set k" if "k \<in> {''dns'', ''gateway'', ''interface'', ''ip'', ''mode'', ''netmask'', ''static''}" for k
    using that by (auto simp: QT_def)
  have v: "QT \<notin> set v \<and> key \<noteq> v" if "v \<in> {ip, m, g, d, i, ''static''}" for v
    using that assms plain_free by (auto simp: saved_value_def KEYS_def QT_def)
  have "list_all (\<lambda>(k, v). QT \<notin> set k \<and> QT \<notin> set v \<and> key \<noteq> v) (network_members ip m g d i)"
    using k v by (simp add: network_members_def del: list.set(2))
  moreover obtain w where "map_of (network_members ip m g d i) key = Some w"
    using assms(2) by (auto simp: KEYS_def network_members_def)
  ultimately show ?thesis using s by (auto intro: get_val_laid_out simp: QT_def)
qed

text \<open>
  C0: a static network that the tool saved comes back at the next boot as it was set: the text that the
  serializer writes into the file is read by the searcher of PID 1, which knows nothing of JSON, as the
  same interface, address, netmask, gateway and name server, and what is done at boot is exactly what the
  tool did when it was saved, on the same sockets. The values hold no quote, backslash or control
  character and none of them is the name of a key: an interface named after a key is where the two readings differ.
\<close>

theorem saved_network_is_applied:
  assumes "list_all saved_value [ip, m, g, d, i]" "ip \<noteq> []" "i \<noteq> []" "inet_pton4 ip \<noteq> None" "inet_pton4 m \<noteq> None"
    and "opens_socket b" "ne_socket e" "ne_flags e = has_flags b" "ne_resolv e = resolv_opens b"
    and "ne_del e = boot_del b" "ne_add e = boot_add b" "ne_index e = boot_index b"
  shows "\<exists>t. json_dump sd (Some 2) (static_config ip m g d i) = Inr t
    \<and> init_apply_network_config b (Some t) = map Did (apply_static e i ip m g d)"
proof -
  obtain t where t: "t = laid_out (CHR 0x7B) (network_members ip m g d i)" by blast
  have r: "get_val t key = the (map_of (network_members ip m g d i) key)" if "key \<in> set KEYS" for key
    using saved_network_read [OF assms(1) that] unfolding t .
  have k: "get_val t ''mode'' = ''static''" "get_val t ''ip'' = ip" "get_val t ''netmask'' = m" "get_val t ''gateway'' = g"
    "get_val t ''dns'' = d" "get_val t ''interface'' = i"
    by (simp_all add: r KEYS_def network_members_def)
  have "t \<noteq> []" "m \<noteq> []" using assms(5) by (auto simp: inet_pton4_def c_str_def t network_members_def)
  then have "init_apply_network_config b (Some t) = map Did (apply_static e i ip m g d)"
    using assms(2-) by (auto simp: init_apply_network_config_def k boot_static_def apply_static_def octets_or_def octets_of_def)
  with static_config_text [OF assms(1)] show ?thesis unfolding t by blast
qed

definition demo_boot_net :: boot_net_env where
  "demo_boot_net = \<lparr>pnp_lines = None, ipconfig_lines = None, route_lines = None, resolv_opens = True, opens_socket = True,
     has_flags = True, old_route_socket = False, boot_del = sample_nl, boot_add = sample_nl, boot_index = (\<lambda>_. 2)\<rparr>"

definition demo_tool_net :: net_env where
  "demo_tool_net = \<lparr>can_save = True, ne_socket = True, ne_flags = True, ne_resolv = True, ne_del = sample_nl, ne_add = sample_nl,
     ne_index = (\<lambda>_. 2), is_ipv6 = (\<lambda>_. False)\<rparr>"

lemma demo_value_saved: "v \<in> {''10.0.0.2'', ''255.255.255.0'', ''10.0.0.1'', ''8.8.8.8'', ''eth0''} \<Longrightarrow> saved_value v"
  by (auto simp: saved_value_def KEYS_def bare_text_def code_def QUOT_def QT_def BACKSLASH_def utf8_ok_ascii)

theorem saved_network_is_applied_witness:
  "\<exists>t. json_dump (\<lambda>_. []) (Some 2) (static_config ''10.0.0.2'' ''255.255.255.0'' ''10.0.0.1'' ''8.8.8.8'' ''eth0'') = Inr t
    \<and> init_apply_network_config demo_boot_net (Some t)
      = map Did (apply_static demo_tool_net ''eth0'' ''10.0.0.2'' ''255.255.255.0'' ''10.0.0.1'' ''8.8.8.8'')"
  by (rule saved_network_is_applied)
    (simp_all add: demo_value_saved demo_boot_net_def demo_tool_net_def some_addresses)

section \<open>The model\<close>

lemma find_first_is_greatest:
  "sorted_wrt (\<lambda>x y. f y \<le> (f x :: int)) xs \<Longrightarrow> find P xs = Some x \<Longrightarrow> x \<in> set xs \<and> P x \<and> (\<forall>y \<in> set xs. P y \<longrightarrow> f y \<le> f x)"
  by (induction xs) (auto split: if_splits)

text \<open>
  C0: with no model named by hand, the start takes the largest of the models that fit into the free memory
  and whose first file can be read, and none exactly when there is no such model.
\<close>

theorem selected_model_is_largest:
  "if list_ex (\<lambda>m. mc_required_mb m \<le> free_mb \<and> readable (model_file m)) MODELS
   then list_ex (\<lambda>m. select_model_main [] readable free_mb = model_file m \<and> mc_required_mb m \<le> free_mb \<and> readable (model_file m)
          \<and> list_all (\<lambda>n. \<not> (mc_required_mb n \<le> free_mb \<and> readable (model_file n) \<and> mc_required_mb m < mc_required_mb n)) MODELS) MODELS
   else select_model_main [] readable free_mb = []"
proof -
  let ?P = "\<lambda>m. mc_required_mb m \<le> free_mb \<and> readable (model_file m)"
  have s: "sorted_wrt (\<lambda>x y. mc_required_mb y \<le> mc_required_mb x) MODELS" by (simp add: MODELS_def)
  show ?thesis
  proof (cases "find ?P MODELS")
    case None
    then have "\<not> list_ex ?P MODELS" unfolding find_None_iff list_ex_iff by blast
    then show ?thesis using None by (simp only: if_False) (simp add: select_model_main_def)
  next
    case (Some m)
    have g: "m \<in> set MODELS \<and> ?P m \<and> (\<forall>n \<in> set MODELS. ?P n \<longrightarrow> mc_required_mb n \<le> mc_required_mb m)"
      by (rule find_first_is_greatest [OF s Some])
    have e: "select_model_main [] readable free_mb = model_file m" using Some by (simp add: select_model_main_def)
    have "list_all (\<lambda>n. \<not> (?P n \<and> mc_required_mb m < mc_required_mb n)) MODELS"
      unfolding list_all_iff using g by (meson not_le)
    moreover have "list_ex ?P MODELS" unfolding list_ex_iff using g by blast
    ultimately show ?thesis using g e unfolding list_ex_iff by auto
  qed
qed

section \<open>The pivot and the data directory\<close>

text \<open>The other process starts exactly when every call that must succeed does.\<close>

lemma last_call_needs_all:
  "distinct (map fst cs) \<Longrightarrow> c \<notin> fst ` set cs
     \<Longrightarrow> c \<in> set (run_calls ok (cs @ [(c, True)])) \<longleftrightarrow> list_all ok (map fst (filter snd (cs @ [(c, True)])))"
  by (induction cs) (auto split: if_splits)

lemma live_system_is_whole:
  "Reexec \<in> set (do_live_pivot marker squashfs ok)
     \<longleftrightarrow> marker \<and> squashfs \<and> list_all ok (map fst (filter snd pivot_calls))"
proof -
  obtain cs where cs: "pivot_calls = cs @ [(Reexec, True)]" "distinct (map fst cs)" "Reexec \<notin> fst ` set cs"
    using append_butlast_last_id [of pivot_calls] that [of "butlast pivot_calls"] by (simp add: pivot_calls_def)
  show ?thesis using last_call_needs_all [OF cs(2, 3), of ok] by (cases marker; cases squashfs) (simp_all add: do_live_pivot_def cs(1))
qed

lemma no_partitions: "is_there e = (\<lambda>_. False) \<Longrightarrow> try_partitions e x ps s = Inr (False, s)"
  by (induction ps) (simp_all add: try_mount_data_partition_def)

text \<open>
  C0: with no disk that can be mounted, PID 1 mounts a volatile data directory of a gigabyte and the start
  mounts a second one of half the size over it: what the data directory then holds is the smaller one.
\<close>

theorem volatile_data_is_mounted_twice:
  "map_option (done_at_boot \<circ> snd) (case main_start (e\<lparr>cmdline_text := None, m_boot := (m_boot e)\<lparr>is_there := \<lambda>_. False\<rparr>\<rparr>) s of Inl _ \<Rightarrow> None | Inr r \<Rightarrow> Some r)
   = Some (done_at_boot s @ [MountTmpfs ''size=1G'', MountTmpfs ''size=512M''])"
  by (simp add: main_start_def init_parse_boot_mode_def mount_for_mode_def init_mount_data_def no_partitions act_def)

end
