(* ===== verification/JsonInt.thy ===== *)
theory JsonInt
  imports JsonText
begin

text \<open>
  The printing of integers in \<^verbatim>\<open>json.hpp\<close>: the number of digits counted four at a time, the pairs of digits
  written from the end of a buffer, and the sign taken off without leaving the 64 bits; with the proof that the
  text is the decimal one.
\<close>

definition digits_to_99 :: "(char \<times> char) list" where
  "digits_to_99 = map (\<lambda>n. (digit_char (n div 10), digit_char (n mod 10))) [0..<100]"

text \<open>The absolute value as an unsigned number: \<open>x + 1\<close> is not negated at the least value.\<close>

definition remove_sign :: "int \<Rightarrow> u64" where
  "remove_sign x = of_int (- (x + 1)) + 1"

lemma div_less: "10000 \<le> x \<Longrightarrow> unat (x div 10000 :: u64) < unat x"
  by (simp add: unat_div word_le_nat_alt)

lemma div_100_less: "100 \<le> x \<Longrightarrow> unat (x div 100 :: u64) < unat x"
  by (simp add: unat_div word_le_nat_alt)

function count_digits :: "nat \<Rightarrow> u64 \<Rightarrow> nat" where
  "count_digits n x =
     (if x < 10 then n else if x < 100 then n + 1 else if x < 1000 then n + 2 else if x < 10000 then n + 3
      else count_digits (n + 4) (x div 10000))"
  by pat_completeness auto
termination
  by (relation "measure (\<lambda>(n, x). unat x)") (auto simp: not_less intro: div_less)

declare count_digits.simps [simp del]

text \<open>The digits, from the position \<open>p\<close> to the front.\<close>

definition put_pair :: "nat \<Rightarrow> u64 \<Rightarrow> string \<Rightarrow> string" where
  "put_pair p v buf = buf[p - 1 := snd (digits_to_99 ! unat v), p - 2 := fst (digits_to_99 ! unat v)]"

function put_digits :: "u64 \<Rightarrow> nat \<Rightarrow> string \<Rightarrow> string" where
  "put_digits v p buf =
     (if v \<ge> 100 then put_digits (v div 100) (p - 2) (put_pair p (v mod 100) buf)
      else if v \<ge> 10 then put_pair p v buf
      else buf[p - 1 := digit_char (unat v)])"
  by pat_completeness auto
termination
  by (relation "measure (\<lambda>(v, p, buf). unat v)") (auto intro: div_100_less)

declare put_digits.simps [simp del]

text \<open>The text of a number from \<open>- 2^63\<close> to \<open>2^64 - 1\<close>, written into the buffer.\<close>

definition dump_integer :: "string \<Rightarrow> int \<Rightarrow> string" where
  "dump_integer buf x =
     (if x = 0 then ''0''
      else let neg = x < 0; v = (if neg then remove_sign x else of_int x);
               n = (if neg then 1 + count_digits 1 v else count_digits 1 v)
           in take n (put_digits v n (if neg then buf[0 := CHR ''-''] else buf)))"

section \<open>The digits of a number\<close>

lemma show_nat_Suc: "10 \<le> n \<Longrightarrow> show_nat n = show_nat (n div 10) @ [digit_char (n mod 10)]"
  by (subst show_nat.simps) simp

lemma show_nat_100: "100 \<le> n \<Longrightarrow> show_nat n = show_nat (n div 100) @ [digit_char (n div 10 mod 10), digit_char (n mod 10)]"
  using show_nat_Suc [of n] show_nat_Suc [of "n div 10"] by (simp flip: div_mult2_eq)

lemma length_show_nat_10000: "10000 \<le> n \<Longrightarrow> length (show_nat n) = length (show_nat (n div 10000)) + 4"
  using show_nat_100 [of n] show_nat_100 [of "n div 100"] by (simp flip: div_mult2_eq)

lemma length_show_nat_small: "n < 10 \<Longrightarrow> length (show_nat n) = 1" "10 \<le> n \<Longrightarrow> n < 100 \<Longrightarrow> length (show_nat n) = 2"
  "100 \<le> n \<Longrightarrow> n < 1000 \<Longrightarrow> length (show_nat n) = 3" "1000 \<le> n \<Longrightarrow> n < 10000 \<Longrightarrow> length (show_nat n) = 4"
proof -
  have one: "length (show_nat n) = 1" if "n < 10" for n using that by (simp add: show_nat.simps)
  have two: "length (show_nat n) = 2" if "10 \<le> n" "n < 100" for n
    using show_nat_Suc [OF that(1)] one [of "n div 10"] that by (simp add: div_less_iff_less_mult)
  show "n < 10 \<Longrightarrow> length (show_nat n) = 1" "10 \<le> n \<Longrightarrow> n < 100 \<Longrightarrow> length (show_nat n) = 2"
    by (simp_all add: one two)
  show "100 \<le> n \<Longrightarrow> n < 1000 \<Longrightarrow> length (show_nat n) = 3"
    using show_nat_100 [of n] one [of "n div 100"] by (simp add: div_less_iff_less_mult)
  show "1000 \<le> n \<Longrightarrow> n < 10000 \<Longrightarrow> length (show_nat n) = 4"
    using show_nat_100 [of n] two [of "n div 100"] by (simp add: div_less_iff_less_mult less_eq_div_iff_mult_less_eq)
qed

lemma count_digits_length: "count_digits n x + 1 = n + length (show_nat (unat x))"
proof (induction n x rule: count_digits.induct)
  case (1 n x)
  consider "unat x < 10" | "10 \<le> unat x \<and> unat x < 100" | "100 \<le> unat x \<and> unat x < 1000" | "1000 \<le> unat x \<and> unat x < 10000" | "10000 \<le> unat x"
    by linarith
  then show ?case
  proof cases
    case 5
    then have "count_digits (n + 4) (x div 10000) + 1 = n + 4 + length (show_nat (unat (x div 10000)))"
      by (intro 1) (simp_all add: word_less_nat_alt)
    with 5 length_show_nat_10000 [OF 5] show ?thesis
      by (subst count_digits.simps) (simp add: word_less_nat_alt unat_div)
  qed (subst count_digits.simps; simp add: word_less_nat_alt length_show_nat_small)+
qed

lemma put_pair_text:
  assumes "unat v < 100" "2 \<le> p" "p \<le> length buf"
  shows "put_pair p v buf = take (p - 2) buf @ [digit_char (unat v div 10), digit_char (unat v mod 10)] @ drop p buf"
proof -
  obtain q where q: "p = q + 2" using assms(2) by (metis add.commute le_Suc_ex)
  have "Suc (Suc 0) \<le> length (drop q buf)" using assms(3) q by simp
  then obtain a b r where d: "drop q buf = a # b # r" unfolding Suc_le_length_iff by blast
  have buf: "buf = take q buf @ a # b # r" using d by (metis append_take_drop_id)
  have l: "length (take q buf) = q" using assms(3) q by simp
  have "digits_to_99 ! unat v = (digit_char (unat v div 10), digit_char (unat v mod 10))"
    using assms(1) by (simp add: digits_to_99_def)
  then have "put_pair p v (take q buf @ a # b # r) = take q buf @ digit_char (unat v div 10) # digit_char (unat v mod 10) # r"
    using l by (simp add: put_pair_def q list_update_append)
  moreover have "drop p buf = r" using d q by (metis drop_drop add.commute drop_Cons_numeral drop0 drop_Suc_Cons numeral_2_eq_2)
  ultimately show ?thesis using buf q by simp
qed

lemma mod_100: "(n :: nat) mod 100 div 10 = n div 10 mod 10" "n mod 100 mod 10 = n mod 10"
  using mod_mult2_eq [of n 10 10] by simp_all

lemma put_digits_text:
  assumes "length (show_nat (unat v)) \<le> p" "p \<le> length buf"
  shows "put_digits v p buf = take (p - length (show_nat (unat v))) buf @ show_nat (unat v) @ drop p buf"
  using assms
proof (induction v p buf rule: put_digits.induct)
  case (1 v p buf)
  consider "unat v < 10" | "10 \<le> unat v \<and> unat v < 100" | "100 \<le> unat v" by linarith
  then show ?case
  proof cases
    case 1
    then have "show_nat (unat v) = [digit_char (unat v)]" by (simp add: show_nat.simps)
    with 1 \<open>length _ \<le> p\<close> \<open>p \<le> length buf\<close> show ?thesis
      by (subst put_digits.simps) (simp add: word_le_nat_alt upd_conv_take_nth_drop)
  next
    case 2
    then have "show_nat (unat v) = [digit_char (unat v div 10), digit_char (unat v mod 10)]"
      using show_nat_Suc [of "unat v"] by (simp add: show_nat.simps [of "unat v div 10"] div_less_iff_less_mult)
    with 2 \<open>length _ \<le> p\<close> \<open>p \<le> length buf\<close> show ?thesis
      by (subst put_digits.simps) (simp add: word_le_nat_alt put_pair_text, simp add: numeral_2_eq_2)
  next
    case 3
    let ?n = "unat v"
    have s: "show_nat ?n = show_nat (?n div 100) @ [digit_char (?n div 10 mod 10), digit_char (?n mod 10)]"
      by (rule show_nat_100 [OF 3])
    have m: "?n mod 100 div 10 = ?n div 10 mod 10" "?n mod 100 mod 10 = ?n mod 10"
      by (rule mod_100)+
    have p: "2 \<le> p" using \<open>length _ \<le> p\<close> s by simp
    have b: "put_pair p (v mod 100) buf = take (p - 2) buf @ [digit_char (?n div 10 mod 10), digit_char (?n mod 10)] @ drop p buf"
      using put_pair_text [of "v mod 100" p buf] p \<open>p \<le> length buf\<close> m by (simp add: unat_mod)
    have "put_digits (v div 100) (p - 2) (put_pair p (v mod 100) buf)
        = take (p - 2 - length (show_nat (?n div 100))) (put_pair p (v mod 100) buf) @ show_nat (?n div 100) @ drop (p - 2) (put_pair p (v mod 100) buf)"
      using 1 3 s p by (simp add: word_le_nat_alt unat_div put_pair_def)
    then show ?thesis using 3 s p \<open>p \<le> length buf\<close> by (subst put_digits.simps) (simp add: word_le_nat_alt b)
  qed
qed

lemma u64_of_int: "0 \<le> x \<Longrightarrow> x < 2 ^ 64 \<Longrightarrow> unat (of_int x :: u64) = nat x"
  by (simp add: unsigned_of_int take_bit_int_eq_self)

lemma remove_sign_value: "x < 0 \<Longrightarrow> - (2 ^ 63) \<le> x \<Longrightarrow> unat (remove_sign x) = nat (- x)"
proof -
  assume "x < 0" "- (2 ^ 63) \<le> x"
  moreover have "of_int (- x) = remove_sign x" by (simp add: remove_sign_def)
  ultimately show ?thesis using u64_of_int [of "- x"] by (simp del: of_int_minus)
qed

lemma show_nat_digits_bound: "n < 2 ^ 64 \<Longrightarrow> length (show_nat n) \<le> 20"
proof -
  have step: "length (show_nat n) \<le> k + 4" if "length (show_nat (n div 10000)) \<le> k" "1 \<le> k" for n k
    using that length_show_nat_10000 [of n] length_show_nat_small [of n] by (cases "n < 10"; cases "n < 100"; cases "n < 1000"; cases "n < 10000") auto
  have small: "length (show_nat n) \<le> 4" if "n < 10000" for n
    using that length_show_nat_small [of n] by (cases "n < 10"; cases "n < 100"; cases "n < 1000") auto
  assume n: "n < 2 ^ 64"
  have "length (show_nat (n div 10000 div 10000 div 10000 div 10000)) \<le> 4"
    by (rule small) (use n in \<open>simp add: div_less_iff_less_mult\<close>)
  then show ?thesis
    using step [of "n div 10000 div 10000 div 10000" 4] step [of "n div 10000 div 10000" 8] step [of "n div 10000" 12] step [of n 16] by simp
qed

text \<open>
  C24: the routine that prints integers in pairs of digits from the end of its buffer gives the decimal
  text, with the sign, of every signed and of every unsigned number of 64 bits, the least one included,
  whatever the buffer held; and what it writes leaves room for the terminator that it reserves.
\<close>

theorem integers_print_in_decimal:
  assumes "length buf = 64"
  shows "dump_integer buf (sint (w :: u64)) = show_int (sint w) \<and> dump_integer buf (uint w) = show_int (uint w)
    \<and> length (dump_integer buf (sint w)) < 63 \<and> length (dump_integer buf (uint w)) < 63"
proof -
  have nonneg: "dump_integer buf x = show_int x \<and> length (show_int x) < 63" if "0 \<le> x" "x < 2 ^ 64" for x
  proof (cases "x = 0")
    case True then show ?thesis by (simp add: dump_integer_def show_int_def show_nat.simps digit_char_def char_of_def bit_0)
  next
    case False
    have u: "unat (of_int x :: u64) = nat x" by (rule u64_of_int [OF that])
    have l: "length (show_nat (nat x)) \<le> 20" by (rule show_nat_digits_bound) (use that in \<open>simp add: nat_less_iff\<close>)
    have c: "count_digits 1 (of_int x) = length (show_nat (nat x))" using count_digits_length [of 1 "of_int x"] u by simp
    show ?thesis using False that l c u put_digits_text [of "of_int x" "length (show_nat (nat x))" buf] assms
      by (simp add: dump_integer_def show_int_def)
  qed
  have neg: "dump_integer buf x = show_int x \<and> length (show_int x) < 63" if "x < 0" "- (2 ^ 63) \<le> x" for x
  proof -
    have u: "unat (remove_sign x) = nat (- x)" by (rule remove_sign_value [OF that])
    have l: "length (show_nat (nat (- x))) \<le> 20" by (rule show_nat_digits_bound) (use that in \<open>simp add: nat_less_iff\<close>)
    have c: "count_digits 1 (remove_sign x) = length (show_nat (nat (- x)))" using count_digits_length [of 1 "remove_sign x"] u by simp
    obtain b bs where b: "buf = b # bs" using assms by (cases buf) auto
    show ?thesis using that l c u put_digits_text [of "remove_sign x" "1 + length (show_nat (nat (- x)))" "buf[0 := CHR ''-'']"] assms
      by (simp add: dump_integer_def show_int_def b)
  qed
  have s: "sint w < 2 ^ 64" "- (2 ^ 63) \<le> sint w" using sint_lt [of w] sint_ge [of w] by simp_all
  have u: "0 \<le> uint w" "uint w < 2 ^ 64" using uint_lt2p [of w] by simp_all
  show ?thesis using nonneg [OF u] nonneg [OF _ s(1)] neg [OF _ s(2)] by (cases "sint w < 0") (simp_all add: not_less)
qed

theorem integers_print_in_decimal_witness:
  "dump_integer (replicate 64 (CHR ''x'')) (sint (0x8000000000000000 :: u64)) = show_int (sint (0x8000000000000000 :: u64))"
  using integers_print_in_decimal [of "replicate 64 (CHR ''x'')" "0x8000000000000000"] by simp

end
