(* ===== verification/Spec2Isabelle.thy ===== *)
theory Spec2Isabelle
  imports LlPrelude JsonValue Http Calendar Cron Scheduler SchedulerFacts SchedulerAlerts Bcrypt Auth
    AuthFacts Updater UpdaterFacts Registry Mcp McpFacts Cluster Agent AgentFacts Inference
    InferenceFacts FsTools FsToolsFacts Mdns MdnsFacts Discovery DiscoveryFacts Wifi WifiFacts Supervisor SupervisorFacts Installer InstallerFacts ModelDownload ModelDownloadFacts
    NetTools NetToolsFacts HwDetect Engine EngineFacts NetStart NetStartFacts DataDisk DataDiskFacts
    Startup StartupFacts JsonText JsonTextFacts JsonInt
begin

text \<open>Llamaste.\<close>

end
